(* ===== verification/Prelude.thy ===== *)
theory Prelude
  imports Main "HOL-Library.List_Lexorder" "HOL-Library.Char_ord" "HOL-Library.Sublist"
begin

text \<open>
  Shared vocabulary of the development.

  \<^item> Go values: \<open>time.Time\<close> and \<open>time.Duration\<close> are integers counting nanoseconds; the zero time
    (year 1, \<open>IsZero\<close>) is \<open>0\<close>; 64-bit signed wrap-around is written out by \<open>wrap64\<close>.
  \<^item> Failures of the environment: every call into a driver (a database statement, a random source, a
    network send) takes its outcome from an argument \<open>io\<close>; \<open>io n\<close> says that the n-th such call of the
    operation reports an error.
  \<^item> The parts of package \<open>strings\<close> the program uses, on byte strings.
  \<^item> Generic lemmas on lists and filters that the components share.
\<close>

named_theorems store_simps \<open>unfolding rules of the store operations\<close>
named_theorems wf_intros \<open>preservation of the database invariant\<close>

subsection \<open>Time, durations, failures\<close>

type_synonym time = int
type_synonym duration = int
type_synonym io = "nat \<Rightarrow> bool"

definition wrap64 :: "int \<Rightarrow> int" where
  "wrap64 i = (i + 2 ^ 63) mod 2 ^ 64 - 2 ^ 63"

definition is_zero :: "time \<Rightarrow> bool" where
  "is_zero t \<longleftrightarrow> t = 0"

definition second :: duration where "second = 1000000000"
definition minute :: duration where "minute = 60 * second"
definition hour :: duration where "hour = 60 * minute"

lemma wrap64_id: "- (2 ^ 63) \<le> i \<Longrightarrow> i < 2 ^ 63 \<Longrightarrow> wrap64 i = i"
  by (simp add: wrap64_def)

lemma wrap64_range: "- (2 ^ 63) \<le> wrap64 i" "wrap64 i < 2 ^ 63"
  by (simp_all add: wrap64_def)

text \<open>No call of the operation fails.\<close>

definition no_faults :: io where
  "no_faults n = False"

lemma no_faults_simp [simp]: "no_faults n = False"
  by (simp add: no_faults_def)

subsection \<open>Package \<open>strings\<close>, on bytes\<close>

definition is_space :: "char \<Rightarrow> bool" where
  "is_space c \<longleftrightarrow> of_char c \<in> {9, 10, 11, 12, 13, 32 :: nat}"

definition TrimSpace :: "string \<Rightarrow> string" where
  "TrimSpace s = rev (dropWhile is_space (rev (dropWhile is_space s)))"

definition lower_char :: "char \<Rightarrow> char" where
  "lower_char c = (if 65 \<le> (of_char c :: nat) \<and> of_char c \<le> (90 :: nat) then char_of (of_char c + 32 :: nat) else c)"

definition ToLower :: "string \<Rightarrow> string" where
  "ToLower s = map lower_char s"

definition EqualFold :: "string \<Rightarrow> string \<Rightarrow> bool" where
  "EqualFold a b \<longleftrightarrow> ToLower a = ToLower b"

definition HasPrefix :: "string \<Rightarrow> string \<Rightarrow> bool" where
  "HasPrefix s p \<longleftrightarrow> take (length p) s = p"

definition TrimRight :: "char \<Rightarrow> string \<Rightarrow> string" where
  "TrimRight c s = rev (dropWhile (\<lambda>x. x = c) (rev s))"

fun Split :: "char \<Rightarrow> string \<Rightarrow> string list" where
  "Split d [] = [[]]"
| "Split d (c # s) =
     (if c = d then [] # Split d s
      else case Split d s of [] \<Rightarrow> [[c]] | w # ws \<Rightarrow> (c # w) # ws)"

fun Join :: "string \<Rightarrow> string list \<Rightarrow> string" where
  "Join sep [] = []"
| "Join sep [w] = w"
| "Join sep (w # v # ws) = w @ sep @ Join sep (v # ws)"

fun digit :: "nat \<Rightarrow> char" where
  "digit n = char_of (48 + n)"

fun Itoa :: "nat \<Rightarrow> string" where
  "Itoa n = (if n < 10 then [digit n] else Itoa (n div 10) @ [digit (n mod 10)])"

declare Itoa.simps [simp del]

lemma Itoa_not_Nil [simp]: "Itoa n \<noteq> []"
  by (subst Itoa.simps) simp

lemma HasPrefix_iff: "HasPrefix s p \<longleftrightarrow> prefix p s"
  by (metis HasPrefix_def append_eq_conv_conj prefix_def)

lemma Split_not_Nil [simp]: "Split d s \<noteq> []"
  by (induction s) (auto split: list.splits)

lemma Split_no_sep: "w \<in> set (Split d s) \<Longrightarrow> d \<notin> set w"
  by (induction s arbitrary: w) (auto split: list.splits if_splits)

lemma TrimSpace_Nil [simp]: "TrimSpace [] = []"
  by (simp add: TrimSpace_def)

lemma dropWhile_idem_rev:
  "dropWhile P (rev (dropWhile P (rev (dropWhile P xs)))) = rev (dropWhile P (rev (dropWhile P xs)))"
proof (cases "dropWhile P xs")
  case Nil
  then show ?thesis by (simp only: rev.simps dropWhile.simps)
next
  case (Cons y ys)
  then have "\<not> P y" by (metis dropWhile_eq_Cons_conv)
  then have "dropWhile P (rev (y # ys)) = dropWhile P (rev ys) @ [y]"
    by (simp add: dropWhile_append dropWhile_eq_Nil_conv)
  with Cons \<open>\<not> P y\<close> show ?thesis by simp
qed

lemma TrimSpace_idem [simp]: "TrimSpace (TrimSpace s) = TrimSpace s"
  using dropWhile_idem_rev [of is_space s] by (simp add: TrimSpace_def)

subsection \<open>Lists and filters\<close>

lemma filter_all_id: "(\<And>x. x \<in> set xs \<Longrightarrow> P x) \<Longrightarrow> filter P xs = xs"
  by (simp add: filter_id_conv)

lemma distinct_map_filter_inj: "distinct (map f xs) \<Longrightarrow> distinct (map f (filter P xs))"
  by (rule distinct_map_filter)

lemma map_if_same_key: "(\<And>x. x \<in> set xs \<Longrightarrow> f (g x) = f x) \<Longrightarrow> map f (map g xs) = map f xs"
  by simp

lemma distinct_key_unique:
  "distinct (map f xs) \<Longrightarrow> x \<in> set xs \<Longrightarrow> y \<in> set xs \<Longrightarrow> f x = f y \<Longrightarrow> x = y"
  by (meson distinct_map inj_onD)

lemma filter_Cons_mem: "filter P xs = y # ys \<Longrightarrow> y \<in> set xs \<and> P y"
  by (metis filter_eq_Cons_iff in_set_conv_decomp)

lemma find_Some_mem: "find P xs = Some x \<Longrightarrow> x \<in> set xs \<and> P x"
  by (metis find_Some_iff nth_mem)

lemma filter_key_find:
  "distinct (map f xs) \<Longrightarrow>
     filter (\<lambda>x. f x = k \<and> P x) xs = (case find (\<lambda>x. f x = k) xs of None \<Rightarrow> [] | Some x \<Rightarrow> if P x then [x] else [])"
proof (induction xs)
  case (Cons y ys)
  show ?case
  proof (cases "f y = k")
    case True
    then have "\<forall>x \<in> set ys. f x \<noteq> k" using Cons.prems by (auto simp: image_iff)
    then have "filter (\<lambda>x. f x = k \<and> P x) ys = []" by (simp add: filter_empty_conv)
    with True show ?thesis by simp
  next
    case False
    with Cons show ?thesis by simp
  qed
qed simp

lemma length_filter_partition:
  "length (filter P xs) + length (filter (\<lambda>x. \<not> P x) xs) = length xs"
  by (induction xs) auto


subsection \<open>Claims\<close>

text \<open>What a claim promises the callers that race for it: a win is held afterwards, a held claim stays held, and it is not won again. A
  client learns from that alone that at most one of any sequence of attempts wins.\<close>

fun run_attempts :: "('c \<Rightarrow> 's \<Rightarrow> bool \<times> 's) \<Rightarrow> 'c list \<Rightarrow> 's \<Rightarrow> bool list \<times> 's" where
  "run_attempts attempt [] s = ([], s)"
| "run_attempts attempt (c # cs) s =
    (let (won, s1) = attempt c s; (wins, s2) = run_attempts attempt cs s1 in (won # wins, s2))"

locale exclusive_claim =
  fixes attempt :: "'c \<Rightarrow> 's \<Rightarrow> bool \<times> 's"
    and admissible :: "'c \<Rightarrow> bool"
    and sound :: "'s \<Rightarrow> bool"
    and held :: "'s \<Rightarrow> bool"
  assumes sound_kept: "sound s \<Longrightarrow> admissible c \<Longrightarrow> attempt c s = (won, s') \<Longrightarrow> sound s'"
    and win_holds: "sound s \<Longrightarrow> admissible c \<Longrightarrow> attempt c s = (True, s') \<Longrightarrow> held s'"
    and held_kept: "held s \<Longrightarrow> admissible c \<Longrightarrow> attempt c s = (won, s') \<Longrightarrow> held s'"
    and held_refuses: "held s \<Longrightarrow> admissible c \<Longrightarrow> attempt c s = (won, s') \<Longrightarrow> \<not> won"
begin

lemma no_second_win: "held s \<Longrightarrow> list_all admissible cs \<Longrightarrow> filter (\<lambda>w. w) (fst (run_attempts attempt cs s)) = []"
proof (induction cs arbitrary: s)
  case (Cons c cs)
  obtain won s1 where a: "attempt c s = (won, s1)" by fastforce
  with Cons show ?case using held_kept [of s c won s1] held_refuses [of s c won s1] by (simp add: split_beta)
qed simp

lemma one_winner: "sound s \<Longrightarrow> list_all admissible cs \<Longrightarrow> length (filter (\<lambda>w. w) (fst (run_attempts attempt cs s))) \<le> 1"
proof (induction cs arbitrary: s)
  case (Cons c cs)
  obtain won s1 where a: "attempt c s = (won, s1)" by fastforce
  with Cons show ?case
    using sound_kept [of s c won s1] win_holds [of s c s1] no_second_win [of s1 cs] by (cases won) (simp_all add: split_beta)
qed simp

end

end
