(* ===== verification/Scopes.thy ===== *)
theory Scopes
  imports Prelude
begin

text \<open>
  Package \<open>identity/auth\<close>, file \<open>scopes.go\<close>: the scope vocabulary and the checks over a list of scopes,
  global and bound to one organization. \<open>ReadWritePairs\<close> maps a read scope to the write scope that
  implies it.
\<close>

definition ScopeUsersRead :: string where "ScopeUsersRead = ''users:read''"
definition ScopeUsersWrite :: string where "ScopeUsersWrite = ''users:write''"
definition ScopeOrganizationsRead :: string where "ScopeOrganizationsRead = ''organizations:read''"
definition ScopeOrganizationsWrite :: string where "ScopeOrganizationsWrite = ''organizations:write''"
definition ScopeAPIKeysManage :: string where "ScopeAPIKeysManage = ''api_keys:manage''"
definition ScopeAuditRead :: string where "ScopeAuditRead = ''audit:read''"
definition ScopeOrganizationsCreate :: string where "ScopeOrganizationsCreate = ''organizations:create''"
definition ScopeAdmin :: string where "ScopeAdmin = ''admin''"

type_synonym ReadWritePairs = "string \<rightharpoonup> string"

datatype scope_error = ScopeNotPermitted string

fun HasScope :: "string list \<Rightarrow> string \<Rightarrow> ReadWritePairs \<Rightarrow> bool" where
  "HasScope userScopes required rwPairs =
     (if required = '''' then False
      else list_ex (\<lambda>s. s = required \<or> s = ScopeAdmin \<or>
                        (case rwPairs required of None \<Rightarrow> False | Some writeScope \<Rightarrow> s = writeScope)) userScopes)"

fun HasAnyScope :: "string list \<Rightarrow> string list \<Rightarrow> ReadWritePairs \<Rightarrow> bool" where
  "HasAnyScope userScopes [] rwPairs = False"
| "HasAnyScope userScopes (r # rs) rwPairs =
     (if HasScope userScopes r rwPairs then True else HasAnyScope userScopes rs rwPairs)"

definition HasAllScopes :: "string list \<Rightarrow> string list \<Rightarrow> ReadWritePairs \<Rightarrow> bool" where
  "HasAllScopes userScopes required rwPairs =
     (if length required = 0 then False else list_all (\<lambda>r. HasScope userScopes r rwPairs) required)"

fun roleLoop :: "string list \<Rightarrow> string list \<Rightarrow> ReadWritePairs \<Rightarrow> bool" where
  "roleLoop callerScopes [] rwPairs = True"
| "roleLoop callerScopes (s # ss) rwPairs =
     (if s = ScopeAdmin then False
      else if \<not> HasScope callerScopes s rwPairs then False
      else roleLoop callerScopes ss rwPairs)"

definition RoleScopesPermittedBy :: "string list \<Rightarrow> string list \<Rightarrow> ReadWritePairs \<Rightarrow> bool" where
  "RoleScopesPermittedBy callerScopes roleScopes rwPairs =
     (if length roleScopes = 0 then True
      else if HasScope callerScopes ScopeAdmin rwPairs then True
      else roleLoop callerScopes roleScopes rwPairs)"

fun ValidateProvisionableScopes :: "string list \<Rightarrow> scope_error + unit" where
  "ValidateProvisionableScopes [] = Inr ()"
| "ValidateProvisionableScopes (s # ss) =
     (if s = ScopeAdmin then Inl (ScopeNotPermitted ScopeAdmin) else ValidateProvisionableScopes ss)"

text \<open>The claims of a token, as far as the scope checks and the token manager read them
  (\<open>jwt.go\<close>, type \<open>Claims\<close> with the embedded registered claims).\<close>

record Claims =
  cl_UserID :: string
  cl_Email :: string
  cl_OrgID :: string
  cl_Scopes :: "string list"
  cl_JTI :: string
  cl_ExpiresAt :: "time option"
  cl_IssuedAt :: "time option"
  cl_Issuer :: string
  cl_Subject :: string
  cl_ID :: string
  cl_Audience :: "string list"

definition orgBound :: "Claims option \<Rightarrow> string \<Rightarrow> bool" where
  "orgBound claims orgID =
     (case claims of None \<Rightarrow> False
      | Some c \<Rightarrow> orgID \<noteq> '''' \<and> cl_OrgID c \<noteq> '''' \<and> cl_OrgID c = orgID)"

definition HasScopeInOrg :: "Claims option \<Rightarrow> string \<Rightarrow> string \<Rightarrow> ReadWritePairs \<Rightarrow> bool" where
  "HasScopeInOrg claims orgID required rwPairs =
     (if \<not> orgBound claims orgID then False else HasScope (cl_Scopes (the claims)) required rwPairs)"

definition HasAnyScopeInOrg :: "Claims option \<Rightarrow> string \<Rightarrow> string list \<Rightarrow> ReadWritePairs \<Rightarrow> bool" where
  "HasAnyScopeInOrg claims orgID required rwPairs =
     (if \<not> orgBound claims orgID then False else HasAnyScope (cl_Scopes (the claims)) required rwPairs)"

definition HasAllScopesInOrg :: "Claims option \<Rightarrow> string \<Rightarrow> string list \<Rightarrow> ReadWritePairs \<Rightarrow> bool" where
  "HasAllScopesInOrg claims orgID required rwPairs =
     (if \<not> orgBound claims orgID then False else HasAllScopes (cl_Scopes (the claims)) required rwPairs)"

subsection \<open>The authority a scope list confers\<close>

text \<open>Abstractly, a scope list confers the set of (non-empty) requirements it satisfies.\<close>

definition authority :: "string list \<Rightarrow> ReadWritePairs \<Rightarrow> string set" where
  "authority scopes rw = {r. HasScope scopes r rw}"

lemma HasScope_iff:
  "HasScope us r rw \<longleftrightarrow>
     r \<noteq> '''' \<and> (r \<in> set us \<or> ScopeAdmin \<in> set us \<or> (\<exists>w. rw r = Some w \<and> w \<in> set us))"
  by (auto simp: list_ex_iff split: option.splits)

lemma HasScope_empty_required [simp]: "\<not> HasScope us '''' rw"
  by simp

declare HasScope.simps [simp del]

lemma HasScope_Nil [simp]: "\<not> HasScope [] r rw"
  by (simp add: HasScope_iff)

lemma ScopeAdmin_not_Nil [simp]: "ScopeAdmin \<noteq> ''''"
  by (simp add: ScopeAdmin_def)

lemma HasScope_mono: "set us \<subseteq> set vs \<Longrightarrow> HasScope us r rw \<Longrightarrow> HasScope vs r rw"
  by (auto simp: HasScope_iff)

lemma HasScope_self: "r \<in> set us \<Longrightarrow> r \<noteq> '''' \<Longrightarrow> HasScope us r rw"
  by (simp add: HasScope_iff)

lemma HasScope_admin: "ScopeAdmin \<in> set us \<Longrightarrow> r \<noteq> '''' \<Longrightarrow> HasScope us r rw"
  by (simp add: HasScope_iff)

lemma HasAnyScope_iff: "HasAnyScope us rs rw \<longleftrightarrow> (\<exists>r \<in> set rs. HasScope us r rw)"
  by (induction rs) auto

lemma HasAllScopes_iff: "HasAllScopes us rs rw \<longleftrightarrow> rs \<noteq> [] \<and> (\<forall>r \<in> set rs. HasScope us r rw)"
  by (simp add: HasAllScopes_def list_all_iff)

lemma roleLoop_iff:
  "roleLoop us rs rw \<longleftrightarrow> ScopeAdmin \<notin> set rs \<and> (\<forall>r \<in> set rs. HasScope us r rw)"
  by (induction rs) auto

lemma ValidateProvisionableScopes_iff: "ValidateProvisionableScopes ss = Inr () \<longleftrightarrow> ScopeAdmin \<notin> set ss"
  by (induction ss) auto

lemma orgBound_iff: "orgBound claims orgID \<longleftrightarrow> orgID \<noteq> '''' \<and> (\<exists>c. claims = Some c \<and> cl_OrgID c = orgID)"
  by (cases claims) (auto simp: orgBound_def)

end
