(* ===== verification/Models.thy ===== *)
theory Models
  imports Scopes
begin

text \<open>
  Package \<open>identity/models\<close>: the data types of the identity store as records, the scope accessors of
  \<open>UserWithOrgRoles\<close> (\<open>user.go\<close>), and the group-mapping resolution of \<open>group_mapping_resolve.go\<close>.

  A JSONB column is represented by what \<open>json.Unmarshal\<close> into \<open>[]string\<close> makes of it: a list of strings,
  or a document of another shape, which does not decode. Identifiers are canonical UUID texts.
\<close>

datatype jsonb = JStrings "string list" | JOther

fun unmarshal_strings :: "jsonb \<Rightarrow> string list option" where
  "unmarshal_strings (JStrings xs) = Some xs"
| "unmarshal_strings JOther = None"

definition marshal_strings :: "string list \<Rightarrow> jsonb" where
  "marshal_strings xs = JStrings xs"

lemma unmarshal_marshal [simp]: "unmarshal_strings (marshal_strings xs) = Some xs"
  by (simp add: marshal_strings_def)

text \<open>A JSONB column that is read as an object: its members, or a document of another shape.\<close>

datatype jsondoc = JObject "(string \<times> string) list" | JNotObject

fun unmarshal_object :: "jsondoc \<Rightarrow> (string \<times> string) list option" where
  "unmarshal_object (JObject kvs) = Some kvs"
| "unmarshal_object JNotObject = None"

text \<open>A JSON document as \<open>encoding/json\<close> reads it: the members of an object in the order of the text, duplicates included, a
  number by its text, and strings decoded (so valid UTF-8). A \<open>json.RawMessage\<close> that is not empty holds a document, or bytes that are not one.\<close>

datatype gojson = GNull | GBool bool | GNumber string | GString string | GArray "gojson list" | GObject "(string \<times> gojson) list"

datatype rawjson = Document gojson | Malformed

subsection \<open>Rows\<close>

record Organization =
  org_ID :: string
  org_Name :: string
  org_DisplayName :: string
  org_IdpType :: "string option"
  org_IdpName :: "string option"
  org_CreatedAt :: time
  org_UpdatedAt :: time

record User =
  usr_ID :: string
  usr_Email :: string
  usr_Name :: string
  usr_OIDCSub :: "string option"
  usr_CreatedAt :: time
  usr_UpdatedAt :: time

record OrganizationMember =
  mem_OrganizationID :: string
  mem_UserID :: string
  mem_RoleTemplateID :: "string option"
  mem_CreatedAt :: time

record RoleTemplate =
  rt_ID :: string
  rt_Name :: string
  rt_DisplayName :: string
  rt_Description :: "string option"
  rt_Scopes :: jsonb
  rt_IsSystem :: bool
  rt_CreatedAt :: time
  rt_UpdatedAt :: time

record APIKey =
  key_ID :: string
  key_UserID :: "string option"
  key_OrganizationID :: string
  key_Name :: string
  key_Description :: "string option"
  key_KeyHash :: string
  key_KeyPrefix :: string
  key_Scopes :: jsonb
  key_ExpiresAt :: "time option"
  key_LastUsedAt :: "time option"
  key_ExpiryNotificationSentAt :: "time option"
  key_CreatedAt :: time

record AuditLog =
  log_ID :: string
  log_UserID :: "string option"
  log_OrganizationID :: "string option"
  log_Action :: string
  log_ResourceType :: "string option"
  log_ResourceID :: "string option"
  log_Metadata :: "jsondoc option"
  log_IPAddress :: "string option"
  log_CreatedAt :: time
  log_ActorEmail :: "string option"

text \<open>An entry as it is read: the row with the actor's current name and address joined in.\<close>

record AuditEntry = AuditLog +
  log_UserEmail :: "string option"
  log_UserName :: "string option"

record RevokedToken =
  rev_JTI :: string
  rev_UserID :: string
  rev_ExpiresAt :: time

record DedupClaim =
  dd_Key :: string
  dd_ClaimedAt :: time

record OIDCConfig =
  oc_ID :: string
  oc_Name :: string
  oc_ProviderType :: string
  oc_IssuerURL :: string
  oc_ClientID :: string
  oc_ClientSecretCiphertext :: string
  oc_RedirectURL :: string
  oc_Scopes :: "jsonb option"
  oc_IsActive :: bool
  oc_ExtraConfig :: "rawjson option"
  oc_CreatedAt :: time
  oc_UpdatedAt :: time
  oc_CreatedBy :: "string option"
  oc_UpdatedBy :: "string option"

subsection \<open>Views\<close>

record UserMembership =
  um_OrganizationID :: string
  um_OrganizationName :: string
  um_RoleTemplateID :: "string option"
  um_RoleTemplateName :: "string option"
  um_RoleTemplateDisplayName :: "string option"
  um_RoleTemplateScopes :: "string list"
  um_CreatedAt :: time

record OrganizationMemberWithUser =
  mw_OrganizationID :: string
  mw_UserID :: string
  mw_RoleTemplateID :: "string option"
  mw_RoleTemplateName :: "string option"
  mw_RoleTemplateDisplayName :: "string option"
  mw_RoleTemplateScopes :: "string list"
  mw_CreatedAt :: time
  mw_UserName :: string
  mw_UserEmail :: string

record UserWithOrgRoles =
  uw_User :: User
  uw_Memberships :: "UserMembership list"

subsection \<open>Scopes of a user\<close>

text \<open>The Go code collects the scopes in a map used as a set and lists its keys; their order is not
  specified, so only the set and the absence of duplicates are meaningful.\<close>

definition GetAllowedScopes :: "UserWithOrgRoles \<Rightarrow> string list" where
  "GetAllowedScopes u = remdups (concat (map um_RoleTemplateScopes (uw_Memberships u)))"

definition GetScopesForOrg :: "UserWithOrgRoles \<Rightarrow> string \<Rightarrow> string list" where
  "GetScopesForOrg u orgID =
     (if orgID = '''' then []
      else remdups (concat (map um_RoleTemplateScopes
             (filter (\<lambda>m. um_OrganizationID m = orgID) (uw_Memberships u)))))"

definition HasAdminScope :: "UserWithOrgRoles \<Rightarrow> bool" where
  "HasAdminScope u = list_ex (\<lambda>m. list_ex (\<lambda>s. s = ScopeAdmin) (um_RoleTemplateScopes m)) (uw_Memberships u)"

lemma GetScopesForOrg_subset: "set (GetScopesForOrg u orgID) \<subseteq> set (GetAllowedScopes u)"
  by (auto simp: GetScopesForOrg_def GetAllowedScopes_def)

lemma HasAdminScope_iff: "HasAdminScope u \<longleftrightarrow> ScopeAdmin \<in> set (GetAllowedScopes u)"
  by (auto simp: HasAdminScope_def GetAllowedScopes_def list_ex_iff)

subsection \<open>Group mappings\<close>

record OIDCGroupMapping =
  gm_Group :: string
  gm_Organization :: string
  gm_Role :: string

record GroupMappingResolution =
  DesiredRole :: "string \<rightharpoonup> string"
  Managed :: "string set"

fun resolveLoop :: "string list \<Rightarrow> OIDCGroupMapping list \<Rightarrow> GroupMappingResolution \<Rightarrow> GroupMappingResolution" where
  "resolveLoop held [] res = res"
| "resolveLoop held (m # ms) res =
     (if gm_Organization m = '''' then resolveLoop held ms res
      else
        let res1 = res\<lparr>Managed := insert (gm_Organization m) (Managed res)\<rparr>
        in if gm_Group m \<notin> set held then resolveLoop held ms res1
           else if DesiredRole res1 (gm_Organization m) = None
           then resolveLoop held ms (res1\<lparr>DesiredRole := (DesiredRole res1)(gm_Organization m \<mapsto> gm_Role m)\<rparr>)
           else resolveLoop held ms res1)"

definition ResolveGroupMappings :: "string list \<Rightarrow> OIDCGroupMapping list \<Rightarrow> GroupMappingResolution" where
  "ResolveGroupMappings groups mappings =
     resolveLoop groups mappings \<lparr>DesiredRole = Map.empty, Managed = {}\<rparr>"

definition Wanted :: "GroupMappingResolution \<Rightarrow> string \<Rightarrow> string option" where
  "Wanted r org = DesiredRole r org"

definition IsManaged :: "GroupMappingResolution \<Rightarrow> string \<Rightarrow> bool" where
  "IsManaged r org \<longleftrightarrow> org \<in> Managed r"

text \<open>The specification: the first mapping of a held group for the organization decides the role.\<close>

definition first_role :: "string list \<Rightarrow> OIDCGroupMapping list \<Rightarrow> string \<Rightarrow> string option" where
  "first_role held ms org =
     map_option gm_Role (find (\<lambda>m. gm_Organization m = org \<and> gm_Group m \<in> set held) ms)"

lemma resolveLoop_Managed:
  "Managed (resolveLoop held ms res) = Managed res \<union> {o'. o' \<noteq> '''' \<and> o' \<in> gm_Organization ` set ms}"
  by (induction held ms res rule: resolveLoop.induct) (auto simp: Let_def)

lemma resolveLoop_DesiredRole:
  assumes "org \<noteq> ''''"
  shows "DesiredRole (resolveLoop held ms res) org =
    (case DesiredRole res org of Some r \<Rightarrow> Some r | None \<Rightarrow> first_role held ms org)"
proof (induction held ms res rule: resolveLoop.induct)
  case (1 held res)
  then show ?case by (auto simp: first_role_def split: option.splits)
next
  case (2 held m ms res)
  with assms show ?case
    by (auto simp: first_role_def Let_def split: option.splits)
qed

lemma resolveLoop_DesiredRole_empty: "DesiredRole (resolveLoop held ms res) '''' = DesiredRole res ''''"
  by (induction held ms res rule: resolveLoop.induct) (auto simp: Let_def)

text \<open>
  Resolving a caller's groups against the configured mappings. An organization is managed exactly
  when some mapping names it (the empty name never is); the role wanted there is that of the first
  mapping, in configuration order, whose group the caller holds, and there is none when no held group
  maps to it.
\<close>

theorem ResolveGroupMappings_spec:
  "(\<forall>org. IsManaged (ResolveGroupMappings groups mappings) org \<longleftrightarrow>
        org \<noteq> '''' \<and> org \<in> gm_Organization ` set mappings)
   \<and> (\<forall>org. Wanted (ResolveGroupMappings groups mappings) org =
        (if org = '''' then None else first_role groups mappings org))"
  by (auto simp: ResolveGroupMappings_def IsManaged_def Wanted_def resolveLoop_Managed
      resolveLoop_DesiredRole resolveLoop_DesiredRole_empty)

end
