(* ===== verification/Sql.thy ===== *)
theory Sql
  imports Prelude
begin

text \<open>
  The fragment of SQL the program's statements use.

  The Go code assembles a \<open>WHERE\<close> clause as text with numbered placeholders and passes the values in a
  separate argument list. The model keeps that shape: a predicate names columns and placeholder
  numbers, and its truth is taken over an argument list and a row (a map from column references to
  values). Evaluation is SQL's three-valued logic; a row is selected only where the predicate is true.
  \<open>render\<close> prints a predicate as the text the Go code builds.

  \<open>ILIKE\<close> is matched on bytes with ASCII case folding.
\<close>

datatype sqlval =
    VNull
  | VText string
  | VTexts "string list"
  | VTime time
  | VInt int
  | VBool bool

datatype sql_pred =
    P_true
  | P_false
  | P_eq string nat
  | P_any string nat
  | P_null string
  | P_ilike string nat
  | P_ge string nat
  | P_le string nat
  | P_lt string nat
  | P_and sql_pred sql_pred
  | P_or sql_pred sql_pred
  | P_member string nat
  | P_no_member string

type_synonym row = "string \<Rightarrow> sqlval"

text \<open>The pairs (organization, user) of \<open>organization_members\<close>, for the \<open>EXISTS\<close> subqueries.\<close>

type_synonym member_pairs = "(string \<times> string) list"

subsection \<open>Three-valued logic\<close>

fun and3 :: "bool option \<Rightarrow> bool option \<Rightarrow> bool option" where
  "and3 (Some False) _ = Some False"
| "and3 _ (Some False) = Some False"
| "and3 (Some True) (Some True) = Some True"
| "and3 _ _ = None"

fun or3 :: "bool option \<Rightarrow> bool option \<Rightarrow> bool option" where
  "or3 (Some True) _ = Some True"
| "or3 _ (Some True) = Some True"
| "or3 (Some False) (Some False) = Some False"
| "or3 _ _ = None"

subsection \<open>Pattern matching\<close>

text \<open>\<open>LIKE\<close>: \<open>%\<close> matches any sequence, \<open>_\<close> any one character, a backslash quotes the next character; a
  pattern ending in a lone backslash matches nothing.\<close>

fun like_match :: "string \<Rightarrow> string \<Rightarrow> bool" where
  "like_match [] s = (s = [])"
| "like_match (p # ps) s =
     (if p = CHR ''%'' then
        (case s of [] \<Rightarrow> like_match ps [] | _ # s' \<Rightarrow> like_match ps s \<or> like_match (p # ps) s')
      else if p = CHR 0x5C then
        (case ps of [] \<Rightarrow> False
         | q # qs \<Rightarrow> (case s of [] \<Rightarrow> False | c # s' \<Rightarrow> q = c \<and> like_match qs s'))
      else (case s of [] \<Rightarrow> False | c # s' \<Rightarrow> (p = CHR ''_'' \<or> p = c) \<and> like_match ps s'))"

definition ilike :: "string \<Rightarrow> string \<Rightarrow> bool" where
  "ilike s pat \<longleftrightarrow> like_match (ToLower pat) (ToLower s)"

subsection \<open>Evaluation\<close>

text \<open>Placeholder \<open>$n\<close> reads the n-th argument; a number out of range reads nothing and the comparison is
  unknown (the driver would reject the statement).\<close>

definition param :: "sqlval list \<Rightarrow> nat \<Rightarrow> sqlval" where
  "param args n = (if 1 \<le> n \<and> n \<le> length args then args ! (n - 1) else VNull)"

fun eq3 :: "sqlval \<Rightarrow> sqlval \<Rightarrow> bool option" where
  "eq3 VNull _ = None"
| "eq3 _ VNull = None"
| "eq3 a b = Some (a = b)"

fun any3 :: "sqlval \<Rightarrow> sqlval \<Rightarrow> bool option" where
  "any3 VNull (VTexts xs) = (if xs = [] then Some False else None)"
| "any3 (VText s) (VTexts xs) = Some (s \<in> set xs)"
| "any3 _ _ = None"

fun ilike3 :: "sqlval \<Rightarrow> sqlval \<Rightarrow> bool option" where
  "ilike3 (VText s) (VText p) = Some (ilike s p)"
| "ilike3 _ _ = None"

fun cmp3 :: "(int \<Rightarrow> int \<Rightarrow> bool) \<Rightarrow> sqlval \<Rightarrow> sqlval \<Rightarrow> bool option" where
  "cmp3 f (VTime a) (VTime b) = Some (f a b)"
| "cmp3 f _ _ = None"

fun eval :: "member_pairs \<Rightarrow> sqlval list \<Rightarrow> row \<Rightarrow> sql_pred \<Rightarrow> bool option" where
  "eval ms args r P_true = Some True"
| "eval ms args r P_false = Some False"
| "eval ms args r (P_eq c n) = eq3 (r c) (param args n)"
| "eval ms args r (P_any c n) = any3 (r c) (param args n)"
| "eval ms args r (P_null c) = Some (r c = VNull)"
| "eval ms args r (P_ilike c n) = ilike3 (r c) (param args n)"
| "eval ms args r (P_ge c n) = cmp3 (\<ge>) (r c) (param args n)"
| "eval ms args r (P_le c n) = cmp3 (\<le>) (r c) (param args n)"
| "eval ms args r (P_lt c n) = cmp3 (<) (r c) (param args n)"
| "eval ms args r (P_and p q) = and3 (eval ms args r p) (eval ms args r q)"
| "eval ms args r (P_or p q) = or3 (eval ms args r p) (eval ms args r q)"
| "eval ms args r (P_member c n) =
     Some (\<exists>(org, usr) \<in> set ms. r c = VText usr \<and> any3 (VText org) (param args n) = Some True)"
| "eval ms args r (P_no_member c) = Some (\<not> (\<exists>(org, usr) \<in> set ms. r c = VText usr))"

definition holds :: "member_pairs \<Rightarrow> sqlval list \<Rightarrow> row \<Rightarrow> sql_pred \<Rightarrow> bool" where
  "holds ms args r p \<longleftrightarrow> eval ms args r p = Some True"

subsection \<open>Text of a predicate\<close>

fun render :: "sql_pred \<Rightarrow> string" where
  "render P_true = ''TRUE''"
| "render P_false = ''FALSE''"
| "render (P_eq c n) = c @ '' = $'' @ Itoa n"
| "render (P_any c n) = c @ '' = ANY($'' @ Itoa n @ '')''"
| "render (P_null c) = c @ '' IS NULL''"
| "render (P_ilike c n) = c @ '' ILIKE $'' @ Itoa n"
| "render (P_ge c n) = c @ '' >= $'' @ Itoa n"
| "render (P_le c n) = c @ '' <= $'' @ Itoa n"
| "render (P_lt c n) = c @ '' < $'' @ Itoa n"
| "render (P_and p q) = render p @ '' AND '' @ render q"
| "render (P_or p q) = ''('' @ render p @ '' OR '' @ render q @ '')''"
| "render (P_member c n) =
     ''EXISTS (SELECT 1 FROM organization_members osm WHERE osm.user_id = '' @ c @
     '' AND osm.organization_id = ANY($'' @ Itoa n @ ''))''"
| "render (P_no_member c) =
     ''NOT EXISTS (SELECT 1 FROM organization_members osm WHERE osm.user_id = '' @ c @ '')''"

subsection \<open>Shared facts\<close>

lemma and3_True: "and3 a b = Some True \<longleftrightarrow> a = Some True \<and> b = Some True"
  by (cases "(a, b)" rule: and3.cases) auto

lemma or3_True: "or3 a b = Some True \<longleftrightarrow> a = Some True \<or> b = Some True"
  by (cases "(a, b)" rule: or3.cases) auto

lemma eq3_True: "eq3 a b = Some True \<longleftrightarrow> a = b \<and> a \<noteq> VNull"
  by (cases "(a, b)" rule: eq3.cases) auto

lemma any3_True: "any3 a b = Some True \<longleftrightarrow> (\<exists>s xs. a = VText s \<and> b = VTexts xs \<and> s \<in> set xs)"
  by (cases "(a, b)" rule: any3.cases) auto

lemma ilike3_True: "ilike3 a b = Some True \<longleftrightarrow> (\<exists>s p. a = VText s \<and> b = VText p \<and> ilike s p)"
  by (cases "(a, b)" rule: ilike3.cases) auto

lemma cmp3_True: "cmp3 f a b = Some True \<longleftrightarrow> (\<exists>x y. a = VTime x \<and> b = VTime y \<and> f x y)"
  by (cases "(f, a, b)" rule: cmp3.cases) auto

lemmas three_valued = and3_True or3_True eq3_True any3_True ilike3_True cmp3_True

lemma holds_simps [simp]:
  "holds ms args r P_true"
  "\<not> holds ms args r P_false"
  "holds ms args r (P_eq c n) \<longleftrightarrow> r c = param args n \<and> r c \<noteq> VNull"
  "holds ms args r (P_null c) \<longleftrightarrow> r c = VNull"
  "holds ms args r (P_and p q) \<longleftrightarrow> holds ms args r p \<and> holds ms args r q"
  "holds ms args r (P_or p q) \<longleftrightarrow> holds ms args r p \<or> holds ms args r q"
  "holds ms args r (P_any c n) \<longleftrightarrow> (\<exists>s xs. r c = VText s \<and> param args n = VTexts xs \<and> s \<in> set xs)"
  "holds ms args r (P_ilike c n) \<longleftrightarrow> (\<exists>s p. r c = VText s \<and> param args n = VText p \<and> ilike s p)"
  "holds ms args r (P_ge c n) \<longleftrightarrow> (\<exists>x y. r c = VTime x \<and> param args n = VTime y \<and> x \<ge> y)"
  "holds ms args r (P_le c n) \<longleftrightarrow> (\<exists>x y. r c = VTime x \<and> param args n = VTime y \<and> x \<le> y)"
  "holds ms args r (P_lt c n) \<longleftrightarrow> (\<exists>x y. r c = VTime x \<and> param args n = VTime y \<and> x < y)"
  "holds ms args r (P_no_member c) \<longleftrightarrow> \<not> (\<exists>(org, usr) \<in> set ms. r c = VText usr)"
  by (auto simp: holds_def three_valued)

lemma holds_member [simp]:
  "holds ms args r (P_member c n) \<longleftrightarrow>
     (\<exists>(org, usr) \<in> set ms. r c = VText usr \<and> (\<exists>xs. param args n = VTexts xs \<and> org \<in> set xs))"
  by (auto simp: holds_def three_valued)

lemma param_append_left: "n \<le> length args \<Longrightarrow> param (args @ more) n = param args n"
  by (auto simp: param_def nth_append)

lemma param_append_right: "param (args @ v # more) (Suc (length args)) = v"
  by (simp add: param_def)

lemma param_last: "param (args @ [v]) (length args + 1) = v"
  by (simp add: param_def)

lemma param_Cons: "param (v # args) (Suc n) = (if n = 0 then v else param args n)"
  by (cases n) (auto simp: param_def)

lemma param_numeral:
  "param (v # args) 1 = v"
  "param (v # args) (numeral k) = (if numeral k = (1::nat) then v else param args (numeral k - 1))"
proof -
  show "param (v # args) 1 = v" by (simp add: param_def)
  obtain m where m: "(numeral k :: nat) = Suc m" using numeral_eq_Suc by blast
  show "param (v # args) (numeral k) = (if numeral k = (1::nat) then v else param args (numeral k - 1))"
    unfolding m by (simp add: param_Cons)
qed

text \<open>The largest placeholder a predicate mentions.\<close>

fun max_param :: "sql_pred \<Rightarrow> nat" where
  "max_param (P_eq c n) = n"
| "max_param (P_any c n) = n"
| "max_param (P_ilike c n) = n"
| "max_param (P_ge c n) = n"
| "max_param (P_le c n) = n"
| "max_param (P_lt c n) = n"
| "max_param (P_member c n) = n"
| "max_param (P_and p q) = max (max_param p) (max_param q)"
| "max_param (P_or p q) = max (max_param p) (max_param q)"
| "max_param P_true = 0"
| "max_param P_false = 0"
| "max_param (P_null c) = 0"
| "max_param (P_no_member c) = 0"

lemma holds_append: "max_param p \<le> length args \<Longrightarrow> holds ms (args @ more) r p = holds ms args r p"
  by (induction p) (auto simp: param_append_left)

lemma render_not_Nil: "render p \<noteq> []"
  by (induction p) auto

end
