(* ===== verification/Org_Scope.thy ===== *)
theory Org_Scope
  imports Sql
begin

text \<open>
  Package \<open>identity/store\<close>, file \<open>org_scope.go\<close>: the tenant constraint every scoped accessor carries,
  its constructors, the in-memory check, the SQL predicate it renders and the splice helpers
  \<open>andScope\<close> and \<open>andMembershipScope\<close>. The resolver \<open>OrgScopeForUser\<close>, which reads the database, is in
  theory \<open>Org_Repo\<close>.

  The locale \<open>scoped_table\<close> is the interface between a scope and a table with an owner column: proved
  once there, a spliced predicate selects exactly the rows of the base predicate whose owner the scope
  permits. Every repository theory interprets it on its own table.
\<close>

record OrgScope =
  sc_orgIDs :: "string list"
  sc_all :: bool
  sc_unowned :: bool

definition OrgScope_zero :: OrgScope where
  "OrgScope_zero = \<lparr>sc_orgIDs = [], sc_all = False, sc_unowned = False\<rparr>"

fun cleanLoop :: "string list \<Rightarrow> string set \<Rightarrow> string list \<Rightarrow> string list" where
  "cleanLoop [] seen cleaned = cleaned"
| "cleanLoop (i # ids) seen cleaned =
     (if i = '''' then cleanLoop ids seen cleaned
      else if i \<in> seen then cleanLoop ids seen cleaned
      else cleanLoop ids (insert i seen) (cleaned @ [i]))"

definition OrgScopeOrganizations :: "string list \<Rightarrow> OrgScope" where
  "OrgScopeOrganizations orgIDs =
     \<lparr>sc_orgIDs = sort (cleanLoop orgIDs {} []), sc_all = False, sc_unowned = False\<rparr>"

definition WithUnowned :: "OrgScope \<Rightarrow> OrgScope" where
  "WithUnowned s = s\<lparr>sc_unowned := True\<rparr>"

definition OrgScopeOrganizationsAndUnowned :: "string list \<Rightarrow> OrgScope" where
  "OrgScopeOrganizationsAndUnowned orgIDs = WithUnowned (OrgScopeOrganizations orgIDs)"

definition OrgScopeAllOrganizations :: OrgScope where
  "OrgScopeAllOrganizations = \<lparr>sc_orgIDs = [], sc_all = True, sc_unowned = False\<rparr>"

definition IsAllOrganizations :: "OrgScope \<Rightarrow> bool" where
  "IsAllOrganizations s = sc_all s"

definition IncludesUnowned :: "OrgScope \<Rightarrow> bool" where
  "IncludesUnowned s \<longleftrightarrow> sc_all s \<or> sc_unowned s"

definition MatchesNothing :: "OrgScope \<Rightarrow> bool" where
  "MatchesNothing s \<longleftrightarrow> \<not> sc_all s \<and> \<not> sc_unowned s \<and> length (sc_orgIDs s) = 0"

definition OrganizationIDs :: "OrgScope \<Rightarrow> string list" where
  "OrganizationIDs s = sc_orgIDs s"

definition PermitsOrganization :: "OrgScope \<Rightarrow> string \<Rightarrow> bool" where
  "PermitsOrganization s orgID =
     (if sc_all s then True
      else if orgID = '''' then sc_unowned s
      else list_ex (\<lambda>i. i = orgID) (sc_orgIDs s))"

definition OrgScope_String :: "OrgScope \<Rightarrow> string" where
  "OrgScope_String s =
     (if sc_all s then ''OrgScope(all-organizations)''
      else if sc_unowned s then ''OrgScope('' @ Itoa (length (sc_orgIDs s)) @ '' organization(s) + unowned)''
      else ''OrgScope('' @ Itoa (length (sc_orgIDs s)) @ '' organization(s))'')"

subsection \<open>The predicate\<close>

definition OrgScope_SQL :: "OrgScope \<Rightarrow> string \<Rightarrow> nat \<Rightarrow> sql_pred \<times> sqlval list" where
  "OrgScope_SQL s column paramIndex =
     (if sc_all s then (P_true, [])
      else if length (sc_orgIDs s) = 0 then
        (if sc_unowned s then (P_null column, []) else (P_false, []))
      else if sc_unowned s then
        (P_or (P_any column paramIndex) (P_null column), [VTexts (sc_orgIDs s)])
      else (P_any column paramIndex, [VTexts (sc_orgIDs s)]))"

text \<open>The text the Go function returns, as it formats it.\<close>

definition OrgScope_SQL_text :: "OrgScope \<Rightarrow> string \<Rightarrow> nat \<Rightarrow> string" where
  "OrgScope_SQL_text s column paramIndex =
     (if sc_all s then ''TRUE''
      else if length (sc_orgIDs s) = 0 then
        (if sc_unowned s then column @ '' IS NULL'' else ''FALSE'')
      else if sc_unowned s then
        ''('' @ column @ '' = ANY($'' @ Itoa paramIndex @ '') OR '' @ column @ '' IS NULL)''
      else column @ '' = ANY($'' @ Itoa paramIndex @ '')'')"

definition membershipSQL :: "OrgScope \<Rightarrow> string \<Rightarrow> nat \<Rightarrow> sql_pred \<times> sqlval list" where
  "membershipSQL s userColumn paramIndex =
     (if sc_all s then (P_true, [])
      else
        let notAMember = P_no_member userColumn
        in if length (sc_orgIDs s) = 0 then
             (if sc_unowned s then (notAMember, []) else (P_false, []))
           else
             let inScope = P_member userColumn paramIndex; args = [VTexts (sc_orgIDs s)]
             in if sc_unowned s then (P_or inScope notAMember, args) else (inScope, args))"

definition andScope :: "sql_pred \<Rightarrow> OrgScope \<Rightarrow> string \<Rightarrow> sqlval list \<Rightarrow> sql_pred \<times> sqlval list" where
  "andScope query s column args =
     (let (clause, scopeArgs) = OrgScope_SQL s column (length args + 1)
      in (P_and query clause, args @ scopeArgs))"

definition andMembershipScope :: "sql_pred \<Rightarrow> OrgScope \<Rightarrow> string \<Rightarrow> sqlval list \<Rightarrow> sql_pred \<times> sqlval list" where
  "andMembershipScope query s userColumn args =
     (let (clause, scopeArgs) = membershipSQL s userColumn (length args + 1)
      in (P_and query clause, args @ scopeArgs))"

subsection \<open>What a scope means\<close>

text \<open>The rows a scope permits, by their owner (\<open>None\<close>: the owner column is NULL), and the users it
  permits, by the organizations they are members of.\<close>

definition permits :: "OrgScope \<Rightarrow> string option \<Rightarrow> bool" where
  "permits s own \<longleftrightarrow> sc_all s \<or> (case own of None \<Rightarrow> sc_unowned s | Some i \<Rightarrow> i \<in> set (sc_orgIDs s))"

definition permits_user :: "OrgScope \<Rightarrow> member_pairs \<Rightarrow> string \<Rightarrow> bool" where
  "permits_user s ms u \<longleftrightarrow>
     sc_all s \<or> (\<exists>org \<in> set (sc_orgIDs s). (org, u) \<in> set ms) \<or> (sc_unowned s \<and> (\<forall>org. (org, u) \<notin> set ms))"

definition owner_val :: "string option \<Rightarrow> sqlval" where
  "owner_val own = (case own of None \<Rightarrow> VNull | Some i \<Rightarrow> VText i)"

lemma owner_val_simps [simp]:
  "owner_val None = VNull"
  "owner_val (Some i) = VText i"
  "owner_val own = VNull \<longleftrightarrow> own = None"
  "owner_val own = VText i \<longleftrightarrow> own = Some i"
  "VText i = owner_val own \<longleftrightarrow> own = Some i"
  by (auto simp: owner_val_def split: option.splits)

lemma cleanLoop_set:
  "seen = set cleaned \<Longrightarrow> set (cleanLoop ids seen cleaned) = set cleaned \<union> {i \<in> set ids. i \<noteq> ''''}"
  by (induction ids seen cleaned rule: cleanLoop.induct) auto

lemma cleanLoop_distinct:
  "seen = set cleaned \<Longrightarrow> distinct cleaned \<Longrightarrow> distinct (cleanLoop ids seen cleaned)"
  by (induction ids seen cleaned rule: cleanLoop.induct) auto

lemma OrgScopeOrganizations_ids:
  "set (sc_orgIDs (OrgScopeOrganizations ids)) = {i \<in> set ids. i \<noteq> ''''}"
  by (simp add: OrgScopeOrganizations_def cleanLoop_set)

lemma OrgScopeOrganizations_flags [simp]:
  "\<not> sc_all (OrgScopeOrganizations ids)" "\<not> sc_unowned (OrgScopeOrganizations ids)"
  by (simp_all add: OrgScopeOrganizations_def)

lemma scope_flags [simp]:
  "sc_all OrgScopeAllOrganizations" "\<not> sc_all OrgScope_zero" "\<not> sc_unowned OrgScope_zero"
  "sc_orgIDs OrgScope_zero = []"
  by (simp_all add: OrgScopeAllOrganizations_def OrgScope_zero_def)

lemma permits_all [simp]: "permits OrgScopeAllOrganizations own"
  by (simp add: permits_def)

lemma permits_zero [simp]: "\<not> permits OrgScope_zero own"
  by (auto simp: permits_def split: option.splits)

lemma permits_user_all [simp]: "permits_user OrgScopeAllOrganizations ms u"
  by (simp add: permits_user_def)

lemma MatchesNothing_all [simp]: "\<not> MatchesNothing OrgScopeAllOrganizations"
  by (simp add: MatchesNothing_def)

lemma MatchesNothing_permits: "MatchesNothing s \<longleftrightarrow> (\<forall>own. \<not> permits s own)"
proof
  show "MatchesNothing s \<Longrightarrow> \<forall>own. \<not> permits s own"
    by (auto simp: MatchesNothing_def permits_def split: option.splits)
next
  assume none: "\<forall>own. \<not> permits s own"
  then have "\<not> permits s None" "\<And>i. \<not> permits s (Some i)" by auto
  then show "MatchesNothing s"
    by (cases "sc_orgIDs s") (auto simp: MatchesNothing_def permits_def)
qed

lemma MatchesNothing_permits_user: "MatchesNothing s \<Longrightarrow> \<not> permits_user s ms u"
  by (auto simp: MatchesNothing_def permits_user_def)

lemma permits_organization:
  "own \<noteq> Some '''' \<Longrightarrow> permits s own \<longleftrightarrow> PermitsOrganization s (case own of None \<Rightarrow> '''' | Some i \<Rightarrow> i)"
  by (auto simp: permits_def PermitsOrganization_def list_ex_iff split: option.splits)

lemma render_OrgScope_SQL: "render (fst (OrgScope_SQL s c n)) = OrgScope_SQL_text s c n"
  by (simp add: OrgScope_SQL_def OrgScope_SQL_text_def)

lemma OrgScope_SQL_holds:
  assumes "n = length args + 1"
  shows "holds ms (args @ snd (OrgScope_SQL s c n)) r (fst (OrgScope_SQL s c n)) \<longleftrightarrow>
    sc_all s \<or> (r c = VNull \<and> sc_unowned s) \<or> (\<exists>i \<in> set (sc_orgIDs s). r c = VText i)"
  using assms by (auto simp: OrgScope_SQL_def param_def nth_append)

lemma membershipSQL_holds:
  assumes "n = length args + 1" "r c = VText u"
  shows "holds ms (args @ snd (membershipSQL s c n)) r (fst (membershipSQL s c n)) \<longleftrightarrow> permits_user s ms u"
  using assms by (auto simp: membershipSQL_def permits_user_def param_def nth_append Let_def)

lemma andScope_holds:
  assumes "max_param q \<le> length args" "r c = owner_val own"
  shows "holds ms (snd (andScope q s c args)) r (fst (andScope q s c args)) \<longleftrightarrow>
    holds ms args r q \<and> permits s own"
proof -
  have "holds ms (args @ snd (OrgScope_SQL s c (length args + 1))) r (fst (OrgScope_SQL s c (length args + 1)))
        \<longleftrightarrow> permits s own"
    using assms(2) OrgScope_SQL_holds [of "length args + 1" args ms s c r]
    by (auto simp: permits_def split: option.splits)
  then show ?thesis
    using holds_append [OF assms(1), of ms "snd (OrgScope_SQL s c (length args + 1))" r]
    by (simp add: andScope_def split_beta)
qed

lemma andMembershipScope_holds:
  assumes "max_param q \<le> length args" "r c = VText u"
  shows "holds ms (snd (andMembershipScope q s c args)) r (fst (andMembershipScope q s c args)) \<longleftrightarrow>
    holds ms args r q \<and> permits_user s ms u"
  using assms membershipSQL_holds [of "length args + 1" args r c u ms s]
    holds_append [OF assms(1), of ms "snd (membershipSQL s c (length args + 1))" r]
  by (simp add: andMembershipScope_def split_beta)

subsection \<open>Tables with an owner\<close>

text \<open>A table whose rows carry their owner in column \<open>col\<close>. What a scoped statement over it selects.\<close>

definition selected :: "member_pairs \<Rightarrow> ('a \<Rightarrow> row) \<Rightarrow> sql_pred \<times> sqlval list \<Rightarrow> 'a \<Rightarrow> bool" where
  "selected ms cols wa x = holds ms (snd wa) (cols x) (fst wa)"

locale scoped_table =
  fixes cols :: "'a \<Rightarrow> row"
    and col :: string
    and owner :: "'a \<Rightarrow> string option"
  assumes owner_column: "cols x col = owner_val (owner x)"
begin

lemma selected_iff:
  "max_param q \<le> length args \<Longrightarrow>
     selected ms cols (andScope q s col args) x \<longleftrightarrow> holds ms args (cols x) q \<and> permits s (owner x)"
  using andScope_holds [of q args "cols x" col "owner x" ms s] owner_column [of x] by (simp add: selected_def)

lemma select_in_scope:
  assumes "max_param q \<le> length args" "x \<in> set (filter (selected ms cols (andScope q s col args)) rows)"
  shows "x \<in> set rows \<and> permits s (owner x)"
  using assms by (simp add: selected_iff)

lemma delete_keeps_out_of_scope:
  assumes "max_param q \<le> length args"
  shows "filter (\<lambda>x. \<not> permits s (owner x)) (filter (\<lambda>x. \<not> selected ms cols (andScope q s col args) x) rows)
         = filter (\<lambda>x. \<not> permits s (owner x)) rows"
  using assms by (auto simp: selected_iff intro!: filter_cong)

lemma update_keeps_out_of_scope:
  assumes "max_param q \<le> length args" "\<And>x. owner (f x) = owner x"
  shows "filter (\<lambda>x. \<not> permits s (owner x)) (map (\<lambda>x. if selected ms cols (andScope q s col args) x then f x else x) rows)
         = filter (\<lambda>x. \<not> permits s (owner x)) rows"
  using assms by (induction rows) (auto simp: selected_iff)

lemma zero_selects_nothing:
  "max_param q \<le> length args \<Longrightarrow> filter (selected ms cols (andScope q OrgScope_zero col args)) rows = []"
  by (simp add: selected_iff)

end

text \<open>
  C36: the SQL predicate of a scope and its in-memory check agree. For every scope, column and number of
  arguments already bound, the clause \<open>OrgScope.SQL\<close> renders, evaluated with its own argument appended,
  selects a row exactly when \<open>PermitsOrganization\<close> accepts the row's owner (a NULL owner is the empty
  string there, and an owner column never holds the empty string).
\<close>

theorem OrgScope_SQL_agrees_with_PermitsOrganization:
  assumes "own \<noteq> Some ''''" and "r column = owner_val own"
  shows "holds ms (args @ snd (OrgScope_SQL s column (length args + 1))) r
           (fst (OrgScope_SQL s column (length args + 1)))
         \<longleftrightarrow> PermitsOrganization s (case own of None \<Rightarrow> '''' | Some i \<Rightarrow> i)"
proof -
  have "holds ms (args @ snd (OrgScope_SQL s column (length args + 1))) r
      (fst (OrgScope_SQL s column (length args + 1))) \<longleftrightarrow> permits s own"
    using assms(2) by (auto simp: OrgScope_SQL_holds permits_def split: option.splits)
  with assms(1) show ?thesis by (simp add: permits_organization)
qed

theorem OrgScope_SQL_agrees_with_PermitsOrganization_witness:
  "Some ''o1'' \<noteq> Some '''' \<and>
   (holds [] ([VText ''x''] @ snd (OrgScope_SQL (OrgScopeOrganizations [''o1'']) ''id'' (length [VText ''x''] + 1)))
      (\<lambda>c. VText ''o1'') (fst (OrgScope_SQL (OrgScopeOrganizations [''o1'']) ''id'' (length [VText ''x''] + 1)))
    \<longleftrightarrow> PermitsOrganization (OrgScopeOrganizations [''o1'']) ''o1'')"
  using OrgScope_SQL_agrees_with_PermitsOrganization
    [of "Some ''o1''" "\<lambda>c. VText ''o1''" "''id''" "[]" "[VText ''x'']" "OrgScopeOrganizations [''o1'']"]
  by simp

text \<open>
  The fail-closed default and the shape of the clause. The text rendered is never empty and is the
  one \<open>OrgScope.SQL\<close> formats; a scope reports \<open>MatchesNothing\<close> exactly when it permits no owner at
  all, which the zero value and the allowlist of no (non-empty) ids do; an allowlist permits exactly the
  ids it was given, and no unowned row; the ids are kept sorted and without repetition.
\<close>

theorem OrgScope_fail_closed:
  "render (fst (OrgScope_SQL s c n)) = OrgScope_SQL_text s c n \<and> OrgScope_SQL_text s c n \<noteq> ''''
   \<and> (MatchesNothing s \<longleftrightarrow> (\<forall>own. \<not> permits s own))
   \<and> MatchesNothing OrgScope_zero \<and> MatchesNothing (OrgScopeOrganizations [])
   \<and> (permits (OrgScopeOrganizations ids) own \<longleftrightarrow> (\<exists>i. own = Some i \<and> i \<in> set ids \<and> i \<noteq> ''''))
   \<and> sorted (OrganizationIDs (OrgScopeOrganizations ids)) \<and> distinct (OrganizationIDs (OrgScopeOrganizations ids))"
proof (intro conjI)
  show "render (fst (OrgScope_SQL s c n)) = OrgScope_SQL_text s c n" by (rule render_OrgScope_SQL)
  show "OrgScope_SQL_text s c n \<noteq> ''''"
    using render_not_Nil [of "fst (OrgScope_SQL s c n)"] by (simp add: render_OrgScope_SQL)
  show "MatchesNothing s \<longleftrightarrow> (\<forall>own. \<not> permits s own)" by (rule MatchesNothing_permits)
  show "MatchesNothing OrgScope_zero" "MatchesNothing (OrgScopeOrganizations [])"
    by (simp_all add: MatchesNothing_def OrgScopeOrganizations_def)
  show "permits (OrgScopeOrganizations ids) own \<longleftrightarrow> (\<exists>i. own = Some i \<and> i \<in> set ids \<and> i \<noteq> '''')"
    by (auto simp: permits_def OrgScopeOrganizations_ids split: option.splits)
  show "sorted (OrganizationIDs (OrgScopeOrganizations ids))"
    "distinct (OrganizationIDs (OrgScopeOrganizations ids))"
    by (simp_all add: OrganizationIDs_def OrgScopeOrganizations_def cleanLoop_distinct)
qed

end
