(* ===== verification/Store_DB.thy ===== *)
theory Store_DB
  imports Models Org_Scope
begin

text \<open>
  The identity schema as the migrations of \<open>identity/migrations\<close> leave it: one list of rows per table,
  the integrity constraints (primary keys, unique columns, foreign keys, the partial unique index on the
  active OIDC configuration) as the invariant \<open>db_wf\<close>, and the effect of the statements on it. An
  \<open>INSERT\<close> or \<open>UPDATE\<close> that would break a constraint is refused by the database (\<open>checked\<close>); a
  \<open>DELETE\<close> cascades along the foreign keys. Rows are returned in table order unless the statement
  orders them; a tie in the order is broken by table order.

  Also the error values of package \<open>store\<close> and its helpers \<open>notFound\<close>, \<open>requireRow\<close> and
  \<open>affectedRows\<close> (\<open>errors.go\<close>).
\<close>

record db =
  organizations :: "Organization list"
  users :: "User list"
  role_templates :: "RoleTemplate list"
  organization_members :: "OrganizationMember list"
  api_keys :: "APIKey list"
  audit_logs :: "AuditLog list"
  revoked_tokens :: "RevokedToken list"
  notify_dedup_claims :: "DedupClaim list"
  oidc_config :: "OIDCConfig list"

definition empty_db :: db where
  "empty_db = \<lparr>organizations = [], users = [], role_templates = [], organization_members = [], api_keys = [],
     audit_logs = [], revoked_tokens = [], notify_dedup_claims = [], oidc_config = []\<rparr>"

subsection \<open>Errors\<close>

datatype store_error =
    ErrNotFound string
  | Failed string
  | RoleTemplateNotFound string
  | ErrNoReducer
  | ErrNoCredentialDecision
  | ErrNoTemplateReconciler
  | EmptyTemplateID
  | BatchSizeNotPositive int
  | ErrReconciliationIncomplete
  | NilTemplate
  | CountMismatch nat nat
  | AppCredentialsFailed
  | ErrPrefixNotDiscriminating string
  | ErrEmptyTokenID
  | LinkRefusedOtherSubject string
  | LinkRefusedUnverified string
  | CreateRefusedUnverified string
  | UserVanished string
  | ConflictNotFound string
  | LegalHoldTable string

fun is_not_found :: "store_error \<Rightarrow> bool" where
  "is_not_found (ErrNotFound w) = True"
| "is_not_found _ = False"

definition notFound :: "string \<Rightarrow> store_error" where
  "notFound what = ErrNotFound what"

definition requireRow :: "bool \<Rightarrow> nat \<Rightarrow> string \<Rightarrow> store_error + unit" where
  "requireRow rowsAffectedFails n what =
     (if rowsAffectedFails then Inl (Failed what)
      else if n = 0 then Inl (notFound what)
      else Inr ())"

definition affectedRows :: "bool \<Rightarrow> nat \<Rightarrow> string \<Rightarrow> store_error + nat" where
  "affectedRows rowsAffectedFails n what = (if rowsAffectedFails then Inl (Failed what) else Inr n)"

lemma is_not_found_simps [simp]: "is_not_found (notFound w)" "\<not> is_not_found (Failed w)"
  by (simp_all add: notFound_def)

lemma requireRow_Inr [simp]: "requireRow f n w = Inr () \<longleftrightarrow> \<not> f \<and> n \<noteq> 0"
  by (simp add: requireRow_def)

lemma affectedRows_Inr [simp]: "affectedRows f n w = Inr m \<longleftrightarrow> \<not> f \<and> n = m"
  by (auto simp: affectedRows_def)

subsection \<open>Constraints\<close>

definition member_key :: "OrganizationMember \<Rightarrow> string \<times> string" where
  "member_key m = (mem_OrganizationID m, mem_UserID m)"

definition member_ok :: "db \<Rightarrow> OrganizationMember \<Rightarrow> bool" where
  "member_ok d m \<longleftrightarrow>
     mem_OrganizationID m \<in> org_ID ` set (organizations d)
     \<and> mem_UserID m \<in> usr_ID ` set (users d)
     \<and> (\<forall>t. mem_RoleTemplateID m = Some t \<longrightarrow> t \<in> rt_ID ` set (role_templates d))"

definition key_ok :: "db \<Rightarrow> APIKey \<Rightarrow> bool" where
  "key_ok d k \<longleftrightarrow>
     key_OrganizationID k \<in> org_ID ` set (organizations d)
     \<and> (\<forall>u. key_UserID k = Some u \<longrightarrow> u \<in> usr_ID ` set (users d))"

definition orgs_wf :: "db \<Rightarrow> bool" where
  "orgs_wf d \<longleftrightarrow> distinct (map org_ID (organizations d)) \<and> distinct (map org_Name (organizations d))"

definition users_wf :: "db \<Rightarrow> bool" where
  "users_wf d \<longleftrightarrow> distinct (map usr_ID (users d)) \<and> distinct (map usr_Email (users d))
     \<and> distinct (map usr_OIDCSub (filter (\<lambda>u. usr_OIDCSub u \<noteq> None) (users d)))"

definition templates_wf :: "db \<Rightarrow> bool" where
  "templates_wf d \<longleftrightarrow> distinct (map rt_ID (role_templates d)) \<and> distinct (map rt_Name (role_templates d))"

definition members_wf :: "db \<Rightarrow> bool" where
  "members_wf d \<longleftrightarrow> distinct (map member_key (organization_members d))
     \<and> list_all (member_ok d) (organization_members d)"

definition keys_wf :: "db \<Rightarrow> bool" where
  "keys_wf d \<longleftrightarrow> distinct (map key_ID (api_keys d)) \<and> list_all (key_ok d) (api_keys d)"

definition logs_wf :: "db \<Rightarrow> bool" where
  "logs_wf d \<longleftrightarrow> distinct (map log_ID (audit_logs d))"

definition tokens_wf :: "db \<Rightarrow> bool" where
  "tokens_wf d \<longleftrightarrow> distinct (map rev_JTI (revoked_tokens d))
     \<and> list_all (\<lambda>t. rev_UserID t \<in> usr_ID ` set (users d)) (revoked_tokens d)"

definition claims_wf :: "db \<Rightarrow> bool" where
  "claims_wf d \<longleftrightarrow> distinct (map dd_Key (notify_dedup_claims d))"

definition configs_wf :: "db \<Rightarrow> bool" where
  "configs_wf d \<longleftrightarrow> distinct (map oc_ID (oidc_config d)) \<and> length (filter oc_IsActive (oidc_config d)) \<le> 1"

definition db_wf :: "db \<Rightarrow> bool" where
  "db_wf d \<longleftrightarrow> orgs_wf d \<and> users_wf d \<and> templates_wf d \<and> members_wf d \<and> keys_wf d \<and> logs_wf d
     \<and> tokens_wf d \<and> claims_wf d \<and> configs_wf d"

lemmas wf_defs = db_wf_def orgs_wf_def users_wf_def templates_wf_def members_wf_def keys_wf_def logs_wf_def
  tokens_wf_def claims_wf_def configs_wf_def

lemma empty_db_wf: "db_wf empty_db"
  by (simp add: wf_defs empty_db_def)

text \<open>A statement whose result would break a constraint is refused.\<close>

definition checked :: "db \<Rightarrow> db option" where
  "checked d = (if db_wf d then Some d else None)"

lemma checked_Some [simp]: "checked d = Some d' \<longleftrightarrow> d' = d \<and> db_wf d"
  by (auto simp: checked_def)

lemma checked_None: "checked d = None \<longleftrightarrow> \<not> db_wf d"
  by (simp add: checked_def)

subsection \<open>Deletes, with their cascades\<close>

definition delete_organizations :: "(Organization \<Rightarrow> bool) \<Rightarrow> db \<Rightarrow> db" where
  "delete_organizations P d =
     (let gone = map org_ID (filter P (organizations d))
      in d\<lparr>organizations := filter (\<lambda>x. \<not> P x) (organizations d),
           organization_members := filter (\<lambda>m. mem_OrganizationID m \<notin> set gone) (organization_members d),
           api_keys := filter (\<lambda>k. key_OrganizationID k \<notin> set gone) (api_keys d)\<rparr>)"

definition delete_users :: "(User \<Rightarrow> bool) \<Rightarrow> db \<Rightarrow> db" where
  "delete_users P d =
     (let gone = map usr_ID (filter P (users d))
      in d\<lparr>users := filter (\<lambda>x. \<not> P x) (users d),
           organization_members := filter (\<lambda>m. mem_UserID m \<notin> set gone) (organization_members d),
           api_keys := filter (\<lambda>k. \<forall>u \<in> set gone. key_UserID k \<noteq> Some u) (api_keys d),
           revoked_tokens := filter (\<lambda>t. rev_UserID t \<notin> set gone) (revoked_tokens d)\<rparr>)"

definition clear_template :: "string set \<Rightarrow> OrganizationMember \<Rightarrow> OrganizationMember" where
  "clear_template gone m =
     (case mem_RoleTemplateID m of None \<Rightarrow> m
      | Some t \<Rightarrow> if t \<in> gone then m\<lparr>mem_RoleTemplateID := None\<rparr> else m)"

definition delete_role_templates :: "(RoleTemplate \<Rightarrow> bool) \<Rightarrow> db \<Rightarrow> db" where
  "delete_role_templates P d =
     (let gone = map rt_ID (filter P (role_templates d))
      in d\<lparr>role_templates := filter (\<lambda>x. \<not> P x) (role_templates d),
           organization_members := map (clear_template (set gone)) (organization_members d)\<rparr>)"

definition delete_members :: "(OrganizationMember \<Rightarrow> bool) \<Rightarrow> db \<Rightarrow> db" where
  "delete_members P d = d\<lparr>organization_members := filter (\<lambda>m. \<not> P m) (organization_members d)\<rparr>"

definition delete_keys :: "(APIKey \<Rightarrow> bool) \<Rightarrow> db \<Rightarrow> db" where
  "delete_keys P d = d\<lparr>api_keys := filter (\<lambda>k. \<not> P k) (api_keys d)\<rparr>"

lemma filter_distinct_map: "distinct (map f xs) \<Longrightarrow> distinct (map f (filter P xs))"
  by (rule distinct_map_filter)

lemma delete_members_wf [wf_intros]: "db_wf d \<Longrightarrow> db_wf (delete_members P d)"
  by (auto simp: wf_defs delete_members_def list_all_iff member_ok_def key_ok_def filter_distinct_map)

lemma delete_keys_wf [wf_intros]: "db_wf d \<Longrightarrow> db_wf (delete_keys P d)"
  by (auto simp: wf_defs delete_keys_def list_all_iff member_ok_def key_ok_def filter_distinct_map)

lemma remaining_ids:
  assumes "i \<in> f ` set xs" "i \<notin> f ` set (filter P xs)"
  shows "i \<in> f ` set (filter (\<lambda>x. \<not> P x) xs)"
  using assms by auto

lemma delete_organizations_wf [wf_intros]:
  assumes "db_wf d" shows "db_wf (delete_organizations P d)"
proof -
  have "members_wf (delete_organizations P d)"
    using assms remaining_ids [of _ org_ID "organizations d" P]
    by (auto simp: wf_defs delete_organizations_def list_all_iff member_ok_def filter_distinct_map Let_def)
  moreover have "keys_wf (delete_organizations P d)"
    using assms remaining_ids [of _ org_ID "organizations d" P]
    by (auto simp: wf_defs delete_organizations_def list_all_iff key_ok_def filter_distinct_map Let_def)
  ultimately show ?thesis
    using assms by (auto simp: wf_defs delete_organizations_def filter_distinct_map Let_def)
qed

lemma distinct_filter_swap: "distinct (map f (filter Q xs)) \<Longrightarrow> distinct (map f (filter Q (filter P xs)))"
proof -
  assume "distinct (map f (filter Q xs))"
  then have "distinct (map f (filter P (filter Q xs)))" by (rule distinct_map_filter)
  then show ?thesis by (simp add: conj_commute)
qed

lemma users_filter_wf: "users_wf d \<Longrightarrow> users_wf (delete_users P d)"
  unfolding users_wf_def delete_users_def Let_def
  by (simp add: filter_distinct_map distinct_filter_swap del: filter_filter)

lemma delete_users_wf [wf_intros]:
  assumes "db_wf d" shows "db_wf (delete_users P d)"
proof -
  have "members_wf (delete_users P d)"
    using assms remaining_ids [of _ usr_ID "users d" P]
    by (auto simp: db_wf_def members_wf_def delete_users_def list_all_iff member_ok_def filter_distinct_map Let_def)
  moreover have "keys_wf (delete_users P d)"
    using assms remaining_ids [of _ usr_ID "users d" P]
    by (fastforce simp: db_wf_def keys_wf_def delete_users_def list_all_iff key_ok_def filter_distinct_map Let_def)
  moreover have "tokens_wf (delete_users P d)"
    using assms remaining_ids [of _ usr_ID "users d" P]
    by (auto simp: db_wf_def tokens_wf_def delete_users_def list_all_iff filter_distinct_map Let_def)
  moreover have "users_wf (delete_users P d)"
    using assms by (simp add: db_wf_def users_filter_wf)
  ultimately show ?thesis
    using assms by (auto simp: db_wf_def orgs_wf_def templates_wf_def logs_wf_def claims_wf_def configs_wf_def
        delete_users_def Let_def)
qed

lemma clear_template_key [simp]: "member_key (clear_template g m) = member_key m"
  "mem_OrganizationID (clear_template g m) = mem_OrganizationID m" "mem_UserID (clear_template g m) = mem_UserID m"
  by (simp_all add: clear_template_def member_key_def split: option.splits)

lemma delete_role_templates_wf [wf_intros]:
  assumes "db_wf d" shows "db_wf (delete_role_templates P d)"
proof -
  have "members_wf (delete_role_templates P d)"
  proof -
    let ?gone = "set (map rt_ID (filter P (role_templates d)))"
    have "map member_key (map (clear_template ?gone) (organization_members d)) = map member_key (organization_members d)"
      by simp
    moreover have "member_ok (delete_role_templates P d) (clear_template ?gone m)"
      if "m \<in> set (organization_members d)" for m
      using assms that
      by (fastforce simp: db_wf_def members_wf_def list_all_iff member_ok_def delete_role_templates_def
          clear_template_def Let_def split: option.splits)
    ultimately show ?thesis
      using assms unfolding members_wf_def db_wf_def list_all_iff
      by (simp add: delete_role_templates_def Let_def del: map_map)
  qed
  moreover have "keys_wf (delete_role_templates P d)"
    using assms by (auto simp: db_wf_def keys_wf_def key_ok_def delete_role_templates_def Let_def list_all_iff)
  moreover have "templates_wf (delete_role_templates P d)"
    using assms by (simp add: db_wf_def templates_wf_def delete_role_templates_def filter_distinct_map Let_def)
  ultimately show ?thesis
    using assms by (auto simp: db_wf_def orgs_wf_def users_wf_def tokens_wf_def logs_wf_def claims_wf_def
        configs_wf_def delete_role_templates_def Let_def)
qed

subsection \<open>Reading\<close>

text \<open>Pairs of \<open>organization_members\<close>, for the membership subqueries.\<close>

definition pairs :: "db \<Rightarrow> member_pairs" where
  "pairs d = map member_key (organization_members d)"

lemma pairs_simps [simp]:
  "pairs (d\<lparr>users := x\<rparr>) = pairs d" "pairs (d\<lparr>api_keys := y\<rparr>) = pairs d" "pairs (d\<lparr>audit_logs := z\<rparr>) = pairs d"
  by (simp_all add: pairs_def)

definition order_desc :: "('a \<Rightarrow> int) \<Rightarrow> 'a list \<Rightarrow> 'a list" where
  "order_desc f xs = sort_key (\<lambda>x. - f x) xs"

definition order_asc :: "('a \<Rightarrow> int) \<Rightarrow> 'a list \<Rightarrow> 'a list" where
  "order_asc f xs = sort_key f xs"

lemma set_order [simp]: "set (order_desc f xs) = set xs" "set (order_asc f xs) = set xs"
  "length (order_desc f xs) = length xs" "length (order_asc f xs) = length xs"
  by (simp_all add: order_desc_def order_asc_def)

text \<open>\<open>LIMIT\<close> and \<open>OFFSET\<close>; the server refuses negative values.\<close>

definition paginate :: "int \<Rightarrow> int \<Rightarrow> 'a list \<Rightarrow> 'a list option" where
  "paginate limit offset xs =
     (if limit < 0 \<or> offset < 0 then None else Some (take (nat limit) (drop (nat offset) xs)))"

lemma paginate_set: "paginate l f xs = Some ys \<Longrightarrow> set ys \<subseteq> set xs"
  by (auto simp: paginate_def split: if_splits dest: in_set_takeD in_set_dropD)

text \<open>Scanning the rows of a result: the first row that does not decode fails the call.\<close>

fun scan_rows :: "('a \<Rightarrow> store_error + 'b) \<Rightarrow> 'a list \<Rightarrow> store_error + 'b list" where
  "scan_rows f [] = Inr []"
| "scan_rows f (x # xs) =
     (case f x of Inl e \<Rightarrow> Inl e
      | Inr y \<Rightarrow> (case scan_rows f xs of Inl e \<Rightarrow> Inl e | Inr ys \<Rightarrow> Inr (y # ys)))"

lemma scan_rows_Inr: "scan_rows f xs = Inr ys \<longleftrightarrow> list_all2 (\<lambda>x y. f x = Inr y) xs ys"
proof (induction xs arbitrary: ys)
  case Nil
  then show ?case by auto
next
  case (Cons x xs)
  then show ?case by (cases ys) (auto simp flip: Cons.IH split: sum.splits)
qed

lemma scan_rows_mem:
  "scan_rows f xs = Inr ys \<Longrightarrow> y \<in> set ys \<Longrightarrow> \<exists>x \<in> set xs. f x = Inr y"
  by (auto simp: scan_rows_Inr list_all2_conv_all_nth in_set_conv_nth) (metis nth_mem)

lemma scan_rows_mem':
  "scan_rows f xs = Inr ys \<Longrightarrow> x \<in> set xs \<Longrightarrow> \<exists>y \<in> set ys. f x = Inr y"
  by (auto simp: scan_rows_Inr list_all2_conv_all_nth in_set_conv_nth)

lemma scan_rows_length: "scan_rows f xs = Inr ys \<Longrightarrow> length ys = length xs"
  by (simp add: scan_rows_Inr list_all2_lengthD)

subsection \<open>Columns of the tables\<close>

definition org_cols :: "Organization \<Rightarrow> row" where
  "org_cols x c =
     (if c = ''id'' \<or> c = ''o.id'' then VText (org_ID x)
      else if c = ''name'' then VText (org_Name x)
      else if c = ''display_name'' then VText (org_DisplayName x)
      else VNull)"

definition user_cols :: "User \<Rightarrow> row" where
  "user_cols x c =
     (if c = ''id'' \<or> c = ''users.id'' then VText (usr_ID x)
      else if c = ''email'' then VText (usr_Email x)
      else if c = ''name'' then VText (usr_Name x)
      else if c = ''oidc_sub'' then owner_val (usr_OIDCSub x)
      else VNull)"

definition member_cols :: "OrganizationMember \<Rightarrow> row" where
  "member_cols x c =
     (if c = ''organization_id'' \<or> c = ''om.organization_id'' then VText (mem_OrganizationID x)
      else if c = ''user_id'' \<or> c = ''om.user_id'' then VText (mem_UserID x)
      else VNull)"

definition key_cols :: "APIKey \<Rightarrow> row" where
  "key_cols x c =
     (if c = ''id'' then VText (key_ID x)
      else if c = ''organization_id'' \<or> c = ''ak.organization_id'' then VText (key_OrganizationID x)
      else if c = ''user_id'' \<or> c = ''ak.user_id'' then owner_val (key_UserID x)
      else VNull)"

lemmas column_defs = org_cols_def user_cols_def member_cols_def key_cols_def

interpretation orgs: scoped_table org_cols "''id''" "\<lambda>x. Some (org_ID x)"
  by unfold_locales (simp add: org_cols_def)

interpretation orgs_o: scoped_table org_cols "''o.id''" "\<lambda>x. Some (org_ID x)"
  by unfold_locales (simp add: org_cols_def)

interpretation members: scoped_table member_cols "''organization_id''" "\<lambda>x. Some (mem_OrganizationID x)"
  by unfold_locales (simp add: member_cols_def)

interpretation members_om: scoped_table member_cols "''om.organization_id''" "\<lambda>x. Some (mem_OrganizationID x)"
  by unfold_locales (simp add: member_cols_def)

interpretation keys: scoped_table key_cols "''organization_id''" "\<lambda>x. Some (key_OrganizationID x)"
  by unfold_locales (simp add: key_cols_def)

interpretation keys_ak: scoped_table key_cols "''ak.organization_id''" "\<lambda>x. Some (key_OrganizationID x)"
  by unfold_locales (simp add: key_cols_def)

lemmas table_selected = orgs.selected_iff orgs_o.selected_iff members.selected_iff members_om.selected_iff
  keys.selected_iff keys_ak.selected_iff

lemma user_selected:
  "max_param q \<le> length args \<Longrightarrow>
     selected ms user_cols (andMembershipScope q s ''users.id'' args) x \<longleftrightarrow>
       holds ms args (user_cols x) q \<and> permits_user s ms (usr_ID x)"
  using andMembershipScope_holds [of q args "user_cols x" "''users.id''" "usr_ID x" ms s]
  by (simp add: selected_def user_cols_def)

subsection \<open>An example\<close>

text \<open>A small database: organization \<open>o1\<close>, user \<open>u1\<close> with role \<open>reader\<close> there and two keys, one reading,
  one writing.\<close>

definition ex_key :: "string \<Rightarrow> string list \<Rightarrow> APIKey" where
  "ex_key i ss = \<lparr>key_ID = i, key_UserID = Some ''u1'', key_OrganizationID = ''o1'', key_Name = i,
     key_Description = None, key_KeyHash = i, key_KeyPrefix = ''p'', key_Scopes = JStrings ss, key_ExpiresAt = None,
     key_LastUsedAt = None, key_ExpiryNotificationSentAt = None, key_CreatedAt = 1\<rparr>"

definition ex_template :: "string \<Rightarrow> string list \<Rightarrow> RoleTemplate" where
  "ex_template i ss = \<lparr>rt_ID = i, rt_Name = i, rt_DisplayName = i, rt_Description = None, rt_Scopes = JStrings ss,
     rt_IsSystem = False, rt_CreatedAt = 1, rt_UpdatedAt = 1\<rparr>"

definition ex_db :: db where
  "ex_db = empty_db\<lparr>
     organizations := [\<lparr>org_ID = ''o1'', org_Name = ''one'', org_DisplayName = ''One'', org_IdpType = None,
                        org_IdpName = None, org_CreatedAt = 1, org_UpdatedAt = 1\<rparr>],
     users := [\<lparr>usr_ID = ''u1'', usr_Email = ''a@x'', usr_Name = ''A'', usr_OIDCSub = None, usr_CreatedAt = 1, usr_UpdatedAt = 1\<rparr>],
     role_templates := [ex_template ''writer'' [''r'', ''w''], ex_template ''reader'' [''r'']],
     organization_members := [\<lparr>mem_OrganizationID = ''o1'', mem_UserID = ''u1'', mem_RoleTemplateID = Some ''writer'', mem_CreatedAt = 1\<rparr>],
     api_keys := [ex_key ''k1'' [''r''], ex_key ''k2'' [''w'']]\<rparr>"

lemmas ex_defs = ex_db_def ex_key_def ex_template_def empty_db_def

lemma ex_db_wf: "db_wf ex_db"
  by (simp add: wf_defs ex_defs member_ok_def key_ok_def member_key_def)

end
