(* ===== verification/Api_Key_Repo.thy ===== *)
theory Api_Key_Repo
  imports Store_DB
begin

text \<open>
  Package \<open>identity/store\<close>, file \<open>api_key_repository.go\<close>: creating, reading, updating and revoking API
  keys, the lookup by prefix that authentication starts from, and the expiry notifications.

  \<open>now\<close> is the process clock, \<open>dbnow\<close> the database clock. \<open>io 0\<close> is the statement, \<open>io 1\<close> reading its
  rows or its row count. A key is read as \<open>KeyModel\<close>: the row with its scopes decoded and, for the
  listings, the owner's name joined in.
\<close>

record KeyModel =
  km_ID :: string
  km_UserID :: "string option"
  km_OrganizationID :: string
  km_Name :: string
  km_Description :: "string option"
  km_KeyHash :: string
  km_KeyPrefix :: string
  km_Scopes :: "string list"
  km_ExpiresAt :: "time option"
  km_LastUsedAt :: "time option"
  km_ExpiryNotificationSentAt :: "time option"
  km_CreatedAt :: time
  km_UserName :: "string option"

definition scanAPIKey :: "APIKey \<Rightarrow> store_error + KeyModel" where
  "scanAPIKey k =
     (case unmarshal_strings (key_Scopes k) of
        None \<Rightarrow> Inl (Failed ''failed to unmarshal api key scopes'')
      | Some scopes \<Rightarrow> Inr \<lparr>km_ID = key_ID k, km_UserID = key_UserID k, km_OrganizationID = key_OrganizationID k,
          km_Name = key_Name k, km_Description = key_Description k, km_KeyHash = key_KeyHash k,
          km_KeyPrefix = key_KeyPrefix k, km_Scopes = scopes, km_ExpiresAt = key_ExpiresAt k,
          km_LastUsedAt = key_LastUsedAt k, km_ExpiryNotificationSentAt = key_ExpiryNotificationSentAt k,
          km_CreatedAt = key_CreatedAt k, km_UserName = None\<rparr>)"

text \<open>\<open>LEFT JOIN users u ON ak.user_id = u.id\<close>, read by \<open>scanAPIKeyWithUserName\<close>.\<close>

definition owner_name :: "db \<Rightarrow> APIKey \<Rightarrow> string option" where
  "owner_name d k =
     (case key_UserID k of None \<Rightarrow> None | Some u \<Rightarrow> map_option usr_Name (find (\<lambda>x. usr_ID x = u) (users d)))"

definition scanAPIKeyWithUserName :: "db \<Rightarrow> APIKey \<Rightarrow> store_error + KeyModel" where
  "scanAPIKeyWithUserName d k =
     (case unmarshal_strings (key_Scopes k) of
        None \<Rightarrow> Inl (Failed ''failed to unmarshal api key scopes'')
      | Some scopes \<Rightarrow> Inr \<lparr>km_ID = key_ID k, km_UserID = key_UserID k, km_OrganizationID = key_OrganizationID k,
          km_Name = key_Name k, km_Description = key_Description k, km_KeyHash = key_KeyHash k,
          km_KeyPrefix = key_KeyPrefix k, km_Scopes = scopes, km_ExpiresAt = key_ExpiresAt k,
          km_LastUsedAt = key_LastUsedAt k, km_ExpiryNotificationSentAt = key_ExpiryNotificationSentAt k,
          km_CreatedAt = key_CreatedAt k, km_UserName = owner_name d k\<rparr>)"

subsection \<open>Creating and changing\<close>

text \<open>The insert selects from \<open>organizations\<close>, so a key is created only in an organization the scope
  permits. The caller's struct gets its new id and time on every path.\<close>

definition CreateAPIKey :: "io \<Rightarrow> string \<Rightarrow> time \<Rightarrow> KeyModel \<Rightarrow> OrgScope \<Rightarrow> db \<Rightarrow> (store_error + unit) \<times> KeyModel \<times> db" where
  "CreateAPIKey io newID now apiKey scope d =
     (let k = apiKey\<lparr>km_ID := newID, km_CreatedAt := now\<rparr>;
          scopesJSON = marshal_strings (km_Scopes k)
      in if MatchesNothing scope then (Inl (notFound ''api key organization''), k, d)
         else
           let wa = andScope (P_eq ''o.id'' 3) scope ''o.id''
                      [VText (km_ID k), owner_val (km_UserID k), VText (km_OrganizationID k), VText (km_Name k),
                       owner_val (km_Description k), VText (km_KeyHash k), VText (km_KeyPrefix k), VNull, VNull, VNull, VTime now];
               new = map (\<lambda>x. \<lparr>key_ID = km_ID k, key_UserID = km_UserID k, key_OrganizationID = org_ID x,
                       key_Name = km_Name k, key_Description = km_Description k, key_KeyHash = km_KeyHash k,
                       key_KeyPrefix = km_KeyPrefix k, key_Scopes = scopesJSON, key_ExpiresAt = km_ExpiresAt k,
                       key_LastUsedAt = km_LastUsedAt k, key_ExpiryNotificationSentAt = None, key_CreatedAt = now\<rparr>)
                     (filter (selected (pairs d) org_cols wa) (organizations d))
           in if io 0 then (Inl (Failed ''failed to create api key''), k, d)
              else (case checked (d\<lparr>api_keys := api_keys d @ new\<rparr>) of
                      None \<Rightarrow> (Inl (Failed ''failed to create api key''), k, d)
                    | Some d' \<Rightarrow> (requireRow (io 1) (length new) ''api key organization'', k, d')))"

definition update_keys :: "(APIKey \<Rightarrow> bool) \<Rightarrow> (APIKey \<Rightarrow> APIKey) \<Rightarrow> db \<Rightarrow> db" where
  "update_keys hit f d = d\<lparr>api_keys := map (\<lambda>k. if hit k then f k else k) (api_keys d)\<rparr>"

definition UpdateLastUsed :: "io \<Rightarrow> time \<Rightarrow> string \<Rightarrow> db \<Rightarrow> (store_error + unit) \<times> db" where
  "UpdateLastUsed io now keyID d =
     (let hit = (\<lambda>k. key_ID k = keyID)
      in if io 0 then (Inl (Failed ''failed to update api key last used''), d)
         else (requireRow (io 1) (length (filter hit (api_keys d))) ''api key by id'',
               update_keys hit (\<lambda>k. k\<lparr>key_LastUsedAt := Some now\<rparr>) d))"

definition UpdateKey :: "io \<Rightarrow> KeyModel \<Rightarrow> OrgScope \<Rightarrow> db \<Rightarrow> (store_error + unit) \<times> db" where
  "UpdateKey io apiKey scope d =
     (if MatchesNothing scope then (Inl (notFound ''api key by id''), d)
      else
        let wa = andScope (P_eq ''id'' 1) scope ''organization_id''
                   [VText (km_ID apiKey), VText (km_Name apiKey), owner_val (km_Description apiKey), VNull, VNull];
            hit = selected (pairs d) key_cols wa
        in if io 0 then (Inl (Failed ''failed to update api key''), d)
           else (requireRow (io 1) (length (filter hit (api_keys d))) ''api key by id'',
                 update_keys hit (\<lambda>k. k\<lparr>key_Name := km_Name apiKey, key_Description := km_Description apiKey,
                   key_Scopes := marshal_strings (km_Scopes apiKey), key_ExpiresAt := km_ExpiresAt apiKey\<rparr>) d))"

definition RevokeAPIKey :: "io \<Rightarrow> string \<Rightarrow> OrgScope \<Rightarrow> db \<Rightarrow> (store_error + unit) \<times> db" where
  "RevokeAPIKey io keyID scope d =
     (if MatchesNothing scope then (Inl (notFound ''api key by id''), d)
      else
        let wa = andScope (P_eq ''id'' 1) scope ''organization_id'' [VText keyID];
            hit = selected (pairs d) key_cols wa
        in if io 0 then (Inl (Failed ''failed to revoke api key''), d)
           else (requireRow (io 1) (length (filter hit (api_keys d))) ''api key by id'', delete_keys hit d))"

definition RevokeAPIKeysForUser :: "io \<Rightarrow> string \<Rightarrow> OrgScope \<Rightarrow> db \<Rightarrow> (store_error + nat) \<times> db" where
  "RevokeAPIKeysForUser io userID scope d =
     (if MatchesNothing scope then (Inr 0, d)
      else
        let wa = andScope (P_eq ''user_id'' 1) scope ''organization_id'' [VText userID];
            hit = selected (pairs d) key_cols wa
        in if io 0 then (Inl (Failed ''failed to revoke api keys for user''), d)
           else (affectedRows (io 1) (length (filter hit (api_keys d))) ''api keys for user'', delete_keys hit d))"

definition DeleteExpiredKeys :: "io \<Rightarrow> time \<Rightarrow> db \<Rightarrow> (store_error + nat) \<times> db" where
  "DeleteExpiredKeys io now d =
     (let hit = (\<lambda>k. case key_ExpiresAt k of None \<Rightarrow> False | Some t \<Rightarrow> t < now)
      in if io 0 then (Inl (Failed ''failed to delete expired api keys''), d)
         else (affectedRows (io 1) (length (filter hit (api_keys d))) ''expired api keys'', delete_keys hit d))"

subsection \<open>Reading\<close>

definition GetAPIKeyByID :: "io \<Rightarrow> string \<Rightarrow> OrgScope \<Rightarrow> db \<Rightarrow> store_error + KeyModel" where
  "GetAPIKeyByID io keyID scope d =
     (if MatchesNothing scope then Inl (notFound ''api key by id'')
      else
        let wa = andScope (P_eq ''id'' 1) scope ''organization_id'' [VText keyID]
        in if io 0 then Inl (Failed ''failed to get api key by id'')
           else (case filter (selected (pairs d) key_cols wa) (api_keys d) of
                   [] \<Rightarrow> Inl (notFound ''api key by id'')
                 | k # _ \<Rightarrow> scanAPIKey k))"

text \<open>The four listings share the join, the order and the scan.\<close>

definition list_keys :: "io \<Rightarrow> string \<Rightarrow> sql_pred \<times> sqlval list \<Rightarrow> db \<Rightarrow> store_error + KeyModel list" where
  "list_keys io what wa d =
     (if io 0 then Inl (Failed what)
      else (case scan_rows (scanAPIKeyWithUserName d)
              (order_desc key_CreatedAt (filter (selected (pairs d) key_cols wa) (api_keys d))) of
              Inl e \<Rightarrow> Inl e
            | Inr ks \<Rightarrow> if io 1 then Inl (Failed ''failed to scan api key'') else Inr ks))"

definition ListAPIKeysByUser :: "io \<Rightarrow> string \<Rightarrow> OrgScope \<Rightarrow> db \<Rightarrow> store_error + KeyModel list" where
  "ListAPIKeysByUser io userID scope d =
     (if MatchesNothing scope then Inr []
      else list_keys io ''failed to list api keys by user''
             (andScope (P_eq ''ak.user_id'' 1) scope ''ak.organization_id'' [VText userID]) d)"

definition ListAPIKeysByOrganization :: "io \<Rightarrow> string \<Rightarrow> OrgScope \<Rightarrow> db \<Rightarrow> store_error + KeyModel list" where
  "ListAPIKeysByOrganization io orgID scope d =
     (if MatchesNothing scope then Inr []
      else list_keys io ''failed to list api keys by organization''
             (andScope (P_eq ''ak.organization_id'' 1) scope ''ak.organization_id'' [VText orgID]) d)"

definition ListByUserAndOrganization :: "io \<Rightarrow> string \<Rightarrow> string \<Rightarrow> OrgScope \<Rightarrow> db \<Rightarrow> store_error + KeyModel list" where
  "ListByUserAndOrganization io userID orgID scope d =
     (if MatchesNothing scope then Inr []
      else list_keys io ''failed to list api keys by user and organization''
             (andScope (P_and (P_eq ''ak.user_id'' 1) (P_eq ''ak.organization_id'' 2)) scope ''ak.organization_id''
               [VText userID, VText orgID]) d)"

definition ListAPIKeys :: "io \<Rightarrow> OrgScope \<Rightarrow> db \<Rightarrow> store_error + KeyModel list" where
  "ListAPIKeys io scope d =
     (if MatchesNothing scope then Inr []
      else list_keys io ''failed to list api keys'' (andScope P_true scope ''ak.organization_id'' []) d)"

definition maxPrefixCandidates :: nat where
  "maxPrefixCandidates = 100"

definition GetAPIKeysByPrefix :: "io \<Rightarrow> time \<Rightarrow> string \<Rightarrow> db \<Rightarrow> store_error + KeyModel list" where
  "GetAPIKeysByPrefix io dbnow keyPrefix d =
     (let live = (\<lambda>k. key_KeyPrefix k = keyPrefix \<and> (case key_ExpiresAt k of None \<Rightarrow> True | Some t \<Rightarrow> t > dbnow))
      in if io 0 then Inl (Failed ''failed to get api keys by prefix'')
         else (case scan_rows scanAPIKey
                 (take (maxPrefixCandidates + 1) (order_desc key_CreatedAt (filter live (api_keys d)))) of
                 Inl e \<Rightarrow> Inl e
               | Inr ks \<Rightarrow>
                   if io 1 then Inl (Failed ''rows'')
                   else if length ks > maxPrefixCandidates then Inl (ErrPrefixNotDiscriminating keyPrefix)
                   else Inr ks))"

definition FindExpiringKeys :: "io \<Rightarrow> time \<Rightarrow> time \<Rightarrow> int \<Rightarrow> db \<Rightarrow> store_error + KeyModel list" where
  "FindExpiringKeys io now dbnow warningDays d =
     (let cutoff = now + wrap64 (wrap64 (warningDays * 24) * hour);
          due = (\<lambda>k. case key_ExpiresAt k of None \<Rightarrow> False
                 | Some t \<Rightarrow> t > dbnow \<and> t \<le> cutoff \<and> key_ExpiryNotificationSentAt k = None \<and> key_UserID k \<noteq> None)
      in if io 0 then Inl (Failed ''failed to find expiring api keys'')
         else (case scan_rows scanAPIKey (order_asc (\<lambda>k. the (key_ExpiresAt k)) (filter due (api_keys d))) of
                 Inl e \<Rightarrow> Inl e
               | Inr ks \<Rightarrow> if io 1 then Inl (Failed ''rows'') else Inr ks))"

definition ClaimExpiryNotification :: "io \<Rightarrow> time \<Rightarrow> string \<Rightarrow> db \<Rightarrow> (store_error + bool) \<times> db" where
  "ClaimExpiryNotification io now keyID d =
     (let hit = (\<lambda>k. key_ID k = keyID \<and> key_ExpiryNotificationSentAt k = None);
          d' = update_keys hit (\<lambda>k. k\<lparr>key_ExpiryNotificationSentAt := Some now\<rparr>) d
      in if io 0 then (Inl (Failed ''failed to claim api key expiry notification''), d)
         else if io 1 then (Inl (Failed ''failed to read claim result for api key expiry notification''), d')
         else (Inr (length (filter hit (api_keys d)) > 0), d'))"

subsection \<open>Lemmas\<close>

lemma scanAPIKey_Inr:
  "scanAPIKey k = Inr m \<Longrightarrow> km_ID m = key_ID k \<and> km_OrganizationID m = key_OrganizationID k \<and> km_UserID m = key_UserID k
     \<and> km_KeyPrefix m = key_KeyPrefix k \<and> km_KeyHash m = key_KeyHash k \<and> km_ExpiresAt m = key_ExpiresAt k
     \<and> unmarshal_strings (key_Scopes k) = Some (km_Scopes m)"
  by (auto simp: scanAPIKey_def split: option.splits)

lemma scanAPIKeyWithUserName_Inr:
  "scanAPIKeyWithUserName d k = Inr m \<Longrightarrow> km_ID m = key_ID k \<and> km_OrganizationID m = key_OrganizationID k \<and> km_UserID m = key_UserID k
     \<and> unmarshal_strings (key_Scopes k) = Some (km_Scopes m)"
  by (auto simp: scanAPIKeyWithUserName_def split: option.splits)

lemma update_keys_wf [wf_intros]:
  assumes "db_wf d" "\<And>k. key_ID (f k) = key_ID k" "\<And>k. key_OrganizationID (f k) = key_OrganizationID k"
    "\<And>k. key_UserID (f k) = key_UserID k"
  shows "db_wf (update_keys hit f d)"
proof -
  let ?g = "\<lambda>k. if hit k then f k else k"
  have "map key_ID (map ?g xs) = map key_ID xs" for xs using assms(2) by simp
  moreover have "key_ok d (?g k) = key_ok d k" for k using assms(3,4) by (simp add: key_ok_def)
  ultimately have "keys_wf (update_keys hit f d)"
    using assms(1) by (auto simp: db_wf_def keys_wf_def update_keys_def list_all_iff key_ok_def assms(3,4) simp del: map_map)
  then show ?thesis
    using assms(1) by (simp add: db_wf_def orgs_wf_def users_wf_def templates_wf_def members_wf_def logs_wf_def tokens_wf_def
        claims_wf_def configs_wf_def) (auto simp: update_keys_def member_ok_def list_all_iff)
qed

lemma CreateAPIKey_wf [wf_intros]: "db_wf d \<Longrightarrow> db_wf (snd (snd (CreateAPIKey io i now k scope d)))"
  by (auto simp: CreateAPIKey_def Let_def split: option.splits)

lemma key_writes_wf [wf_intros]:
  assumes "db_wf d"
  shows "db_wf (snd (UpdateLastUsed io now i d))" "db_wf (snd (UpdateKey io k scope d))" "db_wf (snd (RevokeAPIKey io i scope d))"
    "db_wf (snd (RevokeAPIKeysForUser io u scope d))" "db_wf (snd (DeleteExpiredKeys io now d))"
    "db_wf (snd (ClaimExpiryNotification io now i d))"
  using assms by (simp_all add: UpdateLastUsed_def UpdateKey_def RevokeAPIKey_def RevokeAPIKeysForUser_def DeleteExpiredKeys_def
      ClaimExpiryNotification_def Let_def update_keys_wf delete_keys_wf)

lemma list_keys_mem:
  assumes "list_keys io what (andScope q scope ''ak.organization_id'' args) d = Inr ms" "max_param q \<le> length args" "m \<in> set ms"
  shows "\<exists>k \<in> set (api_keys d). scanAPIKeyWithUserName d k = Inr m \<and> holds (pairs d) args (key_cols k) q
    \<and> permits scope (Some (key_OrganizationID k))"
proof -
  obtain k where "k \<in> set (order_desc key_CreatedAt (filter (selected (pairs d) key_cols (andScope q scope ''ak.organization_id'' args)) (api_keys d)))"
    "scanAPIKeyWithUserName d k = Inr m"
    using assms(1,3) scan_rows_mem by (fastforce simp: list_keys_def split: if_splits sum.splits)
  with keys_ak.selected_iff [OF assms(2)] show ?thesis by auto
qed

lemma list_keys_complete:
  assumes "list_keys io what (andScope q scope ''ak.organization_id'' args) d = Inr ms" "max_param q \<le> length args"
    and "k \<in> set (api_keys d)" "holds (pairs d) args (key_cols k) q" "permits scope (Some (key_OrganizationID k))"
  shows "\<exists>m \<in> set ms. scanAPIKeyWithUserName d k = Inr m"
proof -
  have "k \<in> set (order_desc key_CreatedAt (filter (selected (pairs d) key_cols (andScope q scope ''ak.organization_id'' args)) (api_keys d)))"
    using assms(3-5) keys_ak.selected_iff [OF assms(2)] by simp
  with assms(1) show ?thesis
    using scan_rows_mem' by (fastforce simp: list_keys_def split: if_splits sum.splits)
qed

lemma prefix_complete:
  assumes "GetAPIKeysByPrefix io dbnow p d = Inr ms"
    and "k \<in> set (api_keys d)" "key_KeyPrefix k = p" "case key_ExpiresAt k of None \<Rightarrow> True | Some t \<Rightarrow> t > dbnow"
  shows "\<exists>m \<in> set ms. scanAPIKey k = Inr m"
proof -
  define live :: "APIKey \<Rightarrow> bool" where "live = (\<lambda>k. key_KeyPrefix k = p \<and> (case key_ExpiresAt k of None \<Rightarrow> True | Some t \<Rightarrow> t > dbnow))"
  define rows where "rows = order_desc key_CreatedAt (filter live (api_keys d))"
  have scan: "scan_rows scanAPIKey (take (maxPrefixCandidates + 1) rows) = Inr ms" and len: "length ms \<le> maxPrefixCandidates"
    using assms(1) by (auto simp: GetAPIKeysByPrefix_def Let_def rows_def live_def split: if_splits sum.splits)
  have "length (take (maxPrefixCandidates + 1) rows) \<le> maxPrefixCandidates" using scan_rows_length [OF scan] len by simp
  then have "take (maxPrefixCandidates + 1) rows = rows" by simp
  moreover have "k \<in> set rows" using assms(2-4) by (simp add: rows_def live_def)
  ultimately show ?thesis using scan_rows_mem' [OF scan, of k] by simp
qed

text \<open>
  The candidates of authentication. A lookup by prefix that succeeds returns at most 100 keys, each a
  stored key with that prefix that has not expired, with its own hash and scopes; and it returns every such
  key, so that no live key is silently left out.
\<close>

theorem GetAPIKeysByPrefix_exact:
  assumes "GetAPIKeysByPrefix io dbnow p d = Inr ms"
  shows "length ms \<le> 100
    \<and> (\<forall>m \<in> set ms. \<exists>k \<in> set (api_keys d). scanAPIKey k = Inr m \<and> km_KeyPrefix m = p \<and> km_KeyHash m = key_KeyHash k
         \<and> (case km_ExpiresAt m of None \<Rightarrow> True | Some t \<Rightarrow> t > dbnow))
    \<and> (\<forall>k \<in> set (api_keys d). key_KeyPrefix k = p \<and> (case key_ExpiresAt k of None \<Rightarrow> True | Some t \<Rightarrow> t > dbnow)
         \<longrightarrow> (\<exists>m \<in> set ms. scanAPIKey k = Inr m))"
proof -
  define live :: "APIKey \<Rightarrow> bool" where "live = (\<lambda>k. key_KeyPrefix k = p \<and> (case key_ExpiresAt k of None \<Rightarrow> True | Some t \<Rightarrow> t > dbnow))"
  define rows where "rows = order_desc key_CreatedAt (filter live (api_keys d))"
  have scan: "scan_rows scanAPIKey (take (maxPrefixCandidates + 1) rows) = Inr ms" and len: "length ms \<le> maxPrefixCandidates"
    using assms by (auto simp: GetAPIKeysByPrefix_def Let_def rows_def live_def split: if_splits sum.splits)
  have "length (take (maxPrefixCandidates + 1) rows) \<le> maxPrefixCandidates" using scan_rows_length [OF scan] len by simp
  then have all: "take (maxPrefixCandidates + 1) rows = rows" by simp
  have rows: "k \<in> set rows \<longleftrightarrow> k \<in> set (api_keys d) \<and> live k" for k by (auto simp: rows_def)
  have "\<exists>k \<in> set (api_keys d). scanAPIKey k = Inr m \<and> km_KeyPrefix m = p \<and> km_KeyHash m = key_KeyHash k
         \<and> (case km_ExpiresAt m of None \<Rightarrow> True | Some t \<Rightarrow> t > dbnow)" if "m \<in> set ms" for m
  proof -
    obtain k where "k \<in> set rows" "scanAPIKey k = Inr m" using scan_rows_mem [OF scan \<open>m \<in> set ms\<close>] all by auto
    with rows scanAPIKey_Inr [of k m] show ?thesis by (intro bexI [of _ k]) (simp_all add: live_def)
  qed
  moreover have "\<exists>m \<in> set ms. scanAPIKey k = Inr m" if "k \<in> set (api_keys d)" "live k" for k
    using prefix_complete [OF assms, of k] that by (simp add: live_def)
  ultimately show ?thesis using len by (simp add: maxPrefixCandidates_def live_def)
qed

definition hidden_key :: "OrgScope \<Rightarrow> APIKey \<Rightarrow> bool" where
  "hidden_key scope k \<longleftrightarrow> \<not> permits scope (Some (key_OrganizationID k))"

lemma key_hit:
  "max_param q \<le> length args \<Longrightarrow> selected ms key_cols (andScope q scope ''organization_id'' args) k \<Longrightarrow> \<not> hidden_key scope k"
  by (simp add: keys.selected_iff hidden_key_def)

lemma hidden_update:
  assumes "\<And>k. hit k \<Longrightarrow> \<not> hidden_key scope k" "\<And>k. key_OrganizationID (f k) = key_OrganizationID k"
  shows "filter (hidden_key scope) (api_keys (update_keys hit f d)) = filter (hidden_key scope) (api_keys d)"
proof -
  have "filter (hidden_key scope) (map (\<lambda>k. if hit k then f k else k) xs) = filter (hidden_key scope) xs" for xs
    using assms by (induction xs) (auto simp: hidden_key_def)
  then show ?thesis by (simp add: update_keys_def)
qed

lemma hidden_delete:
  "(\<And>k. hit k \<Longrightarrow> \<not> hidden_key scope k) \<Longrightarrow>
     filter (hidden_key scope) (api_keys (delete_keys hit d)) = filter (hidden_key scope) (api_keys d)"
  by (auto simp: delete_keys_def intro!: filter_cong)

lemma hidden_create:
  "filter (hidden_key scope) (api_keys (snd (snd (CreateAPIKey io i now km scope d)))) = filter (hidden_key scope) (api_keys d)"
  by (auto simp: CreateAPIKey_def Let_def hidden_key_def orgs_o.selected_iff filter_empty_conv split: option.splits)

lemma GetAPIKeyByID_scoped:
  assumes "GetAPIKeyByID io i scope d = Inr m"
  shows "permits scope (Some (km_OrganizationID m)) \<and> km_ID m = i"
proof -
  obtain k where "selected (pairs d) key_cols (andScope (P_eq ''id'' 1) scope ''organization_id'' [VText i]) k" "scanAPIKey k = Inr m"
    using assms by (auto simp: GetAPIKeyByID_def Let_def split: if_splits list.splits dest!: filter_Cons_mem)
  with scanAPIKey_Inr [of k m] show ?thesis
    by (auto simp: keys.selected_iff key_cols_def param_def)
qed

lemma list_keys_scoped:
  assumes "list_keys io what (andScope q scope ''ak.organization_id'' args) d = Inr ms" "max_param q \<le> length args" "m \<in> set ms"
  shows "permits scope (Some (km_OrganizationID m))"
  using list_keys_mem [OF assms] scanAPIKeyWithUserName_Inr by fastforce

text \<open>
  Tenants see and change only their own keys. Reading by id, and each listing, returns only keys of
  organizations the scope permits, and the listing of a scope returns every key it permits; updating or
  revoking a key, or all keys of a user, leaves every key outside the scope as it was; creating one adds it
  only inside the scope.
\<close>

theorem api_keys_scoped:
  "(\<forall>m. GetAPIKeyByID io i scope d = Inr m \<longrightarrow> permits scope (Some (km_OrganizationID m)) \<and> km_ID m = i)
   \<and> (\<forall>ms. (ListAPIKeysByUser io u scope d = Inr ms \<or> ListAPIKeysByOrganization io org scope d = Inr ms
        \<or> ListByUserAndOrganization io u org scope d = Inr ms \<or> ListAPIKeys io scope d = Inr ms)
        \<longrightarrow> (\<forall>m \<in> set ms. permits scope (Some (km_OrganizationID m))))
   \<and> (\<forall>ms k. ListAPIKeys io scope d = Inr ms \<and> k \<in> set (api_keys d) \<and> permits scope (Some (key_OrganizationID k))
        \<longrightarrow> (\<exists>m \<in> set ms. km_ID m = key_ID k))
   \<and> filter (hidden_key scope) (api_keys (snd (UpdateKey io km scope d))) = filter (hidden_key scope) (api_keys d)
   \<and> filter (hidden_key scope) (api_keys (snd (RevokeAPIKey io i scope d))) = filter (hidden_key scope) (api_keys d)
   \<and> filter (hidden_key scope) (api_keys (snd (RevokeAPIKeysForUser io u scope d))) = filter (hidden_key scope) (api_keys d)
   \<and> filter (hidden_key scope) (api_keys (snd (snd (CreateAPIKey io i now km scope d)))) = filter (hidden_key scope) (api_keys d)"
proof (intro conjI allI impI)
  show "permits scope (Some (km_OrganizationID m))" "km_ID m = i" if "GetAPIKeyByID io i scope d = Inr m" for m
    using GetAPIKeyByID_scoped [OF that] by simp_all
  show "\<forall>m \<in> set ms. permits scope (Some (km_OrganizationID m))"
    if "ListAPIKeysByUser io u scope d = Inr ms \<or> ListAPIKeysByOrganization io org scope d = Inr ms
        \<or> ListByUserAndOrganization io u org scope d = Inr ms \<or> ListAPIKeys io scope d = Inr ms" for ms
    using that list_keys_scoped [of io _ _ scope _ d ms]
    by (fastforce simp: ListAPIKeysByUser_def ListAPIKeysByOrganization_def ListByUserAndOrganization_def ListAPIKeys_def
        split: if_splits)
  show "\<exists>m \<in> set ms. km_ID m = key_ID k"
    if "ListAPIKeys io scope d = Inr ms \<and> k \<in> set (api_keys d) \<and> permits scope (Some (key_OrganizationID k))" for ms k
  proof -
    have "\<not> MatchesNothing scope" using that MatchesNothing_permits by blast
    then have "list_keys io ''failed to list api keys'' (andScope P_true scope ''ak.organization_id'' []) d = Inr ms"
      using that by (simp add: ListAPIKeys_def)
    then show ?thesis using list_keys_complete that scanAPIKeyWithUserName_Inr by fastforce
  qed
  show "filter (hidden_key scope) (api_keys (snd (UpdateKey io km scope d))) = filter (hidden_key scope) (api_keys d)"
    by (auto simp: UpdateKey_def Let_def intro!: hidden_update dest: key_hit [rotated])
  show "filter (hidden_key scope) (api_keys (snd (RevokeAPIKey io i scope d))) = filter (hidden_key scope) (api_keys d)"
    by (auto simp: RevokeAPIKey_def Let_def intro!: hidden_delete dest: key_hit [rotated])
  show "filter (hidden_key scope) (api_keys (snd (RevokeAPIKeysForUser io u scope d))) = filter (hidden_key scope) (api_keys d)"
    by (auto simp: RevokeAPIKeysForUser_def Let_def intro!: hidden_delete dest: key_hit [rotated])
  show "filter (hidden_key scope) (api_keys (snd (snd (CreateAPIKey io i now km scope d)))) = filter (hidden_key scope) (api_keys d)"
    by (rule hidden_create)
qed

theorem GetAPIKeysByPrefix_exact_witness:
  "\<exists>ms. GetAPIKeysByPrefix no_faults 5 ''p'' ex_db = Inr ms \<and> length ms = 2 \<and> length ms \<le> 100"
proof -
  obtain ms where "GetAPIKeysByPrefix no_faults 5 ''p'' ex_db = Inr ms" "length ms = 2"
    by (simp add: GetAPIKeysByPrefix_def ex_defs maxPrefixCandidates_def order_desc_def scanAPIKey_def)
  with GetAPIKeysByPrefix_exact [OF this(1)] show ?thesis by blast
qed

theorem api_keys_scoped_witness:
  "\<exists>m. GetAPIKeyByID no_faults ''k1'' (OrgScopeOrganizations [''o1'']) ex_db = Inr m
     \<and> permits (OrgScopeOrganizations [''o1'']) (Some (km_OrganizationID m))"
proof -
  obtain m where "GetAPIKeyByID no_faults ''k1'' (OrgScopeOrganizations [''o1'']) ex_db = Inr m"
    by (simp add: GetAPIKeyByID_def ex_defs MatchesNothing_def OrgScopeOrganizations_def andScope_def OrgScope_SQL_def
        selected_def key_cols_def param_def scanAPIKey_def)
  with api_keys_scoped [of no_faults "''k1''" "OrgScopeOrganizations [''o1'']" ex_db] show ?thesis by blast
qed

end
