(* ===== verification/Like.thy ===== *)
theory Like
  imports Sql
begin

text \<open>
  Package \<open>identity/store\<close>, file \<open>like.go\<close>: quoting a search text for use inside an \<open>ILIKE\<close> pattern, and
  the theorem that the quoted pattern \<open>%text%\<close> is a plain case-insensitive substring search.
\<close>

definition bslash :: char where "bslash = CHR 0x5C"

fun escape_char :: "char \<Rightarrow> string" where
  "escape_char c =
     (if c = bslash then [bslash, bslash]
      else if c = CHR ''%'' then [bslash, CHR ''%'']
      else if c = CHR ''_'' then [bslash, CHR ''_'']
      else [c])"

definition escapeLikePattern :: "string \<Rightarrow> string" where
  "escapeLikePattern s = concat (map escape_char s)"

text \<open>The pattern the search accessors bind.\<close>

definition searchPattern :: "string \<Rightarrow> string" where
  "searchPattern q = ''%'' @ escapeLikePattern q @ ''%''"

lemma like_percent: "like_match (CHR ''%'' # ps) s \<longleftrightarrow> (\<exists>pre s'. s = pre @ s' \<and> like_match ps s')"
proof (induction s)
  case Nil
  then show ?case by simp
next
  case (Cons c s)
  have "like_match (CHR ''%'' # ps) (c # s) \<longleftrightarrow> like_match ps (c # s) \<or> like_match (CHR ''%'' # ps) s"
    by simp
  also have "\<dots> \<longleftrightarrow> like_match ps (c # s) \<or> (\<exists>pre s'. s = pre @ s' \<and> like_match ps s')"
    by (simp only: Cons.IH)
  also have "\<dots> \<longleftrightarrow> (\<exists>pre s'. c # s = pre @ s' \<and> like_match ps s')"
    by (auto simp: Cons_eq_append_conv)
  finally show ?case .
qed

lemma like_escape_char: "like_match (escape_char c @ ps) s \<longleftrightarrow> (\<exists>s'. s = c # s' \<and> like_match ps s')"
  by (cases s) (auto simp: bslash_def)

lemma like_escape: "like_match (escapeLikePattern q @ ps) s \<longleftrightarrow> (\<exists>s'. s = q @ s' \<and> like_match ps s')"
proof (induction q arbitrary: s)
  case Nil
  then show ?case by (simp add: escapeLikePattern_def)
next
  case (Cons c q)
  have "escapeLikePattern (c # q) @ ps = escape_char c @ (escapeLikePattern q @ ps)"
    by (simp add: escapeLikePattern_def)
  then show ?case
    using like_escape_char [of c "escapeLikePattern q @ ps" s] Cons.IH by auto
qed

lemma of_char_lower:
  "(of_char (lower_char c) :: nat) = (if 65 \<le> (of_char c :: nat) \<and> of_char c \<le> (90::nat) then of_char c + 32 else of_char c)"
  by (simp add: lower_char_def)

lemma arith_special:
  "(m :: nat) \<in> {37, 92, 95} \<Longrightarrow> ((if 65 \<le> n \<and> n \<le> 90 then n + 32 else n) = m) = (n = m)"
  by auto

lemma lower_char_special:
  assumes "x \<in> {CHR ''%'', CHR ''_'', bslash}"
  shows "lower_char c = x \<longleftrightarrow> c = x"
proof -
  have code: "(of_char x :: nat) \<in> {37, 92, 95}" using assms by (auto simp: bslash_def)
  have "lower_char c = x \<longleftrightarrow> (of_char (lower_char c) :: nat) = of_char x" by simp
  also have "\<dots> \<longleftrightarrow> (of_char c :: nat) = of_char x"
    unfolding of_char_lower using code arith_special by blast
  finally show ?thesis by simp
qed

lemma ToLower_escape_char: "map lower_char (escape_char c) = escape_char (lower_char c)"
proof -
  have same: "lower_char x = x" if "x \<in> {CHR ''%'', CHR ''_'', bslash}" for x
    using lower_char_special [OF that, of x] by simp
  show ?thesis
    using lower_char_special [of "CHR ''%''" c] lower_char_special [of "CHR ''_''" c] lower_char_special [of bslash c]
    by (auto simp: same)
qed

lemma ToLower_escape: "ToLower (escapeLikePattern q) = escapeLikePattern (ToLower q)"
  by (induction q) (auto simp: ToLower_def escapeLikePattern_def ToLower_escape_char simp del: escape_char.simps)

lemma ToLower_append: "ToLower (a @ b) = ToLower a @ ToLower b"
  by (simp add: ToLower_def)

lemma ToLower_percent: "ToLower ''%'' = ''%''"
  using lower_char_special [of "CHR ''%''" "CHR ''%''"] by (simp add: ToLower_def)

lemma like_suffix_percent: "like_match ''%'' s"
  unfolding like_percent by auto

lemma ilike_searchPattern: "ilike s (searchPattern q) \<longleftrightarrow> (\<exists>pre post. ToLower s = pre @ ToLower q @ post)"
proof -
  have "ToLower (searchPattern q) = CHR ''%'' # escapeLikePattern (ToLower q) @ ''%''"
    unfolding searchPattern_def ToLower_append ToLower_escape ToLower_percent by simp
  then have "ilike s (searchPattern q) \<longleftrightarrow>
      (\<exists>pre s'. ToLower s = pre @ s' \<and> like_match (escapeLikePattern (ToLower q) @ ''%'') s')"
    by (simp only: ilike_def like_percent)
  also have "\<dots> \<longleftrightarrow> (\<exists>pre post. ToLower s = pre @ ToLower q @ post)"
    unfolding like_escape using like_suffix_percent by blast
  finally show ?thesis .
qed

text \<open>
  A search text is matched literally. Whatever metacharacters (\<open>%\<close>, \<open>_\<close> or a backslash) the text
  contains, \<open>ILIKE\<close> with the pattern the search accessors bind is true of a column value exactly when the
  text occurs in it, up to letter case.
\<close>

theorem search_pattern_is_substring:
  "ilike s (searchPattern q) \<longleftrightarrow> (\<exists>pre post. ToLower s = pre @ ToLower q @ post)"
  by (rule ilike_searchPattern)

end
