(* ===== verification/Org_Repo.thy ===== *)
theory Org_Repo
  imports Store_DB Like "HOL-Library.Word"
begin

text \<open>
  Package \<open>identity/store\<close>, files \<open>organization_repository.go\<close> and \<open>membership.go\<close>: the organization and
  membership accessors, the membership views, the default-organization cache, and \<open>OrgScopeForUser\<close>
  (\<open>org_scope.go\<close>).

  \<open>io 0\<close> is the statement of the operation, \<open>io 1\<close> reading its result (the rows, or the number of rows
  affected); later indices are the further statements, in order. An operation that changes the database
  returns its result together with the new database and, where it touches the cache, the repository.
\<close>

subsection \<open>The repository and its cache\<close>

record OrganizationRepository =
  defaultOrgCache :: "Organization option"
  defaultOrgAt :: time
  defaultOrgGen :: "64 word"

definition NewOrganizationRepository :: OrganizationRepository where
  "NewOrganizationRepository = \<lparr>defaultOrgCache = None, defaultOrgAt = 0, defaultOrgGen = 0\<rparr>"

definition defaultOrgCacheTTL :: duration where
  "defaultOrgCacheTTL = 60 * second"

text \<open>The copy the Go code takes is a value of the same record.\<close>

definition cloneOrganization :: "Organization option \<Rightarrow> Organization option" where
  "cloneOrganization x = (case x of None \<Rightarrow> None | Some v \<Rightarrow> Some v)"

definition InvalidateDefaultOrgCache :: "OrganizationRepository \<Rightarrow> OrganizationRepository" where
  "InvalidateDefaultOrgCache r = r\<lparr>defaultOrgCache := None, defaultOrgGen := defaultOrgGen r + 1\<rparr>"

subsection \<open>Organizations by name and id\<close>

definition GetByName :: "io \<Rightarrow> string \<Rightarrow> OrgScope \<Rightarrow> db \<Rightarrow> store_error + Organization" where
  "GetByName io name scope d =
     (if MatchesNothing scope then Inl (notFound ''organization by name'')
      else
        let wa = andScope (P_eq ''name'' 1) scope ''id'' [VText name]
        in if io 0 then Inl (Failed ''failed to get organization'')
           else (case filter (selected (pairs d) org_cols wa) (organizations d) of
                   [] \<Rightarrow> Inl (notFound ''organization by name'')
                 | org # _ \<Rightarrow> Inr org))"

definition GetByID :: "io \<Rightarrow> string \<Rightarrow> OrgScope \<Rightarrow> db \<Rightarrow> store_error + Organization" where
  "GetByID io i scope d =
     (if MatchesNothing scope then Inl (notFound ''organization by id'')
      else
        let wa = andScope (P_eq ''id'' 1) scope ''id'' [VText i]
        in if io 0 then Inl (Failed ''failed to get organization'')
           else (case filter (selected (pairs d) org_cols wa) (organizations d) of
                   [] \<Rightarrow> Inl (notFound ''organization by id'')
                 | org # _ \<Rightarrow> Inr org))"

text \<open>\<open>GetDefaultOrganization\<close> in the two steps its locks delimit: the lookup under the read lock, which
  hands out a cached copy or the generation it saw, and the store under the write lock, which keeps the
  value only if no invalidation happened in between.\<close>

definition cacheLookup :: "time \<Rightarrow> OrganizationRepository \<Rightarrow> Organization option" where
  "cacheLookup now r =
     (if defaultOrgCache r \<noteq> None \<and> now - defaultOrgAt r < defaultOrgCacheTTL
      then cloneOrganization (defaultOrgCache r) else None)"

definition cacheStore :: "64 word \<Rightarrow> Organization \<Rightarrow> time \<Rightarrow> OrganizationRepository \<Rightarrow> OrganizationRepository" where
  "cacheStore gen org now r =
     (if defaultOrgGen r = gen
      then r\<lparr>defaultOrgCache := cloneOrganization (Some org), defaultOrgAt := now\<rparr> else r)"

definition GetDefaultOrganization ::
    "io \<Rightarrow> time \<Rightarrow> time \<Rightarrow> db \<Rightarrow> OrganizationRepository \<Rightarrow> (store_error + Organization) \<times> OrganizationRepository" where
  "GetDefaultOrganization io now now' d r =
     (case cacheLookup now r of
        Some org \<Rightarrow> (Inr org, r)
      | None \<Rightarrow>
          let gen = defaultOrgGen r
          in case GetByName io ''default'' OrgScopeAllOrganizations d of
               Inl e \<Rightarrow> (Inl e, r)
             | Inr org \<Rightarrow> (Inr org, cacheStore gen org now' r))"

definition Create :: "io \<Rightarrow> string \<Rightarrow> time \<Rightarrow> Organization \<Rightarrow> db \<Rightarrow> OrganizationRepository \<Rightarrow>
    (store_error + Organization) \<times> db \<times> OrganizationRepository" where
  "Create io newID now org d r =
     (let row = \<lparr>org_ID = newID, org_Name = org_Name org, org_DisplayName = org_DisplayName org,
                 org_IdpType = None, org_IdpName = None, org_CreatedAt = now, org_UpdatedAt = now\<rparr>
      in if io 0 then (Inl (Failed ''failed to create organization''), d, r)
         else (case checked (d\<lparr>organizations := organizations d @ [row]\<rparr>) of
                 None \<Rightarrow> (Inl (Failed ''failed to create organization''), d, r)
               | Some d' \<Rightarrow>
                   (Inr (org\<lparr>org_ID := newID, org_CreatedAt := now, org_UpdatedAt := now\<rparr>), d',
                    InvalidateDefaultOrgCache r)))"

subsection \<open>Memberships\<close>

definition AddMemberWithRoleTemplate ::
    "io \<Rightarrow> time \<Rightarrow> string \<Rightarrow> string \<Rightarrow> string option \<Rightarrow> OrgScope \<Rightarrow> db \<Rightarrow> (store_error + unit) \<times> db" where
  "AddMemberWithRoleTemplate io now orgID userID roleTemplateID scope d =
     (if MatchesNothing scope then (Inl (notFound ''organization by id''), d)
      else
        let wa = andScope (P_eq ''o.id'' 1) scope ''o.id'' [VText orgID, VText userID, owner_val roleTemplateID];
            new = map (\<lambda>x. \<lparr>mem_OrganizationID = org_ID x, mem_UserID = userID,
                             mem_RoleTemplateID = roleTemplateID, mem_CreatedAt = now\<rparr>)
                    (filter (selected (pairs d) org_cols wa) (organizations d))
        in if io 0 then (Inl (Failed ''failed to add member''), d)
           else (case checked (d\<lparr>organization_members := organization_members d @ new\<rparr>) of
                   None \<Rightarrow> (Inl (Failed ''failed to add member''), d)
                 | Some d' \<Rightarrow> (requireRow (io 1) (length new) ''organization by id'', d')))"

definition lookupRoleTemplateID :: "bool \<Rightarrow> string \<Rightarrow> db \<Rightarrow> store_error + string" where
  "lookupRoleTemplateID fails roleTemplateName d =
     (if fails then Inl (Failed ''failed to look up role template'')
      else (case filter (\<lambda>t. rt_Name t = roleTemplateName) (role_templates d) of
              [] \<Rightarrow> Inl (RoleTemplateNotFound roleTemplateName)
            | t # _ \<Rightarrow> Inr (rt_ID t)))"

definition AddMemberWithParams ::
    "io \<Rightarrow> time \<Rightarrow> string \<Rightarrow> string \<Rightarrow> string \<Rightarrow> OrgScope \<Rightarrow> db \<Rightarrow> (store_error + unit) \<times> db" where
  "AddMemberWithParams io now orgID userID roleTemplateName scope d =
     (case lookupRoleTemplateID (io 0) roleTemplateName d of
        Inl e \<Rightarrow> (Inl e, d)
      | Inr i \<Rightarrow> AddMemberWithRoleTemplate (\<lambda>n. io (n + 1)) now orgID userID (Some i) scope d)"

definition RemoveMember :: "io \<Rightarrow> string \<Rightarrow> string \<Rightarrow> OrgScope \<Rightarrow> db \<Rightarrow> (store_error + unit) \<times> db" where
  "RemoveMember io orgID userID scope d =
     (if MatchesNothing scope then (Inl (notFound ''organization member''), d)
      else
        let wa = andScope (P_and (P_eq ''organization_id'' 1) (P_eq ''user_id'' 2)) scope ''organization_id''
                   [VText orgID, VText userID];
            hit = selected (pairs d) member_cols wa
        in if io 0 then (Inl (Failed ''failed to remove member''), d)
           else (requireRow (io 1) (length (filter hit (organization_members d))) ''organization member'',
                 delete_members hit d))"

definition update_members :: "(OrganizationMember \<Rightarrow> bool) \<Rightarrow> string option \<Rightarrow> db \<Rightarrow> db" where
  "update_members hit roleTemplateID d =
     d\<lparr>organization_members :=
         map (\<lambda>m. if hit m then m\<lparr>mem_RoleTemplateID := roleTemplateID\<rparr> else m) (organization_members d)\<rparr>"

definition UpdateMemberRoleTemplate ::
    "io \<Rightarrow> string \<Rightarrow> string \<Rightarrow> string option \<Rightarrow> OrgScope \<Rightarrow> db \<Rightarrow> (store_error + unit) \<times> db" where
  "UpdateMemberRoleTemplate io orgID userID roleTemplateID scope d =
     (if MatchesNothing scope then (Inl (notFound ''organization member''), d)
      else
        let wa = andScope (P_and (P_eq ''organization_id'' 1) (P_eq ''user_id'' 2)) scope ''organization_id''
                   [VText orgID, VText userID, owner_val roleTemplateID];
            hit = selected (pairs d) member_cols wa
        in if io 0 then (Inl (Failed ''failed to update member role template''), d)
           else (case checked (update_members hit roleTemplateID d) of
                   None \<Rightarrow> (Inl (Failed ''failed to update member role template''), d)
                 | Some d' \<Rightarrow>
                     (requireRow (io 1) (length (filter hit (organization_members d))) ''organization member'', d')))"

definition UpdateMemberRole ::
    "io \<Rightarrow> string \<Rightarrow> string \<Rightarrow> string \<Rightarrow> OrgScope \<Rightarrow> db \<Rightarrow> (store_error + unit) \<times> db" where
  "UpdateMemberRole io orgID userID roleTemplateName scope d =
     (case lookupRoleTemplateID (io 0) roleTemplateName d of
        Inl e \<Rightarrow> (Inl e, d)
      | Inr i \<Rightarrow> UpdateMemberRoleTemplate (\<lambda>n. io (n + 1)) orgID userID (Some i) scope d)"

definition GetMember :: "io \<Rightarrow> string \<Rightarrow> string \<Rightarrow> OrgScope \<Rightarrow> db \<Rightarrow> store_error + OrganizationMember" where
  "GetMember io orgID userID scope d =
     (if MatchesNothing scope then Inl (notFound ''organization member'')
      else
        let wa = andScope (P_and (P_eq ''organization_id'' 1) (P_eq ''user_id'' 2)) scope ''organization_id''
                   [VText orgID, VText userID]
        in if io 0 then Inl (Failed ''failed to get member'')
           else (case filter (selected (pairs d) member_cols wa) (organization_members d) of
                   [] \<Rightarrow> Inl (notFound ''organization member'')
                 | m # _ \<Rightarrow> Inr m))"

definition ListMembers :: "io \<Rightarrow> string \<Rightarrow> OrgScope \<Rightarrow> db \<Rightarrow> store_error + OrganizationMember list" where
  "ListMembers io orgID scope d =
     (if MatchesNothing scope then Inr []
      else
        let wa = andScope (P_eq ''organization_id'' 1) scope ''organization_id'' [VText orgID]
        in if io 0 then Inl (Failed ''failed to list members'')
           else if io 1 then Inl (Failed ''failed to scan member'')
           else Inr (order_desc mem_CreatedAt (filter (selected (pairs d) member_cols wa) (organization_members d))))"

definition GetUserOrganizations :: "io \<Rightarrow> string \<Rightarrow> OrgScope \<Rightarrow> db \<Rightarrow> store_error + Organization list" where
  "GetUserOrganizations io userID scope d =
     (if MatchesNothing scope then Inr []
      else
        let wa = andScope (P_eq ''om.user_id'' 1) scope ''om.organization_id'' [VText userID];
            joined = concat (map (\<lambda>x. map (\<lambda>m. x)
                       (filter (\<lambda>m. org_ID x = mem_OrganizationID m \<and> selected (pairs d) member_cols wa m)
                          (organization_members d))) (organizations d))
        in if io 0 then Inl (Failed ''failed to get user organizations'')
           else if io 1 then Inl (Failed ''failed to scan organization'')
           else Inr (order_desc org_CreatedAt joined))"

definition CheckMembership ::
    "io \<Rightarrow> string \<Rightarrow> string \<Rightarrow> OrgScope \<Rightarrow> db \<Rightarrow> store_error + (bool \<times> string option)" where
  "CheckMembership io orgID userID scope d =
     (case GetMember io orgID userID scope d of
        Inl e \<Rightarrow> (if is_not_found e then Inr (False, None) else Inl e)
      | Inr m \<Rightarrow> Inr (True, mem_RoleTemplateID m))"

subsection \<open>Membership views (\<open>membership.go\<close>)\<close>

text \<open>The decoded scopes of a joined role template; an empty column leaves the destination empty.\<close>

definition unmarshalRoleTemplateScopes :: "jsonb option \<Rightarrow> store_error + string list" where
  "unmarshalRoleTemplateScopes scopesJSON =
     (case scopesJSON of None \<Rightarrow> Inr []
      | Some j \<Rightarrow> (case unmarshal_strings j of
                     None \<Rightarrow> Inl (Failed ''failed to parse scopes'')
                   | Some xs \<Rightarrow> Inr xs))"

text \<open>\<open>LEFT JOIN role_templates\<close> and \<open>COALESCE(rt.scopes, '[]')\<close>.\<close>

definition joined_template :: "db \<Rightarrow> OrganizationMember \<Rightarrow> RoleTemplate option" where
  "joined_template d m =
     (case mem_RoleTemplateID m of None \<Rightarrow> None
      | Some t \<Rightarrow> find (\<lambda>rt. rt_ID rt = t) (role_templates d))"

definition coalesced_scopes :: "db \<Rightarrow> OrganizationMember \<Rightarrow> jsonb" where
  "coalesced_scopes d m = (case joined_template d m of None \<Rightarrow> JStrings [] | Some rt \<Rightarrow> rt_Scopes rt)"

definition scanUserMembership :: "db \<Rightarrow> OrganizationMember \<Rightarrow> store_error + UserMembership" where
  "scanUserMembership d m =
     (case unmarshalRoleTemplateScopes (Some (coalesced_scopes d m)) of
        Inl e \<Rightarrow> Inl e
      | Inr xs \<Rightarrow>
          Inr \<lparr>um_OrganizationID = mem_OrganizationID m,
               um_OrganizationName =
                 (case find (\<lambda>x. org_ID x = mem_OrganizationID m) (organizations d) of
                    None \<Rightarrow> '''' | Some x \<Rightarrow> org_Name x),
               um_RoleTemplateID = mem_RoleTemplateID m,
               um_RoleTemplateName = map_option rt_Name (joined_template d m),
               um_RoleTemplateDisplayName = map_option rt_DisplayName (joined_template d m),
               um_RoleTemplateScopes = xs,
               um_CreatedAt = mem_CreatedAt m\<rparr>)"

definition scanOrgMemberWithUser :: "db \<Rightarrow> OrganizationMember \<Rightarrow> OrganizationMemberWithUser \<times> jsonb" where
  "scanOrgMemberWithUser d m =
     (let u = find (\<lambda>x. usr_ID x = mem_UserID m) (users d)
      in (\<lparr>mw_OrganizationID = mem_OrganizationID m,
           mw_UserID = mem_UserID m,
           mw_RoleTemplateID = mem_RoleTemplateID m,
           mw_RoleTemplateName = map_option rt_Name (joined_template d m),
           mw_RoleTemplateDisplayName = map_option rt_DisplayName (joined_template d m),
           mw_RoleTemplateScopes = [],
           mw_CreatedAt = mem_CreatedAt m,
           mw_UserName = (case u of None \<Rightarrow> '''' | Some x \<Rightarrow> usr_Name x),
           mw_UserEmail = (case u of None \<Rightarrow> '''' | Some x \<Rightarrow> usr_Email x)\<rparr>,
          coalesced_scopes d m))"

definition decoded_member :: "db \<Rightarrow> OrganizationMember \<Rightarrow> store_error + OrganizationMemberWithUser" where
  "decoded_member d m =
     (let (member, scopesJSON) = scanOrgMemberWithUser d m
      in case unmarshalRoleTemplateScopes (Some scopesJSON) of
           Inl e \<Rightarrow> Inl e
         | Inr xs \<Rightarrow> Inr (member\<lparr>mw_RoleTemplateScopes := xs\<rparr>))"

definition GetMemberWithRole ::
    "io \<Rightarrow> string \<Rightarrow> string \<Rightarrow> OrgScope \<Rightarrow> db \<Rightarrow> store_error + OrganizationMemberWithUser" where
  "GetMemberWithRole io orgID userID scope d =
     (if MatchesNothing scope then Inl (notFound ''organization member'')
      else
        let wa = andScope (P_and (P_eq ''om.organization_id'' 1) (P_eq ''om.user_id'' 2)) scope ''om.organization_id''
                   [VText orgID, VText userID]
        in if io 0 then Inl (Failed ''failed to get member'')
           else (case filter (selected (pairs d) member_cols wa) (organization_members d) of
                   [] \<Rightarrow> Inl (notFound ''organization member'')
                 | m # _ \<Rightarrow> decoded_member d m))"

definition ListMembersWithUsers ::
    "io \<Rightarrow> string \<Rightarrow> OrgScope \<Rightarrow> db \<Rightarrow> store_error + OrganizationMemberWithUser list" where
  "ListMembersWithUsers io orgID scope d =
     (if MatchesNothing scope then Inr []
      else
        let wa = andScope (P_eq ''om.organization_id'' 1) scope ''om.organization_id'' [VText orgID]
        in if io 0 then Inl (Failed ''failed to list members with users'')
           else (case scan_rows (decoded_member d)
                   (order_desc mem_CreatedAt (filter (selected (pairs d) member_cols wa) (organization_members d))) of
                   Inl e \<Rightarrow> Inl e
                 | Inr ms \<Rightarrow> if io 1 then Inl (Failed ''failed to scan member'') else Inr ms))"

definition GetUserMemberships :: "io \<Rightarrow> string \<Rightarrow> db \<Rightarrow> store_error + UserMembership list" where
  "GetUserMemberships io userID d =
     (if io 0 then Inl (Failed ''failed to get user memberships'')
      else (case scan_rows (scanUserMembership d)
              (order_desc mem_CreatedAt (filter (\<lambda>m. mem_UserID m = userID) (organization_members d))) of
              Inl e \<Rightarrow> Inl e
            | Inr ms \<Rightarrow> if io 1 then Inl (Failed ''failed to scan membership'') else Inr ms))"

definition GetUserCombinedScopes :: "io \<Rightarrow> string \<Rightarrow> db \<Rightarrow> store_error + string list" where
  "GetUserCombinedScopes io userID d =
     (case GetUserMemberships io userID d of
        Inl e \<Rightarrow> Inl e
      | Inr ms \<Rightarrow> Inr (remdups (concat (map um_RoleTemplateScopes ms))))"

definition GetUserScopesForOrg :: "io \<Rightarrow> string \<Rightarrow> string \<Rightarrow> db \<Rightarrow> store_error + string list" where
  "GetUserScopesForOrg io userID orgID d =
     (case GetMemberWithRole io orgID userID OrgScopeAllOrganizations d of
        Inl e \<Rightarrow> (if is_not_found e then Inr [] else Inl e)
      | Inr m \<Rightarrow> Inr (remdups (mw_RoleTemplateScopes m)))"

definition OrgScopeForUser :: "io \<Rightarrow> string \<Rightarrow> string \<Rightarrow> ReadWritePairs \<Rightarrow> db \<Rightarrow> store_error + OrgScope" where
  "OrgScopeForUser io userID required rwPairs d =
     (if userID = '''' then Inr OrgScope_zero
      else (case GetUserMemberships io userID d of
              Inl e \<Rightarrow> Inl e
            | Inr ms \<Rightarrow>
                Inr (OrgScopeOrganizations
                  (map um_OrganizationID (filter (\<lambda>m. HasScope (um_RoleTemplateScopes m) required rwPairs) ms)))))"

definition RemoveAllMembershipsForUser :: "io \<Rightarrow> string \<Rightarrow> OrgScope \<Rightarrow> db \<Rightarrow> (store_error + OrgScope) \<times> db" where
  "RemoveAllMembershipsForUser io userID scope d =
     (if MatchesNothing scope then (Inr OrgScope_zero, d)
      else
        let wa = andScope (P_eq ''user_id'' 1) scope ''organization_id'' [VText userID];
            hit = selected (pairs d) member_cols wa
        in if io 0 then (Inl (Failed ''failed to remove all memberships for user''), d)
           else
             let removed = map mem_OrganizationID (filter hit (organization_members d));
                 d' = delete_members hit d
             in if io 1 then (Inl (Failed ''failed to scan removed membership for user''), d')
                else (Inr (OrgScopeOrganizations removed), d'))"

subsection \<open>Changing and listing organizations\<close>

definition update_orgs :: "(Organization \<Rightarrow> bool) \<Rightarrow> (Organization \<Rightarrow> Organization) \<Rightarrow> db \<Rightarrow> db" where
  "update_orgs hit f d = d\<lparr>organizations := map (\<lambda>x. if hit x then f x else x) (organizations d)\<rparr>"

definition Update :: "io \<Rightarrow> time \<Rightarrow> Organization \<Rightarrow> OrgScope \<Rightarrow> db \<Rightarrow> OrganizationRepository \<Rightarrow>
    (store_error + unit) \<times> db \<times> OrganizationRepository" where
  "Update io now org scope d r =
     (if MatchesNothing scope then (Inl (notFound ''organization by id''), d, r)
      else
        let wa = andScope (P_eq ''id'' 1) scope ''id''
                   [VText (org_ID org), VText (org_DisplayName org), owner_val (org_IdpType org), owner_val (org_IdpName org)];
            hit = selected (pairs d) org_cols wa
        in if io 0 then (Inl (Failed ''failed to update organization''), d, r)
           else (case checked (update_orgs hit (\<lambda>x. x\<lparr>org_DisplayName := org_DisplayName org,
                    org_IdpType := org_IdpType org, org_IdpName := org_IdpName org, org_UpdatedAt := now\<rparr>) d) of
                   None \<Rightarrow> (Inl (Failed ''failed to update organization''), d, r)
                 | Some d' \<Rightarrow>
                     (requireRow (io 1) (length (filter hit (organizations d))) ''organization by id'', d',
                      InvalidateDefaultOrgCache r)))"

definition Rename :: "io \<Rightarrow> time \<Rightarrow> string \<Rightarrow> string \<Rightarrow> OrgScope \<Rightarrow> db \<Rightarrow> OrganizationRepository \<Rightarrow>
    (store_error + unit) \<times> db \<times> OrganizationRepository" where
  "Rename io now orgID newName scope d r =
     (if MatchesNothing scope then (Inl (notFound ''organization by id''), d, r)
      else
        let wa = andScope (P_eq ''id'' 2) scope ''id'' [VText newName, VText orgID];
            hit = selected (pairs d) org_cols wa
        in if io 0 then (Inl (Failed ''rename organization''), d, r)
           else (case checked (update_orgs hit (\<lambda>x. x\<lparr>org_Name := newName, org_UpdatedAt := now\<rparr>) d) of
                   None \<Rightarrow> (Inl (Failed ''rename organization''), d, r)
                 | Some d' \<Rightarrow>
                     (requireRow (io 1) (length (filter hit (organizations d))) ''organization by id'', d',
                      InvalidateDefaultOrgCache r)))"

definition Delete :: "io \<Rightarrow> string \<Rightarrow> OrgScope \<Rightarrow> db \<Rightarrow> OrganizationRepository \<Rightarrow>
    (store_error + unit) \<times> db \<times> OrganizationRepository" where
  "Delete io orgID scope d r =
     (if MatchesNothing scope then (Inl (notFound ''organization by id''), d, r)
      else
        let wa = andScope (P_eq ''id'' 1) scope ''id'' [VText orgID];
            hit = selected (pairs d) org_cols wa
        in if io 0 then (Inl (Failed ''failed to delete organization''), d, r)
           else (requireRow (io 1) (length (filter hit (organizations d))) ''organization by id'',
                 delete_organizations hit d, InvalidateDefaultOrgCache r))"

definition ListOrgs :: "io \<Rightarrow> int \<Rightarrow> int \<Rightarrow> OrgScope \<Rightarrow> db \<Rightarrow> store_error + Organization list" where
  "ListOrgs io limit offset scope d =
     (if MatchesNothing scope then Inr []
      else
        let wa = andScope P_true scope ''id'' []
        in if io 0 then Inl (Failed ''failed to list organizations'')
           else (case paginate limit offset (order_desc org_CreatedAt
                   (filter (selected (pairs d) org_cols wa) (organizations d))) of
                   None \<Rightarrow> Inl (Failed ''failed to list organizations'')
                 | Some xs \<Rightarrow> if io 1 then Inl (Failed ''failed to scan organization'') else Inr xs))"

definition CountOrgs :: "io \<Rightarrow> OrgScope \<Rightarrow> db \<Rightarrow> store_error + nat" where
  "CountOrgs io scope d =
     (if MatchesNothing scope then Inr 0
      else
        let wa = andScope P_true scope ''id'' []
        in if io 0 then Inl (Failed ''failed to count organizations'')
           else Inr (length (filter (selected (pairs d) org_cols wa) (organizations d))))"

definition SearchOrgs :: "io \<Rightarrow> string \<Rightarrow> int \<Rightarrow> int \<Rightarrow> OrgScope \<Rightarrow> db \<Rightarrow> store_error + Organization list" where
  "SearchOrgs io query limit offset scope d =
     (if MatchesNothing scope then Inr []
      else
        let wa = andScope (P_or (P_ilike ''name'' 1) (P_ilike ''display_name'' 1)) scope ''id''
                   [VText (searchPattern query)]
        in if io 0 then Inl (Failed ''failed to search organizations'')
           else (case paginate limit offset (order_desc org_CreatedAt
                   (filter (selected (pairs d) org_cols wa) (organizations d))) of
                   None \<Rightarrow> Inl (Failed ''failed to search organizations'')
                 | Some xs \<Rightarrow> if io 1 then Inl (Failed ''failed to scan organization'') else Inr xs))"

end
