(* ===== verification/User_Repo.thy ===== *)
theory User_Repo
  imports Org_Repo
begin

text \<open>
  Package \<open>identity/store\<close>, file \<open>user_repository.go\<close>: users, their listings with memberships, and the
  login path \<open>GetOrCreateUserFromOIDC\<close>.

  \<open>io 0\<close> is the statement, \<open>io 1\<close> reading its rows or its row count; the login path, which makes several
  calls, shifts the indices. Another process may change the database between two statements of the login
  path: \<open>env1\<close> is what happens between its last read and its write, \<open>env2\<close> between the write and the
  re-read of the row that won a race.
\<close>

definition CreateUser :: "io \<Rightarrow> string \<Rightarrow> time \<Rightarrow> time \<Rightarrow> User \<Rightarrow> db \<Rightarrow> (store_error + unit) \<times> User \<times> db" where
  "CreateUser io newID now now' user d =
     (let u = user\<lparr>usr_ID := newID, usr_CreatedAt := now, usr_UpdatedAt := now'\<rparr>
      in if io 0 then (Inl (Failed ''failed to create user''), u, d)
         else (case checked (d\<lparr>users := users d @ [u]\<rparr>) of
                 None \<Rightarrow> (Inl (Failed ''failed to create user''), u, d)
               | Some d' \<Rightarrow> (Inr (), u, d')))"

definition GetUserByID :: "io \<Rightarrow> string \<Rightarrow> OrgScope \<Rightarrow> db \<Rightarrow> store_error + User" where
  "GetUserByID io userID scope d =
     (if MatchesNothing scope then Inl (notFound ''user by id'')
      else
        let wa = andMembershipScope (P_eq ''id'' 1) scope ''users.id'' [VText userID]
        in if io 0 then Inl (Failed ''failed to get user by id'')
           else (case filter (selected (pairs d) user_cols wa) (users d) of
                   [] \<Rightarrow> Inl (notFound ''user by id'')
                 | u # _ \<Rightarrow> Inr u))"

definition GetUserByEmail :: "io \<Rightarrow> string \<Rightarrow> db \<Rightarrow> store_error + User" where
  "GetUserByEmail io email d =
     (if io 0 then Inl (Failed ''failed to get user by email'')
      else (case filter (\<lambda>u. usr_Email u = email) (users d) of
              [] \<Rightarrow> Inl (notFound ''user by email'')
            | u # _ \<Rightarrow> Inr u))"

definition GetUserByOIDCSub :: "io \<Rightarrow> string \<Rightarrow> db \<Rightarrow> store_error + User" where
  "GetUserByOIDCSub io oidcSub d =
     (if io 0 then Inl (Failed ''failed to get user by oidc sub'')
      else (case filter (\<lambda>u. usr_OIDCSub u = Some oidcSub) (users d) of
              [] \<Rightarrow> Inl (notFound ''user by oidc sub'')
            | u # _ \<Rightarrow> Inr u))"

definition update_users :: "(User \<Rightarrow> bool) \<Rightarrow> (User \<Rightarrow> User) \<Rightarrow> db \<Rightarrow> db" where
  "update_users hit f d = d\<lparr>users := map (\<lambda>u. if hit u then f u else u) (users d)\<rparr>"

definition UpdateUser :: "io \<Rightarrow> time \<Rightarrow> User \<Rightarrow> OrgScope \<Rightarrow> db \<Rightarrow> (store_error + unit) \<times> User \<times> db" where
  "UpdateUser io now user scope d =
     (if MatchesNothing scope then (Inl (notFound ''user by id''), user, d)
      else
        let u = user\<lparr>usr_UpdatedAt := now\<rparr>;
            wa = andMembershipScope (P_eq ''id'' 1) scope ''users.id''
                   [VText (usr_ID u), VText (usr_Email u), VText (usr_Name u), owner_val (usr_OIDCSub u), VTime now];
            hit = selected (pairs d) user_cols wa
        in if io 0 then (Inl (Failed ''failed to update user''), u, d)
           else (case checked (update_users hit (\<lambda>x. x\<lparr>usr_Email := usr_Email u, usr_Name := usr_Name u,
                    usr_OIDCSub := usr_OIDCSub u, usr_UpdatedAt := now\<rparr>) d) of
                   None \<Rightarrow> (Inl (Failed ''failed to update user''), u, d)
                 | Some d' \<Rightarrow> (requireRow (io 1) (length (filter hit (users d))) ''user by id'', u, d')))"


definition DeleteUser :: "io \<Rightarrow> string \<Rightarrow> OrgScope \<Rightarrow> db \<Rightarrow> (store_error + unit) \<times> db" where
  "DeleteUser io userID scope d =
     (if MatchesNothing scope then (Inl (notFound ''user by id''), d)
      else
        let wa = andMembershipScope (P_eq ''id'' 1) scope ''users.id'' [VText userID];
            hit = selected (pairs d) user_cols wa
        in if io 0 then (Inl (Failed ''failed to delete user''), d)
           else (requireRow (io 1) (length (filter hit (users d))) ''user by id'', delete_users hit d))"

subsection \<open>Listings\<close>

definition listUsersPage :: "io \<Rightarrow> int \<Rightarrow> int \<Rightarrow> OrgScope \<Rightarrow> db \<Rightarrow> store_error + User list" where
  "listUsersPage io limit offset scope d =
     (let wa = andMembershipScope P_true scope ''users.id'' []
      in if io 0 then Inl (Failed ''failed to list users'')
         else (case paginate limit offset (order_desc usr_CreatedAt (filter (selected (pairs d) user_cols wa) (users d))) of
                 None \<Rightarrow> Inl (Failed ''failed to list users'')
               | Some us \<Rightarrow> if io 1 then Inl (Failed ''failed to scan user'') else Inr us))"

definition ListUsers :: "io \<Rightarrow> int \<Rightarrow> int \<Rightarrow> OrgScope \<Rightarrow> db \<Rightarrow> store_error + (User list \<times> nat)" where
  "ListUsers io limit offset scope d =
     (if MatchesNothing scope then Inr ([], 0)
      else
        let wa = andMembershipScope P_true scope ''users.id'' []
        in if io 0 then Inl (Failed ''failed to count users'')
           else
             let n_total = length (filter (selected (pairs d) user_cols wa) (users d))
             in case listUsersPage (\<lambda>n. io (n + 1)) limit offset scope d of
                  Inl e \<Rightarrow> Inl e
                | Inr us \<Rightarrow> Inr (us, n_total))"

definition CountUsers :: "io \<Rightarrow> OrgScope \<Rightarrow> db \<Rightarrow> store_error + nat" where
  "CountUsers io scope d =
     (if MatchesNothing scope then Inr 0
      else
        let wa = andMembershipScope P_true scope ''users.id'' []
        in if io 0 then Inl (Failed ''failed to count users'')
           else Inr (length (filter (selected (pairs d) user_cols wa) (users d))))"

definition SearchUsers :: "io \<Rightarrow> string \<Rightarrow> int \<Rightarrow> int \<Rightarrow> OrgScope \<Rightarrow> db \<Rightarrow> store_error + User list" where
  "SearchUsers io query limit offset scope d =
     (if MatchesNothing scope then Inr []
      else
        let wa = andMembershipScope (P_or (P_ilike ''email'' 1) (P_ilike ''name'' 1)) scope ''users.id''
                   [VText (searchPattern query)]
        in if io 0 then Inl (Failed ''failed to search users'')
           else (case paginate limit offset (order_desc usr_CreatedAt (filter (selected (pairs d) user_cols wa) (users d))) of
                   None \<Rightarrow> Inl (Failed ''failed to search users'')
                 | Some us \<Rightarrow> if io 1 then Inl (Failed ''failed to scan user'') else Inr us))"

definition GetUserWithOrgRoles :: "io \<Rightarrow> string \<Rightarrow> OrgScope \<Rightarrow> db \<Rightarrow> store_error + UserWithOrgRoles" where
  "GetUserWithOrgRoles io userID scope d =
     (if MatchesNothing scope then Inl (notFound ''user by id'')
      else (case GetUserByID io userID scope d of
              Inl e \<Rightarrow> Inl e
            | Inr user \<Rightarrow>
                let wa = andScope (P_eq ''om.user_id'' 1) scope ''om.organization_id'' [VText userID]
                in if io 1 then Inl (Failed ''failed to get user memberships'')
                   else (case scan_rows (scanUserMembership d)
                           (order_desc mem_CreatedAt (filter (selected (pairs d) member_cols wa) (organization_members d))) of
                           Inl e \<Rightarrow> Inl e
                         | Inr ms \<Rightarrow> if io 2 then Inl (Failed ''rows'')
                                    else Inr \<lparr>uw_User = user, uw_Memberships = ms\<rparr>)))"

text \<open>A row is attached to the entry the map \<open>resultByUserID\<close> holds for its user: the last one of that id.\<close>

fun attach :: "(string \<times> UserMembership) list \<Rightarrow> User list \<Rightarrow> UserWithOrgRoles list" where
  "attach rows [] = []"
| "attach rows (u # us) =
     \<lparr>uw_User = u, uw_Memberships = (if usr_ID u \<in> usr_ID ` set us then []
        else map snd (filter (\<lambda>r. fst r = usr_ID u) rows))\<rparr> # attach rows us"

definition scanBulkMembership :: "db \<Rightarrow> OrganizationMember \<Rightarrow> store_error + (string \<times> UserMembership)" where
  "scanBulkMembership d m =
     (case scanUserMembership d m of Inl e \<Rightarrow> Inl e | Inr um \<Rightarrow> Inr (mem_UserID m, um))"

definition loadMembershipsForUsers :: "io \<Rightarrow> User list \<Rightarrow> OrgScope \<Rightarrow> db \<Rightarrow> store_error + UserWithOrgRoles list" where
  "loadMembershipsForUsers io us scope d =
     (if length us = 0 then Inr (attach [] us)
      else
        let wa = andScope (P_any ''om.user_id'' 1) scope ''om.organization_id'' [VTexts (map usr_ID us)];
            rows = sort_key mem_UserID (order_desc mem_CreatedAt
                     (filter (selected (pairs d) member_cols wa) (organization_members d)))
        in if io 0 then Inl (Failed ''failed to load memberships for users'')
           else (case scan_rows (scanBulkMembership d) rows of
                   Inl e \<Rightarrow> Inl e
                 | Inr rs \<Rightarrow> if io 1 then Inl (Failed ''rows'') else Inr (attach rs us)))"

definition ListUsersWithMemberships ::
    "io \<Rightarrow> int \<Rightarrow> int \<Rightarrow> OrgScope \<Rightarrow> db \<Rightarrow> store_error + (UserWithOrgRoles list \<times> nat)" where
  "ListUsersWithMemberships io limit offset scope d =
     (case ListUsers io limit offset scope d of
        Inl e \<Rightarrow> Inl e
      | Inr (us, n_total) \<Rightarrow>
          (case loadMembershipsForUsers (\<lambda>n. io (n + 3)) us scope d of
             Inl e \<Rightarrow> Inl e
           | Inr r \<Rightarrow> Inr (r, n_total)))"

definition SearchWithMemberships ::
    "io \<Rightarrow> string \<Rightarrow> int \<Rightarrow> int \<Rightarrow> OrgScope \<Rightarrow> db \<Rightarrow> store_error + UserWithOrgRoles list" where
  "SearchWithMemberships io query limit offset scope d =
     (case SearchUsers io query limit offset scope d of
        Inl e \<Rightarrow> Inl e
      | Inr us \<Rightarrow> loadMembershipsForUsers (\<lambda>n. io (n + 2)) us scope d)"

subsection \<open>The login path\<close>







subsection \<open>Lemmas\<close>

lemma update_users_wf_checked: "checked (update_users hit f d) = Some d' \<Longrightarrow> d' = update_users hit f d \<and> db_wf d'"
  by simp


lemma GetUserByID_Inr:
  assumes "GetUserByID io i scope d = Inr u"
  shows "u \<in> set (users d) \<and> usr_ID u = i \<and> permits_user scope (pairs d) i"
  using assms by (auto simp: GetUserByID_def Let_def user_selected user_cols_def param_def split: if_splits list.splits
      dest!: filter_Cons_mem)


lemma GetUserByOIDCSub_not_found:
  "GetUserByOIDCSub io s d = Inl e \<Longrightarrow> is_not_found e \<Longrightarrow> u \<in> set (users d) \<Longrightarrow> usr_OIDCSub u \<noteq> Some s"
  by (auto simp: GetUserByOIDCSub_def filter_empty_conv split: if_splits list.splits)

lemma GetUserByEmail_Inr: "GetUserByEmail io s d = Inr u \<Longrightarrow> u \<in> set (users d) \<and> usr_Email u = s"
  by (auto simp: GetUserByEmail_def split: if_splits list.splits dest!: filter_Cons_mem)




text \<open>The users linked to another subject.\<close>

definition others :: "string \<Rightarrow> db \<Rightarrow> User list" where
  "others s d = filter (\<lambda>u. usr_OIDCSub u \<noteq> None \<and> usr_OIDCSub u \<noteq> Some s) (users d)"




text \<open>What a login leaves: the returned user is linked to the subject in the database, and the accounts of
  other subjects are those of the database it wrote to.\<close>

definition login_ok :: "string \<Rightarrow> db \<Rightarrow> (store_error + User) \<times> db \<Rightarrow> bool" where
  "login_ok s d0 r \<longleftrightarrow> db_wf (snd r) \<and> others s (snd r) = others s d0
     \<and> (case fst r of Inl e \<Rightarrow> True
        | Inr u \<Rightarrow> usr_OIDCSub u = Some s \<and> (\<exists>x \<in> set (users (snd r)). usr_ID x = usr_ID u \<and> usr_OIDCSub x = Some s))"

lemma login_error [simp]: "login_ok s d0 (Inl e, d) \<longleftrightarrow> db_wf d \<and> others s d = others s d0"
  by (simp add: login_ok_def)








subsection \<open>Scoped access\<close>

definition hidden_user :: "OrgScope \<Rightarrow> db \<Rightarrow> User \<Rightarrow> bool" where
  "hidden_user scope d u \<longleftrightarrow> \<not> permits_user scope (pairs d) (usr_ID u)"

lemma user_hit_visible:
  "max_param q \<le> length args \<Longrightarrow> selected (pairs d) user_cols (andMembershipScope q scope ''users.id'' args) u \<Longrightarrow> \<not> hidden_user scope d u"
  by (simp add: user_selected hidden_user_def)

lemma listUsersPage_mem:
  "listUsersPage io l f scope d = Inr us \<Longrightarrow> u \<in> set us \<Longrightarrow> u \<in> set (users d) \<and> permits_user scope (pairs d) (usr_ID u)"
  by (auto simp: listUsersPage_def Let_def user_selected split: if_splits option.splits dest!: paginate_set [THEN subsetD])

lemma ListUsers_mem:
  "ListUsers io l f scope d = Inr (us, n) \<Longrightarrow> u \<in> set us \<Longrightarrow> u \<in> set (users d) \<and> permits_user scope (pairs d) (usr_ID u)"
  by (auto simp: ListUsers_def Let_def split: if_splits sum.splits dest: listUsersPage_mem)

lemma SearchUsers_mem:
  "SearchUsers io q l f scope d = Inr us \<Longrightarrow> u \<in> set us \<Longrightarrow> u \<in> set (users d) \<and> permits_user scope (pairs d) (usr_ID u)"
  by (auto simp: SearchUsers_def Let_def user_selected split: if_splits option.splits dest!: paginate_set [THEN subsetD])

lemma scanUserMembership_org: "scanUserMembership d m = Inr um \<Longrightarrow> um_OrganizationID um = mem_OrganizationID m"
  by (auto simp: scanUserMembership_def split: sum.splits)

lemma GetUserWithOrgRoles_scoped:
  assumes "GetUserWithOrgRoles io i scope d = Inr uw"
  shows "usr_ID (uw_User uw) = i \<and> permits_user scope (pairs d) i \<and> (\<forall>um \<in> set (uw_Memberships uw). permits scope (Some (um_OrganizationID um)))"
proof -
  obtain u ms where u: "GetUserByID io i scope d = Inr u" and uw: "uw = \<lparr>uw_User = u, uw_Memberships = ms\<rparr>"
    and ms: "scan_rows (scanUserMembership d) (order_desc mem_CreatedAt
      (filter (selected (pairs d) member_cols (andScope (P_eq ''om.user_id'' 1) scope ''om.organization_id'' [VText i]))
        (organization_members d))) = Inr ms"
    using assms by (auto simp: GetUserWithOrgRoles_def Let_def split: if_splits sum.splits)
  have "permits scope (Some (um_OrganizationID um))" if um: "um \<in> set ms" for um
    using scan_rows_mem [OF ms um] scanUserMembership_org by (auto simp: members_om.selected_iff)
  with GetUserByID_Inr [OF u] uw show ?thesis by simp
qed

lemma hidden_user_update:
  assumes "\<And>u. hit u \<Longrightarrow> \<not> hidden_user scope d u" "\<And>u. usr_ID (f u) = usr_ID u"
  shows "filter (hidden_user scope d) (users (update_users hit f d)) = filter (hidden_user scope d) (users d)"
proof -
  have "filter (hidden_user scope d) (map (\<lambda>u. if hit u then f u else u) us) = filter (hidden_user scope d) us" for us
    using assms by (induction us) (auto simp: hidden_user_def)
  then show ?thesis by (simp add: update_users_def)
qed

lemma hidden_user_delete:
  "(\<And>u. hit u \<Longrightarrow> \<not> hidden_user scope d u) \<Longrightarrow>
     filter (hidden_user scope d) (users (delete_users hit d)) = filter (hidden_user scope d) (users d)"
  by (auto simp: delete_users_def Let_def intro!: filter_cong)

text \<open>
  A scope reaches only the users it covers: those with a membership in one of its organizations, those
  with no membership at all where it includes the unowned. Reads by id, listings and searches return only
  such users, with only the memberships of its organizations; a listing's total is the number of such users;
  updating or deleting a user leaves every other one as it was.
\<close>

theorem users_scoped:
  "(\<forall>u. GetUserByID io i scope d = Inr u \<longrightarrow> usr_ID u = i \<and> permits_user scope (pairs d) i)
   \<and> (\<forall>us n. ListUsers io limit offset scope d = Inr (us, n) \<longrightarrow> (\<forall>u \<in> set us. permits_user scope (pairs d) (usr_ID u))
        \<and> (MatchesNothing scope \<or> n = length (filter (\<lambda>u. permits_user scope (pairs d) (usr_ID u)) (users d))))
   \<and> (\<forall>us. SearchUsers io query limit offset scope d = Inr us \<longrightarrow> (\<forall>u \<in> set us. permits_user scope (pairs d) (usr_ID u)))
   \<and> (\<forall>uw. GetUserWithOrgRoles io i scope d = Inr uw \<longrightarrow> permits_user scope (pairs d) i
        \<and> (\<forall>um \<in> set (uw_Memberships uw). permits scope (Some (um_OrganizationID um))))
   \<and> filter (hidden_user scope d) (users (snd (snd (UpdateUser io now user scope d)))) = filter (hidden_user scope d) (users d)
   \<and> filter (hidden_user scope d) (users (snd (DeleteUser io i scope d))) = filter (hidden_user scope d) (users d)"
proof (intro conjI allI impI)
  show "usr_ID u = i" "permits_user scope (pairs d) i" if "GetUserByID io i scope d = Inr u" for u
    using GetUserByID_Inr [OF that] by simp_all
  fix us n assume list: "ListUsers io limit offset scope d = Inr (us, n)"
  show "\<forall>u \<in> set us. permits_user scope (pairs d) (usr_ID u)" using ListUsers_mem [OF list] by blast
  show "MatchesNothing scope \<or> n = length (filter (\<lambda>u. permits_user scope (pairs d) (usr_ID u)) (users d))"
    using list by (auto simp: ListUsers_def Let_def user_selected split: if_splits sum.splits intro!: arg_cong [where f = length] filter_cong)
next
  show "\<forall>u \<in> set us. permits_user scope (pairs d) (usr_ID u)" if "SearchUsers io query limit offset scope d = Inr us" for us
    using SearchUsers_mem [OF that] by blast
  show "permits_user scope (pairs d) i" "\<forall>um \<in> set (uw_Memberships uw). permits scope (Some (um_OrganizationID um))"
    if "GetUserWithOrgRoles io i scope d = Inr uw" for uw
    using GetUserWithOrgRoles_scoped [OF that] by simp_all
  show "filter (hidden_user scope d) (users (snd (snd (UpdateUser io now user scope d)))) = filter (hidden_user scope d) (users d)"
    by (auto simp: UpdateUser_def Let_def split: option.splits intro!: hidden_user_update dest: user_hit_visible [rotated])
  show "filter (hidden_user scope d) (users (snd (DeleteUser io i scope d))) = filter (hidden_user scope d) (users d)"
    by (auto simp: DeleteUser_def Let_def intro!: hidden_user_delete dest: user_hit_visible [rotated])
qed

theorem users_scoped_witness:
  "\<exists>u. GetUserByID no_faults ''u1'' (OrgScopeOrganizations [''o1'']) ex_db = Inr u
     \<and> permits_user (OrgScopeOrganizations [''o1'']) (pairs ex_db) ''u1''"
proof -
  obtain u where "GetUserByID no_faults ''u1'' (OrgScopeOrganizations [''o1'']) ex_db = Inr u"
    by (simp add: GetUserByID_def ex_defs MatchesNothing_def OrgScopeOrganizations_def andMembershipScope_def membershipSQL_def
        selected_def user_cols_def param_def Let_def pairs_def member_key_def)
  with users_scoped [of no_faults "''u1''" "OrgScopeOrganizations [''o1'']" ex_db] show ?thesis by blast
qed

end
