(* ===== verification/Batch_Prune.thy ===== *)
theory Batch_Prune
  imports Store_DB
begin

text \<open>
  What the self-bounding tables of package \<open>identity/store\<close> share: the batched delete
  \<open>DELETE ... WHERE key IN (SELECT key ... WHERE stamp < cutoff ORDER BY stamp LIMIT n)\<close> of the audit
  sweep and of the two prunes, and the throttle \<open>claimPruneSlot\<close> of \<open>token_repository.go\<close> and
  \<open>notify_dedup_repository.go\<close>, with its atomic load and compare-and-swap as separate steps.
\<close>

subsection \<open>The batched delete\<close>

definition batch :: "('a \<Rightarrow> bool) \<Rightarrow> ('a \<Rightarrow> time) \<Rightarrow> int \<Rightarrow> 'a list \<Rightarrow> 'a list option" where
  "batch elig stamp limit rows = paginate limit 0 (order_asc stamp (filter elig rows))"

definition delete_batch :: "('a \<Rightarrow> string) \<Rightarrow> 'a list \<Rightarrow> 'a list \<Rightarrow> 'a list" where
  "delete_batch key sel rows = filter (\<lambda>x. key x \<notin> set (map key sel)) rows"

lemma sorted_take_drop:
  "sorted (map f xs) \<Longrightarrow> \<forall>a \<in> set (take n xs). \<forall>b \<in> set (drop n xs). f a \<le> f b"
proof -
  assume "sorted (map f xs)"
  then have "sorted (map f (take n xs) @ map f (drop n xs))"
    by (simp only: flip: map_append) (simp only: append_take_drop_id)
  then show ?thesis by (simp only: sorted_append set_map) blast
qed

text \<open>The contract of a table swept in batches: the rows have a key and a time stamp, and the sweep may
  remove only eligible rows. What any such sweep does, whatever the table.\<close>

locale batch_sweep =
  fixes key :: "'a \<Rightarrow> string"
    and stamp :: "'a \<Rightarrow> time"
    and sweep :: "('a \<Rightarrow> bool) \<Rightarrow> int \<Rightarrow> 'a list \<Rightarrow> ('a list \<times> nat) option"
  assumes sweep_refuses: "limit < 0 \<Longrightarrow> sweep elig limit rows = None"
    and sweep_takes: "0 \<le> limit \<Longrightarrow>
      sweep elig limit rows =
        (let sel = take (nat limit) (order_asc stamp (filter elig rows))
         in Some (filter (\<lambda>x. key x \<notin> key ` set sel) rows, length (filter (\<lambda>x. key x \<in> key ` set sel) rows)))"
begin

lemma sweep_cases:
  assumes "sweep elig limit rows = Some (rest, n)" "distinct (map key rows)"
  obtains sel where "sel = take (nat limit) (order_asc stamp (filter elig rows))" "0 \<le> limit"
    "rest = filter (\<lambda>x. x \<notin> set sel) rows" "n = length sel" "set sel \<subseteq> {x \<in> set rows. elig x}"
proof -
  define sel where "sel = take (nat limit) (order_asc stamp (filter elig rows))"
  have lim: "0 \<le> limit" using assms(1) sweep_refuses [of limit elig rows] by force
  have sub: "set sel \<subseteq> {x \<in> set rows. elig x}"
    unfolding sel_def by (auto dest: in_set_takeD)
  have key: "key x \<in> key ` set sel \<longleftrightarrow> x \<in> set sel" if "x \<in> set rows" for x
    using that sub distinct_key_unique [OF assms(2)] by blast
  have dist: "distinct sel"
    using assms(2) unfolding sel_def order_asc_def by (simp add: distinct_map)
  have "rest = filter (\<lambda>x. key x \<notin> key ` set sel) rows" "n = length (filter (\<lambda>x. key x \<in> key ` set sel) rows)"
    using assms(1) sweep_takes [OF lim, of elig rows] by (auto simp: sel_def Let_def)
  then have r: "rest = filter (\<lambda>x. x \<notin> set sel) rows" "n = length (filter (\<lambda>x. x \<in> set sel) rows)"
    using key by (auto intro: filter_cong arg_cong [where f = length])
  have "length (filter (\<lambda>x. x \<in> set sel) rows) = card (set (filter (\<lambda>x. x \<in> set sel) rows))"
    using assms(2) by (intro distinct_card [symmetric]) (simp add: distinct_map)
  also have "set (filter (\<lambda>x. x \<in> set sel) rows) = set sel" using sub by auto
  also have "card (set sel) = length sel" using dist by (rule distinct_card)
  finally have "n = length sel" using r(2) by simp
  with that [OF sel_def lim r(1) _ sub] show thesis by blast
qed

lemma sweep_spec:
  assumes "sweep elig limit rows = Some (rest, n)" "distinct (map key rows)"
  shows "rest = filter (\<lambda>x. x \<in> set rest) rows"
    and "\<And>x. x \<in> set rows \<Longrightarrow> \<not> elig x \<Longrightarrow> x \<in> set rest"
    and "int n = min limit (int (length (filter elig rows)))"
    and "length rest + n = length rows"
    and "\<And>x y. x \<in> set rows \<Longrightarrow> x \<notin> set rest \<Longrightarrow> y \<in> set rest \<Longrightarrow> elig y \<Longrightarrow> stamp x \<le> stamp y"
proof -
  obtain sel where sel: "sel = take (nat limit) (order_asc stamp (filter elig rows))" "0 \<le> limit"
    "rest = filter (\<lambda>x. x \<notin> set sel) rows" "n = length sel" "set sel \<subseteq> {x \<in> set rows. elig x}"
    using sweep_cases [OF assms] .
  show "rest = filter (\<lambda>x. x \<in> set rest) rows" unfolding sel(3) by (rule filter_cong) auto
  show "x \<in> set rest" if "x \<in> set rows" "\<not> elig x" for x using that sel(3,5) by auto
  show "int n = min limit (int (length (filter elig rows)))" using sel(1,2,4) by (auto simp: min_def)
  have "distinct sel" using assms(2) unfolding sel(1) order_asc_def by (simp add: distinct_map)
  moreover have "set (filter (\<lambda>x. x \<in> set sel) rows) = set sel" using sel(5) by auto
  moreover have "distinct (filter (\<lambda>x. x \<in> set sel) rows)" using assms(2) by (simp add: distinct_map)
  ultimately have "length (filter (\<lambda>x. x \<in> set sel) rows) = length sel" by (metis distinct_card)
  then show "length rest + n = length rows"
    using length_filter_partition [of "\<lambda>x. x \<in> set sel" rows] sel(3,4) by simp
  show "stamp x \<le> stamp y" if xy: "x \<in> set rows" "x \<notin> set rest" "y \<in> set rest" "elig y" for x y
  proof -
    let ?all = "order_asc stamp (filter elig rows)"
    have x: "x \<in> set (take (nat limit) ?all)" using xy sel(1,3) by auto
    have "y \<notin> set (take (nat limit) ?all)" "y \<in> set ?all" using xy sel(1,3) by auto
    then have y: "y \<in> set (drop (nat limit) ?all)"
      by (metis Un_iff append_take_drop_id set_append)
    have "sorted (map stamp ?all)" by (simp add: order_asc_def)
    then have "\<forall>a \<in> set (take (nat limit) ?all). \<forall>b \<in> set (drop (nat limit) ?all). stamp a \<le> stamp b"
      by (rule sorted_take_drop)
    with x y show ?thesis by blast
  qed
qed

end

text \<open>The batched delete of the model meets the contract on every table.\<close>

definition sweep_table :: "('a \<Rightarrow> string) \<Rightarrow> ('a \<Rightarrow> time) \<Rightarrow> ('a \<Rightarrow> bool) \<Rightarrow> int \<Rightarrow> 'a list \<Rightarrow> ('a list \<times> nat) option" where
  "sweep_table key stamp elig limit rows =
     (case batch elig stamp limit rows of
        None \<Rightarrow> None
      | Some sel \<Rightarrow> Some (delete_batch key sel rows, length rows - length (delete_batch key sel rows)))"

lemma sweep_table_batch_sweep: "batch_sweep key stamp (sweep_table key stamp)"
proof
  show "sweep_table key stamp elig limit rows = None" if "limit < 0" for elig and limit :: int and rows :: "'a list"
    using that by (simp add: sweep_table_def batch_def paginate_def)
next
  fix elig :: "'a \<Rightarrow> bool" and limit :: int and rows :: "'a list"
  assume "0 \<le> limit"
  then show "sweep_table key stamp elig limit rows =
      (let sel = take (nat limit) (order_asc stamp (filter elig rows))
       in Some (filter (\<lambda>x. key x \<notin> key ` set sel) rows, length (filter (\<lambda>x. key x \<in> key ` set sel) rows)))"
    using length_filter_partition [of "\<lambda>x. key x \<in> key ` set (take (nat limit) (order_asc stamp (filter elig rows)))" rows]
    by (simp add: sweep_table_def batch_def paginate_def delete_batch_def Let_def)
qed

interpretation log_sweep: batch_sweep log_ID log_CreatedAt "sweep_table log_ID log_CreatedAt"
  by (rule sweep_table_batch_sweep)

interpretation token_sweep: batch_sweep rev_JTI rev_ExpiresAt "sweep_table rev_JTI rev_ExpiresAt"
  by (rule sweep_table_batch_sweep)

interpretation claim_sweep: batch_sweep dd_Key dd_ClaimedAt "sweep_table dd_Key dd_ClaimedAt"
  by (rule sweep_table_batch_sweep)

subsection \<open>The throttle\<close>

text \<open>\<open>time.Time.UnixNano\<close>: nanoseconds since 1970 in 64 bits.\<close>

definition unix_epoch :: time where
  "unix_epoch = 62135596800 * second"

definition UnixNano :: "time \<Rightarrow> int" where
  "UnixNano t = wrap64 (t - unix_epoch)"

text \<open>\<open>claimPruneSlot\<close> loads the next admissible time, gives up if the present is before it, and swaps in
  the time after it; the swap succeeds only if the value loaded is still there.\<close>

definition slotOpen :: "time \<Rightarrow> int \<Rightarrow> bool" where
  "slotOpen now next = (\<not> UnixNano now < next)"

definition compareAndSwap :: "int \<Rightarrow> int \<Rightarrow> int \<Rightarrow> bool \<times> int" where
  "compareAndSwap cell old new = (if cell = old then (True, new) else (False, cell))"

definition claimPruneSlot :: "duration \<Rightarrow> duration \<Rightarrow> time \<Rightarrow> int \<Rightarrow> bool \<times> int" where
  "claimPruneSlot pruneInterval dflt now cell =
     (let next = cell
      in if \<not> slotOpen now next then (False, cell)
         else
           let interval = (if pruneInterval \<le> 0 then dflt else pruneInterval)
           in compareAndSwap cell next (UnixNano (now + interval)))"

text \<open>Several goroutines share the cell: each loads at its own time, and swaps later.\<close>

record slot_state =
  sl_next :: int
  sl_loaded :: "nat \<rightharpoonup> int \<times> time"
  sl_wins :: "time list"

inductive slot_step :: "duration \<Rightarrow> slot_state \<Rightarrow> slot_state \<Rightarrow> bool" for interval where
  load: "slotOpen now (sl_next s) \<Longrightarrow>
     slot_step interval s (s\<lparr>sl_loaded := (sl_loaded s)(i \<mapsto> (sl_next s, now))\<rparr>)"
| win: "sl_loaded s i = Some (old, now) \<Longrightarrow>
     compareAndSwap (sl_next s) old (UnixNano (now + interval)) = (True, v) \<Longrightarrow>
     slot_step interval s (s\<lparr>sl_next := v, sl_loaded := (sl_loaded s)(i := None), sl_wins := now # sl_wins s\<rparr>)"
| lose: "sl_loaded s i = Some (old, now) \<Longrightarrow>
     compareAndSwap (sl_next s) old (UnixNano (now + interval)) = (False, v) \<Longrightarrow>
     slot_step interval s (s\<lparr>sl_next := v, sl_loaded := (sl_loaded s)(i := None)\<rparr>)"

definition slot_init :: slot_state where
  "slot_init = \<lparr>sl_next = 0, sl_loaded = Map.empty, sl_wins = []\<rparr>"

text \<open>The times the 64-bit nanosecond clock represents (1970 to 2262), with room for the interval.\<close>

definition representable :: "duration \<Rightarrow> time \<Rightarrow> bool" where
  "representable interval t \<longleftrightarrow> 0 \<le> t - unix_epoch \<and> t - unix_epoch + interval < 2 ^ 63"

definition slot_inv :: "duration \<Rightarrow> slot_state \<Rightarrow> bool" where
  "slot_inv interval s \<longleftrightarrow>
     (sl_wins s \<noteq> [] \<longrightarrow> sl_next s = UnixNano (hd (sl_wins s) + interval))
     \<and> (\<forall>i old now. sl_loaded s i = Some (old, now) \<longrightarrow> old \<le> UnixNano now)
     \<and> ((\<forall>t \<in> set (sl_wins s). representable interval t) \<longrightarrow>
          sorted_wrt (\<lambda>b a. a + interval \<le> b) (sl_wins s))"

lemma UnixNano_representable:
  assumes "representable interval t" "0 \<le> interval"
  shows "UnixNano t = t - unix_epoch" "UnixNano (t + interval) = t + interval - unix_epoch"
  using assms by (auto simp: UnixNano_def representable_def intro!: wrap64_id)

lemma slot_step_inv:
  assumes "slot_step interval s s'" "slot_inv interval s" "0 \<le> interval"
  shows "slot_inv interval s'"
  using assms(1)
proof (cases rule: slot_step.cases)
  case (load now i)
  with assms(2) show ?thesis by (auto simp: slot_inv_def slotOpen_def)
next
  case (lose i old now v)
  with assms(2) show ?thesis by (auto simp: slot_inv_def compareAndSwap_def split: if_splits)
next
  case (win i old now v)
  then have v: "v = UnixNano (now + interval)" "sl_next s = old"
    by (auto simp: compareAndSwap_def split: if_splits)
  have old: "old \<le> UnixNano now" using assms(2) win(2) by (auto simp: slot_inv_def)
  have "sorted_wrt (\<lambda>b a. a + interval \<le> b) (now # sl_wins s)"
    if rep: "\<forall>t \<in> set (now # sl_wins s). representable interval t"
  proof (cases "sl_wins s")
    case Nil
    then show ?thesis by simp
  next
    case (Cons w ws)
    have "UnixNano (w + interval) \<le> UnixNano now"
      using assms(2) Cons old v(2) by (auto simp: slot_inv_def)
    then have wn: "w + interval \<le> now"
      using rep Cons assms(3) UnixNano_representable [of interval w] UnixNano_representable [of interval now] by simp
    have srt: "sorted_wrt (\<lambda>b a. a + interval \<le> b) (w # ws)"
      using assms(2) rep Cons by (auto simp: slot_inv_def)
    with wn assms(3) Cons show ?thesis by force
  qed
  with assms(2) win v show ?thesis by (auto simp: slot_inv_def)
qed

lemma slot_reachable_inv:
  assumes "(slot_step interval)\<^sup>*\<^sup>* slot_init s" "0 \<le> interval"
  shows "slot_inv interval s"
  using assms(1)
proof (induction rule: rtranclp_induct)
  case base
  then show ?case by (simp add: slot_inv_def slot_init_def)
next
  case (step y z)
  then show ?case using slot_step_inv assms(2) by blast
qed

text \<open>
  The prune throttle under concurrency. However goroutines interleave the load and the
  compare-and-swap of \<open>claimPruneSlot\<close>, any two successful claims are at least the interval apart in the
  callers' own clock readings, the most recent first in the list; claiming in one step is loading and swapping.
\<close>

theorem claimPruneSlot_throttles:
  assumes "(slot_step interval)\<^sup>*\<^sup>* slot_init s" "0 < interval"
    and "\<forall>t \<in> set (sl_wins s). representable interval t"
  shows "sorted_wrt (\<lambda>later earlier. earlier + interval \<le> later) (sl_wins s)
    \<and> claimPruneSlot interval dflt now cell =
        (if slotOpen now cell then compareAndSwap cell cell (UnixNano (now + interval)) else (False, cell))"
  using slot_reachable_inv [OF assms(1)] assms(2,3) by (simp add: slot_inv_def claimPruneSlot_def Let_def)

theorem claimPruneSlot_throttles_witness:
  "\<exists>s. (slot_step hour)\<^sup>*\<^sup>* slot_init s \<and> sl_wins s = [unix_epoch + 5]
     \<and> sorted_wrt (\<lambda>later earlier. earlier + hour \<le> later) (sl_wins s)"
proof -
  let ?now = "unix_epoch + 5"
  let ?s1 = "slot_init\<lparr>sl_loaded := (sl_loaded slot_init)(0 \<mapsto> (sl_next slot_init, ?now))\<rparr>"
  let ?s2 = "?s1\<lparr>sl_next := UnixNano (?now + hour), sl_loaded := (sl_loaded ?s1)(0 := None), sl_wins := ?now # sl_wins ?s1\<rparr>"
  have "slot_step hour slot_init ?s1"
    by (rule slot_step.load) (simp add: slotOpen_def slot_init_def UnixNano_def wrap64_def)
  moreover have "slot_step hour ?s1 ?s2"
    by (rule slot_step.win [of _ _ 0]) (simp_all add: compareAndSwap_def slot_init_def)
  ultimately have "(slot_step hour)\<^sup>*\<^sup>* slot_init ?s2"
    by (rule rtranclp.rtrancl_into_rtrancl [of "slot_step hour" slot_init ?s1 ?s2, OF r_into_rtranclp])
  moreover have w: "sl_wins ?s2 = [?now]" by (simp add: slot_init_def)
  moreover have "representable hour ?now" "0 < hour"
    by (simp_all add: representable_def hour_def minute_def second_def)
  then have "\<forall>t \<in> set (sl_wins ?s2). representable hour t" unfolding w by simp
  ultimately show ?thesis using claimPruneSlot_throttles [of hour ?s2 0 0 0] \<open>0 < hour\<close> by blast
qed

subsection \<open>Tables that prune themselves\<close>

text \<open>The fields the two repositories carry for their prune; zero means the default.\<close>

record Pruner =
  nextPruneAtUnixNano :: int
  pruneInterval :: duration
  pruneGrace :: duration
  pruneBatch :: int

definition newPruner :: Pruner where
  "newPruner = \<lparr>nextPruneAtUnixNano = 0, pruneInterval = 0, pruneGrace = 0, pruneBatch = 0\<rparr>"

definition or_default :: "int \<Rightarrow> int \<Rightarrow> int" where
  "or_default dflt x = (if x \<le> 0 then dflt else x)"

text \<open>A prune riding on another statement: it is skipped when the slot is taken, removes only rows whose
  stamp is more than the grace before the present, and its failure is swallowed.\<close>

locale self_pruning =
  fixes prune :: "bool \<Rightarrow> time \<Rightarrow> Pruner \<Rightarrow> 'a list \<Rightarrow> 'a list \<times> Pruner"
    and key :: "'a \<Rightarrow> string"
    and stamp :: "'a \<Rightarrow> time"
    and dflt :: duration
  assumes keeps: "distinct (map key rows) \<Longrightarrow> x \<in> set rows \<Longrightarrow> now - or_default dflt (pruneGrace r) \<le> stamp x
      \<Longrightarrow> x \<in> set (fst (prune fails now r rows))"
    and shrinks: "fst (prune fails now r rows) = filter (\<lambda>x. x \<in> set (fst (prune fails now r rows))) rows"
    and grace_kept: "pruneGrace (snd (prune fails now r rows)) = pruneGrace r"
begin

lemma prune_distinct: "distinct (map key rows) \<Longrightarrow> distinct (map key (fst (prune fails now r rows)))"
  by (subst shrinks) (rule filter_distinct_map)

lemma prune_subset: "set (fst (prune fails now r rows)) \<subseteq> set rows"
  by (subst shrinks) auto

end

definition self_prune :: "('a \<Rightarrow> string) \<Rightarrow> ('a \<Rightarrow> time) \<Rightarrow> duration \<Rightarrow> duration \<Rightarrow> int
    \<Rightarrow> bool \<Rightarrow> time \<Rightarrow> Pruner \<Rightarrow> 'a list \<Rightarrow> 'a list \<times> Pruner" where
  "self_prune key stamp dfltInterval dfltGrace dfltBatch fails now r rows =
     (case claimPruneSlot (pruneInterval r) dfltInterval now (nextPruneAtUnixNano r) of
        (False, cell) \<Rightarrow> (rows, r\<lparr>nextPruneAtUnixNano := cell\<rparr>)
      | (True, cell) \<Rightarrow>
          let r' = r\<lparr>nextPruneAtUnixNano := cell\<rparr>;
              cutoff = now - or_default dfltGrace (pruneGrace r);
              limit = or_default dfltBatch (pruneBatch r)
          in if fails then (rows, r')
             else (case sweep_table key stamp (\<lambda>x. stamp x < cutoff) limit rows of
                     None \<Rightarrow> (rows, r')
                   | Some (rest, n) \<Rightarrow> (rest, r')))"

lemma sweep_table_filter:
  "sweep_table key stamp elig limit rows = Some (rest, n) \<Longrightarrow> rest = filter (\<lambda>x. x \<in> set rest) rows"
  by (auto simp: sweep_table_def delete_batch_def split: option.splits intro!: filter_cong)

lemma self_prune_self_pruning: "self_pruning (self_prune key stamp di dg db) key stamp dg"
proof
  fix rows :: "'a list" and x and now :: time and r :: Pruner and fails :: bool
  assume dist: "distinct (map key rows)" and x: "x \<in> set rows" "now - or_default dg (pruneGrace r) \<le> stamp x"
  have "x \<in> set rest" if "sweep_table key stamp (\<lambda>x. stamp x < now - or_default dg (pruneGrace r)) limit rows = Some (rest, n)"
    for limit rest n
    using batch_sweep.sweep_spec(2) [OF sweep_table_batch_sweep that dist x(1)] x(2) by simp
  then show "x \<in> set (fst (self_prune key stamp di dg db fails now r rows))"
    using x(1) by (auto simp: self_prune_def Let_def split: prod.splits bool.splits option.splits)
next
  fix rows :: "'a list" and now :: time and r :: Pruner and fails :: bool
  show "fst (self_prune key stamp di dg db fails now r rows)
      = filter (\<lambda>x. x \<in> set (fst (self_prune key stamp di dg db fails now r rows))) rows"
    using sweep_table_filter [of key stamp "\<lambda>x. stamp x < now - or_default dg (pruneGrace r)" "or_default db (pruneBatch r)" rows]
    by (auto simp: self_prune_def Let_def filter_id_conv split: prod.splits bool.splits option.splits)
  show "pruneGrace (snd (self_prune key stamp di dg db fails now r rows)) = pruneGrace r"
    by (auto simp: self_prune_def Let_def split: prod.splits bool.splits option.splits)
qed

end
