(* ===== verification/Pg_Quote.thy ===== *)
theory Pg_Quote
  imports Prelude
begin

text \<open>
  Package \<open>identity/internal/pgquote\<close>: the identifier grammar and the quoting of literals. Quoting an
  identifier is done by the driver's \<open>pgx.Identifier.Sanitize\<close>, which is not part of the program: it is the
  parameter \<open>sanitize\<close>, and \<open>sanitize_quotes\<close> states what its documentation promises for a name without
  quotes and NUL bytes.
\<close>

definition MaxIdentifierLength :: nat where
  "MaxIdentifierLength = 63"

definition ident_first :: "char \<Rightarrow> bool" where
  "ident_first c \<longleftrightarrow> CHR ''a'' \<le> c \<and> c \<le> CHR ''z'' \<or> c = CHR ''_''"

definition ident_rest :: "char \<Rightarrow> bool" where
  "ident_rest c \<longleftrightarrow> CHR ''a'' \<le> c \<and> c \<le> CHR ''z'' \<or> CHR ''0'' \<le> c \<and> c \<le> CHR ''9'' \<or> c = CHR ''_'' \<or> c = CHR ''$''"

fun identifierPattern :: "string \<Rightarrow> bool" where
  "identifierPattern [] = False"
| "identifierPattern (c # cs) = (ident_first c \<and> list_all ident_rest cs)"

definition ValidIdentifier :: "string \<Rightarrow> bool" where
  "ValidIdentifier part \<longleftrightarrow> length part \<le> MaxIdentifierLength \<and> identifierPattern part"

definition Identifier :: "(string list \<Rightarrow> string) \<Rightarrow> string \<Rightarrow> string" where
  "Identifier sanitize name = sanitize [name]"

definition sanitize_quotes :: "(string list \<Rightarrow> string) \<Rightarrow> bool" where
  "sanitize_quotes sanitize \<longleftrightarrow>
     (\<forall>name. CHR 0x22 \<notin> set name \<and> CHR 0x00 \<notin> set name \<longrightarrow> sanitize [name] = [CHR 0x22] @ name @ [CHR 0x22])"

definition ReplaceAll :: "string \<Rightarrow> char \<Rightarrow> string \<Rightarrow> string" where
  "ReplaceAll s c new = concat (map (\<lambda>x. if x = c then new else [x]) s)"

definition Literal :: "string \<Rightarrow> string" where
  "Literal s =
     (let lit = ReplaceAll s CHR 0x27 [CHR 0x27, CHR 0x27]
      in if CHR 0x5C \<in> set lit
         then '' E'' @ [CHR 0x27] @ ReplaceAll lit CHR 0x5C [CHR 0x5C, CHR 0x5C] @ [CHR 0x27]
         else [CHR 0x27] @ lit @ [CHR 0x27])"

subsection \<open>Reading a literal back\<close>

text \<open>How the server reads a string constant: up to the first quote that is not doubled; in the \<open>E\<close> form a
  backslash escapes (only the escapes a literal can contain here are read). The rest of the statement is
  returned with the value.\<close>

fun lex_body :: "bool \<Rightarrow> string \<Rightarrow> (string \<times> string) option" where
  "lex_body esc [] = None"
| "lex_body esc (c # s) =
     (if c = CHR 0x27 then
        (case s of [] \<Rightarrow> Some ([], [])
         | d # s' \<Rightarrow> if d = CHR 0x27 then map_option (\<lambda>(v, r). (CHR 0x27 # v, r)) (lex_body esc s') else Some ([], s))
      else if esc \<and> c = CHR 0x5C then
        (case s of [] \<Rightarrow> None
         | d # s' \<Rightarrow> if d = CHR 0x5C then map_option (\<lambda>(v, r). (CHR 0x5C # v, r)) (lex_body esc s') else None)
      else map_option (\<lambda>(v, r). (c # v, r)) (lex_body esc s))"

definition lex_literal :: "string \<Rightarrow> (string \<times> string) option" where
  "lex_literal s =
     (case dropWhile (\<lambda>c. c = CHR '' '') s of
        [] \<Rightarrow> None
      | c # s' \<Rightarrow>
          if c = CHR 0x27 then lex_body False s'
          else if c = CHR ''E'' then (case s' of [] \<Rightarrow> None | q # s'' \<Rightarrow> if q = CHR 0x27 then lex_body True s'' else None)
          else None)"

lemma ReplaceAll_simps [simp]:
  "ReplaceAll [] c new = []"
  "ReplaceAll (x # s) c new = (if x = c then new else [x]) @ ReplaceAll s c new"
  "ReplaceAll (s @ t) c new = ReplaceAll s c new @ ReplaceAll t c new"
  by (simp_all add: ReplaceAll_def)

lemma set_ReplaceAll_quote: "CHR 0x5C \<in> set (ReplaceAll s CHR 0x27 [CHR 0x27, CHR 0x27]) \<longleftrightarrow> CHR 0x5C \<in> set s"
  by (induction s) auto

lemma lex_plain:
  "CHR 0x5C \<notin> set s \<Longrightarrow> rest = [] \<or> hd rest \<noteq> CHR 0x27 \<Longrightarrow>
     lex_body False (ReplaceAll s CHR 0x27 [CHR 0x27, CHR 0x27] @ CHR 0x27 # rest) = Some (s, rest)"
  by (induction s) (auto split: list.splits)

lemma lex_escaped:
  "rest = [] \<or> hd rest \<noteq> CHR 0x27 \<Longrightarrow>
     lex_body True (ReplaceAll (ReplaceAll s CHR 0x27 [CHR 0x27, CHR 0x27]) CHR 0x5C [CHR 0x5C, CHR 0x5C] @ CHR 0x27 # rest)
       = Some (s, rest)"
  by (induction s) (auto split: list.splits)

text \<open>
  Quoting a literal is injection-safe. Whatever bytes the value holds, the constant \<open>pgquote.Literal\<close>
  renders is read back by the server as exactly that value, and ends exactly where it was meant to: the
  text following it (which does not itself begin with a quote) is left untouched.
\<close>

theorem Literal_reads_back:
  assumes "rest = [] \<or> hd rest \<noteq> CHR 0x27"
  shows "lex_literal (Literal s @ rest) = Some (s, rest)"
  using lex_plain [OF _ assms] lex_escaped [OF assms]
  by (simp add: Literal_def lex_literal_def set_ReplaceAll_quote Let_def)

theorem Literal_reads_back_witness:
  "lex_literal (Literal [CHR 0x27, CHR '';'', CHR 0x5C] @ '' AND true'') = Some ([CHR 0x27, CHR '';'', CHR 0x5C], '' AND true'')"
  by (rule Literal_reads_back) simp

subsection \<open>Identifiers\<close>

lemma ident_char_plain:
  "ident_first c \<Longrightarrow> c \<noteq> CHR 0x22 \<and> c \<noteq> CHR 0x00 \<and> c \<noteq> CHR ''.''"
  "ident_rest c \<Longrightarrow> c \<noteq> CHR 0x22 \<and> c \<noteq> CHR 0x00 \<and> c \<noteq> CHR ''.''"
  by (auto simp: ident_first_def ident_rest_def less_eq_char_def)

lemma ValidIdentifier_plain:
  assumes "ValidIdentifier p"
  shows "CHR 0x22 \<notin> set p" "CHR 0x00 \<notin> set p" "CHR ''.'' \<notin> set p" "p \<noteq> []" "length p \<le> MaxIdentifierLength"
  using assms ident_char_plain
  by (cases p; fastforce simp: ValidIdentifier_def list_all_iff)+

lemma Identifier_quoted:
  "sanitize_quotes sanitize \<Longrightarrow> ValidIdentifier p \<Longrightarrow> Identifier sanitize p = [CHR 0x22] @ p @ [CHR 0x22]"
  using ValidIdentifier_plain by (simp add: Identifier_def sanitize_quotes_def)

text \<open>The driver's behaviour, as a function that meets the hypothesis.\<close>

definition pgx_sanitize :: "string list \<Rightarrow> string" where
  "pgx_sanitize parts =
     Join ''.'' (map (\<lambda>p. [CHR 0x22] @ ReplaceAll (filter (\<lambda>c. c \<noteq> CHR 0x00) p) CHR 0x22 [CHR 0x22, CHR 0x22] @ [CHR 0x22]) parts)"

lemma ReplaceAll_absent: "c \<notin> set s \<Longrightarrow> ReplaceAll s c new = s"
  by (induction s) auto

lemma pgx_sanitize_quotes: "sanitize_quotes pgx_sanitize"
proof -
  have "pgx_sanitize [name] = [CHR 0x22] @ name @ [CHR 0x22]"
    if "CHR 0x22 \<notin> set name" "CHR 0x00 \<notin> set name" for name
  proof -
    have "filter (\<lambda>c. c \<noteq> CHR 0x00) name = name" using that(2) by (intro filter_all_id) blast
    with that(1) show ?thesis by (simp add: pgx_sanitize_def ReplaceAll_absent)
  qed
  then show ?thesis unfolding sanitize_quotes_def by blast
qed

end
