(* ===== verification/Audit_Repo.thy ===== *)
theory Audit_Repo
  imports Batch_Prune Like Pg_Quote
begin

text \<open>
  Package \<open>identity/store\<close>, files \<open>audit_repository.go\<close> and \<open>audit_sweep.go\<close>: writing, reading and
  exporting audit entries under an organization scope, and the retention sweep that spares rows under an
  active legal hold.

  The legal-hold tables belong to the application: \<open>holdTables\<close> gives the rows of the table a quoted name
  resolves to, \<open>None\<close> when there is no such table (the statement then fails when it is planned). Metadata is
  a JSON object or SQL NULL.
\<close>

subsection \<open>Rows\<close>

definition joined_user :: "db \<Rightarrow> AuditLog \<Rightarrow> User option" where
  "joined_user d l = (case log_UserID l of None \<Rightarrow> None | Some u \<Rightarrow> find (\<lambda>x. usr_ID x = u) (users d))"

definition log_cols :: "db \<Rightarrow> AuditLog \<Rightarrow> row" where
  "log_cols d l c =
     (if c = ''id'' then VText (log_ID l)
      else if c = ''organization_id'' \<or> c = ''al.organization_id'' then owner_val (log_OrganizationID l)
      else if c = ''al.user_id'' then owner_val (log_UserID l)
      else if c = ''u.email'' then owner_val (map_option usr_Email (joined_user d l))
      else if c = ''al.action'' then VText (log_Action l)
      else if c = ''al.resource_type'' then owner_val (log_ResourceType l)
      else if c = ''al.created_at'' then VTime (log_CreatedAt l)
      else VNull)"

interpretation logs: scoped_table "log_cols d" "''organization_id''" log_OrganizationID
  by unfold_locales (simp add: log_cols_def)

interpretation logs_al: scoped_table "log_cols d" "''al.organization_id''" log_OrganizationID
  by unfold_locales (simp add: log_cols_def)

definition decodeMetadata :: "AuditLog \<Rightarrow> store_error + AuditLog" where
  "decodeMetadata l =
     (case log_Metadata l of None \<Rightarrow> Inr l
      | Some j \<Rightarrow> (case unmarshal_object j of
                     None \<Rightarrow> Inl (Failed ''failed to unmarshal audit log metadata'')
                   | Some kvs \<Rightarrow> Inr (l\<lparr>log_Metadata := Some (JObject kvs)\<rparr>)))"

definition scanAuditEntry :: "db \<Rightarrow> AuditLog \<Rightarrow> store_error + AuditEntry" where
  "scanAuditEntry d l =
     (case decodeMetadata l of
        Inl e \<Rightarrow> Inl e
      | Inr l' \<Rightarrow>
          Inr (AuditLog.extend l'
            \<lparr>log_UserEmail = map_option usr_Email (joined_user d l), log_UserName = map_option usr_Name (joined_user d l)\<rparr>))"

subsection \<open>Writing\<close>

text \<open>\<open>io 0\<close>: the metadata does not marshal; \<open>io 1\<close>: the statement fails.\<close>

definition CreateAuditLog :: "io \<Rightarrow> string \<Rightarrow> time \<Rightarrow> AuditLog \<Rightarrow> db \<Rightarrow> (store_error + AuditLog) \<times> db" where
  "CreateAuditLog io newID now log d =
     (let log1 = log\<lparr>log_ID := newID, log_CreatedAt := now\<rparr>
      in if log_Metadata log1 \<noteq> None \<and> io 0 then (Inl (Failed ''failed to marshal audit log metadata''), d)
         else
           let actor = (case log_ActorEmail log1 of Some e \<Rightarrow> Some e | None \<Rightarrow> map_option usr_Email (joined_user d log1));
               row = log1\<lparr>log_ActorEmail := actor\<rparr>
           in if io 1 then (Inl (Failed ''failed to create audit log''), d)
              else (case checked (d\<lparr>audit_logs := audit_logs d @ [row]\<rparr>) of
                      None \<Rightarrow> (Inl (Failed ''failed to create audit log''), d)
                    | Some d' \<Rightarrow> (Inr row, d')))"

subsection \<open>Listing\<close>

record AuditFilters =
  af_UserID :: "string option"
  af_UserEmail :: "string option"
  af_OrganizationID :: "string option"
  af_Action :: "string option"
  af_ResourceType :: "string option"
  af_StartDate :: "time option"
  af_EndDate :: "time option"

text \<open>The two statements under construction, their shared arguments and the next placeholder.\<close>

record audit_query =
  aq_count :: sql_pred
  aq_query :: sql_pred
  aq_args :: "sqlval list"
  aq_index :: nat

definition addFilter :: "'a option \<Rightarrow> (nat \<Rightarrow> sql_pred) \<Rightarrow> ('a \<Rightarrow> sqlval) \<Rightarrow> audit_query \<Rightarrow> audit_query" where
  "addFilter f clause val q =
     (case f of None \<Rightarrow> q
      | Some v \<Rightarrow> \<lparr>aq_count = P_and (aq_count q) (clause (aq_index q)), aq_query = P_and (aq_query q) (clause (aq_index q)),
                   aq_args = aq_args q @ [val v], aq_index = aq_index q + 1\<rparr>)"

text \<open>\<open>LIMIT\<close> and \<open>OFFSET\<close> of the list statement are placeholders too.\<close>

definition buildListAuditLogsQueries :: "AuditFilters \<Rightarrow> OrgScope \<Rightarrow> int \<Rightarrow> int \<Rightarrow>
    (sql_pred \<times> sqlval list) \<times> (sql_pred \<times> nat \<times> nat \<times> sqlval list)" where
  "buildListAuditLogsQueries filters scope limit offset =
     (let (count0, _) = andScope P_true scope ''al.organization_id'' [];
          (query0, args0) = andScope P_true scope ''al.organization_id'' [];
          q0 = \<lparr>aq_count = count0, aq_query = query0, aq_args = args0, aq_index = length args0 + 1\<rparr>;
          q1 = addFilter (af_UserID filters) (P_eq ''al.user_id'') VText q0;
          q2 = addFilter (af_UserEmail filters) (P_ilike ''u.email'') (\<lambda>e. VText (''%'' @ escapeLikePattern e @ ''%'')) q1;
          q3 = addFilter (af_OrganizationID filters) (P_eq ''al.organization_id'') VText q2;
          q4 = addFilter (af_Action filters) (P_eq ''al.action'') VText q3;
          q5 = addFilter (af_ResourceType filters) (P_eq ''al.resource_type'') VText q4;
          q6 = addFilter (af_StartDate filters) (P_ge ''al.created_at'') VTime q5;
          q7 = addFilter (af_EndDate filters) (P_le ''al.created_at'') VTime q6
      in ((aq_count q7, aq_args q7),
          (aq_query q7, aq_index q7, aq_index q7 + 1, aq_args q7 @ [VInt limit, VInt offset])))"

fun page_of :: "sqlval \<Rightarrow> sqlval \<Rightarrow> 'a list \<Rightarrow> 'a list option" where
  "page_of (VInt limit) (VInt offset) xs = paginate limit offset xs"
| "page_of _ _ xs = None"

text \<open>\<open>io 0\<close>: the count; \<open>io 1\<close>: the list statement; \<open>io 2\<close>: reading its rows.\<close>

definition ListAuditLogs :: "io \<Rightarrow> AuditFilters \<Rightarrow> OrgScope \<Rightarrow> int \<Rightarrow> int \<Rightarrow> db \<Rightarrow> store_error + AuditEntry list \<times> nat" where
  "ListAuditLogs io filters scope limit offset d =
     (if MatchesNothing scope then Inr ([], 0)
      else
        let ((countQuery, countArgs), (query, limitParam, offsetParam, args)) =
              buildListAuditLogsQueries filters scope limit offset
        in if io 0 then Inl (Failed ''failed to count audit logs'')
           else
             let n = length (filter (selected (pairs d) (log_cols d) (countQuery, countArgs)) (audit_logs d))
             in if io 1 then Inl (Failed ''failed to list audit logs'')
                else (case page_of (param args limitParam) (param args offsetParam)
                             (order_desc log_CreatedAt (filter (selected (pairs d) (log_cols d) (query, args)) (audit_logs d))) of
                        None \<Rightarrow> Inl (Failed ''failed to list audit logs'')
                      | Some rows \<Rightarrow>
                          (case scan_rows (scanAuditEntry d) rows of
                             Inl e \<Rightarrow> Inl e
                           | Inr logs \<Rightarrow> if io 2 then Inl (Failed ''failed to scan audit log'') else Inr (logs, n))))"

definition GetAuditLog :: "io \<Rightarrow> string \<Rightarrow> OrgScope \<Rightarrow> db \<Rightarrow> store_error + AuditLog" where
  "GetAuditLog io logID scope d =
     (if MatchesNothing scope then Inl (notFound ''audit log by id'')
      else
        let wa = andScope (P_eq ''id'' 1) scope ''organization_id'' [VText logID]
        in if io 0 then Inl (Failed ''failed to get audit log'')
           else (case filter (selected (pairs d) (log_cols d) wa) (audit_logs d) of
                   [] \<Rightarrow> Inl (notFound ''audit log by id'')
                 | l # _ \<Rightarrow> decodeMetadata l))"

text \<open>The export hands the rows to its caller, which scans them itself.\<close>

definition StreamAuditLogs :: "io \<Rightarrow> time \<Rightarrow> time \<Rightarrow> OrgScope \<Rightarrow> db \<Rightarrow> store_error + AuditLog list" where
  "StreamAuditLogs io startDate endDate scope d =
     (let wa = andScope (P_and (P_ge ''al.created_at'' 1) (P_le ''al.created_at'' 2)) scope ''al.organization_id''
                 [VTime startDate, VTime endDate]
      in if io 0 then Inl (Failed ''failed to stream audit logs'')
         else Inr (order_asc log_CreatedAt (filter (selected (pairs d) (log_cols d) wa) (audit_logs d))))"

subsection \<open>The retention sweep\<close>

record auditSweepFilter =
  holdTable :: string
  holdTableSet :: bool

type_synonym AuditSweepOption = "auditSweepFilter \<Rightarrow> auditSweepFilter"

definition WithLegalHolds :: "string \<Rightarrow> AuditSweepOption" where
  "WithLegalHolds table f = f\<lparr>holdTable := table, holdTableSet := True\<rparr>"

fun applyOptions :: "AuditSweepOption option list \<Rightarrow> auditSweepFilter \<Rightarrow> auditSweepFilter" where
  "applyOptions [] f = f"
| "applyOptions (opt # opts) f = (case opt of None \<Rightarrow> applyOptions opts f | Some g \<Rightarrow> applyOptions opts (g f))"

definition newAuditSweepFilter :: "AuditSweepOption option list \<Rightarrow> auditSweepFilter" where
  "newAuditSweepFilter opts = applyOptions opts \<lparr>holdTable = '''', holdTableSet = False\<rparr>"

fun quoteParts :: "(string list \<Rightarrow> string) \<Rightarrow> string list \<Rightarrow> store_error + string list" where
  "quoteParts sanitize [] = Inr []"
| "quoteParts sanitize (p # ps) =
     (if \<not> ValidIdentifier p then Inl (LegalHoldTable ''not a bare SQL identifier'')
      else if length p > MaxIdentifierLength then Inl (LegalHoldTable ''over the length limit'')
      else (case quoteParts sanitize ps of
              Inl e \<Rightarrow> Inl e
            | Inr qs \<Rightarrow> Inr (Identifier sanitize p # qs)))"

definition quoteAuditTable :: "(string list \<Rightarrow> string) \<Rightarrow> string \<Rightarrow> store_error + string" where
  "quoteAuditTable sanitize table =
     (let trimmed = TrimSpace table
      in if trimmed = '''' then Inl (LegalHoldTable ''no table name'')
         else
           let parts = Split CHR ''.'' trimmed
           in if length parts > 2 then Inl (LegalHoldTable ''too many parts'')
              else (case quoteParts sanitize parts of Inl e \<Rightarrow> Inl e | Inr qs \<Rightarrow> Inr (Join ''.'' qs)))"

definition bareName :: "string \<Rightarrow> string" where
  "bareName table = last (Split CHR ''.'' (TrimSpace table))"

definition legalHoldIndexName :: "(string list \<Rightarrow> string) \<Rightarrow> string \<Rightarrow> store_error + string" where
  "legalHoldIndexName sanitize table =
     (let name = ''idx_'' @ bareName table @ ''_active_range''
      in if \<not> ValidIdentifier name then Inl (LegalHoldTable ''invalid index name'')
         else
           let name' = (if length name > MaxIdentifierLength then take MaxIdentifierLength name else name)
           in Inr (Identifier sanitize name'))"

text \<open>The table definition rendered for the application's migration. A bare name has no dots left, so nothing is replaced in it.\<close>

definition LegalHoldTableDDL :: "(string list \<Rightarrow> string) \<Rightarrow> string \<Rightarrow> store_error + string" where
  "LegalHoldTableDDL sanitize table =
     (case quoteAuditTable sanitize table of
        Inl e \<Rightarrow> Inl e
      | Inr quoted \<Rightarrow>
          (case legalHoldIndexName sanitize table of
             Inl e \<Rightarrow> Inl e
           | Inr indexName \<Rightarrow> Inr (
               ''CREATE TABLE IF NOT EXISTS '' @ quoted @ Join [CHR 0x0A] ['' ('',
                 ''    id           UUID PRIMARY KEY,'',
                 ''    name         TEXT NOT NULL,'',
                 ''    reason       TEXT NOT NULL DEFAULT '' @ [CHR 0x27, CHR 0x27, CHR '',''],
                 ''    start_date   TIMESTAMPTZ NOT NULL,'',
                 ''    end_date     TIMESTAMPTZ NOT NULL,'',
                 ''    active       BOOLEAN NOT NULL DEFAULT TRUE,'',
                 ''    placed_by    UUID,'',
                 ''    placed_at    TIMESTAMPTZ NOT NULL DEFAULT now(),'',
                 ''    released_by  UUID,'',
                 ''    released_at  TIMESTAMPTZ,'',
                 ''    CONSTRAINT '']
               @ ReplaceAll (bareName table) CHR ''.'' ''_'' @ Join [CHR 0x0A] [''_range CHECK (end_date >= start_date)'',
                 '');'',
                 ''CREATE INDEX IF NOT EXISTS '']
               @ indexName @ '' ON '' @ quoted @ '' (start_date, end_date) WHERE active;'')))"

text \<open>The clause the sweep adds: none, or one that excludes the rows inside an active hold of the quoted
  table.\<close>

definition exemption :: "(string list \<Rightarrow> string) \<Rightarrow> auditSweepFilter \<Rightarrow> store_error + string option" where
  "exemption sanitize f =
     (if \<not> holdTableSet f then Inr None
      else if holdTable f = '''' then Inl (LegalHoldTable ''empty name'')
      else (case quoteAuditTable sanitize (holdTable f) of Inl e \<Rightarrow> Inl e | Inr quoted \<Rightarrow> Inr (Some quoted)))"

record LegalHold =
  lh_active :: bool
  lh_start_date :: time
  lh_end_date :: time

definition under_hold :: "LegalHold list \<Rightarrow> AuditLog \<Rightarrow> bool" where
  "under_hold hs l = list_ex (\<lambda>h. lh_active h \<and> log_CreatedAt l \<ge> lh_start_date h \<and> log_CreatedAt l \<le> lh_end_date h) hs"

text \<open>The rows of the holds table the statement reads; \<open>None\<close>: the relation does not exist.\<close>

definition held_rows :: "(string \<rightharpoonup> LegalHold list) \<Rightarrow> string option \<Rightarrow> LegalHold list option" where
  "held_rows holdTables ex = (case ex of None \<Rightarrow> Some [] | Some quoted \<Rightarrow> holdTables quoted)"

definition DeleteAuditLogsBefore :: "io \<Rightarrow> (string list \<Rightarrow> string) \<Rightarrow> (string \<rightharpoonup> LegalHold list) \<Rightarrow> time \<Rightarrow> int
    \<Rightarrow> AuditSweepOption option list \<Rightarrow> db \<Rightarrow> (store_error + nat) \<times> db" where
  "DeleteAuditLogsBefore io sanitize holdTables cutoff batchSize opts d =
     (case exemption sanitize (newAuditSweepFilter opts) of
        Inl e \<Rightarrow> (Inl e, d)
      | Inr ex \<Rightarrow>
          (case held_rows holdTables ex of
             None \<Rightarrow> (Inl (Failed ''failed to delete audit logs before cutoff''), d)
           | Some hs \<Rightarrow>
               if io 0 then (Inl (Failed ''failed to delete audit logs before cutoff''), d)
               else (case sweep_table log_ID log_CreatedAt (\<lambda>l. log_CreatedAt l < cutoff \<and> \<not> under_hold hs l) batchSize (audit_logs d) of
                       None \<Rightarrow> (Inl (Failed ''failed to delete audit logs before cutoff''), d)
                     | Some (rest, n) \<Rightarrow> (affectedRows (io 1) n ''audit logs before cutoff'', d\<lparr>audit_logs := rest\<rparr>))))"

definition VerifyLegalHoldTable :: "io \<Rightarrow> (string list \<Rightarrow> string) \<Rightarrow> (string \<rightharpoonup> LegalHold list) \<Rightarrow> bool \<Rightarrow> string \<Rightarrow> store_error + unit" where
  "VerifyLegalHoldTable io sanitize holdTables hasDB table =
     (if \<not> hasDB then Inl (LegalHoldTable ''no database connection'')
      else (case quoteAuditTable sanitize table of
              Inl e \<Rightarrow> Inl e
            | Inr quoted \<Rightarrow>
                if holdTables quoted = None \<or> io 0 then Inl (LegalHoldTable ''not readable'')
                else if io 1 then Inl (LegalHoldTable ''not readable'')
                else Inr ()))"

subsection \<open>What the list statements select\<close>

text \<open>The filters, as a condition on an entry.\<close>

definition audit_match :: "db \<Rightarrow> AuditFilters \<Rightarrow> AuditLog \<Rightarrow> bool" where
  "audit_match d f l \<longleftrightarrow>
     (\<forall>u. af_UserID f = Some u \<longrightarrow> log_UserID l = Some u)
     \<and> (\<forall>e. af_UserEmail f = Some e \<longrightarrow>
          (\<exists>u pre post. joined_user d l = Some u \<and> ToLower (usr_Email u) = pre @ ToLower e @ post))
     \<and> (\<forall>i. af_OrganizationID f = Some i \<longrightarrow> log_OrganizationID l = Some i)
     \<and> (\<forall>a. af_Action f = Some a \<longrightarrow> log_Action l = a)
     \<and> (\<forall>t. af_ResourceType f = Some t \<longrightarrow> log_ResourceType l = Some t)
     \<and> (\<forall>t. af_StartDate f = Some t \<longrightarrow> t \<le> log_CreatedAt l)
     \<and> (\<forall>t. af_EndDate f = Some t \<longrightarrow> log_CreatedAt l \<le> t)"

text \<open>The invariant of the construction: both statements use only bound placeholders, the next one is the
  next number, and both select the rows in \<open>R\<close>.\<close>

definition query_ok :: "member_pairs \<Rightarrow> ('a \<Rightarrow> row) \<Rightarrow> audit_query \<Rightarrow> ('a \<Rightarrow> bool) \<Rightarrow> bool" where
  "query_ok ms cols q R \<longleftrightarrow>
     aq_index q = length (aq_args q) + 1
     \<and> max_param (aq_count q) \<le> length (aq_args q) \<and> max_param (aq_query q) \<le> length (aq_args q)
     \<and> (\<forall>x. holds ms (aq_args q) (cols x) (aq_count q) = R x)
     \<and> (\<forall>x. holds ms (aq_args q) (cols x) (aq_query q) = R x)"

lemma addFilter_ok:
  assumes "query_ok ms cols q R"
    and "\<And>n. max_param (clause n) = n"
    and "\<And>args n x v. param args n = val v \<Longrightarrow> holds ms args (cols x) (clause n) = M v x"
  shows "query_ok ms cols (addFilter f clause val q) (\<lambda>x. R x \<and> (\<forall>v. f = Some v \<longrightarrow> M v x))"
proof (cases f)
  case None
  with assms(1) show ?thesis by (simp add: addFilter_def)
next
  case (Some v)
  have "param (aq_args q @ [val v]) (aq_index q) = val v"
    using assms(1) param_last by (simp add: query_ok_def)
  then have "holds ms (aq_args q @ [val v]) (cols x) (clause (aq_index q)) = M v x" for x
    by (rule assms(3))
  with Some assms(1,2) show ?thesis
    by (auto simp: query_ok_def addFilter_def holds_append)
qed

lemma scope_query_ok:
  assumes "wa = andScope P_true scope ''al.organization_id'' []"
  shows "query_ok ms (log_cols d) \<lparr>aq_count = fst wa, aq_query = fst wa, aq_args = snd wa, aq_index = length (snd wa) + 1\<rparr>
    (\<lambda>l. permits scope (log_OrganizationID l))"
proof -
  have "max_param (fst wa) \<le> length (snd wa)"
    unfolding assms by (simp add: andScope_def OrgScope_SQL_def split_beta)
  moreover have "holds ms (snd wa) (log_cols d l) (fst wa) = permits scope (log_OrganizationID l)" for l
    unfolding assms using andScope_holds [of P_true "[]" "log_cols d l" "''al.organization_id''" "log_OrganizationID l" ms scope]
    by (simp add: log_cols_def)
  ultimately show ?thesis by (simp add: query_ok_def)
qed

lemma log_cols_simps:
  "log_cols d l ''al.user_id'' = owner_val (log_UserID l)"
  "log_cols d l ''u.email'' = owner_val (map_option usr_Email (joined_user d l))"
  "log_cols d l ''al.organization_id'' = owner_val (log_OrganizationID l)"
  "log_cols d l ''al.action'' = VText (log_Action l)"
  "log_cols d l ''al.resource_type'' = owner_val (log_ResourceType l)"
  "log_cols d l ''al.created_at'' = VTime (log_CreatedAt l)"
  by (simp_all add: log_cols_def)

lemma email_clause:
  assumes "param args n = VText (''%'' @ escapeLikePattern e @ ''%'')"
  shows "holds ms args (log_cols d l) (P_ilike ''u.email'' n) =
    (\<exists>u pre post. joined_user d l = Some u \<and> ToLower (usr_Email u) = pre @ ToLower e @ post)"
proof -
  have "holds ms args (log_cols d l) (P_ilike ''u.email'' n) \<longleftrightarrow>
      (\<exists>u. joined_user d l = Some u \<and> ilike (usr_Email u) (searchPattern e))"
    using assms by (auto simp: log_cols_simps searchPattern_def)
  then show ?thesis by (simp add: ilike_searchPattern)
qed

lemma text_filter_ok:
  assumes "query_ok ms (log_cols d) q R" "\<And>l. log_cols d l c = owner_val (g l)"
  shows "query_ok ms (log_cols d) (addFilter f (P_eq c) VText q) (\<lambda>l. R l \<and> (\<forall>v. f = Some v \<longrightarrow> g l = Some v))"
  by (rule addFilter_ok [OF assms(1), where M = "\<lambda>v l. g l = Some v"]) (auto simp: assms(2))

lemma email_filter_ok:
  assumes "query_ok ms (log_cols d) q R"
  shows "query_ok ms (log_cols d) (addFilter f (P_ilike ''u.email'') (\<lambda>e. VText (''%'' @ escapeLikePattern e @ ''%'')) q)
    (\<lambda>l. R l \<and> (\<forall>e. f = Some e \<longrightarrow> (\<exists>u pre post. joined_user d l = Some u \<and> ToLower (usr_Email u) = pre @ ToLower e @ post)))"
  by (rule addFilter_ok [OF assms]) (simp, rule email_clause)

lemma since_filter_ok:
  assumes "query_ok ms (log_cols d) q R"
  shows "query_ok ms (log_cols d) (addFilter f (P_ge ''al.created_at'') VTime q) (\<lambda>l. R l \<and> (\<forall>t. f = Some t \<longrightarrow> t \<le> log_CreatedAt l))"
  by (rule addFilter_ok [OF assms]) (auto simp: log_cols_simps)

lemma until_filter_ok:
  assumes "query_ok ms (log_cols d) q R"
  shows "query_ok ms (log_cols d) (addFilter f (P_le ''al.created_at'') VTime q) (\<lambda>l. R l \<and> (\<forall>t. f = Some t \<longrightarrow> log_CreatedAt l \<le> t))"
  by (rule addFilter_ok [OF assms]) (auto simp: log_cols_simps)

lemma query_ok_cong: "query_ok ms cols q R \<Longrightarrow> R = R' \<Longrightarrow> query_ok ms cols q R'"
  by simp

lemma action_col: "log_cols d l ''al.action'' = owner_val (Some (log_Action l))"
  by (simp add: log_cols_simps)

lemma buildListAuditLogsQueries_ok:
  obtains q where "buildListAuditLogsQueries f scope limit offset =
      ((aq_count q, aq_args q), (aq_query q, aq_index q, aq_index q + 1, aq_args q @ [VInt limit, VInt offset]))"
    "query_ok ms (log_cols d) q (\<lambda>l. permits scope (log_OrganizationID l) \<and> audit_match d f l)"
proof -
  let ?wa = "andScope P_true scope ''al.organization_id'' []"
  let ?q0 = "\<lparr>aq_count = fst ?wa, aq_query = fst ?wa, aq_args = snd ?wa, aq_index = length (snd ?wa) + 1\<rparr>"
  let ?q3 = "addFilter (af_OrganizationID f) (P_eq ''al.organization_id'') VText
      (addFilter (af_UserEmail f) (P_ilike ''u.email'') (\<lambda>e. VText (''%'' @ escapeLikePattern e @ ''%''))
        (addFilter (af_UserID f) (P_eq ''al.user_id'') VText ?q0))"
  let ?q7 = "addFilter (af_EndDate f) (P_le ''al.created_at'') VTime
      (addFilter (af_StartDate f) (P_ge ''al.created_at'') VTime
        (addFilter (af_ResourceType f) (P_eq ''al.resource_type'') VText
          (addFilter (af_Action f) (P_eq ''al.action'') VText ?q3)))"
  note col = log_cols_simps(1,3,5) action_col
  have "query_ok ms (log_cols d) ?q7 (\<lambda>l. permits scope (log_OrganizationID l) \<and> audit_match d f l)"
    by (rule query_ok_cong, rule until_filter_ok, rule since_filter_ok, rule text_filter_ok, rule text_filter_ok,
        rule text_filter_ok, rule email_filter_ok, rule text_filter_ok, rule scope_query_ok [OF refl])
       (rule col | simp add: audit_match_def conj_assoc)+
  moreover have "buildListAuditLogsQueries f scope limit offset =
      ((aq_count ?q7, aq_args ?q7), (aq_query ?q7, aq_index ?q7, aq_index ?q7 + 1, aq_args ?q7 @ [VInt limit, VInt offset]))"
    by (simp add: buildListAuditLogsQueries_def split_beta Let_def)
  ultimately show thesis using that by blast
qed

lemma query_ok_selected:
  assumes "query_ok ms cols q R"
  shows "selected ms cols (aq_count q, aq_args q) = R" "selected ms cols (aq_query q, aq_args q @ xs) = R"
  using assms by (auto simp: query_ok_def selected_def holds_append fun_eq_iff)

lemma query_ok_page:
  assumes "query_ok ms cols q R"
  shows "param (aq_args q @ [VInt l, VInt k]) (aq_index q) = VInt l"
    "param (aq_args q @ [VInt l, VInt k]) (aq_index q + 1) = VInt k"
  using assms by (simp_all add: query_ok_def param_def nth_append)

text \<open>
  Listing audit entries is exact. When the call succeeds, the total is the number of entries that the
  scope permits and every given filter accepts (the e-mail filter as a literal, case-insensitive substring of
  the actor's current address), and the page is the requested slice of exactly those entries, newest first,
  each with its metadata decoded; the count and the list statement never disagree on what they select.
\<close>

theorem ListAuditLogs_exact:
  assumes "ListAuditLogs io f scope limit offset d = Inr (logs, n)"
  shows "n = length (filter (\<lambda>l. permits scope (log_OrganizationID l) \<and> audit_match d f l) (audit_logs d))
    \<and> list_all2 (\<lambda>l e. scanAuditEntry d l = Inr e)
        (take (nat limit) (drop (nat offset)
          (order_desc log_CreatedAt (filter (\<lambda>l. permits scope (log_OrganizationID l) \<and> audit_match d f l) (audit_logs d)))))
        logs"
proof (cases "MatchesNothing scope")
  case True
  with assms show ?thesis by (simp add: ListAuditLogs_def MatchesNothing_permits order_desc_def)
next
  case False
  obtain q where q: "buildListAuditLogsQueries f scope limit offset =
      ((aq_count q, aq_args q), (aq_query q, aq_index q, aq_index q + 1, aq_args q @ [VInt limit, VInt offset]))"
    "query_ok (pairs d) (log_cols d) q (\<lambda>l. permits scope (log_OrganizationID l) \<and> audit_match d f l)"
    by (rule buildListAuditLogsQueries_ok)
  show ?thesis
    using assms False q(1) query_ok_selected [OF q(2)] query_ok_page [OF q(2)]
    by (auto simp: ListAuditLogs_def Let_def paginate_def scan_rows_Inr split: if_splits option.splits sum.splits)
qed

definition ex_log :: "string \<Rightarrow> string option \<Rightarrow> time \<Rightarrow> AuditLog" where
  "ex_log i org t = \<lparr>log_ID = i, log_UserID = Some ''u1'', log_OrganizationID = org, log_Action = ''a'', log_ResourceType = None,
     log_ResourceID = None, log_Metadata = None, log_IPAddress = None, log_CreatedAt = t, log_ActorEmail = None\<rparr>"

definition ex_audit_db :: db where
  "ex_audit_db = ex_db\<lparr>audit_logs := [ex_log ''l1'' (Some ''o1'') 1, ex_log ''l2'' (Some ''o2'') 2, ex_log ''l3'' None 3]\<rparr>"

definition no_filters :: AuditFilters where
  "no_filters = \<lparr>af_UserID = None, af_UserEmail = None, af_OrganizationID = None, af_Action = None, af_ResourceType = None,
     af_StartDate = None, af_EndDate = None\<rparr>"

lemmas audit_ex_defs = ex_audit_db_def ex_log_def no_filters_def ex_defs

lemma ex_audit_db_wf: "db_wf ex_audit_db"
  by (simp add: wf_defs audit_ex_defs member_ok_def key_ok_def member_key_def)

theorem ListAuditLogs_exact_witness:
  "\<exists>logs. ListAuditLogs no_faults no_filters (OrgScopeOrganizations [''o1'']) 10 0 ex_audit_db = Inr (logs, 1)
     \<and> 1 = length (filter (\<lambda>l. permits (OrgScopeOrganizations [''o1'']) (log_OrganizationID l)
                        \<and> audit_match ex_audit_db no_filters l) (audit_logs ex_audit_db))"
proof -
  have "\<exists>logs. ListAuditLogs no_faults no_filters (OrgScopeOrganizations [''o1'']) 10 0 ex_audit_db = Inr (logs, 1)"
    by (simp add: ListAuditLogs_def buildListAuditLogsQueries_def addFilter_def audit_ex_defs OrgScopeOrganizations_def
        MatchesNothing_def andScope_def OrgScope_SQL_def selected_def log_cols_def param_def paginate_def order_desc_def
        scanAuditEntry_def decodeMetadata_def)
  then show ?thesis using ListAuditLogs_exact by blast
qed

text \<open>
  Reading one entry and exporting a range respect the scope exactly. An entry obtained by id is in the
  table with that id, permitted by the scope, and decoded; an entry the scope permits is found, and one it
  does not permit is reported as not found, like an id that does not exist. The export hands out exactly the
  permitted rows of the closed date range, oldest first.
\<close>

theorem audit_reads_scoped:
  assumes "db_wf d"
  shows "GetAuditLog no_faults i scope d =
      (case find (\<lambda>l. log_ID l = i) (audit_logs d) of
         None \<Rightarrow> Inl (notFound ''audit log by id'')
       | Some l \<Rightarrow> if permits scope (log_OrganizationID l) then decodeMetadata l else Inl (notFound ''audit log by id''))
    \<and> StreamAuditLogs no_faults a b scope d =
        Inr (order_asc log_CreatedAt
          (filter (\<lambda>l. a \<le> log_CreatedAt l \<and> log_CreatedAt l \<le> b \<and> permits scope (log_OrganizationID l)) (audit_logs d)))"
proof
  let ?P = "\<lambda>l. log_ID l = i \<and> permits scope (log_OrganizationID l)"
  have sel: "selected (pairs d) (log_cols d) (andScope (P_eq ''id'' (Suc 0)) scope ''organization_id'' [VText i]) = ?P"
    by (auto simp: fun_eq_iff logs.selected_iff log_cols_def param_def)
  have dist: "distinct (map log_ID (audit_logs d))" using assms by (simp add: wf_defs)
  then have one: "filter ?P (audit_logs d) = (case find (\<lambda>l. log_ID l = i) (audit_logs d) of None \<Rightarrow> []
      | Some l \<Rightarrow> if permits scope (log_OrganizationID l) then [l] else [])"
    by (rule filter_key_find)
  show "GetAuditLog no_faults i scope d =
      (case find (\<lambda>l. log_ID l = i) (audit_logs d) of
         None \<Rightarrow> Inl (notFound ''audit log by id'')
       | Some l \<Rightarrow> if permits scope (log_OrganizationID l) then decodeMetadata l else Inl (notFound ''audit log by id''))"
    using one MatchesNothing_permits [of scope]
    by (auto simp: GetAuditLog_def sel Let_def split: option.splits)
  show "StreamAuditLogs no_faults a b scope d =
        Inr (order_asc log_CreatedAt
          (filter (\<lambda>l. a \<le> log_CreatedAt l \<and> log_CreatedAt l \<le> b \<and> permits scope (log_OrganizationID l)) (audit_logs d)))"
  proof -
    have "selected (pairs d) (log_cols d) (andScope (P_and (P_ge ''al.created_at'' (Suc 0)) (P_le ''al.created_at'' 2)) scope
        ''al.organization_id'' [VTime a, VTime b])
      = (\<lambda>l. a \<le> log_CreatedAt l \<and> log_CreatedAt l \<le> b \<and> permits scope (log_OrganizationID l))"
      by (auto simp: fun_eq_iff logs_al.selected_iff log_cols_simps param_def)
    then show ?thesis by (simp add: StreamAuditLogs_def)
  qed
qed

theorem audit_reads_scoped_witness:
  "db_wf ex_audit_db \<and>
   GetAuditLog no_faults ''l2'' (OrgScopeOrganizations [''o1'']) ex_audit_db = Inl (notFound ''audit log by id'')"
  using audit_reads_scoped [OF ex_audit_db_wf, of "''l2''" "OrgScopeOrganizations [''o1'']" 0 0] ex_audit_db_wf
  by (simp add: audit_ex_defs permits_def OrgScopeOrganizations_ids)

text \<open>
  Attribution survives the actor. An entry is appended and nothing else changes; its actor address is the
  one given, else that of the acting user at that moment; and deleting any users afterwards leaves every
  entry as it was, address included.
\<close>

theorem CreateAuditLog_attributes:
  assumes "CreateAuditLog io newID now log d = (Inr row, d')"
  shows "d' = d\<lparr>audit_logs := audit_logs d @ [row]\<rparr> \<and> log_ID row = newID \<and> log_CreatedAt row = now
    \<and> log_ActorEmail row =
        (case log_ActorEmail log of Some e \<Rightarrow> Some e
         | None \<Rightarrow> (case log_UserID log of None \<Rightarrow> None
                  | Some u \<Rightarrow> map_option usr_Email (find (\<lambda>x. usr_ID x = u) (users d))))
    \<and> row \<in> set (audit_logs (delete_users P d'))"
  using assms
  by (auto simp: CreateAuditLog_def joined_user_def delete_users_def Let_def split: if_splits option.splits)

theorem CreateAuditLog_attributes_witness:
  "\<exists>row d'. CreateAuditLog no_faults ''l4'' 9 (ex_log '''' None 0) ex_audit_db = (Inr row, d')
     \<and> log_ActorEmail row = Some ''a@x'' \<and> row \<in> set (audit_logs (delete_users (\<lambda>u. True) d'))"
proof -
  have "\<exists>row d'. CreateAuditLog no_faults ''l4'' 9 (ex_log '''' None 0) ex_audit_db = (Inr row, d')"
    by (simp add: CreateAuditLog_def audit_ex_defs joined_user_def checked_def wf_defs member_ok_def key_ok_def member_key_def Let_def)
  then show ?thesis
    using CreateAuditLog_attributes [of no_faults "''l4''" 9 "ex_log '''' None 0" ex_audit_db _ _ "\<lambda>u. True"]
    by (elim exE) (intro exI conjI, assumption, simp_all add: audit_ex_defs)
qed

subsection \<open>What a sweep removes\<close>

lemma DeleteAuditLogsBefore_cases:
  assumes "DeleteAuditLogsBefore io sanitize holdTables cutoff k opts d = (res, d')" "d' \<noteq> d"
  obtains ex hs rest n where "exemption sanitize (newAuditSweepFilter opts) = Inr ex" "held_rows holdTables ex = Some hs"
    "sweep_table log_ID log_CreatedAt (\<lambda>l. log_CreatedAt l < cutoff \<and> \<not> under_hold hs l) k (audit_logs d) = Some (rest, n)"
    "res = affectedRows (io 1) n ''audit logs before cutoff''" "d' = d\<lparr>audit_logs := rest\<rparr>"
  using assms by (auto simp: DeleteAuditLogsBefore_def split: sum.splits option.splits if_splits)

lemma DeleteAuditLogsBefore_success:
  assumes "DeleteAuditLogsBefore io sanitize holdTables cutoff k opts d = (Inr n, d')"
  obtains ex hs rest where "exemption sanitize (newAuditSweepFilter opts) = Inr ex" "held_rows holdTables ex = Some hs"
    "sweep_table log_ID log_CreatedAt (\<lambda>l. log_CreatedAt l < cutoff \<and> \<not> under_hold hs l) k (audit_logs d) = Some (rest, n)"
    "d' = d\<lparr>audit_logs := rest\<rparr>"
  using assms by (auto simp: DeleteAuditLogsBefore_def split: sum.splits option.splits if_splits)

text \<open>
  C25: the sweep never removes evidence. Whatever the outcome of the call, a row that is newer than the
  cutoff survives, and when the holds table is named, so does every row inside an active hold of that table;
  an empty or malformed name, or a table that does not exist, removes nothing.
\<close>

theorem DeleteAuditLogsBefore_preserves_holds:
  assumes "db_wf d" "DeleteAuditLogsBefore io sanitize holdTables cutoff k [Some (WithLegalHolds table)] d = (res, d')"
    and "l \<in> set (audit_logs d)"
    and "cutoff \<le> log_CreatedAt l
      \<or> (\<forall>quoted hs. quoteAuditTable sanitize table = Inr quoted \<and> holdTables quoted = Some hs \<longrightarrow> under_hold hs l)"
  shows "l \<in> set (audit_logs d')"
proof (cases "d' = d")
  case False
  have dist: "distinct (map log_ID (audit_logs d))" using assms(1) by (simp add: wf_defs)
  obtain ex hs rest n where s: "exemption sanitize (newAuditSweepFilter [Some (WithLegalHolds table)]) = Inr ex"
    "held_rows holdTables ex = Some hs"
    "sweep_table log_ID log_CreatedAt (\<lambda>l. log_CreatedAt l < cutoff \<and> \<not> under_hold hs l) k (audit_logs d) = Some (rest, n)"
    "res = affectedRows (io 1) n ''audit logs before cutoff''" "d' = d\<lparr>audit_logs := rest\<rparr>"
    by (rule DeleteAuditLogsBefore_cases [OF assms(2) False])
  from s(1,2) assms(4) have "\<not> (log_CreatedAt l < cutoff \<and> \<not> under_hold hs l)"
    by (auto simp: exemption_def newAuditSweepFilter_def WithLegalHolds_def held_rows_def split: if_splits sum.splits)
  then show ?thesis using log_sweep.sweep_spec(2) [OF s(3) dist assms(3)] s(5) by simp
qed (use assms(3) in simp)

text \<open>
  The sweep makes progress, in order. A successful sweep removes as many rows as it reports, which is
  the batch size or, if fewer are left, all rows older than the cutoff and outside every active hold (so held
  rows never fill a batch); what it removes is no newer than any removable row it leaves; the remaining rows
  keep their order and no other table changes.
\<close>

theorem DeleteAuditLogsBefore_progress:
  assumes "db_wf d" "DeleteAuditLogsBefore io sanitize holdTables cutoff k opts d = (Inr n, d')"
  shows "\<exists>ex hs. exemption sanitize (newAuditSweepFilter opts) = Inr ex \<and> held_rows holdTables ex = Some hs
    \<and> int n = min k (int (length (filter (\<lambda>l. log_CreatedAt l < cutoff \<and> \<not> under_hold hs l) (audit_logs d))))
    \<and> length (audit_logs d') + n = length (audit_logs d)
    \<and> d' = d\<lparr>audit_logs := filter (\<lambda>l. l \<in> set (audit_logs d')) (audit_logs d)\<rparr>
    \<and> (\<forall>x \<in> set (audit_logs d) - set (audit_logs d'). \<forall>y \<in> set (audit_logs d').
         log_CreatedAt y < cutoff \<and> \<not> under_hold hs y \<longrightarrow> log_CreatedAt x \<le> log_CreatedAt y)"
proof -
  have dist: "distinct (map log_ID (audit_logs d))" using assms(1) by (simp add: wf_defs)
  obtain ex hs rest where s: "exemption sanitize (newAuditSweepFilter opts) = Inr ex" "held_rows holdTables ex = Some hs"
    "sweep_table log_ID log_CreatedAt (\<lambda>l. log_CreatedAt l < cutoff \<and> \<not> under_hold hs l) k (audit_logs d) = Some (rest, n)"
    "d' = d\<lparr>audit_logs := rest\<rparr>"
    using DeleteAuditLogsBefore_success [OF assms(2)] .
  note spec = log_sweep.sweep_spec [OF s(3) dist]
  have "d' = d\<lparr>audit_logs := filter (\<lambda>l. l \<in> set (audit_logs d')) (audit_logs d)\<rparr>"
    using s(4) spec(1) by simp
  moreover have "\<forall>x \<in> set (audit_logs d) - set (audit_logs d'). \<forall>y \<in> set (audit_logs d').
         log_CreatedAt y < cutoff \<and> \<not> under_hold hs y \<longrightarrow> log_CreatedAt x \<le> log_CreatedAt y"
    using s(4) spec(5) by simp
  moreover have "length (audit_logs d') + n = length (audit_logs d)" using s(4) spec(4) by simp
  ultimately show ?thesis using s(1,2) spec(3) by blast
qed

subsection \<open>Quoting the name of the holds table\<close>

lemma quoteParts_valid:
  "quoteParts sanitize ps =
     (if list_all ValidIdentifier ps then Inr (map (Identifier sanitize) ps) else Inl (LegalHoldTable ''not a bare SQL identifier''))"
  by (induction ps) (auto simp: ValidIdentifier_def)

lemma Split_Nil_invalid: "\<not> list_all ValidIdentifier (Split c '''')"
  by (simp add: ValidIdentifier_def)

lemma quoteAuditTable_Inr:
  "quoteAuditTable sanitize table = Inr q \<longleftrightarrow>
     length (Split CHR ''.'' (TrimSpace table)) \<le> 2 \<and> list_all ValidIdentifier (Split CHR ''.'' (TrimSpace table))
     \<and> q = Join ''.'' (map (Identifier sanitize) (Split CHR ''.'' (TrimSpace table)))"
  using Split_Nil_invalid [of "CHR ''.''"]
  by (cases "TrimSpace table = []") (auto simp: quoteAuditTable_def quoteParts_valid Let_def simp del: Split.simps)

lemma legalHoldIndexName_Inr:
  "legalHoldIndexName sanitize table = Inr q \<longleftrightarrow>
     ValidIdentifier (''idx_'' @ bareName table @ ''_active_range'')
     \<and> q = Identifier sanitize (''idx_'' @ bareName table @ ''_active_range'')"
  by (auto simp: legalHoldIndexName_def Let_def ValidIdentifier_def)

text \<open>
  The name of a holds table reaches the statement only in a shape with no reading beyond itself. A name
  is accepted exactly when it is one or two dot-separated lower-case identifiers of at most 63 bytes, and it
  is then rendered as those identifiers, each in double quotes. The index name derived from it is never
  truncated: a bare name longer than 46 bytes, which the sweep accepts, is refused there.
\<close>

theorem quoteAuditTable_safe:
  assumes "sanitize_quotes sanitize"
  shows "(case quoteAuditTable sanitize table of
      Inr q \<Rightarrow> \<exists>ps. Split CHR ''.'' (TrimSpace table) = ps \<and> length ps \<in> {1, 2} \<and> list_all ValidIdentifier ps
                 \<and> q = Join ''.'' (map (\<lambda>p. [CHR 0x22] @ p @ [CHR 0x22]) ps)
    | Inl e \<Rightarrow> \<not> (length (Split CHR ''.'' (TrimSpace table)) \<le> 2 \<and> list_all ValidIdentifier (Split CHR ''.'' (TrimSpace table))))
    \<and> (46 < length (bareName table) \<longrightarrow> (\<exists>e. legalHoldIndexName sanitize table = Inl e))"
proof
  let ?ps = "Split CHR ''.'' (TrimSpace table)"
  have two: "length ?ps \<in> {1, 2}" if "length ?ps \<le> 2"
    using that Split_not_Nil [of "CHR ''.''" "TrimSpace table"] by (cases ?ps) (auto simp: le_Suc_eq)
  have quoted: "map (Identifier sanitize) ?ps = map (\<lambda>p. [CHR 0x22] @ p @ [CHR 0x22]) ?ps" if "list_all ValidIdentifier ?ps"
    using that Identifier_quoted [OF assms] by (auto simp: list_all_iff)
  show "case quoteAuditTable sanitize table of
      Inr q \<Rightarrow> \<exists>ps. ?ps = ps \<and> length ps \<in> {1, 2} \<and> list_all ValidIdentifier ps
                 \<and> q = Join ''.'' (map (\<lambda>p. [CHR 0x22] @ p @ [CHR 0x22]) ps)
    | Inl e \<Rightarrow> \<not> (length ?ps \<le> 2 \<and> list_all ValidIdentifier ?ps)"
  proof (cases "quoteAuditTable sanitize table")
    case (Inl e)
    then have "quoteAuditTable sanitize table \<noteq> Inr (Join ''.'' (map (Identifier sanitize) ?ps))" by simp
    then show ?thesis using Inl unfolding quoteAuditTable_Inr by simp
  next
    case (Inr q)
    then have q: "length ?ps \<le> 2" "list_all ValidIdentifier ?ps" "q = Join ''.'' (map (Identifier sanitize) ?ps)"
      unfolding quoteAuditTable_Inr by blast+
    show ?thesis unfolding Inr sum.case q(3) quoted [OF q(2)] using two [OF q(1)] q(2) by blast
  qed
  show "46 < length (bareName table) \<longrightarrow> (\<exists>e. legalHoldIndexName sanitize table = Inl e)"
    by (auto simp: legalHoldIndexName_def ValidIdentifier_def MaxIdentifierLength_def Let_def)
qed

lemma ex_hold_name: "quoteAuditTable pgx_sanitize ''h'' = Inr [CHR 0x22, CHR ''h'', CHR 0x22]"
proof -
  have "ValidIdentifier ''h''"
    by (simp add: ValidIdentifier_def MaxIdentifierLength_def ident_first_def less_eq_char_def)
  moreover have "Split CHR ''.'' (TrimSpace ''h'') = [''h'']" by (simp add: TrimSpace_def is_space_def)
  ultimately show ?thesis
    using Identifier_quoted [OF pgx_sanitize_quotes, of "''h''"] by (simp add: quoteAuditTable_Inr)
qed

definition ex_long_name :: string where
  "ex_long_name = ''aaaaaaaaaaaaaaaaaaaaaaaaaaaaaaaaaaaaaaaaaaaaaaaaaa''"

lemma ex_long_bare: "length (bareName ex_long_name) = 50"
  by (simp add: bareName_def ex_long_name_def TrimSpace_def is_space_def)

theorem quoteAuditTable_safe_witness:
  "sanitize_quotes pgx_sanitize \<and> (\<exists>e. legalHoldIndexName pgx_sanitize ex_long_name = Inl e)"
  using quoteAuditTable_safe [OF pgx_sanitize_quotes, of ex_long_name] pgx_sanitize_quotes ex_long_bare by simp

lemma bareName_mem: "bareName table \<in> set (Split CHR ''.'' (TrimSpace table))"
  by (simp add: bareName_def del: Split.simps)

lemma index_name_valid:
  "ValidIdentifier b \<Longrightarrow> ValidIdentifier (''idx_'' @ b @ ''_active_range'') \<longleftrightarrow> length b \<le> 46"
proof -
  assume v: "ValidIdentifier b"
  have "ident_first CHR ''i''" "list_all ident_rest ''dx_''" "list_all ident_rest ''_active_range''" by code_simp+
  moreover have "list_all ident_rest b" using v by (cases b) (auto simp: ValidIdentifier_def ident_first_def ident_rest_def)
  ultimately show ?thesis by (auto simp: ValidIdentifier_def MaxIdentifierLength_def)
qed

text \<open>The table definition is rendered exactly for the names the sweep accepts whose bare part has at most 46 bytes; the longer names
  the sweep also accepts have no rendered definition.\<close>

theorem LegalHoldTableDDL_iff:
  "(\<exists>sql. LegalHoldTableDDL sanitize table = Inr sql) \<longleftrightarrow> (\<exists>q. quoteAuditTable sanitize table = Inr q) \<and> length (bareName table) \<le> 46"
proof (cases "quoteAuditTable sanitize table")
  case (Inr q)
  then have "list_all ValidIdentifier (Split CHR ''.'' (TrimSpace table))" by (simp add: quoteAuditTable_Inr)
  then have "ValidIdentifier (bareName table)" using bareName_mem [of table] by (simp add: list_all_iff)
  then have "(\<exists>n. legalHoldIndexName sanitize table = Inr n) \<longleftrightarrow> length (bareName table) \<le> 46"
    by (simp only: legalHoldIndexName_Inr index_name_valid [symmetric]) blast
  then show ?thesis using Inr by (cases "legalHoldIndexName sanitize table") (auto simp: LegalHoldTableDDL_def)
qed (simp add: LegalHoldTableDDL_def)

definition ex_holds :: "string \<rightharpoonup> LegalHold list" where
  "ex_holds = [[CHR 0x22, CHR ''h'', CHR 0x22] \<mapsto> [\<lparr>lh_active = True, lh_start_date = 1, lh_end_date = 1\<rparr>]]"

theorem DeleteAuditLogsBefore_preserves_holds_witness:
  "under_hold [\<lparr>lh_active = True, lh_start_date = 1, lh_end_date = 1\<rparr>] (ex_log ''l1'' (Some ''o1'') 1)
   \<and> ex_log ''l1'' (Some ''o1'') 1 \<in>
       set (audit_logs (snd (DeleteAuditLogsBefore no_faults pgx_sanitize ex_holds 3 5 [Some (WithLegalHolds ''h'')] ex_audit_db)))"
proof -
  have held: "under_hold [\<lparr>lh_active = True, lh_start_date = 1, lh_end_date = 1\<rparr>] (ex_log ''l1'' (Some ''o1'') 1)"
    by (simp add: under_hold_def ex_log_def)
  have mem: "ex_log ''l1'' (Some ''o1'') 1 \<in> set (audit_logs ex_audit_db)" by (simp add: ex_audit_db_def)
  show ?thesis
    using DeleteAuditLogsBefore_preserves_holds [OF ex_audit_db_wf prod.collapse [symmetric] mem,
        where table = "''h''" and sanitize = pgx_sanitize and holdTables = ex_holds and cutoff = 3 and io = no_faults and k = 5]
      held ex_hold_name
    by (simp add: ex_holds_def)
qed

theorem DeleteAuditLogsBefore_progress_witness:
  "\<exists>d'. DeleteAuditLogsBefore no_faults pgx_sanitize ex_holds 3 5 [Some (WithLegalHolds ''h'')] ex_audit_db = (Inr 1, d')
     \<and> length (audit_logs d') + 1 = length (audit_logs ex_audit_db)"
proof -
  have "\<exists>d'. DeleteAuditLogsBefore no_faults pgx_sanitize ex_holds 3 5 [Some (WithLegalHolds ''h'')] ex_audit_db = (Inr 1, d')"
    using ex_hold_name
    by (simp add: DeleteAuditLogsBefore_def exemption_def newAuditSweepFilter_def WithLegalHolds_def held_rows_def ex_holds_def
        sweep_table_def batch_def paginate_def order_asc_def delete_batch_def under_hold_def affectedRows_def ex_audit_db_def ex_log_def)
  then obtain d' where d': "DeleteAuditLogsBefore no_faults pgx_sanitize ex_holds 3 5 [Some (WithLegalHolds ''h'')] ex_audit_db = (Inr 1, d')"
    by blast
  show ?thesis using d' DeleteAuditLogsBefore_progress [OF ex_audit_db_wf d'] by blast
qed

end
