(* ===== verification/Token_Repo.thy ===== *)
theory Token_Repo
  imports Batch_Prune
begin

text \<open>
  Package \<open>identity/store\<close>, file \<open>token_repository.go\<close>: the revocation denylist. Revoking a token inserts its
  identifier and, at most once per interval, prunes rows whose token has been expired for longer than the
  grace. \<open>io 0\<close> is the statement of the operation, \<open>io 1\<close> the prune (or, for the cleanup, reading the row
  count). \<open>now\<close> is the clock of the process, \<open>dbnow\<close> that of the database.
\<close>

definition revocationRetentionGrace :: duration where "revocationRetentionGrace = hour"
definition revocationPruneInterval :: duration where "revocationPruneInterval = hour"
definition revocationPruneBatch :: int where "revocationPruneBatch = 10000"

type_synonym TokenRepository = Pruner

definition NewTokenRepository :: TokenRepository where
  "NewTokenRepository = newPruner"

definition maybePruneExpiredRevocations :: "bool \<Rightarrow> time \<Rightarrow> TokenRepository \<Rightarrow> RevokedToken list \<Rightarrow> RevokedToken list \<times> TokenRepository" where
  "maybePruneExpiredRevocations =
     self_prune rev_JTI rev_ExpiresAt revocationPruneInterval revocationRetentionGrace revocationPruneBatch"

text \<open>\<open>INSERT ... ON CONFLICT (jti) DO NOTHING\<close>: \<open>None\<close> when a constraint refuses the row.\<close>

definition insert_revocation :: "RevokedToken \<Rightarrow> db \<Rightarrow> db option" where
  "insert_revocation t d =
     (if list_ex (\<lambda>x. rev_JTI x = rev_JTI t) (revoked_tokens d) then Some d
      else checked (d\<lparr>revoked_tokens := revoked_tokens d @ [t]\<rparr>))"

definition RevokeToken :: "io \<Rightarrow> time \<Rightarrow> string \<Rightarrow> string \<Rightarrow> time \<Rightarrow> db \<Rightarrow> TokenRepository
    \<Rightarrow> (store_error + unit) \<times> db \<times> TokenRepository" where
  "RevokeToken io now jti userID expiresAt d r =
     (if jti = '''' then (Inl ErrEmptyTokenID, d, r)
      else if io 0 then (Inl (Failed ''failed to revoke token''), d, r)
      else (case insert_revocation \<lparr>rev_JTI = jti, rev_UserID = userID, rev_ExpiresAt = expiresAt\<rparr> d of
              None \<Rightarrow> (Inl (Failed ''failed to revoke token''), d, r)
            | Some d' \<Rightarrow>
                let (rows, r') = maybePruneExpiredRevocations (io 1) now r (revoked_tokens d')
                in (Inr (), d'\<lparr>revoked_tokens := rows\<rparr>, r')))"

text \<open>The answer and the error, as the Go function returns both.\<close>

definition IsTokenRevoked :: "io \<Rightarrow> string \<Rightarrow> db \<Rightarrow> bool \<times> store_error option" where
  "IsTokenRevoked io jti d =
     (if jti = '''' then (True, Some ErrEmptyTokenID)
      else if io 0 then (True, Some (Failed ''failed to check token revocation''))
      else (list_ex (\<lambda>t. rev_JTI t = jti) (revoked_tokens d), None))"

definition CleanupExpiredRevocations :: "io \<Rightarrow> time \<Rightarrow> db \<Rightarrow> (store_error + nat) \<times> db" where
  "CleanupExpiredRevocations io dbnow d =
     (if io 0 then (Inl (Failed ''failed to cleanup expired token revocations''), d)
      else (affectedRows (io 1) (length (filter (\<lambda>t. rev_ExpiresAt t < dbnow) (revoked_tokens d))) ''expired token revocations'',
            d\<lparr>revoked_tokens := filter (\<lambda>t. \<not> rev_ExpiresAt t < dbnow) (revoked_tokens d)\<rparr>))"

interpretation revocations: self_pruning maybePruneExpiredRevocations rev_JTI rev_ExpiresAt revocationRetentionGrace
  unfolding maybePruneExpiredRevocations_def by (rule self_prune_self_pruning)

subsection \<open>A revocation holds until the token is dead\<close>

datatype token_op =
    Revoke io time string string time
  | Cleanup io time

fun run_token_op :: "token_op \<Rightarrow> db \<times> TokenRepository \<Rightarrow> db \<times> TokenRepository" where
  "run_token_op (Revoke io now jti usr e) (d, r) = snd (RevokeToken io now jti usr e d r)"
| "run_token_op (Cleanup io dbnow) (d, r) = (snd (CleanupExpiredRevocations io dbnow d), r)"

text \<open>No clock of an operation has passed the end of the token: for a prune, its expiry plus the grace; for
  the explicit cleanup, its expiry.\<close>

fun before_end :: "duration \<Rightarrow> time \<Rightarrow> token_op \<Rightarrow> bool" where
  "before_end grace e (Revoke io now jti usr e') = (now \<le> e + grace)"
| "before_end grace e (Cleanup io dbnow) = (dbnow \<le> e)"

definition token_inv :: "duration \<Rightarrow> RevokedToken \<Rightarrow> db \<times> TokenRepository \<Rightarrow> bool" where
  "token_inv grace t s \<longleftrightarrow>
     t \<in> set (revoked_tokens (fst s)) \<and> distinct (map rev_JTI (revoked_tokens (fst s)))
     \<and> or_default revocationRetentionGrace (pruneGrace (snd s)) = grace"

lemma insert_revocation_Some:
  assumes "insert_revocation t d = Some d'"
  shows "\<exists>x \<in> set (revoked_tokens d'). rev_JTI x = rev_JTI t" "set (revoked_tokens d) \<subseteq> set (revoked_tokens d')"
    "distinct (map rev_JTI (revoked_tokens d)) \<Longrightarrow> distinct (map rev_JTI (revoked_tokens d'))"
  using assms by (auto simp: insert_revocation_def list_ex_iff wf_defs split: if_splits)

lemma RevokeToken_inv:
  assumes "token_inv grace t (d, r)" "now \<le> rev_ExpiresAt t + grace"
  shows "token_inv grace t (snd (RevokeToken io now jti usr e d r))"
proof (cases "insert_revocation \<lparr>rev_JTI = jti, rev_UserID = usr, rev_ExpiresAt = e\<rparr> d")
  case None
  with assms show ?thesis by (simp add: RevokeToken_def)
next
  case (Some d')
  note ins = insert_revocation_Some [OF Some]
  have "token_inv grace t (d', r)" using assms(1) ins(2,3) by (auto simp: token_inv_def)
  moreover from this have "token_inv grace t (d'\<lparr>revoked_tokens := rows\<rparr>, r')"
    if "maybePruneExpiredRevocations (io 1) now r (revoked_tokens d') = (rows, r')" for rows r'
    using that assms(2) revocations.keeps [of "revoked_tokens d'" t now r "io 1"]
      revocations.prune_distinct [of "revoked_tokens d'" "io 1" now r] revocations.grace_kept [of "io 1" now r "revoked_tokens d'"]
    by (auto simp: token_inv_def)
  ultimately show ?thesis using assms(1) Some by (simp add: RevokeToken_def Let_def split: prod.splits)
qed

lemma token_op_inv:
  "token_inv grace t s \<Longrightarrow> before_end grace (rev_ExpiresAt t) op \<Longrightarrow> token_inv grace t (run_token_op op s)"
proof (cases "(op, s)" rule: run_token_op.cases)
  case (1 io now jti usr e d r)
  assume "token_inv grace t s" "before_end grace (rev_ExpiresAt t) op"
  with 1 show ?thesis using RevokeToken_inv by simp
next
  case (2 io dbnow d r)
  assume "token_inv grace t s" "before_end grace (rev_ExpiresAt t) op"
  with 2 show ?thesis by (auto simp: token_inv_def CleanupExpiredRevocations_def filter_distinct_map)
qed

lemma token_ops_inv:
  "token_inv grace t s \<Longrightarrow> list_all (before_end grace (rev_ExpiresAt t)) ops \<Longrightarrow> token_inv grace t (fold run_token_op ops s)"
  by (induction ops arbitrary: s) (auto simp: token_op_inv)

text \<open>
  C28: a revocation stays in force for as long as the token could be accepted. Once a row is in the denylist,
  no sequence of further revocations (with the prunes they trigger) and cleanups removes it before the
  token's expiry (plus the grace, for the prunes), and every check in that time reports the token revoked; and a
  check never reports a token as live unless it read the denylist and found it absent.
\<close>

theorem revocation_holds_until_expiry:
  assumes "db_wf d" "t \<in> set (revoked_tokens d)"
    and "list_all (before_end (or_default revocationRetentionGrace (pruneGrace r)) (rev_ExpiresAt t)) ops"
  shows "fst (IsTokenRevoked io (rev_JTI t) (fst (fold run_token_op ops (d, r))))
    \<and> (IsTokenRevoked io' jti d' = (False, err) \<longrightarrow>
         err = None \<and> jti \<noteq> '''' \<and> \<not> io' 0 \<and> jti \<notin> rev_JTI ` set (revoked_tokens d'))"
proof
  have "token_inv (or_default revocationRetentionGrace (pruneGrace r)) t (d, r)"
    using assms(1,2) by (simp add: token_inv_def wf_defs)
  from token_ops_inv [OF this assms(3)]
  show "fst (IsTokenRevoked io (rev_JTI t) (fst (fold run_token_op ops (d, r))))"
    by (auto simp: token_inv_def IsTokenRevoked_def list_ex_iff)
  show "IsTokenRevoked io' jti d' = (False, err) \<longrightarrow>
         err = None \<and> jti \<noteq> '''' \<and> \<not> io' 0 \<and> jti \<notin> rev_JTI ` set (revoked_tokens d')"
    by (auto simp: IsTokenRevoked_def list_ex_iff split: if_splits)
qed

definition ex_token :: RevokedToken where
  "ex_token = \<lparr>rev_JTI = ''j'', rev_UserID = ''u1'', rev_ExpiresAt = 100\<rparr>"

definition ex_token_db :: db where
  "ex_token_db = ex_db\<lparr>revoked_tokens := [ex_token]\<rparr>"

lemma ex_token_db_wf: "db_wf ex_token_db"
  by (simp add: ex_token_db_def ex_token_def wf_defs ex_defs member_ok_def key_ok_def member_key_def)

theorem revocation_holds_until_expiry_witness:
  "fst (IsTokenRevoked no_faults ''j''
     (fst (fold run_token_op [Revoke no_faults 90 ''k'' ''u1'' 50, Cleanup no_faults 99] (ex_token_db, NewTokenRepository))))"
  using revocation_holds_until_expiry [OF ex_token_db_wf, of ex_token NewTokenRepository
      "[Revoke no_faults 90 ''k'' ''u1'' 50, Cleanup no_faults 99]" no_faults]
  by (simp add: ex_token_db_def ex_token_def NewTokenRepository_def newPruner_def or_default_def
      revocationRetentionGrace_def hour_def minute_def second_def)

text \<open>
  Revoking works and is idempotent. A call that reports success leaves the token denied (unless its
  own row was already past the grace, in which case the prune may take it), whether or not the prune that
  rode on it failed; an empty identifier is refused and changes nothing; and a revocation never makes a token
  live that was revoked and not yet past the grace.
\<close>

theorem RevokeToken_revokes:
  assumes "db_wf d" "RevokeToken io now jti usr e d r = (Inr (), d', r')"
    and "\<forall>t \<in> set (revoked_tokens d). rev_JTI t = jti \<longrightarrow>
      now \<le> rev_ExpiresAt t + or_default revocationRetentionGrace (pruneGrace r)"
    and "now \<le> e + or_default revocationRetentionGrace (pruneGrace r)"
  shows "jti \<noteq> '''' \<and> IsTokenRevoked no_faults jti d' = (True, None)"
proof -
  let ?t = "\<lparr>rev_JTI = jti, rev_UserID = usr, rev_ExpiresAt = e\<rparr>"
  have jti: "jti \<noteq> ''''" "\<not> io 0" using assms(2) by (auto simp: RevokeToken_def split: if_splits)
  then obtain d1 rows where d1: "insert_revocation ?t d = Some d1"
    "maybePruneExpiredRevocations (io 1) now r (revoked_tokens d1) = (rows, r')" "d' = d1\<lparr>revoked_tokens := rows\<rparr>"
    using assms(2) by (auto simp: RevokeToken_def Let_def split: option.splits prod.splits)
  obtain x where x: "x \<in> set (revoked_tokens d1)" "rev_JTI x = jti"
    using insert_revocation_Some(1) [OF d1(1)] by auto
  have old: "x \<in> set (revoked_tokens d) \<or> x = ?t"
    using d1(1) x(1) by (auto simp: insert_revocation_def split: if_splits)
  have "now \<le> rev_ExpiresAt x + or_default revocationRetentionGrace (pruneGrace r)"
    using old x assms(3,4) by (metis RevokedToken.select_convs(3))
  then have "x \<in> set rows"
    using revocations.keeps [of "revoked_tokens d1" x now r "io 1"] x(1) d1(2) insert_revocation_Some(3) [OF d1(1)] assms(1)
    by (simp add: wf_defs)
  with x(2) jti(1) d1(3) show ?thesis by (auto simp: IsTokenRevoked_def list_ex_iff)
qed

theorem RevokeToken_revokes_witness:
  "\<exists>d' r'. RevokeToken no_faults 90 ''k'' ''u1'' 95 ex_token_db NewTokenRepository = (Inr (), d', r')
     \<and> IsTokenRevoked no_faults ''k'' d' = (True, None)"
proof -
  have "\<exists>d' r'. RevokeToken no_faults 90 ''k'' ''u1'' 95 ex_token_db NewTokenRepository = (Inr (), d', r')"
    by (simp add: RevokeToken_def insert_revocation_def checked_def ex_token_db_def ex_token_def wf_defs ex_defs
        member_ok_def key_ok_def member_key_def Let_def split: prod.splits)
  then obtain d' r' where "RevokeToken no_faults 90 ''k'' ''u1'' 95 ex_token_db NewTokenRepository = (Inr (), d', r')" by blast
  with RevokeToken_revokes [OF ex_token_db_wf this] show ?thesis
    by (auto simp: ex_token_db_def ex_token_def NewTokenRepository_def newPruner_def or_default_def
        revocationRetentionGrace_def hour_def minute_def second_def)
qed

end
