(* ===== verification/Notify_Dedup.thy ===== *)
theory Notify_Dedup
  imports Batch_Prune
begin

text \<open>
  Package \<open>identity/store\<close>, file \<open>notify_dedup_repository.go\<close>: the time-bounded claim that keeps an
  occurrence from being delivered twice. The claim is one upsert on the database's clock \<open>dbnow\<close>; the prune that
  follows uses the clock of the process, \<open>now\<close>. \<open>io 0\<close>: the upsert fails; \<open>io 1\<close>: the prune fails. The
  lifetime in seconds is taken exactly.
\<close>

definition dedupPruneGrace :: duration where "dedupPruneGrace = 7 * 24 * hour"
definition dedupPruneInterval :: duration where "dedupPruneInterval = hour"
definition dedupPruneBatch :: int where "dedupPruneBatch = 10000"

type_synonym NotifyDedupRepository = Pruner

definition NewNotifyDedupRepository :: NotifyDedupRepository where
  "NewNotifyDedupRepository = newPruner"

definition maybePruneExpiredClaims :: "bool \<Rightarrow> time \<Rightarrow> NotifyDedupRepository \<Rightarrow> DedupClaim list \<Rightarrow> DedupClaim list \<times> NotifyDedupRepository" where
  "maybePruneExpiredClaims = self_prune dd_Key dd_ClaimedAt dedupPruneInterval dedupPruneGrace dedupPruneBatch"

interpretation claims: self_pruning maybePruneExpiredClaims dd_Key dd_ClaimedAt dedupPruneGrace
  unfolding maybePruneExpiredClaims_def by (rule self_prune_self_pruning)

text \<open>The upsert: whether it returned a row, and the table.\<close>

definition upsert_claim :: "time \<Rightarrow> string \<Rightarrow> duration \<Rightarrow> DedupClaim list \<Rightarrow> bool \<times> DedupClaim list" where
  "upsert_claim dbnow key ttl rows =
     (case find (\<lambda>c. dd_Key c = key) rows of
        None \<Rightarrow> (True, rows @ [\<lparr>dd_Key = key, dd_ClaimedAt = dbnow\<rparr>])
      | Some c \<Rightarrow>
          if dd_ClaimedAt c < dbnow - ttl
          then (True, map (\<lambda>x. if dd_Key x = key then x\<lparr>dd_ClaimedAt := dbnow\<rparr> else x) rows)
          else (False, rows))"

definition ClaimDedup :: "io \<Rightarrow> time \<Rightarrow> time \<Rightarrow> string \<Rightarrow> duration \<Rightarrow> db \<Rightarrow> NotifyDedupRepository
    \<Rightarrow> (store_error + bool) \<times> db \<times> NotifyDedupRepository" where
  "ClaimDedup io dbnow now key ttl d r =
     (let (claimed, rows1) = (if io 0 then (False, notify_dedup_claims d) else upsert_claim dbnow key ttl (notify_dedup_claims d));
          (rows2, r') = maybePruneExpiredClaims (io 1) now r rows1;
          d' = d\<lparr>notify_dedup_claims := rows2\<rparr>
      in if io 0 then (Inl (Failed ''failed to claim notify dedup key''), d', r')
         else if claimed then (Inr True, d', r')
         else (Inr False, d', r'))"

subsection \<open>Exclusion\<close>

record claim_call =
  cc_io :: io
  cc_dbnow :: time
  cc_now :: time
  cc_key :: string
  cc_ttl :: duration

definition claim :: "claim_call \<Rightarrow> db \<times> NotifyDedupRepository \<Rightarrow> db \<times> NotifyDedupRepository" where
  "claim c s = snd (ClaimDedup (cc_io c) (cc_dbnow c) (cc_now c) (cc_key c) (cc_ttl c) (fst s) (snd s))"

text \<open>The key is claimed no earlier than \<open>t\<close>.\<close>

definition claimed_since :: "duration \<Rightarrow> string \<Rightarrow> time \<Rightarrow> db \<times> NotifyDedupRepository \<Rightarrow> bool" where
  "claimed_since grace key t s \<longleftrightarrow>
     (\<exists>c \<in> set (notify_dedup_claims (fst s)). dd_Key c = key \<and> t \<le> dd_ClaimedAt c)
     \<and> distinct (map dd_Key (notify_dedup_claims (fst s)))
     \<and> or_default dedupPruneGrace (pruneGrace (snd s)) = grace"

lemma upsert_claim_keys: "map dd_Key (snd (upsert_claim dbnow key ttl rows)) =
    (if find (\<lambda>c. dd_Key c = key) rows = None then map dd_Key rows @ [key] else map dd_Key rows)"
  by (auto simp: upsert_claim_def split: option.splits)

lemma upsert_claim_distinct:
  "distinct (map dd_Key rows) \<Longrightarrow> distinct (map dd_Key (snd (upsert_claim dbnow key ttl rows)))"
  unfolding upsert_claim_keys by (auto simp: find_None_iff)

lemma upsert_claim_True:
  assumes "fst (upsert_claim dbnow key ttl rows)"
  shows "\<exists>c \<in> set (snd (upsert_claim dbnow key ttl rows)). dd_Key c = key \<and> dd_ClaimedAt c = dbnow"
proof (cases "find (\<lambda>c. dd_Key c = key) rows")
  case None
  then show ?thesis by (simp add: upsert_claim_def)
next
  case (Some c)
  with assms have "snd (upsert_claim dbnow key ttl rows) = map (\<lambda>x. if dd_Key x = key then x\<lparr>dd_ClaimedAt := dbnow\<rparr> else x) rows"
    by (simp add: upsert_claim_def split: if_splits)
  then show ?thesis using find_Some_mem [OF Some] by (auto intro!: bexI [of _ "c\<lparr>dd_ClaimedAt := dbnow\<rparr>"] image_eqI [of _ _ c])
qed

lemma upsert_claim_since:
  assumes "c \<in> set rows" "dd_Key c = k" "t \<le> dd_ClaimedAt c" "t \<le> dbnow"
  shows "\<exists>c \<in> set (snd (upsert_claim dbnow key ttl rows)). dd_Key c = k \<and> t \<le> dd_ClaimedAt c"
proof -
  let ?f = "\<lambda>x :: DedupClaim. if dd_Key x = key then x\<lparr>dd_ClaimedAt := dbnow\<rparr> else x"
  have "\<exists>c \<in> set (map ?f rows). dd_Key c = k \<and> t \<le> dd_ClaimedAt c"
    using assms by (intro bexI [of _ "?f c"]) auto
  moreover have "snd (upsert_claim dbnow key ttl rows) = map ?f rows \<or> set rows \<subseteq> set (snd (upsert_claim dbnow key ttl rows))"
    by (auto simp: upsert_claim_def split: option.splits)
  ultimately show ?thesis using assms(1-3) by (elim disjE) auto
qed

lemma ClaimDedup_state:
  obtains rows where "fst (snd (ClaimDedup io dbnow now key ttl d r)) = d\<lparr>notify_dedup_claims := fst (maybePruneExpiredClaims (io 1) now r rows)\<rparr>"
    "snd (snd (ClaimDedup io dbnow now key ttl d r)) = snd (maybePruneExpiredClaims (io 1) now r rows)"
    "rows = (if io 0 then notify_dedup_claims d else snd (upsert_claim dbnow key ttl (notify_dedup_claims d)))"
  by (auto simp: ClaimDedup_def Let_def split_beta)

lemma prune_claimed_since:
  assumes "c \<in> set rows" "dd_Key c = key" "t \<le> dd_ClaimedAt c" "distinct (map dd_Key rows)"
    and "or_default dedupPruneGrace (pruneGrace r) = grace" "now \<le> t + grace"
  shows "claimed_since grace key t (d\<lparr>notify_dedup_claims := fst (maybePruneExpiredClaims f now r rows)\<rparr>, snd (maybePruneExpiredClaims f now r rows))"
  using assms claims.keeps [of rows c now r f] claims.prune_distinct [of rows f now r] claims.grace_kept [of f now r rows]
  by (auto simp: claimed_since_def)

lemma claim_keeps:
  assumes "claimed_since grace key t s" "t \<le> cc_dbnow c" "cc_now c \<le> t + grace"
  shows "claimed_since grace key t (claim c s)"
proof -
  obtain rows where rows: "fst (claim c s) = (fst s)\<lparr>notify_dedup_claims := fst (maybePruneExpiredClaims (cc_io c 1) (cc_now c) (snd s) rows)\<rparr>"
    "snd (claim c s) = snd (maybePruneExpiredClaims (cc_io c 1) (cc_now c) (snd s) rows)"
    "rows = (if cc_io c 0 then notify_dedup_claims (fst s)
             else snd (upsert_claim (cc_dbnow c) (cc_key c) (cc_ttl c) (notify_dedup_claims (fst s))))"
    unfolding claim_def by (rule ClaimDedup_state)
  obtain x where x: "x \<in> set (notify_dedup_claims (fst s))" "dd_Key x = key" "t \<le> dd_ClaimedAt x"
    using assms(1) by (auto simp: claimed_since_def)
  then obtain y where "y \<in> set rows" "dd_Key y = key" "t \<le> dd_ClaimedAt y"
    using upsert_claim_since [OF x assms(2), of "cc_key c" "cc_ttl c"] rows(3) by (auto split: if_splits)
  moreover have "distinct (map dd_Key rows)"
    using assms(1) rows(3) upsert_claim_distinct by (simp add: claimed_since_def)
  moreover have "or_default dedupPruneGrace (pruneGrace (snd s)) = grace" using assms(1) by (simp add: claimed_since_def)
  ultimately have "claimed_since grace key t (fst (claim c s), snd (claim c s))"
    unfolding rows(1,2) using assms(3) by (intro prune_claimed_since)
  then show ?thesis by simp
qed

lemma claims_keep:
  "claimed_since grace key t s \<Longrightarrow> list_all (\<lambda>c. t \<le> cc_dbnow c \<and> cc_now c \<le> t + grace) cs
     \<Longrightarrow> claimed_since grace key t (fold claim cs s)"
  by (induction cs arbitrary: s) (auto simp: claim_keeps)

lemma claimed_since_loses:
  assumes "claimed_since grace key t (d, r)" "dbnow \<le> t + ttl"
  shows "fst (ClaimDedup io dbnow now key ttl d r) \<noteq> Inr True"
proof -
  obtain c where c: "c \<in> set (notify_dedup_claims d)" "dd_Key c = key" "t \<le> dd_ClaimedAt c"
    and dist: "distinct (map dd_Key (notify_dedup_claims d))"
    using assms(1) by (auto simp: claimed_since_def)
  obtain x where x: "find (\<lambda>c. dd_Key c = key) (notify_dedup_claims d) = Some x"
    using c(1,2) find_None_iff [of "\<lambda>c. dd_Key c = key"] by (metis option.exhaust)
  then have "x = c" using c(1,2) find_Some_mem [OF x] distinct_key_unique [OF dist] by simp
  with x c(3) assms(2) show ?thesis by (auto simp: ClaimDedup_def upsert_claim_def Let_def split_beta)
qed

lemma ClaimDedup_wins:
  assumes "distinct (map dd_Key (notify_dedup_claims d))" "ClaimDedup io dbnow now key ttl d r = (Inr True, d', r')"
    and "now \<le> dbnow + or_default dedupPruneGrace (pruneGrace r)"
  shows "claimed_since (or_default dedupPruneGrace (pruneGrace r)) key dbnow (d', r')"
proof -
  let ?rows = "snd (upsert_claim dbnow key ttl (notify_dedup_claims d))"
  have io: "\<not> io 0" "fst (upsert_claim dbnow key ttl (notify_dedup_claims d))"
    using assms(2) by (auto simp: ClaimDedup_def Let_def split_beta split: if_splits)
  have state: "d' = d\<lparr>notify_dedup_claims := fst (maybePruneExpiredClaims (io 1) now r ?rows)\<rparr>"
    "r' = snd (maybePruneExpiredClaims (io 1) now r ?rows)"
    using assms(2) io by (auto simp: ClaimDedup_def Let_def split_beta)
  obtain c where "c \<in> set ?rows" "dd_Key c = key" "dd_ClaimedAt c = dbnow" using upsert_claim_True [OF io(2)] by blast
  moreover have "distinct (map dd_Key ?rows)" using assms(1) by (rule upsert_claim_distinct)
  ultimately show ?thesis unfolding state using assms(3) by (intro prune_claimed_since [of c]) simp_all
qed

text \<open>
  At most one claim of a key wins per lifetime. After a call that won at database time \<open>t\<close>, whatever
  claims (of any keys and lifetimes, failing or not) follow while the database clock does not go back and the
  process clock stays within the prune grace of \<open>t\<close>, a claim of the same key with lifetime \<open>ttl\<close> made no
  later than \<open>t + ttl\<close> does not win.
\<close>

theorem ClaimDedup_exclusive:
  assumes "db_wf d" "ClaimDedup io t now key ttl0 d r = (Inr True, d', r')"
    and "list_all (\<lambda>c. t \<le> cc_dbnow c \<and> cc_now c \<le> t + or_default dedupPruneGrace (pruneGrace r)) cs"
    and "now \<le> t + or_default dedupPruneGrace (pruneGrace r)" "t2 \<le> t + ttl"
    and "fold claim cs (d', r') = (d2, r2)"
  shows "fst (ClaimDedup io2 t2 now2 key ttl d2 r2) \<noteq> Inr True"
proof -
  have "distinct (map dd_Key (notify_dedup_claims d))" using assms(1) by (simp add: wf_defs)
  then have "claimed_since (or_default dedupPruneGrace (pruneGrace r)) key t (d2, r2)"
    using claims_keep [OF ClaimDedup_wins [OF _ assms(2,4)] assms(3)] assms(6) by simp
  then show ?thesis using assms(5) by (rule claimed_since_loses)
qed

text \<open>The claim of one key as the contract of claims: the attempts of a window that starts at \<open>t\<close>, each of a lifetime that covers the window, on
  process clocks within the prune grace.\<close>

definition dedup_attempt :: "string \<Rightarrow> claim_call \<Rightarrow> db \<times> NotifyDedupRepository \<Rightarrow> bool \<times> db \<times> NotifyDedupRepository" where
  "dedup_attempt key c s =
    (case ClaimDedup (cc_io c) (cc_dbnow c) (cc_now c) key (cc_ttl c) (fst s) (snd s) of (res, s') \<Rightarrow> (res = Inr True, s'))"

definition in_window :: "duration \<Rightarrow> time \<Rightarrow> claim_call \<Rightarrow> bool" where
  "in_window grace t c \<longleftrightarrow> t \<le> cc_dbnow c \<and> cc_dbnow c \<le> t + cc_ttl c \<and> cc_now c \<le> t + grace"

definition claims_sound :: "duration \<Rightarrow> db \<times> NotifyDedupRepository \<Rightarrow> bool" where
  "claims_sound grace s \<longleftrightarrow> distinct (map dd_Key (notify_dedup_claims (fst s))) \<and> or_default dedupPruneGrace (pruneGrace (snd s)) = grace"

lemma dedup_attempt_claim: "dedup_attempt key c s = (won, s') \<Longrightarrow> s' = claim (c\<lparr>cc_key := key\<rparr>) s"
  by (auto simp: dedup_attempt_def claim_def split: prod.splits)

lemma claim_sound: "claims_sound grace s \<Longrightarrow> claims_sound grace (claim c s)"
proof -
  assume s: "claims_sound grace s"
  obtain rows where rows: "fst (claim c s) = (fst s)\<lparr>notify_dedup_claims := fst (maybePruneExpiredClaims (cc_io c 1) (cc_now c) (snd s) rows)\<rparr>"
    "snd (claim c s) = snd (maybePruneExpiredClaims (cc_io c 1) (cc_now c) (snd s) rows)"
    "rows = (if cc_io c 0 then notify_dedup_claims (fst s)
             else snd (upsert_claim (cc_dbnow c) (cc_key c) (cc_ttl c) (notify_dedup_claims (fst s))))"
    unfolding claim_def by (rule ClaimDedup_state)
  have "distinct (map dd_Key rows)" using s rows(3) upsert_claim_distinct by (simp add: claims_sound_def)
  then show ?thesis using s claims.prune_distinct claims.grace_kept by (simp add: claims_sound_def rows(1,2))
qed

interpretation dedup: exclusive_claim "dedup_attempt key" "in_window grace t" "claims_sound grace" "claimed_since grace key t"
proof
  fix s c won s'
  assume a: "dedup_attempt key c s = (won, s')"
  note s' = dedup_attempt_claim [OF a]
  show "claims_sound grace s \<Longrightarrow> claims_sound grace s'" unfolding s' by (rule claim_sound)
  show "claimed_since grace key t s \<Longrightarrow> in_window grace t c \<Longrightarrow> claimed_since grace key t s'"
    unfolding s' by (rule claim_keeps) (simp_all add: in_window_def)
  show "\<not> won" if "claimed_since grace key t s" "in_window grace t c"
    using a claimed_since_loses [of grace key t "fst s" "snd s" "cc_dbnow c" "cc_ttl c" "cc_io c" "cc_now c"] that
    by (auto simp: dedup_attempt_def in_window_def split: prod.splits)
next
  fix s c s'
  assume s: "claims_sound grace s" and w: "in_window grace t c" and a: "dedup_attempt key c s = (True, s')"
  have "ClaimDedup (cc_io c) (cc_dbnow c) (cc_now c) key (cc_ttl c) (fst s) (snd s) = (Inr True, fst s', snd s')"
    using a by (auto simp: dedup_attempt_def split: prod.splits)
  from ClaimDedup_wins [OF _ this] s w have "claimed_since grace key (cc_dbnow c) s'"
    by (auto simp: claims_sound_def in_window_def)
  with w show "claimed_since grace key t s'" by (auto simp: claimed_since_def in_window_def intro: order_trans)
qed

text \<open>Whatever callers race for a key within a window their lifetimes cover, at most one of them wins.\<close>

theorem ClaimDedup_one_winner:
  assumes "claims_sound grace s" "list_all (in_window grace t) cs"
  shows "length (filter (\<lambda>w. w) (fst (run_attempts (dedup_attempt key) cs s))) \<le> 1"
  using assms by (rule dedup.one_winner)

text \<open>
  A claim is a reservation, not a tombstone. When no live claim of the key is recorded (none at all, or
  only one made more than the lifetime ago), a call whose statement succeeds wins.
\<close>

theorem ClaimDedup_available:
  assumes "\<not> io 0"
    and "\<forall>c \<in> set (notify_dedup_claims d). dd_Key c = key \<longrightarrow> dd_ClaimedAt c + ttl < dbnow"
  shows "fst (ClaimDedup io dbnow now key ttl d r) = Inr True"
proof -
  have "fst (upsert_claim dbnow key ttl (notify_dedup_claims d))"
  proof (cases "find (\<lambda>c. dd_Key c = key) (notify_dedup_claims d)")
    case None
    then show ?thesis by (simp add: upsert_claim_def)
  next
    case (Some c)
    then have "dd_ClaimedAt c + ttl < dbnow" using find_Some_mem [OF Some] assms(2) by blast
    with Some show ?thesis by (simp add: upsert_claim_def)
  qed
  with assms(1) show ?thesis by (simp add: ClaimDedup_def Let_def split_beta)
qed

theorem ClaimDedup_available_witness:
  "fst (ClaimDedup no_faults 5 5 ''k'' 10 empty_db NewNotifyDedupRepository) = Inr True"
  using ClaimDedup_available [of no_faults empty_db "''k''" 10 5 5 NewNotifyDedupRepository]
  by (simp add: empty_db_def)

theorem ClaimDedup_exclusive_witness:
  "\<exists>d' r'. ClaimDedup no_faults 5 5 ''k'' 10 empty_db NewNotifyDedupRepository = (Inr True, d', r')
     \<and> fst (ClaimDedup no_faults 15 15 ''k'' 10 d' r') \<noteq> Inr True"
proof -
  obtain d' r' where w: "ClaimDedup no_faults 5 5 ''k'' 10 empty_db NewNotifyDedupRepository = (Inr True, d', r')"
    by (cases "ClaimDedup no_faults 5 5 ''k'' 10 empty_db NewNotifyDedupRepository")
       (auto simp: ClaimDedup_def Let_def split_beta upsert_claim_def empty_db_def split: prod.splits)
  have "fst (ClaimDedup no_faults 15 15 ''k'' 10 d' r') \<noteq> Inr True"
    by (rule ClaimDedup_exclusive [OF empty_db_wf w, of "[]"])
       (simp_all add: or_default_def NewNotifyDedupRepository_def newPruner_def dedupPruneGrace_def hour_def minute_def second_def)
  with w show ?thesis by blast
qed

end
