(* ===== verification/Reducer.thy ===== *)
theory Reducer
  imports Org_Repo
begin

text \<open>
  Package \<open>identity/store\<close>, file \<open>authority_reduction.go\<close>: the transactional authority reduction. A
  membership is removed or its role template replaced, and in the same transaction every API key of the
  user in the affected organizations that carries more than the authority the user keeps there is
  deleted, and the application's own credentials are swept.

  A transaction works on a copy of the database and of the application's tables (type variable \<open>'s\<close>);
  its commit is applied and acknowledged, refused, or applied with the acknowledgement lost. Any return
  before the commit rolls back. The application's callback \<open>AppCredentials\<close> is a parameter; it sees the
  database inside the transaction and changes the application's tables only.

  Driver calls of a reduction: 0 begins the transaction; 1 and 2 are the query and the rows of
  \<open>retainedScopes\<close>; 3 and 4 the query and rows of the derived keys; 5 and 6 the delete and its row
  count; from 7 on the calls of the membership change itself.
\<close>

datatype commit_outcome = Committed | RolledBack | Unacknowledged

record Reduced =
  rd_UserID :: string
  rd_Organizations :: "string list"
  rd_KeysRevoked :: nat
  rd_KeysRetained :: nat

type_synonym 's AppCredentials = "db \<Rightarrow> Reduced \<Rightarrow> 's \<Rightarrow> (store_error + unit) \<times> 's"

definition NoAppCredentials :: "'s AppCredentials" where
  "NoAppCredentials d red s = (Inr (), s)"

record Reducer =
  red_hasDB :: bool
  red_rwPairs :: ReadWritePairs

definition NewReducer :: "bool \<Rightarrow> ReadWritePairs \<Rightarrow> Reducer" where
  "NewReducer hasDB rwPairs = \<lparr>red_hasDB = hasDB, red_rwPairs = rwPairs\<rparr>"

fun AuthorityRetained :: "string list \<Rightarrow> string list \<Rightarrow> ReadWritePairs \<Rightarrow> bool" where
  "AuthorityRetained [] retained rwPairs = True"
| "AuthorityRetained (s # have) retained rwPairs =
     (if \<not> HasScope retained s rwPairs then False else AuthorityRetained have retained rwPairs)"

subsection \<open>The sweep\<close>

text \<open>\<open>retained[orgID] = scopes\<close> for each joined row, in row order.\<close>

fun retainedLoop :: "db \<Rightarrow> OrganizationMember list \<Rightarrow> (string \<rightharpoonup> string list) \<Rightarrow> store_error + (string \<rightharpoonup> string list)" where
  "retainedLoop d [] retained = Inr retained"
| "retainedLoop d (m # ms) retained =
     (case unmarshal_strings (coalesced_scopes d m) of
        None \<Rightarrow> Inl (Failed ''failed to unmarshal retained authority'')
      | Some scopes \<Rightarrow> retainedLoop d ms (retained(mem_OrganizationID m \<mapsto> scopes)))"

definition retainedScopes :: "io \<Rightarrow> string \<Rightarrow> string list \<Rightarrow> db \<Rightarrow> store_error + (string \<rightharpoonup> string list)" where
  "retainedScopes io userID orgIDs d =
     (if io 1 then Inl (Failed ''failed to read retained authority'')
      else
        let rows = filter (selected (pairs d) member_cols
                     (P_and (P_eq ''om.user_id'' 1) (P_any ''om.organization_id'' 2), [VText userID, VTexts orgIDs]))
                     (organization_members d)
        in case retainedLoop d rows Map.empty of
             Inl e \<Rightarrow> Inl e
           | Inr retained \<Rightarrow> if io 2 then Inl (Failed ''failed to read retained authority'') else Inr retained)"

text \<open>The loop over the derived keys: the ids to delete, in row order, and the number kept.\<close>

fun derivedLoop :: "ReadWritePairs \<Rightarrow> (string \<rightharpoonup> string list) \<Rightarrow> APIKey list \<Rightarrow> string list \<Rightarrow> nat
    \<Rightarrow> store_error + (string list \<times> nat)" where
  "derivedLoop rw retained [] doomed kept = Inr (doomed, kept)"
| "derivedLoop rw retained (k # ks) doomed kept =
     (case unmarshal_strings (key_Scopes k) of
        None \<Rightarrow> Inl (Failed ''failed to unmarshal api key scopes'')
      | Some have \<Rightarrow>
          if AuthorityRetained have (case retained (key_OrganizationID k) of None \<Rightarrow> [] | Some ss \<Rightarrow> ss) rw
          then derivedLoop rw retained ks doomed (kept + 1)
          else derivedLoop rw retained ks (doomed @ [key_ID k]) kept)"

definition sweepDerivedKeys :: "io \<Rightarrow> ReadWritePairs \<Rightarrow> Reduced \<Rightarrow> db \<Rightarrow> (store_error + Reduced) \<times> db" where
  "sweepDerivedKeys io rw red d =
     (case retainedScopes io (rd_UserID red) (rd_Organizations red) d of
        Inl e \<Rightarrow> (Inl e, d)
      | Inr retained \<Rightarrow>
          if io 3 then (Inl (Failed ''failed to read derived api keys''), d)
          else
            let rows = filter (selected (pairs d) key_cols
                         (P_and (P_eq ''user_id'' 1) (P_any ''organization_id'' 2),
                          [VText (rd_UserID red), VTexts (rd_Organizations red)])) (api_keys d)
            in case derivedLoop rw retained rows [] 0 of
                 Inl e \<Rightarrow> (Inl e, d)
               | Inr (doomed, kept) \<Rightarrow>
                   if io 4 then (Inl (Failed ''failed to read derived api keys''), d)
                   else
                     let red1 = red\<lparr>rd_KeysRetained := kept\<rparr>
                     in if length doomed = 0 then (Inr red1, d)
                        else if io 5 then (Inl (Failed ''failed to revoke derived api keys''), d)
                        else
                          let hit = selected (pairs d) key_cols (P_any ''id'' 1, [VTexts doomed]);
                              d' = delete_keys hit d
                          in case affectedRows (io 6) (length (filter hit (api_keys d))) ''derived api keys'' of
                               Inl e \<Rightarrow> (Inl e, d')
                             | Inr n \<Rightarrow>
                                 if n \<noteq> length doomed then (Inl (CountMismatch (length doomed) n), d')
                                 else (Inr (red1\<lparr>rd_KeysRevoked := n\<rparr>), d'))"

subsection \<open>The transaction\<close>

definition commit_tx :: "commit_outcome \<Rightarrow> 'e \<Rightarrow> 'a \<Rightarrow> 'w \<Rightarrow> 'w \<Rightarrow> ('e + 'a) \<times> 'w" where
  "commit_tx cm e res old new =
     (case cm of Committed \<Rightarrow> (Inr res, new) | RolledBack \<Rightarrow> (Inl e, old) | Unacknowledged \<Rightarrow> (Inl e, new))"

definition run :: "io \<Rightarrow> commit_outcome \<Rightarrow> Reducer option \<Rightarrow> string \<Rightarrow> 's AppCredentials option
    \<Rightarrow> (db \<Rightarrow> (store_error + string list) \<times> db) \<Rightarrow> db \<times> 's \<Rightarrow> (store_error + Reduced) \<times> (db \<times> 's)" where
  "run io cm r userID app reduce w =
     (case r of None \<Rightarrow> (Inl ErrNoReducer, w)
      | Some rd \<Rightarrow>
          if \<not> red_hasDB rd then (Inl ErrNoReducer, w)
          else (case app of None \<Rightarrow> (Inl ErrNoCredentialDecision, w)
                | Some f \<Rightarrow>
                    if io 0 then (Inl (Failed ''failed to begin authority reduction''), w)
                    else (case reduce (fst w) of
                            (Inl e, _) \<Rightarrow> (Inl e, w)
                          | (Inr orgIDs, d1) \<Rightarrow>
                              let red = \<lparr>rd_UserID = userID, rd_Organizations = orgIDs, rd_KeysRevoked = 0, rd_KeysRetained = 0\<rparr>
                              in if length orgIDs > 0 then
                                   (case sweepDerivedKeys io (red_rwPairs rd) red d1 of
                                      (Inl e, _) \<Rightarrow> (Inl e, w)
                                    | (Inr red', d2) \<Rightarrow>
                                        (case f d2 red' (snd w) of
                                           (Inl e, _) \<Rightarrow> (Inl AppCredentialsFailed, w)
                                         | (Inr _, s') \<Rightarrow>
                                             commit_tx cm (Failed ''failed to commit authority reduction'') red' w (d2, s')))
                                 else commit_tx cm (Failed ''failed to commit authority reduction'') red w (d1, snd w))))"

subsection \<open>The operations\<close>

text \<open>The bodies passed to \<open>run\<close>: the statement on \<open>organization_members\<close> and its row check.\<close>

definition removeBody :: "io \<Rightarrow> string \<Rightarrow> string \<Rightarrow> OrgScope \<Rightarrow> db \<Rightarrow> (store_error + string list) \<times> db" where
  "removeBody io orgID userID scope d =
     (let wa = andScope (P_and (P_eq ''organization_id'' 1) (P_eq ''user_id'' 2)) scope ''organization_id''
                 [VText orgID, VText userID];
          hit = selected (pairs d) member_cols wa
      in if io 7 then (Inl (Failed ''failed to remove member''), d)
         else
           let d' = delete_members hit d
           in case requireRow (io 8) (length (filter hit (organization_members d))) ''organization member'' of
                Inl e \<Rightarrow> (Inl e, d') | Inr _ \<Rightarrow> (Inr [orgID], d'))"

definition updateBody ::
    "bool \<Rightarrow> bool \<Rightarrow> string \<Rightarrow> string \<Rightarrow> string option \<Rightarrow> OrgScope \<Rightarrow> db \<Rightarrow> (store_error + string list) \<times> db" where
  "updateBody execFails rowsFail orgID userID roleTemplateID scope d =
     (let wa = andScope (P_and (P_eq ''organization_id'' 1) (P_eq ''user_id'' 2)) scope ''organization_id''
                 [VText orgID, VText userID, owner_val roleTemplateID];
          hit = selected (pairs d) member_cols wa
      in if execFails then (Inl (Failed ''failed to update member role template''), d)
         else (case checked (update_members hit roleTemplateID d) of
                 None \<Rightarrow> (Inl (Failed ''failed to update member role template''), d)
               | Some d' \<Rightarrow>
                   (case requireRow rowsFail (length (filter hit (organization_members d))) ''organization member'' of
                      Inl e \<Rightarrow> (Inl e, d') | Inr _ \<Rightarrow> (Inr [orgID], d'))))"

definition updateRoleBody ::
    "io \<Rightarrow> string \<Rightarrow> string \<Rightarrow> string \<Rightarrow> OrgScope \<Rightarrow> db \<Rightarrow> (store_error + string list) \<times> db" where
  "updateRoleBody io orgID userID roleTemplateName scope d =
     (case lookupRoleTemplateID (io 7) roleTemplateName d of
        Inl e \<Rightarrow> (Inl e, d)
      | Inr i \<Rightarrow> updateBody (io 8) (io 9) orgID userID (Some i) scope d)"

definition removeAllBody :: "io \<Rightarrow> string \<Rightarrow> OrgScope \<Rightarrow> db \<Rightarrow> (store_error + string list) \<times> db" where
  "removeAllBody io userID scope d =
     (let wa = andScope (P_eq ''user_id'' 1) scope ''organization_id'' [VText userID];
          hit = selected (pairs d) member_cols wa
      in if io 7 then (Inl (Failed ''failed to remove all memberships for user''), d)
         else if io 8 then (Inl (Failed ''failed to scan removed membership for user''), delete_members hit d)
         else (Inr (map mem_OrganizationID (filter hit (organization_members d))), delete_members hit d))"

definition Reducer_RemoveMember :: "io \<Rightarrow> commit_outcome \<Rightarrow> Reducer option \<Rightarrow> string \<Rightarrow> string \<Rightarrow> OrgScope
    \<Rightarrow> 's AppCredentials option \<Rightarrow> db \<times> 's \<Rightarrow> (store_error + Reduced) \<times> (db \<times> 's)" where
  "Reducer_RemoveMember io cm r orgID userID scope app w =
     (if MatchesNothing scope then (Inl (notFound ''organization member''), w)
      else run io cm r userID app (removeBody io orgID userID scope) w)"

definition Reducer_UpdateMemberRoleTemplate :: "io \<Rightarrow> commit_outcome \<Rightarrow> Reducer option \<Rightarrow> string \<Rightarrow> string
    \<Rightarrow> string option \<Rightarrow> OrgScope \<Rightarrow> 's AppCredentials option \<Rightarrow> db \<times> 's \<Rightarrow> (store_error + Reduced) \<times> (db \<times> 's)" where
  "Reducer_UpdateMemberRoleTemplate io cm r orgID userID roleTemplateID scope app w =
     (if MatchesNothing scope then (Inl (notFound ''organization member''), w)
      else run io cm r userID app (updateBody (io 7) (io 8) orgID userID roleTemplateID scope) w)"

definition Reducer_UpdateMemberRole :: "io \<Rightarrow> commit_outcome \<Rightarrow> Reducer option \<Rightarrow> string \<Rightarrow> string
    \<Rightarrow> string \<Rightarrow> OrgScope \<Rightarrow> 's AppCredentials option \<Rightarrow> db \<times> 's \<Rightarrow> (store_error + Reduced) \<times> (db \<times> 's)" where
  "Reducer_UpdateMemberRole io cm r orgID userID roleTemplateName scope app w =
     (if MatchesNothing scope then (Inl (notFound ''organization member''), w)
      else run io cm r userID app (updateRoleBody io orgID userID roleTemplateName scope) w)"

definition Reducer_RemoveAllMembershipsForUser :: "io \<Rightarrow> commit_outcome \<Rightarrow> Reducer option \<Rightarrow> string \<Rightarrow> OrgScope
    \<Rightarrow> 's AppCredentials option \<Rightarrow> db \<times> 's \<Rightarrow> (store_error + Reduced) \<times> (db \<times> 's)" where
  "Reducer_RemoveAllMembershipsForUser io cm r userID scope app w =
     (if MatchesNothing scope
      then (Inr \<lparr>rd_UserID = userID, rd_Organizations = [], rd_KeysRevoked = 0, rd_KeysRetained = 0\<rparr>, w)
      else run io cm r userID app (removeAllBody io userID scope) w)"

subsection \<open>Specification\<close>

text \<open>The scopes a user's membership grants in an organization: those of its role template, none without
  a membership, without a template or where the column does not decode.\<close>

definition granted :: "db \<Rightarrow> string \<Rightarrow> string \<Rightarrow> string list" where
  "granted d u org =
     (case find (\<lambda>m. mem_OrganizationID m = org \<and> mem_UserID m = u) (organization_members d) of
        None \<Rightarrow> []
      | Some m \<Rightarrow> (case unmarshal_strings (coalesced_scopes d m) of None \<Rightarrow> [] | Some ss \<Rightarrow> ss))"

text \<open>A user's key whose every scope is still granted where the key lives.\<close>

definition key_within :: "ReadWritePairs \<Rightarrow> db \<Rightarrow> string \<Rightarrow> APIKey \<Rightarrow> bool" where
  "key_within rw d u k \<longleftrightarrow>
     (case unmarshal_strings (key_Scopes k) of None \<Rightarrow> False
      | Some have \<Rightarrow> \<forall>s \<in> set have. HasScope (granted d u (key_OrganizationID k)) s rw)"

definition affected_key :: "string \<Rightarrow> string list \<Rightarrow> APIKey \<Rightarrow> bool" where
  "affected_key u orgs k \<longleftrightarrow> key_UserID k = Some u \<and> key_OrganizationID k \<in> set orgs"

definition affected_member :: "string \<Rightarrow> string list \<Rightarrow> OrganizationMember \<Rightarrow> bool" where
  "affected_member u orgs m \<longleftrightarrow> mem_UserID m = u \<and> mem_OrganizationID m \<in> set orgs"

text \<open>No key that authenticates carries a scope its owner's membership does not grant.\<close>

definition keys_bounded :: "ReadWritePairs \<Rightarrow> db \<Rightarrow> bool" where
  "keys_bounded rw d \<longleftrightarrow>
     list_all (\<lambda>k. case key_UserID k of None \<Rightarrow> True
        | Some u \<Rightarrow> unmarshal_strings (key_Scopes k) = None \<or> key_within rw d u k) (api_keys d)"

subsection \<open>Correctness of the sweep\<close>

lemma AuthorityRetained_iff: "AuthorityRetained have ret rw \<longleftrightarrow> (\<forall>s \<in> set have. HasScope ret s rw)"
  by (induction "have") auto

lemma retainedLoop_spec:
  assumes "retainedLoop d ms acc = Inr ret" "distinct (map mem_OrganizationID ms)"
  shows "(case ret org of None \<Rightarrow> [] | Some ss \<Rightarrow> ss) =
    (case find (\<lambda>m. mem_OrganizationID m = org) ms of
       None \<Rightarrow> (case acc org of None \<Rightarrow> [] | Some ss \<Rightarrow> ss)
     | Some m \<Rightarrow> (case unmarshal_strings (coalesced_scopes d m) of None \<Rightarrow> [] | Some ss \<Rightarrow> ss))"
  using assms
proof (induction d ms acc rule: retainedLoop.induct)
  case (1 d acc)
  then show ?case by simp
next
  case (2 d m ms acc)
  then obtain ss where ss: "unmarshal_strings (coalesced_scopes d m) = Some ss"
    and rec: "retainedLoop d ms (acc(mem_OrganizationID m \<mapsto> ss)) = Inr ret"
    by (auto split: option.splits)
  have "find (\<lambda>x. mem_OrganizationID x = org) ms = None" if "mem_OrganizationID m = org"
    using 2(3) that by (auto simp: find_None_iff image_iff)
  with "2.IH" [OF ss rec] 2(3) ss show ?case by (auto split: option.splits)
qed

lemma find_filter: "(\<And>x. Q x \<Longrightarrow> P x) \<Longrightarrow> find Q (filter P xs) = find Q xs"
  by (induction xs) auto

lemma find_cong': "(\<And>x. x \<in> set xs \<Longrightarrow> P x = Q x) \<Longrightarrow> find P xs = find Q xs"
  by (induction xs) auto

lemma member_rows:
  "selected ms member_cols (P_and (P_eq ''om.user_id'' (Suc 0)) (P_any ''om.organization_id'' 2), [VText u, VTexts orgs])
     = affected_member u orgs"
  by (intro ext) (auto simp: selected_def member_cols_def param_def affected_member_def)

lemma key_rows:
  "selected ms key_cols (P_and (P_eq ''user_id'' (Suc 0)) (P_any ''organization_id'' 2), [VText u, VTexts orgs])
     = affected_key u orgs"
  by (intro ext) (auto simp: selected_def key_cols_def param_def affected_key_def)

lemma key_id_rows: "selected ms key_cols (P_any ''id'' (Suc 0), [VTexts ids]) = (\<lambda>k. key_ID k \<in> set ids)"
  by (intro ext) (auto simp: selected_def key_cols_def param_def)

lemma distinct_orgs_of_user:
  assumes "members_wf d"
  shows "distinct (map mem_OrganizationID (filter (affected_member u orgs) (organization_members d)))"
proof -
  have "distinct (map member_key (filter (affected_member u orgs) (organization_members d)))"
    using assms by (simp add: members_wf_def distinct_map_filter)
  moreover have "map member_key (filter (affected_member u orgs) (organization_members d)) =
      map (\<lambda>o'. (o', u)) (map mem_OrganizationID (filter (affected_member u orgs) (organization_members d)))"
    by (simp add: member_key_def affected_member_def)
  ultimately have "distinct (map (\<lambda>o'. (o', u)) (map mem_OrganizationID (filter (affected_member u orgs) (organization_members d))))"
    by (simp only:)
  then show ?thesis by (simp only: distinct_map)
qed

lemma retainedScopes_granted:
  assumes "members_wf d" "retainedScopes io u orgs d = Inr ret" "org \<in> set orgs"
  shows "(case ret org of None \<Rightarrow> [] | Some ss \<Rightarrow> ss) = granted d u org"
proof -
  let ?rows = "filter (affected_member u orgs) (organization_members d)"
  have loop: "retainedLoop d ?rows Map.empty = Inr ret"
    using assms(2) by (auto simp: retainedScopes_def member_rows split: if_splits sum.splits)
  have "find (\<lambda>m. mem_OrganizationID m = org) ?rows =
      find (\<lambda>m. mem_OrganizationID m = org \<and> mem_UserID m = u) ?rows"
    by (rule find_cong') (auto simp: affected_member_def)
  also have "\<dots> = find (\<lambda>m. mem_OrganizationID m = org \<and> mem_UserID m = u) (organization_members d)"
    by (rule find_filter) (use assms(3) in \<open>auto simp: affected_member_def\<close>)
  finally show ?thesis
    using retainedLoop_spec [OF loop distinct_orgs_of_user [OF assms(1)], of org]
    by (simp add: granted_def cong: option.case_cong)
qed

lemma derivedLoop_spec:
  assumes "derivedLoop rw ret ks doomed kept = Inr (doomed', kept')"
    and "\<And>k. k \<in> set ks \<Longrightarrow> (case ret (key_OrganizationID k) of None \<Rightarrow> [] | Some ss \<Rightarrow> ss) = granted d u (key_OrganizationID k)"
  shows "doomed' = doomed @ map key_ID (filter (\<lambda>k. \<not> key_within rw d u k) ks)
    \<and> kept' = kept + length (filter (key_within rw d u) ks)
    \<and> (\<forall>k \<in> set ks. unmarshal_strings (key_Scopes k) \<noteq> None)"
  using assms
proof (induction rw ret ks doomed kept rule: derivedLoop.induct)
  case (1 rw ret doomed kept)
  then show ?case by simp
next
  case (2 rw ret k ks doomed kept)
  then obtain have' where hv: "unmarshal_strings (key_Scopes k) = Some have'" by (auto split: option.splits)
  let ?ret = "case ret (key_OrganizationID k) of None \<Rightarrow> [] | Some ss \<Rightarrow> ss"
  have ret: "?ret = granted d u (key_OrganizationID k)" using "2.prems"(2) [of k] by simp
  have within: "key_within rw d u k \<longleftrightarrow> AuthorityRetained have' ?ret rw"
    by (simp only: key_within_def hv ret AuthorityRetained_iff option.case)
  have rest: "\<And>k'. k' \<in> set ks \<Longrightarrow>
      (case ret (key_OrganizationID k') of None \<Rightarrow> [] | Some ss \<Rightarrow> ss) = granted d u (key_OrganizationID k')"
    using "2.prems"(2) by simp
  show ?case
  proof (cases "AuthorityRetained have' ?ret rw")
    case True
    then have "derivedLoop rw ret ks doomed (kept + 1) = Inr (doomed', kept')" using "2.prems"(1) hv by simp
    from "2.IH"(1) [OF hv True this rest] True within hv show ?thesis by auto
  next
    case False
    then have "derivedLoop rw ret ks (doomed @ [key_ID k]) kept = Inr (doomed', kept')" using "2.prems"(1) hv by simp
    from "2.IH"(2) [OF hv False this rest] False within hv show ?thesis by auto
  qed
qed

lemma granted_delete_keys [simp]: "granted (delete_keys P d) = granted d"
  by (intro ext) (simp add: granted_def coalesced_scopes_def joined_template_def delete_keys_def cong: option.case_cong)

lemma key_within_delete_keys [simp]: "key_within rw (delete_keys P d) = key_within rw d"
  by (intro ext) (simp add: key_within_def split: option.splits)

lemma delete_keys_fields [simp]:
  "api_keys (delete_keys P d) = filter (\<lambda>k. \<not> P k) (api_keys d)"
  "organization_members (delete_keys P d) = organization_members d"
  by (simp_all add: delete_keys_def)

text \<open>The keys one sweep deletes.\<close>

definition doomed_key :: "ReadWritePairs \<Rightarrow> db \<Rightarrow> string \<Rightarrow> string list \<Rightarrow> APIKey \<Rightarrow> bool" where
  "doomed_key rw d u orgs k \<longleftrightarrow> affected_key u orgs k \<and> \<not> key_within rw d u k"

lemma ids_of_filter:
  assumes "distinct (map f xs)" "x \<in> set xs"
  shows "f x \<in> set (map f (filter P xs)) \<longleftrightarrow> P x"
  using assms distinct_key_unique [OF assms(1)] by force

lemma sweepDerivedKeys_spec:
  assumes "members_wf d" "keys_wf d"
    and "sweepDerivedKeys io rw red d = (Inr red', d')"
  defines "u \<equiv> rd_UserID red" and "orgs \<equiv> rd_Organizations red"
  shows "d' = delete_keys (doomed_key rw d u orgs) d
    \<and> (\<forall>k \<in> set (api_keys d). affected_key u orgs k \<longrightarrow> unmarshal_strings (key_Scopes k) \<noteq> None)
    \<and> red' = red\<lparr>rd_KeysRetained := length (filter (\<lambda>k. affected_key u orgs k \<and> key_within rw d u k) (api_keys d)),
                  rd_KeysRevoked := (if filter (doomed_key rw d u orgs) (api_keys d) = [] then rd_KeysRevoked red
                     else length (filter (doomed_key rw d u orgs) (api_keys d)))\<rparr>"
proof -
  obtain ret where ret: "retainedScopes io u orgs d = Inr ret"
    using assms(3) unfolding u_def orgs_def
    by (cases "retainedScopes io (rd_UserID red) (rd_Organizations red) d") (simp_all add: sweepDerivedKeys_def)
  note rows = assms(3) [unfolded sweepDerivedKeys_def Let_def, folded u_def orgs_def, simplified key_rows key_id_rows]
  obtain doomed kept where loop: "derivedLoop rw ret (filter (affected_key u orgs) (api_keys d)) [] 0 = Inr (doomed, kept)"
    using rows ret by (cases "derivedLoop rw ret (filter (affected_key u orgs) (api_keys d)) [] 0")
      (simp_all add: key_rows key_id_rows split: if_splits prod.splits)
  have d': "d' = (if doomed = [] then d else delete_keys (\<lambda>k. key_ID k \<in> set doomed) d)"
    and red': "red' = (if doomed = [] then red\<lparr>rd_KeysRetained := kept\<rparr>
        else red\<lparr>rd_KeysRetained := kept, rd_KeysRevoked := length doomed\<rparr>)"
    using rows ret loop by (simp_all add: key_rows key_id_rows affectedRows_def split: if_splits)
  have spec: "doomed = map key_ID (filter (\<lambda>k. \<not> key_within rw d u k) (filter (affected_key u orgs) (api_keys d)))"
    "kept = length (filter (key_within rw d u) (filter (affected_key u orgs) (api_keys d)))"
    "\<forall>k \<in> set (filter (affected_key u orgs) (api_keys d)). unmarshal_strings (key_Scopes k) \<noteq> None"
    using derivedLoop_spec [OF loop, of d u] retainedScopes_granted [OF assms(1) ret]
    by (auto simp: affected_key_def)
  have dm: "doomed = map key_ID (filter (doomed_key rw d u orgs) (api_keys d))"
    unfolding spec(1) filter_filter by (intro arg_cong [where f = "map key_ID"] filter_cong) (auto simp: doomed_key_def)
  have "filter (\<lambda>k. \<not> key_ID k \<in> set doomed) (api_keys d) = filter (\<lambda>k. \<not> doomed_key rw d u orgs k) (api_keys d)"
    using assms(2) ids_of_filter [of key_ID "api_keys d" _ "doomed_key rw d u orgs"]
    unfolding dm keys_wf_def by (intro filter_cong) blast+
  moreover have "doomed = [] \<Longrightarrow> filter (\<lambda>k. \<not> doomed_key rw d u orgs k) (api_keys d) = api_keys d"
    unfolding dm by (simp add: filter_empty_conv)
  ultimately have "d' = delete_keys (doomed_key rw d u orgs) d"
    unfolding d' delete_keys_def by auto
  moreover have "length doomed = length (filter (doomed_key rw d u orgs) (api_keys d))"
    "doomed = [] \<longleftrightarrow> filter (doomed_key rw d u orgs) (api_keys d) = []"
    unfolding dm by simp_all
  ultimately show ?thesis
    using spec(2,3) red' by (auto simp: conj_commute cong: filter_cong)
qed

subsection \<open>What a transaction does\<close>

text \<open>The effect of a complete reduction, given the outcome of its body.\<close>

definition swept :: "ReadWritePairs \<Rightarrow> string \<Rightarrow> string list \<Rightarrow> db \<Rightarrow> db" where
  "swept rw u orgs d = delete_keys (doomed_key rw d u orgs) d"

lemma swept_Nil [simp]: "swept rw u [] d = d"
  by (simp add: swept_def delete_keys_def doomed_key_def affected_key_def)

lemma commit_tx_Inr: "commit_tx cm e res old new = (Inr r, w) \<longleftrightarrow> cm = Committed \<and> r = res \<and> w = new"
  by (auto simp: commit_tx_def split: commit_outcome.splits)

lemma commit_tx_state: "commit_tx cm e res old new = (r, w) \<Longrightarrow> w = old \<or> w = new \<and> cm \<noteq> RolledBack"
  by (auto simp: commit_tx_def split: commit_outcome.splits)

lemma run_effect:
  assumes "run io cm r u app body (d, s) = (res, w)" "w \<noteq> (d, s)"
    and wf: "\<And>orgs d1. body d = (Inr orgs, d1) \<Longrightarrow> db_wf d1"
  shows "\<exists>rd f orgs d1 red. r = Some rd \<and> app = Some f \<and> body d = (Inr orgs, d1)
    \<and> fst w = swept (red_rwPairs rd) u orgs d1 \<and> rd_Organizations red = orgs \<and> rd_UserID red = u
    \<and> (orgs \<noteq> [] \<longrightarrow> f (fst w) red s = (Inr (), snd w)) \<and> (orgs = [] \<longrightarrow> snd w = s)
    \<and> cm \<noteq> RolledBack"
proof -
  obtain rd f orgs d1 where rd: "r = Some rd" "app = Some f" and body: "body d = (Inr orgs, d1)"
    using assms(1,2) by (auto simp: run_def split: option.splits if_splits prod.splits sum.splits)
  let ?red = "\<lparr>rd_UserID = u, rd_Organizations = orgs, rd_KeysRevoked = 0, rd_KeysRetained = 0\<rparr>"
  have wf1: "members_wf d1" "keys_wf d1" using wf [OF body] by (simp_all add: db_wf_def)
  show ?thesis
  proof (cases "orgs = []")
    case True
    then have "commit_tx cm (Failed ''failed to commit authority reduction'') ?red (d, s) (d1, s) = (res, w)"
      using assms(1,2) rd body by (auto simp: run_def Let_def split: if_splits)
    from commit_tx_state [OF this] assms(2) True rd body show ?thesis
      by (auto intro!: exI [of _ ?red])
  next
    case False
    then obtain red' d2 s' where sw: "sweepDerivedKeys io (red_rwPairs rd) ?red d1 = (Inr red', d2)"
      and f: "f d2 red' s = (Inr (), s')"
      and cm: "commit_tx cm (Failed ''failed to commit authority reduction'') red' (d, s) (d2, s') = (res, w)"
      using assms(1,2) rd body by (auto simp: run_def Let_def split: if_splits prod.splits sum.splits)
    have "d2 = swept (red_rwPairs rd) u orgs d1" "rd_Organizations red' = orgs" "rd_UserID red' = u"
      using sweepDerivedKeys_spec [OF wf1 sw] by (simp_all add: swept_def)
    with commit_tx_state [OF cm] assms(2) False rd body f show ?thesis
      by (auto intro!: exI [of _ red'])
  qed
qed

lemma run_success:
  assumes "run io cm r u app body (d, s) = (Inr red, w)"
    and wf: "\<forall>orgs d1. body d = (Inr orgs, d1) \<longrightarrow> db_wf d1"
  shows "\<exists>rd f d1. r = Some rd \<and> app = Some f \<and> body d = (Inr (rd_Organizations red), d1)
    \<and> fst w = swept (red_rwPairs rd) u (rd_Organizations red) d1 \<and> rd_UserID red = u
    \<and> rd_KeysRevoked red = length (filter (doomed_key (red_rwPairs rd) d1 u (rd_Organizations red)) (api_keys d1))
    \<and> (\<forall>k \<in> set (api_keys d1). affected_key u (rd_Organizations red) k \<longrightarrow> unmarshal_strings (key_Scopes k) \<noteq> None)"
proof -
  obtain rd f orgs d1 where rd: "r = Some rd" "app = Some f" and body: "body d = (Inr orgs, d1)"
    using assms(1) by (auto simp: run_def split: option.splits if_splits prod.splits sum.splits)
  let ?red = "\<lparr>rd_UserID = u, rd_Organizations = orgs, rd_KeysRevoked = 0, rd_KeysRetained = 0\<rparr>"
  have wf1: "members_wf d1" "keys_wf d1" using wf body by (simp_all add: db_wf_def)
  show ?thesis
  proof (cases "orgs = []")
    case True
    then have "red = ?red \<and> w = (d1, s)"
      using assms(1) rd body by (auto simp: run_def Let_def commit_tx_Inr split: if_splits)
    with True rd body show ?thesis by (auto simp: doomed_key_def affected_key_def)
  next
    case False
    then obtain d2 where sw: "sweepDerivedKeys io (red_rwPairs rd) ?red d1 = (Inr red, d2)" and w: "fst w = d2"
      using assms(1) rd body by (auto simp: run_def Let_def commit_tx_Inr split: if_splits prod.splits sum.splits)
    from sweepDerivedKeys_spec [OF wf1 sw] w rd body show ?thesis
      by (simp add: swept_def)
  qed
qed

subsection \<open>The contract of a reduction body\<close>

text \<open>What a body of \<open>run\<close> promises: it keeps the invariant, touches only memberships, only those of the
  user in the organizations it reports, and reports only organizations the caller's scope permits.\<close>

definition same_but_members :: "db \<Rightarrow> db \<Rightarrow> bool" where
  "same_but_members d d' \<longleftrightarrow> d' = d\<lparr>organization_members := organization_members d'\<rparr>"

lemma same_but_members_fields:
  assumes "same_but_members d d'"
  shows "api_keys d' = api_keys d" "role_templates d' = role_templates d" "users d' = users d"
    "organizations d' = organizations d" "audit_logs d' = audit_logs d"
  using assms arg_cong [of d' "d\<lparr>organization_members := organization_members d'\<rparr>"]
  unfolding same_but_members_def by (metis db.select_convs db.surjective db.update_convs(4))+

lemma granted_unaffected:
  assumes "same_but_members d d'" "u' \<noteq> u \<or> org \<notin> set orgs"
    and "filter (\<lambda>m. \<not> affected_member u orgs m) (organization_members d') =
         filter (\<lambda>m. \<not> affected_member u orgs m) (organization_members d)"
  shows "granted d' u' org = granted d u' org"
proof -
  have eq: "find (\<lambda>m. mem_OrganizationID m = org \<and> mem_UserID m = u') (filter (\<lambda>m. \<not> affected_member u orgs m) xs) =
      find (\<lambda>m. mem_OrganizationID m = org \<and> mem_UserID m = u') xs" for xs
    by (rule find_filter) (use assms(2) in \<open>auto simp: affected_member_def\<close>)
  have "find (\<lambda>m. mem_OrganizationID m = org \<and> mem_UserID m = u') (organization_members d') =
      find (\<lambda>m. mem_OrganizationID m = org \<and> mem_UserID m = u') (organization_members d)"
    using eq [of "organization_members d'"] eq [of "organization_members d"] assms(3) by simp
  then show ?thesis
    using same_but_members_fields [OF assms(1)]
    by (simp add: granted_def coalesced_scopes_def joined_template_def cong: option.case_cong)
qed

locale reduction_body =
  fixes body :: "db \<Rightarrow> (store_error + string list) \<times> db"
    and user :: string
    and scope :: OrgScope
  assumes body_wf: "db_wf d \<Longrightarrow> body d = (Inr orgs, d1) \<Longrightarrow> db_wf d1"
    and body_tables: "body d = (Inr orgs, d1) \<Longrightarrow> same_but_members d d1"
    and body_members: "body d = (Inr orgs, d1) \<Longrightarrow>
      filter (\<lambda>m. \<not> affected_member user orgs m) (organization_members d1) =
      filter (\<lambda>m. \<not> affected_member user orgs m) (organization_members d)"
    and body_scope: "body d = (Inr orgs, d1) \<Longrightarrow> org \<in> set orgs \<Longrightarrow> permits scope (Some org)"
begin

lemma swept_wf: "db_wf d \<Longrightarrow> body d = (Inr orgs, d1) \<Longrightarrow> db_wf (swept rw user orgs d1)"
  using body_wf [of d orgs d1] by (simp add: swept_def delete_keys_wf)

lemma swept_bounded_affected:
  assumes "body d = (Inr orgs, d1)" "k \<in> set (api_keys (swept rw user orgs d1))" "affected_key user orgs k"
  shows "key_within rw (swept rw user orgs d1) user k"
  using assms by (auto simp: swept_def doomed_key_def)

lemma swept_keys_bounded:
  assumes "keys_bounded rw d" "body d = (Inr orgs, d1)"
  shows "keys_bounded rw (swept rw user orgs d1)"
proof -
  have "unmarshal_strings (key_Scopes k) = None \<or> key_within rw (swept rw user orgs d1) u k"
    if "k \<in> set (api_keys (swept rw user orgs d1))" "key_UserID k = Some u" for k u
  proof (cases "affected_key user orgs k")
    case True
    with that swept_bounded_affected [OF assms(2)] show ?thesis by (auto simp: affected_key_def)
  next
    case False
    then have "u \<noteq> user \<or> key_OrganizationID k \<notin> set orgs" using that by (auto simp: affected_key_def)
    then have "granted d1 u (key_OrganizationID k) = granted d u (key_OrganizationID k)"
      using granted_unaffected [OF body_tables [OF assms(2)] _ body_members [OF assms(2)]] by blast
    moreover have "k \<in> set (api_keys d)"
      using that same_but_members_fields(1) [OF body_tables [OF assms(2)]] by (auto simp: swept_def delete_keys_def)
    ultimately show ?thesis
      using assms(1) that(2)
      by (auto simp: keys_bounded_def list_all_iff key_within_def swept_def split: option.splits)
  qed
  then show ?thesis by (auto simp: keys_bounded_def list_all_iff split: option.splits)
qed

lemma run_unchanged_or_swept:
  assumes "db_wf d" "run io cm r user app body (d, s) = (res, w)"
  shows "w = (d, s) \<or> (\<exists>rd f orgs d1 red. r = Some rd \<and> app = Some f \<and> body d = (Inr orgs, d1)
    \<and> fst w = swept (red_rwPairs rd) user orgs d1 \<and> rd_Organizations red = orgs \<and> rd_UserID red = user
    \<and> (orgs \<noteq> [] \<longrightarrow> f (fst w) red s = (Inr (), snd w)) \<and> (orgs = [] \<longrightarrow> snd w = s)
    \<and> cm \<noteq> RolledBack)"
  using run_effect [OF assms(2)] body_wf [OF assms(1)] by (cases "w = (d, s)") simp_all

lemma run_wf: "db_wf d \<Longrightarrow> run io cm r user app body (d, s) = (res, w) \<Longrightarrow> db_wf (fst w)"
  using run_unchanged_or_swept [of d io cm r app s res w] swept_wf [of d] by fastforce

lemma run_keys_bounded:
  assumes "db_wf d" "keys_bounded rw d" "\<And>rd. r = Some rd \<Longrightarrow> red_rwPairs rd = rw"
    and "run io cm r user app body (d, s) = (res, w)"
  shows "keys_bounded rw (fst w)"
  using run_unchanged_or_swept [OF assms(1,4)] assms(3) swept_keys_bounded [OF assms(2)] assms(2) by fastforce

end

lemma affected_filter_delete:
  assumes "\<And>m. m \<in> set ms \<Longrightarrow> hit m \<Longrightarrow> affected_member u orgs m"
  shows "filter (\<lambda>m. \<not> affected_member u orgs m) (filter (\<lambda>m. \<not> hit m) ms) = filter (\<lambda>m. \<not> affected_member u orgs m) ms"
  using assms by (auto intro!: filter_cong)

lemma affected_filter_update:
  assumes "\<And>m. m \<in> set ms \<Longrightarrow> hit m \<Longrightarrow> affected_member u orgs m"
  shows "filter (\<lambda>m. \<not> affected_member u orgs m) (map (\<lambda>m. if hit m then m\<lparr>mem_RoleTemplateID := t\<rparr> else m) ms)
    = filter (\<lambda>m. \<not> affected_member u orgs m) ms"
  using assms by (induction ms) (auto simp: affected_member_def)

lemma org_user_hit:
  "length rest \<le> 1 \<Longrightarrow> selected ms member_cols (andScope (P_and (P_eq ''organization_id'' (Suc 0)) (P_eq ''user_id'' 2)) scope
      ''organization_id'' ([VText orgID, VText userID] @ rest)) m
    \<longleftrightarrow> mem_OrganizationID m = orgID \<and> mem_UserID m = userID \<and> permits scope (Some orgID)"
  by (auto simp: members.selected_iff member_cols_def param_def)

lemma user_hit:
  "selected ms member_cols (andScope (P_eq ''user_id'' (Suc 0)) scope ''organization_id'' [VText userID]) m
    \<longleftrightarrow> mem_UserID m = userID \<and> permits scope (Some (mem_OrganizationID m))"
  by (auto simp: members.selected_iff member_cols_def param_def)

lemma user_hit':
  "selected ms member_cols (andScope (P_eq ''user_id'' (Suc 0)) scope ''organization_id'' [VText userID])
    = (\<lambda>m. mem_UserID m = userID \<and> permits scope (Some (mem_OrganizationID m)))"
  by (intro ext) (rule user_hit)

lemma requireRow_hit: "requireRow f (length (filter hit xs)) w = Inr () \<Longrightarrow> \<exists>x \<in> set xs. hit x"
  by (auto simp: filter_empty_conv)

lemma removeBody_Inr:
  assumes "removeBody io orgID userID scope d = (Inr orgs, d1)"
  shows "orgs = [orgID] \<and> permits scope (Some orgID)
    \<and> (\<exists>m \<in> set (organization_members d). mem_OrganizationID m = orgID \<and> mem_UserID m = userID)
    \<and> d1 = delete_members (\<lambda>m. mem_OrganizationID m = orgID \<and> mem_UserID m = userID) d"
proof -
  define hit where "hit = selected (pairs d) member_cols (andScope (P_and (P_eq ''organization_id'' (Suc 0)) (P_eq ''user_id'' 2))
      scope ''organization_id'' [VText orgID, VText userID])"
  have hit: "hit m \<longleftrightarrow> mem_OrganizationID m = orgID \<and> mem_UserID m = userID \<and> permits scope (Some orgID)" for m
    using org_user_hit [of "[]"] by (simp add: hit_def)
  from assms have req: "requireRow (io 8) (length (filter hit (organization_members d))) ''organization member'' = Inr ()"
    and res: "orgs = [orgID]" "d1 = delete_members hit d"
    by (auto simp: removeBody_def Let_def hit_def [symmetric] split: if_splits sum.splits)
  from requireRow_hit [OF req] hit have "permits scope (Some orgID)"
    "\<exists>m \<in> set (organization_members d). mem_OrganizationID m = orgID \<and> mem_UserID m = userID" by blast+
  with hit res show ?thesis by (simp add: delete_members_def)
qed

lemma updateBody_Inr:
  assumes "updateBody f1 f2 orgID userID t scope d = (Inr orgs, d1)"
  shows "orgs = [orgID] \<and> permits scope (Some orgID) \<and> db_wf d1
    \<and> (\<exists>m \<in> set (organization_members d). mem_OrganizationID m = orgID \<and> mem_UserID m = userID)
    \<and> d1 = update_members (\<lambda>m. mem_OrganizationID m = orgID \<and> mem_UserID m = userID) t d"
proof -
  define hit where "hit = selected (pairs d) member_cols (andScope (P_and (P_eq ''organization_id'' (Suc 0)) (P_eq ''user_id'' 2))
      scope ''organization_id'' [VText orgID, VText userID, owner_val t])"
  have hit: "hit m \<longleftrightarrow> mem_OrganizationID m = orgID \<and> mem_UserID m = userID \<and> permits scope (Some orgID)" for m
    using org_user_hit [of "[owner_val t]"] by (simp add: hit_def)
  from assms have req: "requireRow f2 (length (filter hit (organization_members d))) ''organization member'' = Inr ()"
    and res: "orgs = [orgID]" "d1 = update_members hit t d" "db_wf d1"
    by (auto simp: updateBody_def Let_def hit_def [symmetric] split: if_splits sum.splits option.splits)
  from requireRow_hit [OF req] hit have "permits scope (Some orgID)"
    "\<exists>m \<in> set (organization_members d). mem_OrganizationID m = orgID \<and> mem_UserID m = userID" by blast+
  with hit res show ?thesis by (simp add: update_members_def)
qed

lemma removeAllBody_Inr:
  assumes "removeAllBody io userID scope d = (Inr orgs, d1)"
  shows "orgs = map mem_OrganizationID (filter (\<lambda>m. mem_UserID m = userID \<and> permits scope (Some (mem_OrganizationID m)))
           (organization_members d))
    \<and> d1 = delete_members (\<lambda>m. mem_UserID m = userID \<and> permits scope (Some (mem_OrganizationID m))) d"
  using assms by (simp add: removeAllBody_def Let_def user_hit' split: if_splits)

lemma same_but_members_delete: "same_but_members d (delete_members P d)"
  by (simp add: same_but_members_def delete_members_def)

lemma same_but_members_update: "same_but_members d (update_members P t d)"
  by (simp add: same_but_members_def update_members_def)

interpretation remove_member: reduction_body "removeBody io orgID userID scope" userID scope
  for io orgID userID scope
proof
  fix d orgs d1 org
  assume body: "removeBody io orgID userID scope d = (Inr orgs, d1)"
  note spec = removeBody_Inr [OF body]
  show "db_wf d \<Longrightarrow> db_wf d1" using spec by (auto intro: delete_members_wf)
  show "same_but_members d d1" using spec by (simp add: same_but_members_delete)
  show "filter (\<lambda>m. \<not> affected_member userID orgs m) (organization_members d1) =
      filter (\<lambda>m. \<not> affected_member userID orgs m) (organization_members d)"
    using spec affected_filter_delete [of "organization_members d" "\<lambda>m. mem_OrganizationID m = orgID \<and> mem_UserID m = userID" userID orgs]
    by (simp add: delete_members_def affected_member_def del: filter_filter)
  show "org \<in> set orgs \<Longrightarrow> permits scope (Some org)" using spec by simp
qed

interpretation update_template: reduction_body "updateBody f1 f2 orgID userID t scope" userID scope
  for f1 f2 orgID userID t scope
proof
  fix d orgs d1 org
  assume body: "updateBody f1 f2 orgID userID t scope d = (Inr orgs, d1)"
  note spec = updateBody_Inr [OF body]
  show "db_wf d \<Longrightarrow> db_wf d1" using spec by blast
  show "same_but_members d d1" using spec by (simp add: same_but_members_update)
  show "filter (\<lambda>m. \<not> affected_member userID orgs m) (organization_members d1) =
      filter (\<lambda>m. \<not> affected_member userID orgs m) (organization_members d)"
    using spec affected_filter_update [of "organization_members d" "\<lambda>m. mem_OrganizationID m = orgID \<and> mem_UserID m = userID" userID orgs]
    by (simp add: update_members_def affected_member_def del: filter_map)
  show "org \<in> set orgs \<Longrightarrow> permits scope (Some org)" using spec by simp
qed

lemma updateRoleBody_Inr:
  "updateRoleBody io orgID userID name scope d = (Inr orgs, d1) \<Longrightarrow>
     \<exists>i. lookupRoleTemplateID (io 7) name d = Inr i \<and> updateBody (io 8) (io 9) orgID userID (Some i) scope d = (Inr orgs, d1)"
  by (auto simp: updateRoleBody_def split: sum.splits)

interpretation update_role: reduction_body "updateRoleBody io orgID userID name scope" userID scope
  for io orgID userID name scope
proof
  fix d orgs d1 org
  assume body: "updateRoleBody io orgID userID name scope d = (Inr orgs, d1)"
  then obtain i where upd: "updateBody (io 8) (io 9) orgID userID (Some i) scope d = (Inr orgs, d1)"
    using updateRoleBody_Inr by blast
  show "db_wf d \<Longrightarrow> db_wf d1" using update_template.body_wf [OF _ upd] .
  show "same_but_members d d1" using upd by (rule update_template.body_tables)
  show "filter (\<lambda>m. \<not> affected_member userID orgs m) (organization_members d1) =
      filter (\<lambda>m. \<not> affected_member userID orgs m) (organization_members d)"
    using upd by (rule update_template.body_members)
  show "org \<in> set orgs \<Longrightarrow> permits scope (Some org)" using update_template.body_scope [OF upd] .
qed

interpretation remove_all: reduction_body "removeAllBody io userID scope" userID scope
  for io userID scope
proof
  fix d orgs d1 org
  assume body: "removeAllBody io userID scope d = (Inr orgs, d1)"
  note spec = removeAllBody_Inr [OF body]
  show "db_wf d \<Longrightarrow> db_wf d1" using spec by (auto intro: delete_members_wf)
  show "same_but_members d d1" using spec by (simp add: same_but_members_delete)
  show "filter (\<lambda>m. \<not> affected_member userID orgs m) (organization_members d1) =
      filter (\<lambda>m. \<not> affected_member userID orgs m) (organization_members d)"
    using spec affected_filter_delete [of "organization_members d"
        "\<lambda>m. mem_UserID m = userID \<and> permits scope (Some (mem_OrganizationID m))" userID orgs]
    by (auto simp: delete_members_def affected_member_def simp del: filter_filter)
  show "org \<in> set orgs \<Longrightarrow> permits scope (Some org)" using spec by auto
qed

subsection \<open>All reductions\<close>

text \<open>The four operations of the reducer as data, so that a statement can speak of any of them and of
  sequences of them.\<close>

datatype reduction_op =
    Op_RemoveMember string string OrgScope
  | Op_UpdateMemberRoleTemplate string string "string option" OrgScope
  | Op_UpdateMemberRole string string string OrgScope
  | Op_RemoveAllMembershipsForUser string OrgScope

fun reduce_op :: "io \<Rightarrow> commit_outcome \<Rightarrow> Reducer option \<Rightarrow> reduction_op \<Rightarrow> 's AppCredentials option \<Rightarrow> db \<times> 's
    \<Rightarrow> (store_error + Reduced) \<times> (db \<times> 's)" where
  "reduce_op io cm r (Op_RemoveMember orgID u sc) app w = Reducer_RemoveMember io cm r orgID u sc app w"
| "reduce_op io cm r (Op_UpdateMemberRoleTemplate orgID u t sc) app w =
     Reducer_UpdateMemberRoleTemplate io cm r orgID u t sc app w"
| "reduce_op io cm r (Op_UpdateMemberRole orgID u name sc) app w = Reducer_UpdateMemberRole io cm r orgID u name sc app w"
| "reduce_op io cm r (Op_RemoveAllMembershipsForUser u sc) app w =
     Reducer_RemoveAllMembershipsForUser io cm r u sc app w"

fun op_user :: "reduction_op \<Rightarrow> string" where
  "op_user (Op_RemoveMember orgID u sc) = u"
| "op_user (Op_UpdateMemberRoleTemplate orgID u t sc) = u"
| "op_user (Op_UpdateMemberRole orgID u name sc) = u"
| "op_user (Op_RemoveAllMembershipsForUser u sc) = u"

fun op_scope :: "reduction_op \<Rightarrow> OrgScope" where
  "op_scope (Op_RemoveMember orgID u sc) = sc"
| "op_scope (Op_UpdateMemberRoleTemplate orgID u t sc) = sc"
| "op_scope (Op_UpdateMemberRole orgID u name sc) = sc"
| "op_scope (Op_RemoveAllMembershipsForUser u sc) = sc"

fun op_body :: "io \<Rightarrow> reduction_op \<Rightarrow> db \<Rightarrow> (store_error + string list) \<times> db" where
  "op_body io (Op_RemoveMember orgID u sc) = removeBody io orgID u sc"
| "op_body io (Op_UpdateMemberRoleTemplate orgID u t sc) = updateBody (io 7) (io 8) orgID u t sc"
| "op_body io (Op_UpdateMemberRole orgID u name sc) = updateRoleBody io orgID u name sc"
| "op_body io (Op_RemoveAllMembershipsForUser u sc) = removeAllBody io u sc"

interpretation any_op: reduction_body "op_body io op" "op_user op" "op_scope op"
  for io op
proof (cases op)
  case (Op_RemoveMember orgID u sc)
  then show "reduction_body (op_body io op) (op_user op) (op_scope op)"
    using remove_member.reduction_body_axioms by simp
next
  case (Op_UpdateMemberRoleTemplate orgID u t sc)
  then show "reduction_body (op_body io op) (op_user op) (op_scope op)"
    using update_template.reduction_body_axioms by simp
next
  case (Op_UpdateMemberRole orgID u name sc)
  then show "reduction_body (op_body io op) (op_user op) (op_scope op)"
    using update_role.reduction_body_axioms by simp
next
  case (Op_RemoveAllMembershipsForUser u sc)
  then show "reduction_body (op_body io op) (op_user op) (op_scope op)"
    using remove_all.reduction_body_axioms by simp
qed

text \<open>An operation is refused up front, changing nothing, or it is its transaction.\<close>

lemma reduce_op_cases:
  "(MatchesNothing (op_scope op) \<and> snd (reduce_op io cm r op app w) = w
      \<and> (\<forall>red. fst (reduce_op io cm r op app w) = Inr red \<longrightarrow>
           red = \<lparr>rd_UserID = op_user op, rd_Organizations = [], rd_KeysRevoked = 0, rd_KeysRetained = 0\<rparr>))
   \<or> reduce_op io cm r op app w = run io cm r (op_user op) app (op_body io op) w"
  by (cases op) (auto simp: Reducer_RemoveMember_def Reducer_UpdateMemberRoleTemplate_def
      Reducer_UpdateMemberRole_def Reducer_RemoveAllMembershipsForUser_def)

lemma reduce_op_effect:
  assumes "db_wf d" "reduce_op io cm r op app (d, s) = (res, w)"
  shows "w = (d, s) \<or> (\<exists>rd f orgs d1 red. r = Some rd \<and> app = Some f \<and> op_body io op d = (Inr orgs, d1)
    \<and> fst w = swept (red_rwPairs rd) (op_user op) orgs d1 \<and> rd_Organizations red = orgs \<and> rd_UserID red = op_user op
    \<and> (orgs \<noteq> [] \<longrightarrow> f (fst w) red s = (Inr (), snd w)) \<and> (orgs = [] \<longrightarrow> snd w = s)
    \<and> cm \<noteq> RolledBack)"
proof (cases "reduce_op io cm r op app (d, s) = run io cm r (op_user op) app (op_body io op) (d, s)")
  case True
  with assms(2) have "run io cm r (op_user op) app (op_body io op) (d, s) = (res, w)" by simp
  then show ?thesis by (rule any_op.run_unchanged_or_swept [OF assms(1)])
next
  case False
  with reduce_op_cases [of op io cm r app "(d, s)"] assms(2) show ?thesis by auto
qed

lemma run_error_unchanged:
  assumes "run io cm r u app body w = (Inl e, w')" "cm \<noteq> Unacknowledged"
  shows "w' = w"
  using assms by (auto simp: run_def Let_def commit_tx_def
      split: option.splits if_splits prod.splits sum.splits commit_outcome.splits)

lemma reduce_op_error_unchanged:
  assumes "reduce_op io cm r op app w = (Inl e, w')" "cm \<noteq> Unacknowledged"
  shows "w' = w"
  using reduce_op_cases [of op io cm r app w] assms run_error_unchanged [of io cm r "op_user op" app "op_body io op" w e w']
  by auto


subsection \<open>An example\<close>

definition ex_op :: reduction_op where
  "ex_op = Op_UpdateMemberRole ''o1'' ''u1'' ''reader'' (OrgScopeOrganizations [''o1''])"

definition ex_reducer :: Reducer where
  "ex_reducer = NewReducer True Map.empty"

lemmas ex_run_simps = ex_op_def ex_reducer_def NewReducer_def Reducer_UpdateMemberRole_def MatchesNothing_def
  OrgScopeOrganizations_def run_def updateRoleBody_def updateBody_def lookupRoleTemplateID_def Let_def andScope_def
  OrgScope_SQL_def selected_def column_defs param_def update_members_def checked_def wf_defs member_ok_def key_ok_def
  member_key_def sweepDerivedKeys_def retainedScopes_def coalesced_scopes_def joined_template_def
  delete_keys_def affectedRows_def requireRow_def commit_tx_def NoAppCredentials_def HasScope_iff ScopeAdmin_def no_faults_def

lemma ex_reduction:
  "\<exists>red d'. reduce_op no_faults Committed (Some ex_reducer) ex_op (Some NoAppCredentials) (ex_db, ()) = (Inr red, (d', ()))
     \<and> rd_KeysRevoked red = 1 \<and> rd_Organizations red = [''o1''] \<and> d' \<noteq> ex_db"
  by (simp add: ex_run_simps ex_defs)

subsection \<open>Properties\<close>



text \<open>The steps a system of reducers sharing one scope vocabulary makes, with any faults and any outcome of
  the commit.\<close>

inductive reduction_step :: "ReadWritePairs \<Rightarrow> db \<times> 's \<Rightarrow> db \<times> 's \<Rightarrow> bool" for rw where
  step: "(\<And>rd. r = Some rd \<Longrightarrow> red_rwPairs rd = rw) \<Longrightarrow> reduce_op io cm r op app w = (res, w') \<Longrightarrow> reduction_step rw w w'"

lemma reduction_step_invariant:
  assumes "reduction_step rw w w'" "db_wf (fst w)" "keys_bounded rw (fst w)"
  shows "db_wf (fst w') \<and> keys_bounded rw (fst w')"
  using assms
proof (induction rule: reduction_step.induct)
  case (step r io cm op app w res w')
  obtain d s where w: "w = (d, s)" by (cases w)
  have "w' = (d, s) \<or> (\<exists>rd orgs d1. r = Some rd \<and> op_body io op d = (Inr orgs, d1) \<and> fst w' = swept (red_rwPairs rd) (op_user op) orgs d1)"
    using reduce_op_effect [of d io cm r op app s res w'] step w by auto
  with step w any_op.swept_wf any_op.swept_keys_bounded show ?case by fastforce
qed

text \<open>
  C2: that every key stays within its owner's authority is an invariant of the reducer. If it holds of a
  well-formed database, it holds, and the database is well formed, after any sequence of reductions,
  whichever driver calls fail and whether commits are acknowledged, refused or lost.
\<close>

theorem Reducer_keeps_keys_bounded:
  assumes "db_wf (fst w)" "keys_bounded rw (fst w)" and "(reduction_step rw)\<^sup>*\<^sup>* w w'"
  shows "db_wf (fst w') \<and> keys_bounded rw (fst w')"
  using assms(3,1,2)
proof (induction rule: rtranclp_induct)
  case base
  then show ?case by simp
next
  case (step y z)
  with reduction_step_invariant show ?case by blast
qed

lemma ex_db_bounded: "keys_bounded Map.empty ex_db"
  by (simp add: keys_bounded_def key_within_def granted_def ex_defs coalesced_scopes_def joined_template_def HasScope_iff)

theorem Reducer_keeps_keys_bounded_witness:
  "\<exists>w'. w' \<noteq> (ex_db, ()) \<and> (reduction_step Map.empty)\<^sup>*\<^sup>* (ex_db, ()) w' \<and> db_wf (fst w') \<and> keys_bounded Map.empty (fst w')"
proof -
  obtain red d' where run: "reduce_op no_faults Committed (Some ex_reducer) ex_op (Some NoAppCredentials) (ex_db, ()) = (Inr red, (d', ()))"
    and "d' \<noteq> ex_db" using ex_reduction by blast
  have "reduction_step Map.empty (ex_db, ()) (d', ())"
    by (rule reduction_step.step [OF _ run]) (simp add: ex_reducer_def NewReducer_def)
  then have "(reduction_step Map.empty)\<^sup>*\<^sup>* (ex_db, ()) (d', ())" by simp
  with Reducer_keeps_keys_bounded [of "(ex_db, ())" Map.empty "(d', ())"] ex_db_wf ex_db_bounded \<open>d' \<noteq> ex_db\<close>
  show ?thesis by auto
qed

text \<open>
  C3: a reduction is atomic. Whatever fails, either nothing changed (neither the database nor the
  application's tables), or everything did: the membership change, the sweep of exactly the keys that
  exceed what is left, and the application's own sweep, which accepted. An error with nothing in doubt
  about the commit means nothing changed; a reduction with no reducer, or without a decision about the
  application's credentials, is refused.
\<close>

theorem Reducer_atomic:
  assumes "db_wf d" and "reduce_op io cm r op app (d, s) = (res, (d', s'))"
  shows "((d', s') = (d, s)
          \<or> (\<exists>rd f orgs d1 red. r = Some rd \<and> app = Some f \<and> op_body io op d = (Inr orgs, d1)
               \<and> d' = swept (red_rwPairs rd) (op_user op) orgs d1
               \<and> rd_Organizations red = orgs \<and> rd_UserID red = op_user op
               \<and> (if orgs = [] then s' = s else f d' red s = (Inr (), s'))))
         \<and> ((\<exists>e. res = Inl e) \<and> cm \<noteq> Unacknowledged \<longrightarrow> (d', s') = (d, s))
         \<and> (r = None \<or> app = None \<longrightarrow> (d', s') = (d, s))"
proof (intro conjI impI)
  show "(d', s') = (d, s) \<or> (\<exists>rd f orgs d1 red. r = Some rd \<and> app = Some f \<and> op_body io op d = (Inr orgs, d1)
               \<and> d' = swept (red_rwPairs rd) (op_user op) orgs d1
               \<and> rd_Organizations red = orgs \<and> rd_UserID red = op_user op
               \<and> (if orgs = [] then s' = s else f d' red s = (Inr (), s')))"
    using reduce_op_effect [OF assms] by auto
  show "(d', s') = (d, s)" if "(\<exists>e. res = Inl e) \<and> cm \<noteq> Unacknowledged"
    using that assms(2) reduce_op_error_unchanged by blast
  show "(d', s') = (d, s)" if "r = None \<or> app = None"
    using that reduce_op_effect [OF assms] by auto
qed

theorem Reducer_atomic_witness:
  "\<exists>e d' s'. reduce_op (\<lambda>n. n = 5) Committed (Some ex_reducer) ex_op (Some NoAppCredentials) (ex_db, ()) = (Inl e, (d', s'))
     \<and> (d', s') = (ex_db, ())"
proof -
  obtain e w where run: "reduce_op (\<lambda>n. n = 5) Committed (Some ex_reducer) ex_op (Some NoAppCredentials) (ex_db, ()) = (Inl e, w)"
    by (simp add: ex_run_simps ex_defs)
  obtain d' s' where "w = (d', s')" by (cases w)
  with run Reducer_atomic [OF ex_db_wf run [unfolded this]] show ?thesis by auto
qed

lemma same_but_members_refl [simp]: "same_but_members d d"
  by (simp add: same_but_members_def)

text \<open>Everything outside the reach of a reduction: the memberships of other users and of organizations out
  of scope, and all tables but memberships and keys.\<close>

definition reduction_frame :: "string \<Rightarrow> OrgScope \<Rightarrow> db \<Rightarrow> db \<Rightarrow> bool" where
  "reduction_frame u sc d d' \<longleftrightarrow>
     d' = d\<lparr>organization_members := organization_members d', api_keys := api_keys d'\<rparr>
     \<and> filter (\<lambda>m. mem_UserID m \<noteq> u \<or> \<not> permits sc (Some (mem_OrganizationID m))) (organization_members d')
       = filter (\<lambda>m. mem_UserID m \<noteq> u \<or> \<not> permits sc (Some (mem_OrganizationID m))) (organization_members d)"

lemma swept_frame:
  assumes "op_body io op d = (Inr orgs, d1)"
  shows "reduction_frame (op_user op) (op_scope op) d (swept rw (op_user op) orgs d1)"
proof -
  let ?out = "\<lambda>m. mem_UserID m \<noteq> op_user op \<or> \<not> permits (op_scope op) (Some (mem_OrganizationID m))"
  have sub: "filter ?out ms = filter ?out (filter (\<lambda>m. \<not> affected_member (op_user op) orgs m) ms)" for ms
    using any_op.body_scope [OF assms] by (auto simp: affected_member_def intro!: filter_cong)
  have "filter ?out (organization_members d1) = filter ?out (organization_members d)"
    using sub [of "organization_members d1"] sub [of "organization_members d"] any_op.body_members [OF assms] by simp
  moreover have "d1 = d\<lparr>organization_members := organization_members d1\<rparr>"
    using any_op.body_tables [OF assms] by (simp add: same_but_members_def)
  then have "swept rw (op_user op) orgs d1 =
      d\<lparr>organization_members := organization_members (swept rw (op_user op) orgs d1),
        api_keys := api_keys (swept rw (op_user op) orgs d1)\<rparr>"
    by (metis db.update_convs(4,5) db.surjective swept_def delete_keys_def db.select_convs(4,5))
  ultimately show ?thesis by (simp add: reduction_frame_def swept_def)
qed

text \<open>
  A reduction touches nothing else and revokes nothing it need not. Whatever its outcome: no table
  but memberships and keys changes; memberships of other users, and of organizations the caller's scope
  does not permit, are as before; the keys left are among those there were, unaltered and in their order;
  and a key that is gone belonged to the user, in an organization the scope permits, and carried more
  than the authority left there.
\<close>

theorem Reducer_frame_and_precision:
  assumes "db_wf d" and "reduce_op io cm (Some rd) op app (d, s) = (res, (d', s'))"
  shows "reduction_frame (op_user op) (op_scope op) d d'
         \<and> subseq (api_keys d') (api_keys d)
         \<and> (\<forall>k \<in> set (api_keys d) - set (api_keys d').
              key_UserID k = Some (op_user op) \<and> permits (op_scope op) (Some (key_OrganizationID k))
              \<and> \<not> key_within (red_rwPairs rd) d' (op_user op) k)"
proof -
  consider (same) "d' = d" | (swept) orgs d1 where "op_body io op d = (Inr orgs, d1)"
      "d' = swept (red_rwPairs rd) (op_user op) orgs d1"
    using reduce_op_effect [OF assms] by auto
  then show ?thesis
  proof cases
    case same
    then show ?thesis by (simp add: reduction_frame_def)
  next
    case swept
    have keys: "api_keys d1 = api_keys d"
      by (rule same_but_members_fields(1) [OF any_op.body_tables [OF swept(1)]])
    have "api_keys d' = filter (\<lambda>k. \<not> doomed_key (red_rwPairs rd) d1 (op_user op) orgs k) (api_keys d)"
      using keys swept(2) by (simp add: swept_def)
    then have "subseq (api_keys d') (api_keys d)" by simp
    moreover have "key_UserID k = Some (op_user op) \<and> permits (op_scope op) (Some (key_OrganizationID k))
        \<and> \<not> key_within (red_rwPairs rd) d' (op_user op) k"
      if "k \<in> set (api_keys d) - set (api_keys d')" for k
      using that swept keys any_op.body_scope [OF swept(1)] by (auto simp: swept_def doomed_key_def affected_key_def)
    ultimately show ?thesis using swept_frame [OF swept(1)] swept(2) by blast
  qed
qed

theorem Reducer_frame_and_precision_witness:
  "\<exists>red d' s'. reduce_op no_faults Committed (Some ex_reducer) ex_op (Some NoAppCredentials) (ex_db, ()) = (Inr red, (d', s'))
     \<and> reduction_frame (op_user ex_op) (op_scope ex_op) ex_db d' \<and> subseq (api_keys d') (api_keys ex_db)"
proof -
  obtain red d' where run: "reduce_op no_faults Committed (Some ex_reducer) ex_op (Some NoAppCredentials) (ex_db, ()) = (Inr red, (d', ()))"
    using ex_reduction by blast
  with Reducer_frame_and_precision [OF ex_db_wf run] show ?thesis by blast
qed

text \<open>What the caller asked of the memberships.\<close>

fun op_achieved :: "reduction_op \<Rightarrow> db \<Rightarrow> db \<Rightarrow> string list \<Rightarrow> bool" where
  "op_achieved (Op_RemoveMember orgID u sc) d d' orgs \<longleftrightarrow>
     orgs = [orgID] \<and> (orgID, u) \<in> set (pairs d) \<and> (orgID, u) \<notin> set (pairs d')"
| "op_achieved (Op_UpdateMemberRoleTemplate orgID u t sc) d d' orgs \<longleftrightarrow>
     orgs = [orgID] \<and> pairs d' = pairs d
     \<and> (\<exists>m \<in> set (organization_members d'). member_key m = (orgID, u) \<and> mem_RoleTemplateID m = t)"
| "op_achieved (Op_UpdateMemberRole orgID u name sc) d d' orgs \<longleftrightarrow>
     orgs = [orgID] \<and> pairs d' = pairs d
     \<and> (\<exists>m \<in> set (organization_members d'). \<exists>t \<in> set (role_templates d').
          member_key m = (orgID, u) \<and> rt_Name t = name \<and> mem_RoleTemplateID m = Some (rt_ID t))"
| "op_achieved (Op_RemoveAllMembershipsForUser u sc) d d' orgs \<longleftrightarrow>
     set orgs = {org. (org, u) \<in> set (pairs d) \<and> permits sc (Some org)}
     \<and> (\<forall>org. (org, u) \<in> set (pairs d') \<longrightarrow> \<not> permits sc (Some org))"

lemma pairs_update_members [simp]: "pairs (update_members P t d) = pairs d"
  by (simp add: pairs_def update_members_def member_key_def)

lemma pairs_swept [simp]: "pairs (swept rw u orgs d) = pairs d"
  "organization_members (swept rw u orgs d) = organization_members d"
  "role_templates (swept rw u orgs d) = role_templates d"
  by (simp_all add: pairs_def swept_def delete_keys_def)

lemma updateBody_achieved:
  assumes "updateBody f1 f2 orgID userID t scope d = (Inr orgs, d1)"
  shows "\<exists>m \<in> set (organization_members d1). member_key m = (orgID, userID) \<and> mem_RoleTemplateID m = t"
proof -
  obtain m where m: "m \<in> set (organization_members d)" "mem_OrganizationID m = orgID" "mem_UserID m = userID"
    using updateBody_Inr [OF assms] by blast
  then have "m\<lparr>mem_RoleTemplateID := t\<rparr> \<in> set (organization_members d1)"
    using updateBody_Inr [OF assms] by (auto simp: update_members_def image_iff)
  with m show ?thesis by (intro bexI [of _ "m\<lparr>mem_RoleTemplateID := t\<rparr>"]) (simp_all add: member_key_def)
qed

lemma op_body_achieved:
  assumes "op_body io op d = (Inr orgs, d1)"
  shows "op_achieved op d d1 orgs"
proof (cases op)
  case (Op_RemoveMember orgID u sc)
  then show ?thesis
    using removeBody_Inr [of io orgID u sc d orgs d1] assms
    by (auto simp: pairs_def delete_members_def member_key_def image_iff)
next
  case (Op_UpdateMemberRoleTemplate orgID u t sc)
  then have body: "updateBody (io 7) (io 8) orgID u t sc d = (Inr orgs, d1)" using assms by simp
  with updateBody_Inr [OF body] updateBody_achieved [OF body] Op_UpdateMemberRoleTemplate show ?thesis by auto
next
  case (Op_UpdateMemberRole orgID u name sc)
  then obtain i where i: "lookupRoleTemplateID (io 7) name d = Inr i"
    and body: "updateBody (io 8) (io 9) orgID u (Some i) sc d = (Inr orgs, d1)"
    using assms updateRoleBody_Inr [of io orgID u name sc d orgs d1] by auto
  obtain t where "t \<in> set (role_templates d)" "rt_Name t = name" "rt_ID t = i"
    using i by (auto simp: lookupRoleTemplateID_def split: if_splits list.splits dest!: filter_Cons_mem)
  moreover have "role_templates d1 = role_templates d"
    by (rule same_but_members_fields(2) [OF any_op.body_tables [OF assms]])
  ultimately show ?thesis
    using updateBody_Inr [OF body] updateBody_achieved [OF body] Op_UpdateMemberRole by auto
next
  case (Op_RemoveAllMembershipsForUser u sc)
  then show ?thesis
    using removeAllBody_Inr [of io u sc d orgs d1] assms
    by (auto simp: pairs_def delete_members_def member_key_def image_iff)
qed

text \<open>
  A successful reduction did what was asked. Removing a member: there was one and it is gone.
  Replacing a template: the membership stays and carries the template (by name: one of that name).
  Removing all memberships: the organizations reported are exactly those in which the user had a
  membership the scope permits, and none of these memberships is left.
\<close>

theorem Reducer_success_achieves:
  assumes "db_wf d" and "reduce_op io cm r op app (d, s) = (Inr red, (d', s'))"
    and "\<not> MatchesNothing (op_scope op)"
  shows "op_achieved op d d' (rd_Organizations red)"
proof -
  have "reduce_op io cm r op app (d, s) = run io cm r (op_user op) app (op_body io op) (d, s)"
    using reduce_op_cases [of op io cm r app "(d, s)"] assms(3) by blast
  with assms(2) have run: "run io cm r (op_user op) app (op_body io op) (d, s) = (Inr red, (d', s'))" by simp
  have wf: "\<forall>orgs d1. op_body io op d = (Inr orgs, d1) \<longrightarrow> db_wf d1"
    using any_op.body_wf [OF assms(1)] by blast
  obtain rd :: Reducer and d1 where "op_body io op d = (Inr (rd_Organizations red), d1)"
    "d' = swept (red_rwPairs rd) (op_user op) (rd_Organizations red) d1"
    using run_success [OF run wf, unfolded fst_conv] by blast
  with op_body_achieved [of io op d "rd_Organizations red" d1] show ?thesis by (cases op) auto
qed

theorem Reducer_success_achieves_witness:
  "\<exists>red d'. reduce_op no_faults Committed (Some ex_reducer) ex_op (Some NoAppCredentials) (ex_db, ()) = (Inr red, (d', ()))
     \<and> op_achieved ex_op ex_db d' (rd_Organizations red)"
proof -
  obtain red d' where run: "reduce_op no_faults Committed (Some ex_reducer) ex_op (Some NoAppCredentials) (ex_db, ()) = (Inr red, (d', ()))"
    using ex_reduction by blast
  have "\<not> MatchesNothing (op_scope ex_op)" by (simp add: ex_op_def MatchesNothing_def OrgScopeOrganizations_def)
  with Reducer_success_achieves [OF ex_db_wf run] run show ?thesis by blast
qed

end
