(* ===== verification/Oidc_Config_Repo.thy ===== *)
theory Oidc_Config_Repo
  imports Reducer
begin

text \<open>
  Package \<open>identity/store\<close>, file \<open>oidc_config_repository.go\<close>, and \<open>OIDCConfig.GetScopes\<close> of
  \<open>models/oidc_config.go\<close>: the identity-provider configurations, of which at most one is active (a partial
  unique index enforces it). Creating an active configuration and activating an existing one run in a
  transaction that first deactivates all. Calls of a transaction: 0 begins it, 1 deactivates, 2 is the
  second statement and 3 its row count; the commit has its own outcome. The secret is stored as the caller
  supplied it.
\<close>

text \<open>The columns as they are read: an absent \<open>extra_config\<close> reads as an empty object.\<close>

definition scanOIDCConfig :: "OIDCConfig \<Rightarrow> OIDCConfig" where
  "scanOIDCConfig c = c\<lparr>oc_ExtraConfig := (case oc_ExtraConfig c of None \<Rightarrow> Some (Document (GObject [])) | Some x \<Rightarrow> Some x)\<rparr>"

definition insert_config :: "OIDCConfig \<Rightarrow> db \<Rightarrow> db option" where
  "insert_config c d = checked (d\<lparr>oidc_config := oidc_config d @ [c]\<rparr>)"

definition deactivateAllOIDCConfigsTx :: "time \<Rightarrow> db \<Rightarrow> db" where
  "deactivateAllOIDCConfigsTx now d = d\<lparr>oidc_config := map (\<lambda>c. c\<lparr>oc_IsActive := False, oc_UpdatedAt := now\<rparr>) (oidc_config d)\<rparr>"

definition CreateOIDCConfig :: "io \<Rightarrow> commit_outcome \<Rightarrow> time \<Rightarrow> OIDCConfig \<Rightarrow> db \<Rightarrow> (store_error + unit) \<times> db" where
  "CreateOIDCConfig io cm now config d =
     (if \<not> oc_IsActive config then
        (if io 0 then (Inl (Failed ''failed to create oidc config''), d)
         else (case insert_config config d of
                 None \<Rightarrow> (Inl (Failed ''failed to create oidc config''), d)
               | Some d' \<Rightarrow> (Inr (), d')))
      else if io 0 then (Inl (Failed ''failed to begin transaction creating active oidc config''), d)
      else if io 1 then (Inl (Failed ''failed to deactivate oidc configs''), d)
      else if io 2 then (Inl (Failed ''failed to create active oidc config''), d)
      else (case insert_config config (deactivateAllOIDCConfigsTx now d) of
              None \<Rightarrow> (Inl (Failed ''failed to create active oidc config''), d)
            | Some d' \<Rightarrow> commit_tx cm (Failed ''failed to commit active oidc config creation'') () d d'))"

definition GetActiveOIDCConfig :: "io \<Rightarrow> db \<Rightarrow> store_error + OIDCConfig" where
  "GetActiveOIDCConfig io d =
     (if io 0 then Inl (Failed ''failed to get active oidc config'')
      else (case take 1 (order_desc oc_UpdatedAt (filter oc_IsActive (oidc_config d))) of
              [] \<Rightarrow> Inl (notFound ''active oidc config'')
            | c # _ \<Rightarrow> Inr (scanOIDCConfig c)))"

definition GetOIDCConfig :: "io \<Rightarrow> string \<Rightarrow> db \<Rightarrow> store_error + OIDCConfig" where
  "GetOIDCConfig io i d =
     (if io 0 then Inl (Failed ''failed to get oidc config'')
      else (case filter (\<lambda>c. oc_ID c = i) (oidc_config d) of
              [] \<Rightarrow> Inl (notFound ''oidc config by id'')
            | c # _ \<Rightarrow> Inr (scanOIDCConfig c)))"

definition ListOIDCConfigs :: "io \<Rightarrow> db \<Rightarrow> store_error + OIDCConfig list" where
  "ListOIDCConfigs io d =
     (if io 0 then Inl (Failed ''failed to list oidc configs'')
      else Inr (map scanOIDCConfig (order_desc oc_CreatedAt (oidc_config d))))"

definition DeleteOIDCConfig :: "io \<Rightarrow> string \<Rightarrow> db \<Rightarrow> (store_error + unit) \<times> db" where
  "DeleteOIDCConfig io i d =
     (if io 0 then (Inl (Failed ''failed to delete oidc config''), d)
      else (requireRow (io 1) (length (filter (\<lambda>c. oc_ID c = i) (oidc_config d))) ''oidc config by id'',
            d\<lparr>oidc_config := filter (\<lambda>c. oc_ID c \<noteq> i) (oidc_config d)\<rparr>))"

definition UpdateOIDCConfigExtraConfig :: "io \<Rightarrow> time \<Rightarrow> string \<Rightarrow> rawjson option \<Rightarrow> db \<Rightarrow> (store_error + unit) \<times> db" where
  "UpdateOIDCConfigExtraConfig io now i extraConfig d =
     (if io 0 then (Inl (Failed ''failed to update oidc config extra_config''), d)
      else (requireRow (io 1) (length (filter (\<lambda>c. oc_ID c = i) (oidc_config d))) ''oidc config by id'',
            d\<lparr>oidc_config := map (\<lambda>c. if oc_ID c = i then c\<lparr>oc_ExtraConfig := extraConfig, oc_UpdatedAt := now\<rparr> else c) (oidc_config d)\<rparr>))"

definition DeactivateAllOIDCConfigs :: "io \<Rightarrow> time \<Rightarrow> db \<Rightarrow> (store_error + nat) \<times> db" where
  "DeactivateAllOIDCConfigs io now d =
     (if io 0 then (Inl (Failed ''failed to deactivate oidc configs''), d)
      else (affectedRows (io 1) (length (oidc_config d)) ''oidc configs'',
            d\<lparr>oidc_config := map (\<lambda>c. c\<lparr>oc_IsActive := False, oc_UpdatedAt := now\<rparr>) (oidc_config d)\<rparr>))"

definition ActivateOIDCConfig :: "io \<Rightarrow> commit_outcome \<Rightarrow> time \<Rightarrow> time \<Rightarrow> string \<Rightarrow> db \<Rightarrow> (store_error + unit) \<times> db" where
  "ActivateOIDCConfig io cm now now' i d =
     (if io 0 then (Inl (Failed ''failed to begin transaction activating oidc config''), d)
      else if io 1 then (Inl (Failed ''failed to deactivate oidc configs''), d)
      else
        let d1 = deactivateAllOIDCConfigsTx now d
        in if io 2 then (Inl (Failed ''failed to activate oidc config''), d)
           else (case checked (d1\<lparr>oidc_config := map (\<lambda>c. if oc_ID c = i then c\<lparr>oc_IsActive := True, oc_UpdatedAt := now'\<rparr> else c) (oidc_config d1)\<rparr>) of
                   None \<Rightarrow> (Inl (Failed ''failed to activate oidc config''), d)
                 | Some d2 \<Rightarrow>
                     (case requireRow (io 3) (length (filter (\<lambda>c. oc_ID c = i) (oidc_config d1))) ''oidc config by id'' of
                        Inl e \<Rightarrow> (Inl e, d)
                      | Inr _ \<Rightarrow> commit_tx cm (Failed ''failed to commit activation of oidc config'') () d d2)))"

definition GetScopes :: "OIDCConfig \<Rightarrow> string list \<times> store_error option" where
  "GetScopes c =
     (let defaults = [''openid'', ''email'', ''profile'']
      in case oc_Scopes c of
           None \<Rightarrow> (defaults, None)
         | Some j \<Rightarrow>
             (case unmarshal_strings j of
                None \<Rightarrow> (defaults, Some (Failed ''failed to parse oidc config scopes''))
              | Some scopes \<Rightarrow> if length scopes = 0 then (defaults, None) else (scopes, None)))"

subsection \<open>The invariant\<close>

lemma configs_only_wf:
  assumes "db_wf d" "distinct (map oc_ID cs)" "length (filter oc_IsActive cs) \<le> 1"
  shows "db_wf (d\<lparr>oidc_config := cs\<rparr>)"
  using assms by (simp add: wf_defs list_all_iff member_ok_def key_ok_def)

lemma deactivateAll_ids [simp]: "map oc_ID (oidc_config (deactivateAllOIDCConfigsTx now d)) = map oc_ID (oidc_config d)"
  by (simp add: deactivateAllOIDCConfigsTx_def)

lemma deactivateAll_inactive [simp]: "filter oc_IsActive (oidc_config (deactivateAllOIDCConfigsTx now d)) = []"
  by (simp add: deactivateAllOIDCConfigsTx_def filter_empty_conv)

lemma filter_active_update:
  assumes "\<And>c. oc_IsActive (f c) = oc_IsActive c"
  shows "length (filter oc_IsActive (map f cs)) = length (filter oc_IsActive cs)"
  using assms by (induction cs) auto

lemma ActivateOIDCConfig_cases:
  assumes "db_wf d" "ActivateOIDCConfig io cm now now' i d = (res, d')"
  shows "d' = d \<and> res \<noteq> Inr () \<or>
    (\<exists>c \<in> set (oidc_config d). oc_ID c = i \<and> db_wf d'
      \<and> filter oc_IsActive (oidc_config d') = [c\<lparr>oc_IsActive := True, oc_UpdatedAt := now'\<rparr>]
      \<and> d' = d\<lparr>oidc_config := map (\<lambda>c. c\<lparr>oc_IsActive := oc_ID c = i, oc_UpdatedAt := (if oc_ID c = i then now' else now)\<rparr>) (oidc_config d)\<rparr>
      \<and> (res = Inr () \<and> cm = Committed \<or> cm = Unacknowledged))"
proof -
  let ?d1 = "deactivateAllOIDCConfigsTx now d"
  let ?set = "map (\<lambda>c. if oc_ID c = i then c\<lparr>oc_IsActive := True, oc_UpdatedAt := now'\<rparr> else c) (oidc_config ?d1)"
  have dist: "distinct (map oc_ID (oidc_config d))" using assms(1) by (simp add: wf_defs)
  have setd: "?set = map (\<lambda>c. c\<lparr>oc_IsActive := oc_ID c = i, oc_UpdatedAt := (if oc_ID c = i then now' else now)\<rparr>) (oidc_config d)"
    by (simp add: deactivateAllOIDCConfigsTx_def)
  have find: "filter (\<lambda>c. oc_ID c = i) (oidc_config d) = (case find (\<lambda>c. oc_ID c = i) (oidc_config d) of None \<Rightarrow> [] | Some c \<Rightarrow> [c])"
    using filter_key_find [OF dist, of i "\<lambda>_. True"] by (simp split: option.splits)
  have "d' = d \<and> res \<noteq> Inr () \<or> (\<exists>c. find (\<lambda>c. oc_ID c = i) (oidc_config d) = Some c) \<and> db_wf d' \<and> d' = ?d1\<lparr>oidc_config := ?set\<rparr>
      \<and> (res = Inr () \<and> cm = Committed \<or> cm = Unacknowledged)"
    using assms(2) find
    by (auto simp: ActivateOIDCConfig_def Let_def commit_tx_def requireRow_def deactivateAllOIDCConfigsTx_def filter_map o_def
        split: if_splits option.splits sum.splits commit_outcome.splits)
  moreover have "filter oc_IsActive ?set = [c\<lparr>oc_IsActive := True, oc_UpdatedAt := now'\<rparr>]"
    if "find (\<lambda>c. oc_ID c = i) (oidc_config d) = Some c" for c
    using that find unfolding setd by (simp add: filter_map o_def) (cases c, use find_Some_mem [OF that] in auto)
  ultimately show ?thesis
    using find_Some_mem setd by (fastforce simp: deactivateAllOIDCConfigsTx_def)
qed

lemma CreateOIDCConfig_cases:
  assumes "CreateOIDCConfig io cm now config d = (res, d')"
  shows "d' = d \<and> res \<noteq> Inr () \<or>
    db_wf d' \<and> (res = Inr () \<or> cm = Unacknowledged \<and> oc_IsActive config)
    \<and> d' = d\<lparr>oidc_config := (if oc_IsActive config then map (\<lambda>c. c\<lparr>oc_IsActive := False, oc_UpdatedAt := now\<rparr>) (oidc_config d)
                                 else oidc_config d) @ [config]\<rparr>"
  using assms
  by (auto simp: CreateOIDCConfig_def insert_config_def deactivateAllOIDCConfigsTx_def commit_tx_def
      split: if_splits option.splits commit_outcome.splits)

lemma GetActive_single:
  "filter oc_IsActive (oidc_config d) = [c] \<Longrightarrow> GetActiveOIDCConfig no_faults d = Inr (scanOIDCConfig c)"
  by (simp add: GetActiveOIDCConfig_def order_desc_def)

lemma GetActive_none:
  "filter oc_IsActive (oidc_config d) = [] \<Longrightarrow> GetActiveOIDCConfig no_faults d = Inl (notFound ''active oidc config'')"
  by (simp add: GetActiveOIDCConfig_def order_desc_def)

datatype config_op =
    CreateConfig io commit_outcome time OIDCConfig
  | ActivateConfig io commit_outcome time time string
  | DeactivateConfigs io time
  | DeleteConfig io string
  | UpdateExtra io time string "rawjson option"

fun run_config_op :: "config_op \<Rightarrow> db \<Rightarrow> db" where
  "run_config_op (CreateConfig io cm now c) d = snd (CreateOIDCConfig io cm now c d)"
| "run_config_op (ActivateConfig io cm now now' i) d = snd (ActivateOIDCConfig io cm now now' i d)"
| "run_config_op (DeactivateConfigs io now) d = snd (DeactivateAllOIDCConfigs io now d)"
| "run_config_op (DeleteConfig io i) d = snd (DeleteOIDCConfig io i d)"
| "run_config_op (UpdateExtra io now i x) d = snd (UpdateOIDCConfigExtraConfig io now i x d)"

lemma DeleteOIDCConfig_wf: "db_wf d \<Longrightarrow> db_wf (snd (DeleteOIDCConfig io i d))"
proof -
  assume wf: "db_wf d"
  have "length (filter oc_IsActive (filter (\<lambda>c. oc_ID c \<noteq> i) cs)) \<le> length (filter oc_IsActive cs)" for cs
    by (induction cs) auto
  from this [of "oidc_config d"] wf show ?thesis
    by (auto simp: DeleteOIDCConfig_def wf_defs list_all_iff member_ok_def key_ok_def filter_distinct_map simp del: filter_filter)
qed

lemma config_op_wf: "db_wf d \<Longrightarrow> db_wf (run_config_op op d)"
proof (cases op)
  case (CreateConfig io cm now c)
  assume "db_wf d"
  with CreateConfig show ?thesis
    using CreateOIDCConfig_cases [of io cm now c d "fst (CreateOIDCConfig io cm now c d)" "run_config_op op d"] by auto
next
  case (ActivateConfig io cm now now' i)
  assume "db_wf d"
  with ActivateConfig show ?thesis
    using ActivateOIDCConfig_cases [of d io cm now now' i "fst (ActivateOIDCConfig io cm now now' i d)" "run_config_op op d"] by auto
next
  case (DeactivateConfigs io now)
  assume "db_wf d"
  with DeactivateConfigs show ?thesis
    by (auto simp: DeactivateAllOIDCConfigs_def filter_map o_def wf_defs list_all_iff member_ok_def key_ok_def)
next
  case (DeleteConfig io i)
  assume "db_wf d"
  with DeleteConfig show ?thesis by (simp add: DeleteOIDCConfig_wf)
next
  case (UpdateExtra io now i x)
  assume wf: "db_wf d"
  let ?f = "\<lambda>c. if oc_ID c = i then c\<lparr>oc_ExtraConfig := x, oc_UpdatedAt := now\<rparr> else c"
  have "map oc_ID (map ?f (oidc_config d)) = map oc_ID (oidc_config d)" by simp
  moreover have "length (filter oc_IsActive (map ?f (oidc_config d))) = length (filter oc_IsActive (oidc_config d))"
    by (rule filter_active_update) simp
  moreover have "distinct (map oc_ID (oidc_config d))" "length (filter oc_IsActive (oidc_config d)) \<le> 1"
    using wf by (simp_all add: db_wf_def configs_wf_def)
  ultimately have "db_wf (d\<lparr>oidc_config := map ?f (oidc_config d)\<rparr>)"
    using configs_only_wf [OF wf, of "map ?f (oidc_config d)"] by (simp del: map_map length_filter_map)
  with UpdateExtra wf show ?thesis by (simp add: UpdateOIDCConfigExtraConfig_def)
qed

lemma config_ops_wf: "db_wf d \<Longrightarrow> db_wf (fold run_config_op ops d)"
  by (induction ops arbitrary: d) (simp_all add: config_op_wf)

text \<open>
  There is never more than one active identity provider. After any sequence of creations, activations,
  deactivations, deletions and edits, with whatever failures and commit outcomes, at most one configuration is
  active and \<open>GetActiveOIDCConfig\<close> returns that one, or reports not found when there is none.
\<close>

theorem OIDCConfig_single_active:
  assumes "db_wf d"
  shows "case filter oc_IsActive (oidc_config (fold run_config_op ops d)) of
      [] \<Rightarrow> GetActiveOIDCConfig no_faults (fold run_config_op ops d) = Inl (notFound ''active oidc config'')
    | c # cs \<Rightarrow> cs = [] \<and> GetActiveOIDCConfig no_faults (fold run_config_op ops d) = Inr (scanOIDCConfig c)"
proof -
  have "length (filter oc_IsActive (oidc_config (fold run_config_op ops d))) \<le> 1"
    using config_ops_wf [OF assms, of ops] by (simp add: db_wf_def configs_wf_def)
  then show ?thesis
    using GetActive_none [of "fold run_config_op ops d"] GetActive_single [of "fold run_config_op ops d"]
    by (auto split: list.splits)
qed

definition ex_config :: "string \<Rightarrow> bool \<Rightarrow> OIDCConfig" where
  "ex_config i act = \<lparr>oc_ID = i, oc_Name = i, oc_ProviderType = ''oidc'', oc_IssuerURL = ''https://i'', oc_ClientID = ''c'',
     oc_ClientSecretCiphertext = ''s'', oc_RedirectURL = ''https://r'', oc_Scopes = None, oc_IsActive = act, oc_ExtraConfig = None,
     oc_CreatedAt = 1, oc_UpdatedAt = 1, oc_CreatedBy = None, oc_UpdatedBy = None\<rparr>"

theorem OIDCConfig_single_active_witness:
  "GetActiveOIDCConfig no_faults
     (fold run_config_op [CreateConfig no_faults Committed 5 (ex_config ''a'' True), CreateConfig no_faults Committed 6 (ex_config ''b'' True)] empty_db)
   = Inr (scanOIDCConfig (ex_config ''b'' True))"
proof -
  let ?ops = "[CreateConfig no_faults Committed 5 (ex_config ''a'' True), CreateConfig no_faults Committed 6 (ex_config ''b'' True)]"
  have "filter oc_IsActive (oidc_config (fold run_config_op ?ops empty_db)) = [ex_config ''b'' True]"
    by (simp add: CreateOIDCConfig_def insert_config_def deactivateAllOIDCConfigsTx_def checked_def ex_config_def empty_db_def
        wf_defs commit_tx_def)
  then show ?thesis using OIDCConfig_single_active [OF empty_db_wf, of ?ops] by simp
qed

text \<open>
  Activating a configuration is all or nothing. On success that configuration is the active one and every
  other is inactive; when the call fails, nothing has changed and the provider that was active still is,
  except that a commit whose acknowledgement was lost may have taken full effect; and a configuration that
  does not exist is reported as such without deactivating the current one.
\<close>

theorem ActivateOIDCConfig_atomic:
  assumes "db_wf d" "ActivateOIDCConfig io cm now now' i d = (res, d')"
  shows "(d' = d \<or> (\<exists>c \<in> set (oidc_config d). oc_ID c = i
           \<and> GetActiveOIDCConfig no_faults d' = Inr (scanOIDCConfig (c\<lparr>oc_IsActive := True, oc_UpdatedAt := now'\<rparr>))))
    \<and> (res = Inr () \<longrightarrow> (\<exists>c \<in> set (oidc_config d). oc_ID c = i
           \<and> GetActiveOIDCConfig no_faults d' = Inr (scanOIDCConfig (c\<lparr>oc_IsActive := True, oc_UpdatedAt := now'\<rparr>))
           \<and> (\<forall>x \<in> set (oidc_config d'). oc_IsActive x \<longleftrightarrow> oc_ID x = i)))
    \<and> (res \<noteq> Inr () \<and> cm \<noteq> Unacknowledged \<longrightarrow> d' = d)
    \<and> (i \<notin> oc_ID ` set (oidc_config d) \<longrightarrow> res \<noteq> Inr () \<and> d' = d)"
  using ActivateOIDCConfig_cases [OF assms]
proof (elim disjE)
  assume "d' = d \<and> res \<noteq> Inr ()"
  then show ?thesis by blast
next
  assume "\<exists>c \<in> set (oidc_config d). oc_ID c = i \<and> db_wf d'
      \<and> filter oc_IsActive (oidc_config d') = [c\<lparr>oc_IsActive := True, oc_UpdatedAt := now'\<rparr>]
      \<and> d' = d\<lparr>oidc_config := map (\<lambda>c. c\<lparr>oc_IsActive := oc_ID c = i, oc_UpdatedAt := (if oc_ID c = i then now' else now)\<rparr>) (oidc_config d)\<rparr>
      \<and> (res = Inr () \<and> cm = Committed \<or> cm = Unacknowledged)"
  then obtain c where c: "c \<in> set (oidc_config d)" "oc_ID c = i"
    "filter oc_IsActive (oidc_config d') = [c\<lparr>oc_IsActive := True, oc_UpdatedAt := now'\<rparr>]"
    "d' = d\<lparr>oidc_config := map (\<lambda>c. c\<lparr>oc_IsActive := oc_ID c = i, oc_UpdatedAt := (if oc_ID c = i then now' else now)\<rparr>) (oidc_config d)\<rparr>"
    "res = Inr () \<and> cm = Committed \<or> cm = Unacknowledged" by blast
  have "\<forall>x \<in> set (oidc_config d'). oc_IsActive x \<longleftrightarrow> oc_ID x = i" unfolding c(4) by auto
  with c GetActive_single [OF c(3)] show ?thesis by blast
qed

theorem ActivateOIDCConfig_atomic_witness:
  "db_wf empty_db \<and> snd (ActivateOIDCConfig no_faults Committed 1 2 ''x'' empty_db) = empty_db"
  using ActivateOIDCConfig_atomic [OF empty_db_wf prod.collapse [symmetric], of no_faults Committed 1 2 "''x''"] empty_db_wf
  by (simp add: empty_db_def)

end
