(* ===== verification/Role_Template_Repo.thy ===== *)
theory Role_Template_Repo
  imports Store_DB
begin

text \<open>
  Package \<open>identity/store\<close>, file \<open>role_template_repository.go\<close>: reading, creating and changing role
  templates. System templates are immutable: both mutating statements filter on \<open>is_system = false\<close>.
  \<open>io 0\<close> is the statement, \<open>io 1\<close> reading its rows or its row count.
\<close>

record TemplateModel =
  tm_ID :: string
  tm_Name :: string
  tm_DisplayName :: string
  tm_Description :: "string option"
  tm_Scopes :: "string list"
  tm_IsSystem :: bool
  tm_CreatedAt :: time
  tm_UpdatedAt :: time

definition toModel :: "RoleTemplate \<Rightarrow> store_error + TemplateModel" where
  "toModel row =
     (case unmarshal_strings (rt_Scopes row) of
        None \<Rightarrow> Inl (Failed ''failed to unmarshal role template scopes'')
      | Some scopes \<Rightarrow> Inr \<lparr>tm_ID = rt_ID row, tm_Name = rt_Name row, tm_DisplayName = rt_DisplayName row,
          tm_Description = rt_Description row, tm_Scopes = scopes, tm_IsSystem = rt_IsSystem row,
          tm_CreatedAt = rt_CreatedAt row, tm_UpdatedAt = rt_UpdatedAt row\<rparr>)"

definition ListRoleTemplates :: "io \<Rightarrow> db \<Rightarrow> store_error + TemplateModel list" where
  "ListRoleTemplates io d =
     (if io 0 then Inl (Failed ''failed to list role templates'')
      else (case scan_rows toModel (sort_key rt_Name (role_templates d)) of
              Inl e \<Rightarrow> Inl e
            | Inr ts \<Rightarrow> if io 1 then Inl (Failed ''failed to scan role template'') else Inr ts))"

definition GetRoleTemplate :: "io \<Rightarrow> string \<Rightarrow> db \<Rightarrow> store_error + TemplateModel" where
  "GetRoleTemplate io i d =
     (if io 0 then Inl (Failed ''failed to get role template'')
      else (case filter (\<lambda>t. rt_ID t = i) (role_templates d) of
              [] \<Rightarrow> Inl (notFound ''role template by id'')
            | row # _ \<Rightarrow> toModel row))"

definition GetRoleTemplateByName :: "io \<Rightarrow> string \<Rightarrow> db \<Rightarrow> store_error + TemplateModel" where
  "GetRoleTemplateByName io name d =
     (if io 0 then Inl (Failed ''failed to get role template by name'')
      else (case filter (\<lambda>t. rt_Name t = name) (role_templates d) of
              [] \<Rightarrow> Inl (notFound ''role template by name'')
            | row # _ \<Rightarrow> toModel row))"

definition CreateRoleTemplate :: "io \<Rightarrow> TemplateModel \<Rightarrow> db \<Rightarrow> (store_error + unit) \<times> db" where
  "CreateRoleTemplate io t d =
     (let row = \<lparr>rt_ID = tm_ID t, rt_Name = tm_Name t, rt_DisplayName = tm_DisplayName t,
                 rt_Description = tm_Description t, rt_Scopes = marshal_strings (tm_Scopes t),
                 rt_IsSystem = tm_IsSystem t, rt_CreatedAt = tm_CreatedAt t, rt_UpdatedAt = tm_UpdatedAt t\<rparr>
      in if io 0 then (Inl (Failed ''failed to create role template''), d)
         else (case checked (d\<lparr>role_templates := role_templates d @ [row]\<rparr>) of
                 None \<Rightarrow> (Inl (Failed ''failed to create role template''), d)
               | Some d' \<Rightarrow> (Inr (), d')))"

subsection \<open>The two mutating statements\<close>

definition mutable_row :: "string \<Rightarrow> RoleTemplate \<Rightarrow> bool" where
  "mutable_row i t \<longleftrightarrow> rt_ID t = i \<and> \<not> rt_IsSystem t"

definition updateRoleTemplateStmt :: "time \<Rightarrow> TemplateModel \<Rightarrow> db \<Rightarrow> db" where
  "updateRoleTemplateStmt now t d =
     d\<lparr>role_templates := map (\<lambda>x. if mutable_row (tm_ID t) x
         then x\<lparr>rt_DisplayName := tm_DisplayName t, rt_Description := tm_Description t,
                rt_Scopes := marshal_strings (tm_Scopes t), rt_UpdatedAt := now\<rparr> else x) (role_templates d)\<rparr>"

definition deleteRoleTemplateStmt :: "string \<Rightarrow> db \<Rightarrow> db" where
  "deleteRoleTemplateStmt i d = delete_role_templates (mutable_row i) d"

definition execRoleTemplateMutation :: "io \<Rightarrow> (db \<Rightarrow> db) \<Rightarrow> string \<Rightarrow> db \<Rightarrow> (store_error + unit) \<times> db" where
  "execRoleTemplateMutation io stmt i d =
     (if io 0 then (Inl (Failed ''failed to mutate role template''), d)
      else if io 1 then (Inl (Failed ''failed to get rows affected mutating role template''), stmt d)
      else if length (filter (mutable_row i) (role_templates d)) = 0
      then (Inl (ErrNotFound ''role template not found or is a system template (immutable)''), stmt d)
      else (Inr (), stmt d))"

definition UpdateRoleTemplate :: "io \<Rightarrow> time \<Rightarrow> TemplateModel \<Rightarrow> db \<Rightarrow> (store_error + unit) \<times> db" where
  "UpdateRoleTemplate io now t d = execRoleTemplateMutation io (updateRoleTemplateStmt now t) (tm_ID t) d"

definition DeleteRoleTemplate :: "io \<Rightarrow> string \<Rightarrow> db \<Rightarrow> (store_error + unit) \<times> db" where
  "DeleteRoleTemplate io i d = execRoleTemplateMutation io (deleteRoleTemplateStmt i) i d"

subsection \<open>Lemmas\<close>

lemma updateRoleTemplateStmt_wf [wf_intros]: "db_wf d \<Longrightarrow> db_wf (updateRoleTemplateStmt now t d)"
proof -
  assume wf: "db_wf d"
  let ?f = "\<lambda>x. if mutable_row (tm_ID t) x
         then x\<lparr>rt_DisplayName := tm_DisplayName t, rt_Description := tm_Description t,
                rt_Scopes := marshal_strings (tm_Scopes t), rt_UpdatedAt := now\<rparr> else x"
  have ids: "map rt_ID (map ?f xs) = map rt_ID xs" "map rt_Name (map ?f xs) = map rt_Name xs" for xs
    by simp_all
  have "map rt_ID (role_templates (updateRoleTemplateStmt now t d)) = map rt_ID (role_templates d)"
    by (simp add: updateRoleTemplateStmt_def)
  then have "rt_ID ` set (role_templates (updateRoleTemplateStmt now t d)) = rt_ID ` set (role_templates d)"
    by (metis list.set_map)
  then have "member_ok (updateRoleTemplateStmt now t d) = member_ok d"
    by (intro ext) (simp add: member_ok_def updateRoleTemplateStmt_def)
  moreover have "key_ok (updateRoleTemplateStmt now t d) = key_ok d"
    by (intro ext) (simp add: key_ok_def updateRoleTemplateStmt_def)
  moreover have "templates_wf (updateRoleTemplateStmt now t d)"
    using wf ids [of "role_templates d"] by (simp add: db_wf_def templates_wf_def updateRoleTemplateStmt_def del: map_map)
  ultimately show ?thesis
    using wf by (simp add: db_wf_def orgs_wf_def users_wf_def members_wf_def keys_wf_def logs_wf_def tokens_wf_def
        claims_wf_def configs_wf_def) (simp add: updateRoleTemplateStmt_def)
qed

lemma deleteRoleTemplateStmt_wf [wf_intros]: "db_wf d \<Longrightarrow> db_wf (deleteRoleTemplateStmt i d)"
  unfolding deleteRoleTemplateStmt_def by (rule delete_role_templates_wf)

lemma CreateRoleTemplate_wf [wf_intros]: "db_wf d \<Longrightarrow> db_wf (snd (CreateRoleTemplate io t d))"
  by (auto simp: CreateRoleTemplate_def Let_def split: option.splits)

lemma execRoleTemplateMutation_state:
  "snd (execRoleTemplateMutation io stmt i d) = (if io 0 then d else stmt d)"
  by (simp add: execRoleTemplateMutation_def)

lemma execRoleTemplateMutation_Inr:
  "fst (execRoleTemplateMutation io stmt i d) = Inr () \<Longrightarrow>
     snd (execRoleTemplateMutation io stmt i d) = stmt d \<and> (\<exists>t \<in> set (role_templates d). mutable_row i t)"
  by (auto simp: execRoleTemplateMutation_def filter_empty_conv split: if_splits)

lemma no_mutable_row_update: "filter (mutable_row (tm_ID t)) (role_templates d) = [] \<Longrightarrow> updateRoleTemplateStmt now t d = d"
  by (cases d) (auto simp: updateRoleTemplateStmt_def filter_empty_conv intro!: map_idI)

lemma system_templates_update:
  "filter rt_IsSystem (role_templates (updateRoleTemplateStmt now t d)) = filter rt_IsSystem (role_templates d)"
proof -
  have "filter rt_IsSystem (map (\<lambda>x. if mutable_row i x then f x else x) xs) = filter rt_IsSystem xs"
    if "\<And>x. rt_IsSystem (f x) = rt_IsSystem x" for i f and xs :: "RoleTemplate list"
    using that by (induction xs) (auto simp: mutable_row_def)
  then show ?thesis by (simp add: updateRoleTemplateStmt_def)
qed

lemma system_templates_delete:
  "filter rt_IsSystem (role_templates (deleteRoleTemplateStmt i d)) = filter rt_IsSystem (role_templates d)"
  by (auto simp: deleteRoleTemplateStmt_def delete_role_templates_def Let_def mutable_row_def intro!: filter_cong)

text \<open>
  System templates are immutable. Neither updating nor deleting a template, whichever id is given
  and whatever fails, changes or removes a row marked \<open>is_system\<close>; naming one reports \<open>ErrNotFound\<close>.
\<close>

theorem system_templates_immutable:
  "filter rt_IsSystem (role_templates (snd (UpdateRoleTemplate io now t d))) = filter rt_IsSystem (role_templates d)
   \<and> filter rt_IsSystem (role_templates (snd (DeleteRoleTemplate io i d))) = filter rt_IsSystem (role_templates d)
   \<and> (list_all (\<lambda>x. rt_ID x = i \<longrightarrow> rt_IsSystem x) (role_templates d) \<and> \<not> io 0 \<and> \<not> io 1
        \<longrightarrow> (\<exists>w. fst (DeleteRoleTemplate io i d) = Inl (ErrNotFound w)))"
  by (auto simp: UpdateRoleTemplate_def DeleteRoleTemplate_def execRoleTemplateMutation_state system_templates_update
      system_templates_delete execRoleTemplateMutation_def list_all_iff filter_empty_conv mutable_row_def)

definition ex_system_db :: db where
  "ex_system_db = empty_db\<lparr>role_templates := [\<lparr>rt_ID = ''t1'', rt_Name = ''admin'', rt_DisplayName = ''Admin'',
     rt_Description = None, rt_Scopes = JStrings [''admin''], rt_IsSystem = True, rt_CreatedAt = 1, rt_UpdatedAt = 1\<rparr>]\<rparr>"

theorem system_templates_immutable_witness:
  "\<exists>w. fst (DeleteRoleTemplate no_faults ''t1'' ex_system_db) = Inl (ErrNotFound w)"
  using system_templates_immutable [of no_faults 0 undefined ex_system_db "''t1''"]
  by (simp add: ex_system_db_def list_all_iff)

end
