(* ===== verification/Template_Reconcile.thy ===== *)
theory Template_Reconcile
  imports Role_Template_Repo Reducer "HOL-Library.Product_Lexorder"
begin

text \<open>
  Package \<open>identity/store\<close>, file \<open>template_reconcile.go\<close>: the bounded, resumable sweep of the API keys
  a role-template edit strands, and its preview.

  A principal (\<open>TemplateAffected\<close>) is the pair of an organization and a user, ordered as the database
  orders the pair of columns. Each batch is a transaction of its own with its own driver calls (0 begin, 1
  and 2 the plan and its rows, 3 and 4 the keys and their rows, 5 and 6 the delete and its count) and its
  own commit outcome; \<open>cancelled n\<close> is what \<open>ctx.Err()\<close> reports before the n-th batch. No other writer
  runs between the batches.
\<close>

type_synonym TemplateAffected = "string \<times> string"

record TemplateReconcileImpact =
  im_Scanned :: nat
  im_Principals :: nat
  im_Keys :: nat

record TemplateReconcileResult =
  tr_BatchesRun :: nat
  tr_PrincipalsChecked :: nat
  tr_KeysSwept :: nat
  tr_KeysSpared :: nat
  tr_Cursor :: "TemplateAffected option"
  tr_Done :: bool

record ReconcileOptions =
  ro_BatchSize :: int
  ro_MaxBatches :: int
  ro_After :: "TemplateAffected option"

definition TemplateReconcileResult_zero :: TemplateReconcileResult where
  "TemplateReconcileResult_zero = \<lparr>tr_BatchesRun = 0, tr_PrincipalsChecked = 0, tr_KeysSwept = 0, tr_KeysSpared = 0,
     tr_Cursor = None, tr_Done = False\<rparr>"

subsection \<open>Preview\<close>

text \<open>The rows of \<open>templateAffectedWithKeysQuery\<close>: memberships naming the template, each with every key of
  that user in that organization, or once with no key.\<close>

definition keys_of :: "db \<Rightarrow> TemplateAffected \<Rightarrow> APIKey list" where
  "keys_of d p = filter (\<lambda>k. key_OrganizationID k = fst p \<and> key_UserID k = Some (snd p)) (api_keys d)"

definition templateHolders :: "db \<Rightarrow> string \<Rightarrow> TemplateAffected list" where
  "templateHolders d templateID =
     sort (map member_key (filter (\<lambda>m. mem_RoleTemplateID m = Some templateID) (organization_members d)))"

definition templateAffectedWithKeys :: "db \<Rightarrow> string \<Rightarrow> (TemplateAffected \<times> APIKey option) list" where
  "templateAffectedWithKeys d templateID =
     concat (map (\<lambda>p. case keys_of d p of [] \<Rightarrow> [(p, None)] | k # ks \<Rightarrow> map (\<lambda>x. (p, Some x)) (k # ks))
       (templateHolders d templateID))"

definition scanTemplateAffectedWithKey ::
    "TemplateAffected \<times> APIKey option \<Rightarrow> store_error + (TemplateAffected \<times> string list \<times> bool)" where
  "scanTemplateAffectedWithKey row =
     (case snd row of
        None \<Rightarrow> Inr (fst row, [], False)
      | Some k \<Rightarrow> (case unmarshal_strings (key_Scopes k) of
                     None \<Rightarrow> Inl (Failed ''unmarshalling api key scopes'')
                   | Some have \<Rightarrow> Inr (fst row, have, True)))"

fun previewLoop :: "string list \<Rightarrow> ReadWritePairs \<Rightarrow> (TemplateAffected \<times> APIKey option) list
    \<Rightarrow> TemplateAffected set \<Rightarrow> TemplateAffected set \<Rightarrow> nat
    \<Rightarrow> store_error + (TemplateAffected set \<times> TemplateAffected set \<times> nat)" where
  "previewLoop proposed rw [] scanned doomed n = Inr (scanned, doomed, n)"
| "previewLoop proposed rw (r # rs) scanned doomed n =
     (case scanTemplateAffectedWithKey r of
        Inl e \<Rightarrow> Inl e
      | Inr (p, have, hasKey) \<Rightarrow>
          if \<not> hasKey then previewLoop proposed rw rs (insert p scanned) doomed n
          else if AuthorityRetained have proposed rw then previewLoop proposed rw rs (insert p scanned) doomed n
          else previewLoop proposed rw rs (insert p scanned) (insert p doomed) (n + 1))"

definition PreviewRoleTemplateReconciliation :: "io \<Rightarrow> bool \<Rightarrow> string \<Rightarrow> string list \<Rightarrow> ReadWritePairs \<Rightarrow> db
    \<Rightarrow> store_error + TemplateReconcileImpact" where
  "PreviewRoleTemplateReconciliation io hasDB templateID proposedScopes rwPairs d =
     (if \<not> hasDB then Inl ErrNoTemplateReconciler
      else if templateID = '''' then Inl EmptyTemplateID
      else if io 0 then Inl (Failed ''role-template reconciliation preview: reading membership'')
      else (case previewLoop proposedScopes rwPairs (templateAffectedWithKeys d templateID) {} {} 0 of
              Inl e \<Rightarrow> Inl e
            | Inr (scanned, doomed, n) \<Rightarrow>
                if io 1 then Inl (Failed ''role-template reconciliation preview'')
                else Inr \<lparr>im_Scanned = card scanned, im_Principals = card doomed, im_Keys = n\<rparr>))"

subsection \<open>One batch\<close>

definition planBatch :: "io \<Rightarrow> string \<Rightarrow> TemplateAffected option \<Rightarrow> int \<Rightarrow> db \<Rightarrow> store_error + TemplateAffected list" where
  "planBatch io templateID after batchSize d =
     (if io 1 then Inl (Failed ''role-template reconciliation: planning batch'')
      else if io 2 then Inl (Failed ''role-template reconciliation: scanning planned principal'')
      else Inr (take (nat batchSize)
        (case after of None \<Rightarrow> templateHolders d templateID
         | Some a \<Rightarrow> filter (\<lambda>p. a < p) (templateHolders d templateID))))"

text \<open>The rows of \<open>batchKeysQuery\<close>: keys joined with the page and, again, with the memberships naming the
  template.\<close>

definition batchKeys :: "db \<Rightarrow> string \<Rightarrow> TemplateAffected list \<Rightarrow> APIKey list" where
  "batchKeys d templateID page =
     concat (map (\<lambda>k. concat (map (\<lambda>p. map (\<lambda>m. k)
       (filter (\<lambda>m. member_key m = p \<and> mem_RoleTemplateID m = Some templateID) (organization_members d)))
       (filter (\<lambda>p. key_OrganizationID k = fst p \<and> key_UserID k = Some (snd p)) page))) (api_keys d))"

fun batchLoop :: "string list \<Rightarrow> ReadWritePairs \<Rightarrow> APIKey list \<Rightarrow> string list \<Rightarrow> nat \<Rightarrow> store_error + (string list \<times> nat)" where
  "batchLoop proposed rw [] doomed spared = Inr (doomed, spared)"
| "batchLoop proposed rw (k # ks) doomed spared =
     (case unmarshal_strings (key_Scopes k) of
        None \<Rightarrow> Inl (Failed ''unmarshalling api key scopes'')
      | Some have \<Rightarrow>
          if AuthorityRetained have proposed rw then batchLoop proposed rw ks doomed (spared + 1)
          else batchLoop proposed rw ks (doomed @ [key_ID k]) spared)"

definition sweepBatchKeys :: "io \<Rightarrow> string \<Rightarrow> string list \<Rightarrow> ReadWritePairs \<Rightarrow> TemplateAffected list \<Rightarrow> db
    \<Rightarrow> (store_error + (nat \<times> nat)) \<times> db" where
  "sweepBatchKeys io templateID proposed rw page d =
     (if io 3 then (Inl (Failed ''role-template reconciliation: reading locked api keys''), d)
      else (case batchLoop proposed rw (batchKeys d templateID page) [] 0 of
              Inl e \<Rightarrow> (Inl e, d)
            | Inr (doomed, spared) \<Rightarrow>
                if io 4 then (Inl (Failed ''role-template reconciliation: reading locked api keys''), d)
                else if length doomed = 0 then (Inr (0, spared), d)
                else if io 5 then (Inl (Failed ''role-template reconciliation: sweeping api keys''), d)
                else
                  let hit = selected (pairs d) key_cols (P_any ''id'' 1, [VTexts doomed]);
                      d' = delete_keys hit d
                  in case affectedRows (io 6) (length (filter hit (api_keys d))) ''template-reconciliation api keys'' of
                       Inl e \<Rightarrow> (Inl e, d')
                     | Inr n \<Rightarrow>
                         if n \<noteq> length doomed then (Inl (CountMismatch (length doomed) n), d')
                         else (Inr (n, spared), d')))"

definition reconcileOneBatch :: "io \<Rightarrow> commit_outcome \<Rightarrow> string \<Rightarrow> string list \<Rightarrow> ReadWritePairs \<Rightarrow> int
    \<Rightarrow> TemplateAffected option \<Rightarrow> db \<Rightarrow> (store_error + (TemplateAffected list \<times> nat \<times> nat)) \<times> db" where
  "reconcileOneBatch io cm templateID proposed rw batchSize after d =
     (if io 0 then (Inl (Failed ''role-template reconciliation: beginning batch''), d)
      else (case planBatch io templateID after batchSize d of
              Inl e \<Rightarrow> (Inl e, d)
            | Inr page \<Rightarrow>
                if page = []
                then commit_tx cm (Failed ''role-template reconciliation: committing empty batch'') (page, 0, 0) d d
                else (case sweepBatchKeys io templateID proposed rw page d of
                        (Inl e, _) \<Rightarrow> (Inl e, d)
                      | (Inr (nswept, spared), d') \<Rightarrow>
                          commit_tx cm (Failed ''role-template reconciliation: committing batch'') (page, nswept, spared) d d')))"

subsection \<open>Facts about a batch\<close>

lemma sweepBatchKeys_members [simp]:
  "organization_members (snd (sweepBatchKeys io t proposed rw page d)) = organization_members d"
  by (simp add: sweepBatchKeys_def Let_def split: sum.splits prod.splits)

lemma reconcileOneBatch_state:
  assumes "reconcileOneBatch io cm t proposed rw n after d = (res, d')"
  shows "d' = d \<or> (\<exists>page r. planBatch io t after n d = Inr page \<and> page \<noteq> []
    \<and> sweepBatchKeys io t proposed rw page d = (Inr r, d') \<and> cm \<noteq> RolledBack)"
  using assms by (auto simp: reconcileOneBatch_def commit_tx_def split: if_splits sum.splits prod.splits commit_outcome.splits)

lemma reconcileOneBatch_members:
  assumes "reconcileOneBatch io cm t proposed rw n after d = (res, d')"
  shows "organization_members d' = organization_members d"
  using reconcileOneBatch_state [OF assms] by (metis snd_conv sweepBatchKeys_members)

lemma templateHolders_cong: "organization_members d' = organization_members d \<Longrightarrow> templateHolders d' t = templateHolders d t"
  by (simp add: templateHolders_def)

text \<open>The principals of a template strictly after a cursor.\<close>

definition beyond :: "TemplateAffected option \<Rightarrow> TemplateAffected \<Rightarrow> bool" where
  "beyond after p = (case after of None \<Rightarrow> True | Some a \<Rightarrow> a < p)"

definition remaining :: "db \<Rightarrow> string \<Rightarrow> TemplateAffected option \<Rightarrow> TemplateAffected list" where
  "remaining d t after = filter (beyond after) (templateHolders d t)"

lemma beyond_simps [simp]: "beyond None p" "beyond (Some a) p \<longleftrightarrow> a < p"
  by (simp_all add: beyond_def)

lemma planBatch_Inr: "planBatch io t after n d = Inr page \<Longrightarrow> page = take (nat n) (remaining d t after)"
  by (cases after) (auto simp: planBatch_def remaining_def cong: filter_cong split: if_splits)

lemma reconcileOneBatch_Inr:
  assumes "reconcileOneBatch io cm t proposed rw n after d = (Inr (page, nswept, spared), d')"
  shows "page = take (nat n) (remaining d t after)
    \<and> (if page = [] then d' = d \<and> nswept = 0 \<and> spared = 0
       else sweepBatchKeys io t proposed rw page d = (Inr (nswept, spared), d'))"
proof -
  obtain pg where "planBatch io t after n d = Inr pg"
    using assms by (cases "planBatch io t after n d") (simp_all add: reconcileOneBatch_def split: if_splits)
  with assms planBatch_Inr [OF this] show ?thesis
    by (cases "pg = []") (auto simp: reconcileOneBatch_def commit_tx_Inr simp del: take_eq_Nil split: if_splits sum.splits prod.splits)
qed

lemma remaining_sorted: "sorted (remaining d t after)"
  by (simp add: remaining_def templateHolders_def sorted_wrt_filter)

lemma beyond_last:
  assumes "page = take n (remaining d t after)" "page \<noteq> []" "last page < p"
  shows "beyond after p"
proof -
  have "last page \<in> set (remaining d t after)"
    using assms by (metis in_set_takeD last_in_set)
  then have "beyond after (last page)" by (simp add: remaining_def)
  with assms(3) show ?thesis by (auto simp: beyond_def split: option.splits)
qed

lemma remaining_after_last:
  assumes "page = take n (remaining d t after)" "page \<noteq> []"
  shows "remaining d t (Some (last page)) = filter (\<lambda>p. last page < p) (remaining d t after)"
  using beyond_last [OF assms] by (auto simp: remaining_def beyond_def intro!: filter_cong)

lemma remaining_shrinks:
  assumes "page = take n (remaining d t after)" "page \<noteq> []"
  shows "length (remaining d t (Some (last page))) < length (remaining d t after)"
proof -
  have "last page \<in> set (remaining d t after)" using assms by (metis in_set_takeD last_in_set)
  then show ?thesis
    unfolding remaining_after_last [OF assms] using length_filter_less by fastforce
qed

subsection \<open>The sweep\<close>

function reconcileLoop :: "(nat \<Rightarrow> bool) \<Rightarrow> (nat \<Rightarrow> io) \<Rightarrow> (nat \<Rightarrow> commit_outcome) \<Rightarrow> string \<Rightarrow> string list \<Rightarrow> ReadWritePairs
    \<Rightarrow> int \<Rightarrow> int \<Rightarrow> TemplateAffected option \<Rightarrow> TemplateReconcileResult \<Rightarrow> db
    \<Rightarrow> (store_error + TemplateReconcileResult) \<times> db" where
  "reconcileLoop cancelled ios cms t proposed rw batchSize maxBatches cursor result d =
     (if cancelled (tr_BatchesRun result) then (Inr (result\<lparr>tr_Done := False, tr_Cursor := cursor\<rparr>), d)
      else if maxBatches > 0 \<and> int (tr_BatchesRun result) \<ge> maxBatches
      then (Inr (result\<lparr>tr_Done := False, tr_Cursor := cursor\<rparr>), d)
      else (case reconcileOneBatch (ios (tr_BatchesRun result)) (cms (tr_BatchesRun result)) t proposed rw batchSize cursor d of
              (Inl e, d') \<Rightarrow> (Inl e, d')
            | (Inr (page, nswept, spared), d') \<Rightarrow>
                let result1 = result\<lparr>tr_BatchesRun := tr_BatchesRun result + 1,
                      tr_PrincipalsChecked := tr_PrincipalsChecked result + length page,
                      tr_KeysSwept := tr_KeysSwept result + nswept, tr_KeysSpared := tr_KeysSpared result + spared\<rparr>
                in if page = [] then (Inr (result1\<lparr>tr_Done := True, tr_Cursor := None\<rparr>), d')
                   else if int (length page) < batchSize then (Inr (result1\<lparr>tr_Done := True, tr_Cursor := None\<rparr>), d')
                   else reconcileLoop cancelled ios cms t proposed rw batchSize maxBatches (Some (last page)) result1 d'))"
  by pat_completeness auto

termination
proof (relation "measure (\<lambda>(cancelled, ios, cms, t, proposed, rw, n, mx, cursor, result, d). length (remaining d t cursor))",
    goal_cases)
  case 1
  then show ?case by simp
next
  case (2 cancelled ios cms t proposed rw batchSize maxBatches cursor result d x d' y page z nswept spared result1)
  then have step: "reconcileOneBatch (ios (tr_BatchesRun result)) (cms (tr_BatchesRun result)) t proposed rw batchSize cursor d
      = (Inr (page, nswept, spared), d')" by simp
  have "remaining d' t c = remaining d t c" for c
    using templateHolders_cong [OF reconcileOneBatch_members [OF step]] by (simp add: remaining_def)
  then show ?case
    using remaining_shrinks [of page "nat batchSize" d t cursor] reconcileOneBatch_Inr [OF step] 2 by simp
qed

declare reconcileLoop.simps [simp del]

definition ReconcileRoleTemplate :: "(nat \<Rightarrow> bool) \<Rightarrow> (nat \<Rightarrow> io) \<Rightarrow> (nat \<Rightarrow> commit_outcome) \<Rightarrow> bool \<Rightarrow> string \<Rightarrow> string list
    \<Rightarrow> ReadWritePairs \<Rightarrow> ReconcileOptions \<Rightarrow> db \<Rightarrow> (store_error + TemplateReconcileResult) \<times> db" where
  "ReconcileRoleTemplate cancelled ios cms hasDB templateID proposedScopes rwPairs opts d =
     (if \<not> hasDB then (Inl ErrNoTemplateReconciler, d)
      else if templateID = '''' then (Inl EmptyTemplateID, d)
      else if ro_BatchSize opts \<le> 0 then (Inl (BatchSizeNotPositive (ro_BatchSize opts)), d)
      else reconcileLoop cancelled ios cms templateID proposedScopes rwPairs (ro_BatchSize opts) (ro_MaxBatches opts)
             (ro_After opts) TemplateReconcileResult_zero d)"

subsection \<open>Specification of the sweep\<close>

text \<open>The principal a key acts for, and the keys a proposed scope list strands: those of a principal that
  satisfies \<open>P\<close> and holds the template, whose scopes the list does not cover.\<close>

definition key_principal :: "APIKey \<Rightarrow> TemplateAffected option" where
  "key_principal k = map_option (\<lambda>u. (key_OrganizationID k, u)) (key_UserID k)"

definition retained_by :: "string list \<Rightarrow> ReadWritePairs \<Rightarrow> APIKey \<Rightarrow> bool" where
  "retained_by proposed rw k \<longleftrightarrow>
     (case unmarshal_strings (key_Scopes k) of None \<Rightarrow> False | Some have \<Rightarrow> \<forall>s \<in> set have. HasScope proposed s rw)"

definition held_key :: "db \<Rightarrow> string \<Rightarrow> (TemplateAffected \<Rightarrow> bool) \<Rightarrow> APIKey \<Rightarrow> bool" where
  "held_key d t P k \<longleftrightarrow> (\<exists>p. key_principal k = Some p \<and> p \<in> set (templateHolders d t) \<and> P p)"

definition stranded :: "db \<Rightarrow> string \<Rightarrow> string list \<Rightarrow> ReadWritePairs \<Rightarrow> (TemplateAffected \<Rightarrow> bool) \<Rightarrow> APIKey \<Rightarrow> bool" where
  "stranded d t proposed rw P k \<longleftrightarrow> held_key d t P k \<and> \<not> retained_by proposed rw k"

lemma set_templateHolders:
  "set (templateHolders d t) = {member_key m | m. m \<in> set (organization_members d) \<and> mem_RoleTemplateID m = Some t}"
  by (auto simp: templateHolders_def)

lemma distinct_templateHolders: "members_wf d \<Longrightarrow> distinct (templateHolders d t)"
  by (simp add: templateHolders_def members_wf_def distinct_map_filter)

lemma held_key_delete_keys [simp]: "held_key (delete_keys P d) = held_key d"
  by (intro ext) (simp add: held_key_def templateHolders_def)

lemma stranded_delete_keys [simp]: "stranded (delete_keys P d) = stranded d"
  by (intro ext) (simp add: stranded_def)

lemma delete_keys_twice: "delete_keys P (delete_keys Q d) = delete_keys (\<lambda>k. Q k \<or> P k) d"
  by (simp add: delete_keys_def)

lemma unique_filter:
  assumes "distinct (map f xs)" "x \<in> set xs"
  shows "filter (\<lambda>y. f y = f x) xs = [x]"
  using assms
proof (induction xs)
  case (Cons a xs)
  show ?case
  proof (cases "x = a")
    case True
    then have "filter (\<lambda>y. f y = f x) xs = []" using Cons.prems(1) by (auto simp: filter_empty_conv image_iff)
    with True show ?thesis by simp
  next
    case False
    with Cons show ?thesis by (auto simp: image_iff)
  qed
qed simp

text \<open>The join of a batch yields each key of a holder on the page once.\<close>

lemma template_rows:
  assumes "members_wf d"
  shows "filter (\<lambda>m. member_key m = p \<and> mem_RoleTemplateID m = Some t) (organization_members d)
    = (case find (\<lambda>m. member_key m = p \<and> mem_RoleTemplateID m = Some t) (organization_members d) of
         None \<Rightarrow> [] | Some m \<Rightarrow> [m])"
proof (cases "find (\<lambda>m. member_key m = p \<and> mem_RoleTemplateID m = Some t) (organization_members d)")
  case None
  then have "filter (\<lambda>m. member_key m = p \<and> mem_RoleTemplateID m = Some t) (organization_members d) = []"
    by (auto simp: find_None_iff filter_empty_conv)
  with None show ?thesis by simp
next
  case (Some m)
  then have m: "m \<in> set (organization_members d)" "member_key m = p" "mem_RoleTemplateID m = Some t"
    by (auto simp: find_Some_iff)
  have "filter (\<lambda>y. member_key y = member_key m) (organization_members d) = [m]"
    using assms m(1) by (intro unique_filter) (simp_all add: members_wf_def)
  then have "filter (\<lambda>y. mem_RoleTemplateID y = Some t) (filter (\<lambda>y. member_key y = p) (organization_members d)) = [m]"
    using m by simp
  then show ?thesis using Some by (simp add: conj_commute)
qed

lemma batchKeys_one:
  assumes "members_wf d" "distinct page"
  shows "concat (map (\<lambda>p. map (\<lambda>m. k) (filter (\<lambda>m. member_key m = p \<and> mem_RoleTemplateID m = Some t) (organization_members d)))
      (filter (\<lambda>p. key_OrganizationID k = fst p \<and> key_UserID k = Some (snd p)) page))
    = (if held_key d t (\<lambda>p. p \<in> set page) k then [k] else [])"
proof (cases "key_principal k")
  case None
  then have "filter (\<lambda>p. key_OrganizationID k = fst p \<and> key_UserID k = Some (snd p)) page = []"
    by (auto simp: key_principal_def filter_empty_conv)
  with None show ?thesis by (simp add: held_key_def)
next
  case (Some q)
  then have eq: "(key_OrganizationID k = fst p \<and> key_UserID k = Some (snd p)) \<longleftrightarrow> p = q" for p
    by (cases p) (auto simp: key_principal_def)
  have "filter (\<lambda>p. p = q) page = (if q \<in> set page then [q] else [])"
    using unique_filter [of id page q] assms(2) by (auto simp: filter_empty_conv)
  then show ?thesis
    using Some by (auto simp: eq template_rows [OF assms(1)] held_key_def set_templateHolders find_None_iff find_Some_iff
        split: option.splits)
qed

lemma concat_if_filter: "concat (map (\<lambda>k. if P k then [k] else []) xs) = filter P xs"
  by (induction xs) auto

lemma batchKeys_filter:
  "members_wf d \<Longrightarrow> distinct page \<Longrightarrow> batchKeys d t page = filter (held_key d t (\<lambda>p. p \<in> set page)) (api_keys d)"
  by (simp add: batchKeys_def batchKeys_one concat_if_filter)

lemma batchLoop_spec:
  assumes "batchLoop proposed rw ks doomed spared = Inr (doomed', spared')"
  shows "doomed' = doomed @ map key_ID (filter (\<lambda>k. \<not> retained_by proposed rw k) ks)
    \<and> spared' = spared + length (filter (retained_by proposed rw) ks)
    \<and> (\<forall>k \<in> set ks. unmarshal_strings (key_Scopes k) \<noteq> None)"
  using assms
  by (induction proposed rw ks doomed spared rule: batchLoop.induct)
    (auto simp: retained_by_def AuthorityRetained_iff split: option.splits if_splits)

lemma sweepBatchKeys_spec:
  assumes wf: "members_wf d" "keys_wf d" and "distinct page"
    and sweep: "sweepBatchKeys io t proposed rw page d = (Inr (nswept, spared), d')"
  shows "d' = delete_keys (stranded d t proposed rw (\<lambda>p. p \<in> set page)) d
    \<and> nswept = length (filter (stranded d t proposed rw (\<lambda>p. p \<in> set page)) (api_keys d))
    \<and> (\<forall>k \<in> set (api_keys d). held_key d t (\<lambda>p. p \<in> set page) k \<longrightarrow> unmarshal_strings (key_Scopes k) \<noteq> None)"
proof -
  let ?P = "\<lambda>p. p \<in> set page"
  note rows = batchKeys_filter [OF wf(1) assms(3), of t]
  obtain doomed sp where loop: "batchLoop proposed rw (batchKeys d t page) [] 0 = Inr (doomed, sp)"
    using sweep by (cases "batchLoop proposed rw (batchKeys d t page) [] 0") (auto simp: sweepBatchKeys_def split: if_splits)
  have d': "d' = (if doomed = [] then d else delete_keys (\<lambda>k. key_ID k \<in> set doomed) d)" and n: "nswept = length doomed"
    using sweep loop by (auto simp: sweepBatchKeys_def Let_def key_id_rows affectedRows_def split: if_splits)
  have spec: "doomed = map key_ID (filter (\<lambda>k. \<not> retained_by proposed rw k) (filter (held_key d t ?P) (api_keys d)))"
    "\<forall>k \<in> set (filter (held_key d t ?P) (api_keys d)). unmarshal_strings (key_Scopes k) \<noteq> None"
    using batchLoop_spec [OF loop] unfolding rows by simp_all
  have dm: "doomed = map key_ID (filter (stranded d t proposed rw ?P) (api_keys d))"
    unfolding spec(1) filter_filter by (intro arg_cong [where f = "map key_ID"] filter_cong) (auto simp: stranded_def)
  have "filter (\<lambda>k. \<not> key_ID k \<in> set doomed) (api_keys d) = filter (\<lambda>k. \<not> stranded d t proposed rw ?P k) (api_keys d)"
    using wf(2) ids_of_filter [of key_ID "api_keys d" _ "stranded d t proposed rw ?P"]
    unfolding dm keys_wf_def by (intro filter_cong) blast+
  moreover have "doomed = [] \<Longrightarrow> filter (\<lambda>k. \<not> stranded d t proposed rw ?P k) (api_keys d) = api_keys d"
    unfolding dm by (simp add: filter_empty_conv)
  ultimately have "d' = delete_keys (stranded d t proposed rw ?P) d"
    unfolding d' delete_keys_def by auto
  with spec(2) n dm show ?thesis by simp
qed

lemma stranded_cong:
  "(\<And>p. p \<in> set (templateHolders d t) \<Longrightarrow> P p = Q p) \<Longrightarrow> stranded d t proposed rw P = stranded d t proposed rw Q"
  by (intro ext) (auto simp: stranded_def held_key_def)

lemma stranded_none [simp]: "delete_keys (stranded d t proposed rw (\<lambda>p. False)) d = d"
  by (simp add: stranded_def held_key_def delete_keys_def)

text \<open>What one batch does to the database, whatever its outcome: nothing, or its whole page.\<close>

lemma distinct_remaining: "members_wf d \<Longrightarrow> distinct (remaining d t after)"
  by (simp add: remaining_def distinct_templateHolders)

lemma reconcileOneBatch_effect:
  assumes "db_wf d" "reconcileOneBatch io cm t proposed rw n after d = (res, d')"
  shows "d' = d \<or> d' = delete_keys (stranded d t proposed rw (\<lambda>p. p \<in> set (take (nat n) (remaining d t after)))) d"
proof -
  have wf: "members_wf d" "keys_wf d" using assms(1) by (simp_all add: db_wf_def)
  { fix page r assume page: "planBatch io t after n d = Inr page" and sw: "sweepBatchKeys io t proposed rw page d = (Inr r, d')"
    have "distinct page" using planBatch_Inr [OF page] distinct_remaining [OF wf(1)] by simp
    with sweepBatchKeys_spec [OF wf] sw planBatch_Inr [OF page] have ?thesis by (cases r) blast }
  with reconcileOneBatch_state [OF assms(2)] show ?thesis by blast
qed

subsection \<open>The whole sweep\<close>

lemma take_sorted_iff:
  assumes "sorted xs" "distinct xs" "take n xs \<noteq> []"
  shows "p \<in> set (take n xs) \<longleftrightarrow> p \<in> set xs \<and> p \<le> last (take n xs)"
proof -
  have split: "xs = take n xs @ drop n xs" by simp
  then have ap: "sorted (take n xs)" "\<forall>x \<in> set (take n xs). \<forall>y \<in> set (drop n xs). x \<le> y"
    "set (take n xs) \<inter> set (drop n xs) = {}"
    using assms(1,2) by (metis sorted_append, metis sorted_append, metis distinct_append)
  have last: "last (take n xs) \<in> set (take n xs)" using assms(3) by simp
  have "x \<le> last (take n xs)" if "x \<in> set (take n xs)" for x
    using ap(1) that assms(3) by (metis append_butlast_last_id in_set_butlast_appendI last_in_set order_refl rotate1.simps(2)
        set_ConsD set_rotate1 sorted_wrt_append list.set_intros(1))
  moreover have "\<not> y \<le> last (take n xs)" if "y \<in> set (drop n xs)" for y
    using ap(2,3) that last by (metis antisym disjoint_iff)
  moreover have "set xs = set (take n xs) \<union> set (drop n xs)" by (metis split set_append)
  ultimately show ?thesis by blast
qed

text \<open>Where a run stopped, as the set of principals it covered.\<close>

definition covered :: "TemplateAffected option \<Rightarrow> store_error + TemplateReconcileResult \<Rightarrow> (TemplateAffected \<Rightarrow> bool) \<Rightarrow> bool" where
  "covered cursor res B \<longleftrightarrow>
     (case res of Inl e \<Rightarrow> True
      | Inr r \<Rightarrow> if tr_Done r then tr_Cursor r = None \<and> (\<forall>p. B p)
                 else (\<forall>p. B p \<longleftrightarrow> \<not> beyond (tr_Cursor r) p) \<and> (\<forall>p. \<not> beyond cursor p \<longrightarrow> B p))"

lemma page_covers:
  assumes "members_wf d" "page = take n (remaining d t cursor)" "page \<noteq> []" "p \<in> set (templateHolders d t)"
  shows "p \<in> set page \<longleftrightarrow> beyond cursor p \<and> p \<le> last page"
  using take_sorted_iff [OF remaining_sorted distinct_remaining [OF assms(1)], of n t cursor] assms(2-4)
  by (auto simp: remaining_def)

text \<open>The four ways an iteration goes.\<close>

definition stops :: "(nat \<Rightarrow> bool) \<Rightarrow> int \<Rightarrow> TemplateReconcileResult \<Rightarrow> bool" where
  "stops cancelled maxBatches result \<longleftrightarrow>
     cancelled (tr_BatchesRun result) \<or> maxBatches > 0 \<and> int (tr_BatchesRun result) \<ge> maxBatches"

definition advance :: "TemplateReconcileResult \<Rightarrow> TemplateAffected list \<Rightarrow> nat \<Rightarrow> nat \<Rightarrow> TemplateReconcileResult" where
  "advance result page nswept spared = result\<lparr>tr_BatchesRun := tr_BatchesRun result + 1,
     tr_PrincipalsChecked := tr_PrincipalsChecked result + length page,
     tr_KeysSwept := tr_KeysSwept result + nswept, tr_KeysSpared := tr_KeysSpared result + spared\<rparr>"

lemma loop_stop:
  "stops cancelled mx result \<Longrightarrow> reconcileLoop cancelled ios cms t proposed rw n mx cursor result d
     = (Inr (result\<lparr>tr_Done := False, tr_Cursor := cursor\<rparr>), d)"
  by (subst reconcileLoop.simps) (auto simp: stops_def)

lemma loop_error:
  "\<not> stops cancelled mx result \<Longrightarrow>
   reconcileOneBatch (ios (tr_BatchesRun result)) (cms (tr_BatchesRun result)) t proposed rw n cursor d = (Inl e, d1) \<Longrightarrow>
   reconcileLoop cancelled ios cms t proposed rw n mx cursor result d = (Inl e, d1)"
  by (subst reconcileLoop.simps) (simp add: stops_def)

lemma loop_done:
  "\<not> stops cancelled mx result \<Longrightarrow>
   reconcileOneBatch (ios (tr_BatchesRun result)) (cms (tr_BatchesRun result)) t proposed rw n cursor d
     = (Inr (page, nswept, spared), d1) \<Longrightarrow> page = [] \<or> int (length page) < n \<Longrightarrow>
   reconcileLoop cancelled ios cms t proposed rw n mx cursor result d
     = (Inr (advance result page nswept spared\<lparr>tr_Done := True, tr_Cursor := None\<rparr>), d1)"
  by (subst reconcileLoop.simps) (auto simp: stops_def advance_def Let_def)

lemma loop_next:
  "\<not> stops cancelled mx result \<Longrightarrow>
   reconcileOneBatch (ios (tr_BatchesRun result)) (cms (tr_BatchesRun result)) t proposed rw n cursor d
     = (Inr (page, nswept, spared), d1) \<Longrightarrow> page \<noteq> [] \<Longrightarrow> \<not> int (length page) < n \<Longrightarrow>
   reconcileLoop cancelled ios cms t proposed rw n mx cursor result d
     = reconcileLoop cancelled ios cms t proposed rw n mx (Some (last page)) (advance result page nswept spared) d1"
  by (subst reconcileLoop.simps) (auto simp: stops_def advance_def Let_def)

lemma batch_Inr_effect:
  assumes "db_wf d" "n > 0" "reconcileOneBatch io cm t proposed rw n cursor d = (Inr (page, nswept, spared), d1)"
  shows "d1 = delete_keys (stranded d t proposed rw (\<lambda>p. p \<in> set page)) d \<and> page = take (nat n) (remaining d t cursor)
    \<and> nswept = length (filter (stranded d t proposed rw (\<lambda>p. p \<in> set page)) (api_keys d))"
proof -
  have wf: "members_wf d" "keys_wf d" using assms(1) by (simp_all add: db_wf_def)
  note spec = reconcileOneBatch_Inr [OF assms(3)]
  have "distinct page" using spec distinct_remaining [OF wf(1)] by simp
  show ?thesis
  proof (cases "page = []")
    case True
    with spec show ?thesis by (simp add: stranded_def held_key_def)
  next
    case False
    then have "sweepBatchKeys io t proposed rw page d = (Inr (nswept, spared), d1)" using spec by metis
    from sweepBatchKeys_spec [OF wf \<open>distinct page\<close> this] spec show ?thesis by blast
  qed
qed

text \<open>The last page covers all that remains.\<close>

lemma last_page:
  assumes "page = take (nat n) (remaining d t cursor)" "n > 0" "page = [] \<or> int (length page) < n"
  shows "set page = set (remaining d t cursor)"
proof -
  have "length (remaining d t cursor) \<le> nat n" using assms by (cases "page = []") (auto simp: min_def split: if_splits)
  with assms(1) show ?thesis by simp
qed

text \<open>A full page and then the batches after its last member: the effects compose.\<close>

lemma next_page_effect:
  assumes wf: "members_wf d" and page: "page = take (nat n) (remaining d t cursor)" "page \<noteq> []"
    and d1: "d1 = delete_keys (stranded d t proposed rw (\<lambda>p. p \<in> set page)) d" and same: "templateHolders d1 t = templateHolders d t"
    and d': "d' = delete_keys (stranded d1 t proposed rw (\<lambda>p. beyond (Some (last page)) p \<and> B p)) d1"
    and B: "covered (Some (last page)) res B"
  shows "\<exists>B. d' = delete_keys (stranded d t proposed rw (\<lambda>p. beyond cursor p \<and> B p)) d \<and> covered cursor res B"
proof -
  have beyond: "beyond cursor p" if "last page < p" for p using beyond_last [OF page that] .
  have "d' = delete_keys (stranded d t proposed rw (\<lambda>p. beyond cursor p \<and> (p \<le> last page \<or> B p))) d"
    unfolding d' using d1 same beyond page_covers [OF wf page]
    by (auto simp: delete_keys_twice stranded_def held_key_def intro!: arg_cong [where f = "\<lambda>P. delete_keys P d"] ext)
  moreover have "covered cursor res (\<lambda>p. p \<le> last page \<or> B p)"
    using B beyond by (auto simp: covered_def split: sum.splits if_splits)
  ultimately show ?thesis by (intro exI [of _ "\<lambda>p. p \<le> last page \<or> B p"] conjI)
qed

lemma reconcileLoop_effect:
  assumes "db_wf d" "n > 0"
    and "reconcileLoop cancelled ios cms t proposed rw n mx cursor result d = (res, d')"
  shows "\<exists>B. d' = delete_keys (stranded d t proposed rw (\<lambda>p. beyond cursor p \<and> B p)) d \<and> covered cursor res B"
  using assms(1,3)
proof (induction "length (remaining d t cursor)" arbitrary: cursor result d rule: less_induct)
  case less
  let ?io = "ios (tr_BatchesRun result)" and ?cm = "cms (tr_BatchesRun result)"
  consider (stop) "stops cancelled mx result"
    | (error) e d1 where "\<not> stops cancelled mx result" "reconcileOneBatch ?io ?cm t proposed rw n cursor d = (Inl e, d1)"
    | (page) page a b d1 where "\<not> stops cancelled mx result"
        "reconcileOneBatch ?io ?cm t proposed rw n cursor d = (Inr (page, a, b), d1)"
    by (metis prod.exhaust sum.exhaust)
  then show ?case
  proof cases
    case stop
    then show ?thesis
      using less.prems(2) loop_stop [of cancelled mx result ios cms t proposed rw n cursor d]
      by (auto intro!: exI [of _ "\<lambda>p. \<not> beyond cursor p"] simp: covered_def)
  next
    case error
    have "res = Inl e" "d' = d1" using loop_error [of cancelled mx result ios cms t proposed rw n cursor d e d1] error less.prems(2) by auto
    moreover have "stranded d t proposed rw (\<lambda>p. p \<in> set (take (nat n) (remaining d t cursor)))
        = stranded d t proposed rw (\<lambda>p. beyond cursor p \<and> p \<in> set (take (nat n) (remaining d t cursor)))"
      by (rule stranded_cong) (auto simp: remaining_def dest: in_set_takeD)
    ultimately show ?thesis
      using reconcileOneBatch_effect [OF less.prems(1) error(2)] by (auto simp: covered_def intro: exI [of _ "\<lambda>p. False"])
  next
    case page
    have wf: "members_wf d" using less.prems(1) by (simp add: db_wf_def)
    note eff = batch_Inr_effect [OF less.prems(1) assms(2) page(2)]
    show ?thesis
    proof (cases "page = [] \<or> int (length page) < n")
      case True
      have "set page = set (remaining d t cursor)" using last_page [OF _ assms(2) True] eff by blast
      then have "stranded d t proposed rw (\<lambda>p. p \<in> set page) = stranded d t proposed rw (\<lambda>p. beyond cursor p \<and> True)"
        by (intro stranded_cong) (auto simp: remaining_def)
      then show ?thesis
        using eff loop_done [of cancelled mx result ios cms t proposed rw n cursor d page a b d1] page True less.prems(2) by (intro exI [of _ "\<lambda>p. True"]) (auto simp: covered_def)
    next
      case False
      then have ne: "page \<noteq> []" "\<not> int (length page) < n" by auto
      have same: "remaining d1 t c = remaining d t c" "templateHolders d1 t = templateHolders d t" for c
        using eff by (simp_all add: remaining_def templateHolders_def)
      have "length (remaining d1 t (Some (last page))) < length (remaining d t cursor)"
        unfolding same using remaining_shrinks [of page "nat n" d t cursor] eff ne by blast
      moreover have "db_wf d1" using eff less.prems(1) by (simp add: delete_keys_wf)
      moreover have "reconcileLoop cancelled ios cms t proposed rw n mx (Some (last page)) (advance result page a b) d1 = (res, d')"
        using loop_next [of cancelled mx result ios cms t proposed rw n cursor d page a b d1] page ne less.prems(2) by simp
      ultimately obtain B where d': "d' = delete_keys (stranded d1 t proposed rw (\<lambda>p. beyond (Some (last page)) p \<and> B p)) d1"
        and B: "covered (Some (last page)) res B"
        using less.hyps by blast
      with eff ne(1) same(2) wf show ?thesis by (intro next_page_effect [of d page n t cursor d1 proposed rw d' B res]) blast+
    qed
  qed
qed

text \<open>The number of keys reported is the number deleted.\<close>

lemma reconcileLoop_swept:
  assumes "db_wf d" "n > 0"
    and "reconcileLoop cancelled ios cms t proposed rw n mx cursor result d = (Inr r, d')"
  shows "tr_KeysSwept r + length (api_keys d') = tr_KeysSwept result + length (api_keys d)"
  using assms(1,3)
proof (induction "length (remaining d t cursor)" arbitrary: cursor result d rule: less_induct)
  case less
  let ?io = "ios (tr_BatchesRun result)" and ?cm = "cms (tr_BatchesRun result)"
  show ?case
  proof (cases "stops cancelled mx result")
    case True
    then show ?thesis using less.prems(2) loop_stop [of cancelled mx result ios cms t proposed rw n cursor d] by auto
  next
    case False
    then obtain page a b d1 where batch: "reconcileOneBatch ?io ?cm t proposed rw n cursor d = (Inr (page, a, b), d1)"
      using less.prems(2) loop_error [of cancelled mx result ios cms t proposed rw n cursor d]
      by (metis Inl_Inr_False prod.exhaust prod.inject sum.exhaust)
    note eff = batch_Inr_effect [OF less.prems(1) assms(2) batch]
    have len: "length (api_keys d) = a + length (api_keys d1)"
      using eff length_filter_partition [of "stranded d t proposed rw (\<lambda>p. p \<in> set page)" "api_keys d"] by simp
    show ?thesis
    proof (cases "page = [] \<or> int (length page) < n")
      case True
      with less.prems(2) loop_done [of cancelled mx result ios cms t proposed rw n cursor d page a b d1] batch False len
      show ?thesis by (auto simp: advance_def)
    next
      case more: False
      then have ne: "page \<noteq> []" "\<not> int (length page) < n" by auto
      have "length (remaining d1 t (Some (last page))) < length (remaining d t cursor)"
        using remaining_shrinks [of page "nat n" d t cursor] eff ne(1) templateHolders_cong [of d1 d t]
        by (simp only: remaining_def delete_keys_fields simp_thms)
      moreover have "db_wf d1" using eff less.prems(1) by (simp add: delete_keys_wf)
      moreover have "reconcileLoop cancelled ios cms t proposed rw n mx (Some (last page)) (advance result page a b) d1 = (Inr r, d')"
        using loop_next [of cancelled mx result ios cms t proposed rw n cursor d page a b d1] batch False ne less.prems(2) by simp
      ultimately have "tr_KeysSwept r + length (api_keys d') = tr_KeysSwept (advance result page a b) + length (api_keys d1)"
        by (rule less.hyps)
      with len show ?thesis by (simp add: advance_def)
    qed
  qed
qed

lemma ReconcileRoleTemplate_loop:
  assumes "ReconcileRoleTemplate cancelled ios cms hasDB t proposed rw opts d = (res, d')"
  shows "(d' = d \<and> (\<exists>e. res = Inl e)) \<or> ro_BatchSize opts > 0 \<and> t \<noteq> ''''
    \<and> reconcileLoop cancelled ios cms t proposed rw (ro_BatchSize opts) (ro_MaxBatches opts) (ro_After opts)
        TemplateReconcileResult_zero d = (res, d')"
  using assms by (auto simp: ReconcileRoleTemplate_def split: if_splits)

lemma ReconcileRoleTemplate_effect:
  assumes "db_wf d" "ReconcileRoleTemplate cancelled ios cms hasDB t proposed rw opts d = (res, d')"
  shows "\<exists>B. d' = delete_keys (stranded d t proposed rw (\<lambda>p. beyond (ro_After opts) p \<and> B p)) d \<and> covered (ro_After opts) res B"
  using ReconcileRoleTemplate_loop [OF assms(2)]
proof (elim disjE conjE exE)
  fix e assume "d' = d" "res = Inl e"
  then show ?thesis by (intro exI [of _ "\<lambda>p. False"]) (simp add: covered_def)
next
  assume "ro_BatchSize opts > 0" and "reconcileLoop cancelled ios cms t proposed rw (ro_BatchSize opts) (ro_MaxBatches opts)
    (ro_After opts) TemplateReconcileResult_zero d = (res, d')"
  then show ?thesis by (rule reconcileLoop_effect [OF assms(1)])
qed

lemma ReconcileRoleTemplate_done:
  assumes "db_wf d" "ReconcileRoleTemplate cancelled ios cms hasDB t proposed rw opts d = (Inr r, d')" "tr_Done r"
  shows "d' = delete_keys (stranded d t proposed rw (beyond (ro_After opts))) d"
proof -
  obtain B where B: "d' = delete_keys (stranded d t proposed rw (\<lambda>p. beyond (ro_After opts) p \<and> B p)) d"
    "covered (ro_After opts) (Inr r) B"
    using ReconcileRoleTemplate_effect [OF assms(1,2)] by blast
  have "B = (\<lambda>p. True)" using B(2) assms(3) by (auto simp: covered_def)
  with B(1) show ?thesis by simp
qed

text \<open>
  C9: a finished reconciliation has covered every principal. When a run reports \<open>Done\<close>, it has deleted
  exactly the keys, of principals that hold the template and come after the cursor it started from, that
  carry more than the proposed scopes; nothing else in the database changed, and it reports how many. When
  it stops early, it has done exactly that for the principals up to the cursor it returns, and a failed run
  for some of the principals.
\<close>

theorem ReconcileRoleTemplate_covers:
  assumes "db_wf d" and "ReconcileRoleTemplate cancelled ios cms hasDB t proposed rw opts d = (res, d')"
  shows "(\<forall>r. res = Inr r \<and> tr_Done r \<longrightarrow>
            d' = delete_keys (stranded d t proposed rw (beyond (ro_After opts))) d)
    \<and> (\<forall>r. res = Inr r \<and> \<not> tr_Done r \<longrightarrow>
            d' = delete_keys (stranded d t proposed rw (\<lambda>p. beyond (ro_After opts) p \<and> \<not> beyond (tr_Cursor r) p)) d)
    \<and> (\<forall>r. res = Inr r \<longrightarrow> length (api_keys d) = length (api_keys d') + tr_KeysSwept r)
    \<and> (\<exists>P. d' = delete_keys (stranded d t proposed rw P) d)"
proof -
  obtain B where B: "d' = delete_keys (stranded d t proposed rw (\<lambda>p. beyond (ro_After opts) p \<and> B p)) d" "covered (ro_After opts) res B"
    using ReconcileRoleTemplate_effect [OF assms] by blast
  have "length (api_keys d) = length (api_keys d') + tr_KeysSwept r" if "res = Inr r" for r
    using that ReconcileRoleTemplate_loop [OF assms(2)] reconcileLoop_swept [OF assms(1)]
    by (fastforce simp: TemplateReconcileResult_zero_def)
  moreover have "d' = delete_keys (stranded d t proposed rw (beyond (ro_After opts))) d" if "res = Inr r" "tr_Done r" for r
    using ReconcileRoleTemplate_done [OF assms(1) _ that(2)] assms(2) that(1) by blast
  moreover have "d' = delete_keys (stranded d t proposed rw (\<lambda>p. beyond (ro_After opts) p \<and> \<not> beyond (tr_Cursor r) p)) d"
    if "res = Inr r" "\<not> tr_Done r" for r
  proof -
    have "B = (\<lambda>p. \<not> beyond (tr_Cursor r) p)" using B(2) that by (auto simp: covered_def)
    with B(1) show ?thesis by simp
  qed
  ultimately show ?thesis using B(1) by blast
qed

text \<open>
  Stopping and resuming loses nothing. A run that was cancelled or bounded, followed by a run from the
  cursor it returned that finishes, leaves the database exactly as one uninterrupted run would.
\<close>

theorem ReconcileRoleTemplate_resume:
  assumes "db_wf d"
    and "ReconcileRoleTemplate c1 ios1 cms1 hasDB t proposed rw opts d = (Inr r1, d1)" and "\<not> tr_Done r1"
    and "ReconcileRoleTemplate c2 ios2 cms2 hasDB t proposed rw (opts\<lparr>ro_After := tr_Cursor r1\<rparr>) d1 = (Inr r2, d2)" and "tr_Done r2"
  shows "d2 = delete_keys (stranded d t proposed rw (beyond (ro_After opts))) d"
proof -
  obtain B where B: "d1 = delete_keys (stranded d t proposed rw (\<lambda>p. beyond (ro_After opts) p \<and> B p)) d" "covered (ro_After opts) (Inr r1) B"
    using ReconcileRoleTemplate_effect [OF assms(1,2)] by blast
  have B1: "B = (\<lambda>p. \<not> beyond (tr_Cursor r1) p)" and before: "\<And>p. \<not> beyond (ro_After opts) p \<Longrightarrow> \<not> beyond (tr_Cursor r1) p"
    using B(2) assms(3) by (auto simp: covered_def)
  have "db_wf d1" using B(1) assms(1) by (simp add: delete_keys_wf)
  then obtain B' where B': "d2 = delete_keys (stranded d1 t proposed rw (\<lambda>p. beyond (tr_Cursor r1) p \<and> B' p)) d1"
    "covered (tr_Cursor r1) (Inr r2) B'"
    using ReconcileRoleTemplate_effect [OF _ assms(4)] by auto
  have "B' = (\<lambda>p. True)" using B'(2) assms(5) by (auto simp: covered_def)
  then have "d2 = delete_keys (\<lambda>k. stranded d t proposed rw (\<lambda>p. beyond (ro_After opts) p \<and> \<not> beyond (tr_Cursor r1) p) k
      \<or> stranded d t proposed rw (beyond (tr_Cursor r1)) k) d"
    using B'(1) B(1) B1 by (simp add: delete_keys_twice)
  moreover have "(\<lambda>k. stranded d t proposed rw (\<lambda>p. beyond (ro_After opts) p \<and> \<not> beyond (tr_Cursor r1) p) k
      \<or> stranded d t proposed rw (beyond (tr_Cursor r1)) k) = stranded d t proposed rw (beyond (ro_After opts))"
    using before by (intro ext) (auto simp: stranded_def held_key_def)
  ultimately show ?thesis by simp
qed

subsection \<open>An example\<close>

definition ex_opts :: ReconcileOptions where
  "ex_opts = \<lparr>ro_BatchSize = 1, ro_MaxBatches = 0, ro_After = None\<rparr>"

definition ex_stop :: ReconcileOptions where
  "ex_stop = \<lparr>ro_BatchSize = 1, ro_MaxBatches = 1, ro_After = None\<rparr>"

lemmas ex_sweep_simps = ReconcileRoleTemplate_def ex_opts_def ex_stop_def TemplateReconcileResult_zero_def
  reconcileOneBatch_def planBatch_def templateHolders_def member_key_def sweepBatchKeys_def batchKeys_def Let_def
  HasScope_iff ScopeAdmin_def selected_def column_defs param_def delete_keys_def affectedRows_def commit_tx_def

lemma ex_sweep:
  "\<exists>r d'. ReconcileRoleTemplate (\<lambda>n. False) (\<lambda>n. no_faults) (\<lambda>n. Committed) True ''writer'' [''r''] Map.empty ex_opts ex_db = (Inr r, d')
     \<and> tr_Done r \<and> tr_KeysSwept r = 1 \<and> tr_BatchesRun r = 2"
  by (simp add: ex_sweep_simps reconcileLoop.simps ex_defs)

lemma ex_stopped_sweep:
  "\<exists>r1 d1 r2 d2. ReconcileRoleTemplate (\<lambda>n. False) (\<lambda>n. no_faults) (\<lambda>n. Committed) True ''writer'' [''r''] Map.empty ex_stop ex_db = (Inr r1, d1)
     \<and> \<not> tr_Done r1
     \<and> ReconcileRoleTemplate (\<lambda>n. False) (\<lambda>n. no_faults) (\<lambda>n. Committed) True ''writer'' [''r''] Map.empty
           (ex_stop\<lparr>ro_After := tr_Cursor r1\<rparr>) d1 = (Inr r2, d2) \<and> tr_Done r2"
  by (simp add: ex_sweep_simps reconcileLoop.simps ex_defs)

theorem ReconcileRoleTemplate_covers_witness:
  "\<exists>r d'. ReconcileRoleTemplate (\<lambda>n. False) (\<lambda>n. no_faults) (\<lambda>n. Committed) True ''writer'' [''r''] Map.empty ex_opts ex_db = (Inr r, d')
     \<and> tr_KeysSwept r = 1 \<and> d' = delete_keys (stranded ex_db ''writer'' [''r''] Map.empty (beyond (ro_After ex_opts))) ex_db"
  using ex_sweep ReconcileRoleTemplate_covers [OF ex_db_wf] by blast

theorem ReconcileRoleTemplate_resume_witness:
  "\<exists>r1 d1 r2 d2. ReconcileRoleTemplate (\<lambda>n. False) (\<lambda>n. no_faults) (\<lambda>n. Committed) True ''writer'' [''r''] Map.empty ex_stop ex_db = (Inr r1, d1)
     \<and> ReconcileRoleTemplate (\<lambda>n. False) (\<lambda>n. no_faults) (\<lambda>n. Committed) True ''writer'' [''r''] Map.empty
           (ex_stop\<lparr>ro_After := tr_Cursor r1\<rparr>) d1 = (Inr r2, d2)
     \<and> d2 = delete_keys (stranded ex_db ''writer'' [''r''] Map.empty (beyond (ro_After ex_stop))) ex_db"
proof -
  obtain r1 d1 r2 d2 where runs:
    "ReconcileRoleTemplate (\<lambda>n. False) (\<lambda>n. no_faults) (\<lambda>n. Committed) True ''writer'' [''r''] Map.empty ex_stop ex_db = (Inr r1, d1)"
    "\<not> tr_Done r1"
    "ReconcileRoleTemplate (\<lambda>n. False) (\<lambda>n. no_faults) (\<lambda>n. Committed) True ''writer'' [''r''] Map.empty
       (ex_stop\<lparr>ro_After := tr_Cursor r1\<rparr>) d1 = (Inr r2, d2)" "tr_Done r2"
    using ex_stopped_sweep by blast
  from ReconcileRoleTemplate_resume [OF ex_db_wf runs] runs show ?thesis by blast
qed

subsection \<open>Progress\<close>

lemma batchLoop_total:
  "(\<And>k. k \<in> set ks \<Longrightarrow> unmarshal_strings (key_Scopes k) \<noteq> None) \<Longrightarrow> \<exists>r. batchLoop proposed rw ks doomed spared = Inr r"
  by (induction proposed rw ks doomed spared rule: batchLoop.induct) (auto split: option.splits)

definition keys_decode :: "db \<Rightarrow> bool" where
  "keys_decode d \<longleftrightarrow> list_all (\<lambda>k. unmarshal_strings (key_Scopes k) \<noteq> None) (api_keys d)"

lemma sweepBatchKeys_total:
  assumes wf: "members_wf d" "keys_wf d" and "distinct page" "keys_decode d" and io: "\<And>n. \<not> io n"
  shows "\<exists>r d'. sweepBatchKeys io t proposed rw page d = (Inr r, d')"
proof -
  note rows = batchKeys_filter [OF wf(1) assms(3), of t]
  have "\<exists>r. batchLoop proposed rw (batchKeys d t page) [] 0 = Inr r"
    using assms(4) by (intro batchLoop_total) (auto simp: rows keys_decode_def list_all_iff)
  then obtain doomed sp where loop: "batchLoop proposed rw (batchKeys d t page) [] 0 = Inr (doomed, sp)" by auto
  have "doomed = map key_ID (filter (stranded d t proposed rw (\<lambda>p. p \<in> set page)) (api_keys d))"
    using batchLoop_spec [OF loop] unfolding rows filter_filter stranded_def by (simp add: conj_commute)
  moreover have "filter (\<lambda>k. key_ID k \<in> set (map key_ID (filter P (api_keys d)))) (api_keys d) = filter P (api_keys d)" for P
    using wf(2) ids_of_filter [of key_ID "api_keys d" _ P] unfolding keys_wf_def by (intro filter_cong) blast+
  ultimately have "length (filter (\<lambda>k. key_ID k \<in> set doomed) (api_keys d)) = length doomed" by simp
  with loop show ?thesis by (auto simp: sweepBatchKeys_def Let_def key_id_rows affectedRows_def io)
qed

lemma reconcileOneBatch_total:
  assumes "db_wf d" "keys_decode d" "\<And>n. \<not> io n"
  shows "\<exists>page a b d'. reconcileOneBatch io Committed t proposed rw n after d = (Inr (page, a, b), d')"
proof -
  have wf: "members_wf d" "keys_wf d" using assms(1) by (simp_all add: db_wf_def)
  obtain page where page: "planBatch io t after n d = Inr page" using assms(3) by (simp add: planBatch_def)
  have "distinct page" using planBatch_Inr [OF page] distinct_remaining [OF wf(1)] by simp
  then obtain a b d' where "sweepBatchKeys io t proposed rw page d = (Inr (a, b), d')"
    using sweepBatchKeys_total [OF wf, of page io t proposed rw] assms(2,3) by (auto simp del: split_paired_Ex)
  with page show ?thesis
    by (cases "page = []") (simp_all add: reconcileOneBatch_def assms(3) commit_tx_def)
qed

lemma keys_decode_delete: "keys_decode d \<Longrightarrow> keys_decode (delete_keys P d)"
  by (auto simp: keys_decode_def list_all_iff)

lemma reconcileLoop_done:
  assumes "db_wf d" "n > 0" "keys_decode d"
  shows "\<exists>r d'. reconcileLoop (\<lambda>i. False) (\<lambda>i. no_faults) (\<lambda>i. Committed) t proposed rw n 0 cursor result d = (Inr r, d') \<and> tr_Done r"
  using assms(1,3)
proof (induction "length (remaining d t cursor)" arbitrary: cursor result d rule: less_induct)
  case less
  obtain page a b d1 where batch: "reconcileOneBatch no_faults Committed t proposed rw n cursor d = (Inr (page, a, b), d1)"
    using reconcileOneBatch_total [OF less.prems, of no_faults t proposed rw n cursor] by auto
  have go: "\<not> stops (\<lambda>i. False) 0 result" by (simp add: stops_def)
  note eff = batch_Inr_effect [OF less.prems(1) assms(2) batch]
  show ?case
  proof (cases "page = [] \<or> int (length page) < n")
    case True
    with loop_done [of "\<lambda>i. False" 0 result "\<lambda>i. no_faults" "\<lambda>i. Committed" t proposed rw n cursor d page a b d1] go batch
    show ?thesis by auto
  next
    case False
    then have ne: "page \<noteq> []" "\<not> int (length page) < n" by auto
    have "length (remaining d1 t (Some (last page))) < length (remaining d t cursor)"
      using remaining_shrinks [of page "nat n" d t cursor] eff ne(1) templateHolders_cong [of d1 d t]
      by (simp only: remaining_def delete_keys_fields simp_thms)
    moreover have "db_wf d1" "keys_decode d1" using eff less.prems by (simp_all add: delete_keys_wf keys_decode_delete)
    ultimately show ?thesis
      using less.hyps [of d1 "Some (last page)" "advance result page a b"]
        loop_next [of "\<lambda>i. False" 0 result "\<lambda>i. no_faults" "\<lambda>i. Committed" t proposed rw n cursor d page a b d1] go batch ne
      by simp
  qed
qed

text \<open>
  C39: the sweep finishes. With no fault, no cancellation and no bound on the number of batches, and when
  every key's scopes decode, a run over any well-formed database, for any positive batch size and any
  starting cursor, returns and reports \<open>Done\<close>.
\<close>

theorem ReconcileRoleTemplate_finishes:
  assumes "db_wf d" "keys_decode d" "t \<noteq> ''''" "ro_BatchSize opts > 0" "ro_MaxBatches opts = 0"
  shows "\<exists>r d'. ReconcileRoleTemplate (\<lambda>i. False) (\<lambda>i. no_faults) (\<lambda>i. Committed) True t proposed rw opts d = (Inr r, d') \<and> tr_Done r"
  using reconcileLoop_done [OF assms(1,4,2)] assms(3-5) by (simp add: ReconcileRoleTemplate_def)

theorem ReconcileRoleTemplate_finishes_witness:
  "\<exists>r d'. ReconcileRoleTemplate (\<lambda>i. False) (\<lambda>i. no_faults) (\<lambda>i. Committed) True ''writer'' [] Map.empty ex_opts ex_db = (Inr r, d') \<and> tr_Done r"
  using ReconcileRoleTemplate_finishes [of ex_db "''writer''" ex_opts "[]" Map.empty] ex_db_wf
  by (simp add: ex_opts_def keys_decode_def ex_defs)

subsection \<open>The preview counts what the sweep deletes\<close>

definition bad_row :: "string list \<Rightarrow> ReadWritePairs \<Rightarrow> TemplateAffected \<times> APIKey option \<Rightarrow> bool" where
  "bad_row proposed rw r \<longleftrightarrow> (case snd r of None \<Rightarrow> False | Some k \<Rightarrow> \<not> retained_by proposed rw k)"

lemma previewLoop_spec:
  assumes "previewLoop proposed rw rows scanned doomed n = Inr (S, D, m)"
  shows "S = scanned \<union> fst ` set rows \<and> D = doomed \<union> fst ` set (filter (bad_row proposed rw) rows)
    \<and> m = n + length (filter (bad_row proposed rw) rows)"
  using assms
proof (induction proposed rw rows scanned doomed n rule: previewLoop.induct)
  case (1 proposed rw scanned doomed n)
  then show ?case by simp
next
  case (2 proposed rw r rs scanned doomed n)
  obtain p have' hasKey where scan: "scanTemplateAffectedWithKey r = Inr (p, have', hasKey)"
    using "2.prems" by (cases "scanTemplateAffectedWithKey r") auto
  have row: "p = fst r" "bad_row proposed rw r \<longleftrightarrow> hasKey \<and> \<not> AuthorityRetained have' proposed rw"
    using scan by (auto simp: scanTemplateAffectedWithKey_def bad_row_def retained_by_def AuthorityRetained_iff
        split: option.splits)
  note IH = "2.IH" [OF scan refl refl]
  consider (nokey) "\<not> hasKey" | (kept) "hasKey" "AuthorityRetained have' proposed rw"
    | (bad) "hasKey" "\<not> AuthorityRetained have' proposed rw" by blast
  then show ?case
  proof cases
    case nokey
    with IH(1) "2.prems" scan row show ?thesis by simp
  next
    case kept
    with IH(2) "2.prems" scan row show ?thesis by simp
  next
    case bad
    with IH(3) "2.prems" scan row show ?thesis by simp
  qed
qed

lemma length_filter_disjoint:
  "(\<And>x. x \<in> set xs \<Longrightarrow> \<not> (P x \<and> Q x)) \<Longrightarrow>
     length (filter (\<lambda>x. P x \<or> Q x) xs) = length (filter P xs) + length (filter Q xs)"
  by (induction xs) auto

lemma keys_of_filter: "keys_of d p = filter (\<lambda>k. key_principal k = Some p) (api_keys d)"
  by (auto simp: keys_of_def key_principal_def intro!: filter_cong)

lemma bad_rows_count:
  assumes "distinct hs"
  shows "length (filter (bad_row proposed rw) (concat (map (\<lambda>p. case keys_of d p of [] \<Rightarrow> [(p, None)]
      | k # ks \<Rightarrow> map (\<lambda>x. (p, Some x)) (k # ks)) hs)))
    = length (filter (\<lambda>k. (\<exists>p. key_principal k = Some p \<and> p \<in> set hs) \<and> \<not> retained_by proposed rw k) (api_keys d))"
  using assms
proof (induction hs)
  case Nil
  then show ?case by simp
next
  case (Cons h hs)
  let ?g = "\<lambda>p. case keys_of d p of [] \<Rightarrow> [(p, None)] | k # ks \<Rightarrow> map (\<lambda>x. (p, Some x)) (k # ks)"
  have rows: "?g h = (if keys_of d h = [] then [(h, None)] else map (\<lambda>x. (h, Some x)) (keys_of d h))"
    by (cases "keys_of d h") auto
  have "length (filter (bad_row proposed rw) (?g h)) = length (filter (\<lambda>k. \<not> retained_by proposed rw k) (keys_of d h))"
    unfolding rows by (auto simp: bad_row_def filter_map comp_def)
  also have "\<dots> = length (filter (\<lambda>k. key_principal k = Some h \<and> \<not> retained_by proposed rw k) (api_keys d))"
    by (simp add: keys_of_filter conj_commute)
  finally have head: "length (filter (bad_row proposed rw) (?g h)) = \<dots>" .
  have "filter (\<lambda>k. (\<exists>p. key_principal k = Some p \<and> p \<in> set (h # hs)) \<and> \<not> retained_by proposed rw k) (api_keys d)
      = filter (\<lambda>k. (key_principal k = Some h \<and> \<not> retained_by proposed rw k)
          \<or> ((\<exists>p. key_principal k = Some p \<and> p \<in> set hs) \<and> \<not> retained_by proposed rw k)) (api_keys d)"
    by (rule filter_cong) (auto simp del: split_paired_Ex)
  moreover have "length \<dots> = length (filter (\<lambda>k. key_principal k = Some h \<and> \<not> retained_by proposed rw k) (api_keys d))
      + length (filter (\<lambda>k. (\<exists>p. key_principal k = Some p \<and> p \<in> set hs) \<and> \<not> retained_by proposed rw k) (api_keys d))"
    using Cons.prems by (intro length_filter_disjoint) auto
  ultimately show ?case using head Cons by simp
qed

lemma preview_rows_holders: "fst ` set (templateAffectedWithKeys d t) = set (templateHolders d t)"
proof -
  have "fst ` set (case keys_of d p of [] \<Rightarrow> [(p, None)] | k # ks \<Rightarrow> map (\<lambda>x. (p, Some x)) (k # ks)) = {p}" for p
    by (cases "keys_of d p") (auto simp: image_iff)
  then show ?thesis by (simp add: templateAffectedWithKeys_def image_UN)
qed

text \<open>
  The preview is exact. It counts each principal holding the template once, and the number of keys it
  announces is the number a finished sweep from the start then deletes.
\<close>

theorem Preview_predicts_sweep:
  assumes "db_wf d"
    and "PreviewRoleTemplateReconciliation io hasDB t proposed rw d = Inr im"
    and "ReconcileRoleTemplate cancelled ios cms hasDB' t proposed rw opts d = (Inr r, d')" "tr_Done r" "ro_After opts = None"
  shows "im_Keys im = tr_KeysSwept r \<and> im_Scanned im = length (templateHolders d t)"
proof -
  obtain S D where loop: "previewLoop proposed rw (templateAffectedWithKeys d t) {} {} 0 = Inr (S, D, im_Keys im)"
    and S: "im_Scanned im = card S"
    using assms(2) by (auto simp: PreviewRoleTemplateReconciliation_def split: if_splits sum.splits)
  have dist: "distinct (templateHolders d t)" using assms(1) by (simp add: db_wf_def distinct_templateHolders)
  have "im_Keys im = length (filter (stranded d t proposed rw (\<lambda>p. True)) (api_keys d))"
    using previewLoop_spec [OF loop] bad_rows_count [OF dist, of proposed rw d]
    by (simp add: templateAffectedWithKeys_def stranded_def held_key_def cong: filter_cong)
  moreover have "beyond None = (\<lambda>p. True)" by (intro ext) simp
  then have "d' = delete_keys (stranded d t proposed rw (\<lambda>p. True)) d"
    using ReconcileRoleTemplate_done [OF assms(1,3,4)] assms(5) by simp
  then have "length (api_keys d) = length (api_keys d') + length (filter (stranded d t proposed rw (\<lambda>p. True)) (api_keys d))"
    using length_filter_partition [of "stranded d t proposed rw (\<lambda>p. True)" "api_keys d"] by simp
  moreover have "length (api_keys d) = length (api_keys d') + tr_KeysSwept r"
    using ReconcileRoleTemplate_loop [OF assms(3)] reconcileLoop_swept [OF assms(1)] by (fastforce simp: TemplateReconcileResult_zero_def)
  moreover have "im_Scanned im = length (templateHolders d t)"
    using previewLoop_spec [OF loop] S preview_rows_holders [of d t] distinct_card [OF dist] by simp
  ultimately show ?thesis by simp
qed

theorem Preview_predicts_sweep_witness:
  "\<exists>im r d'. PreviewRoleTemplateReconciliation no_faults True ''writer'' [''r''] Map.empty ex_db = Inr im
     \<and> ReconcileRoleTemplate (\<lambda>n. False) (\<lambda>n. no_faults) (\<lambda>n. Committed) True ''writer'' [''r''] Map.empty ex_opts ex_db = (Inr r, d')
     \<and> im_Keys im = tr_KeysSwept r \<and> im_Scanned im = length (templateHolders ex_db ''writer'')"
proof -
  obtain im where im: "PreviewRoleTemplateReconciliation no_faults True ''writer'' [''r''] Map.empty ex_db = Inr im"
    by (simp add: PreviewRoleTemplateReconciliation_def templateAffectedWithKeys_def keys_of_def scanTemplateAffectedWithKey_def
        ex_sweep_simps ex_defs)
  obtain r d' where r: "ReconcileRoleTemplate (\<lambda>n. False) (\<lambda>n. no_faults) (\<lambda>n. Committed) True ''writer'' [''r''] Map.empty ex_opts ex_db = (Inr r, d')" "tr_Done r"
    using ex_sweep by blast
  from Preview_predicts_sweep [OF ex_db_wf im r] r im show ?thesis by (simp add: ex_opts_def)
qed

end
