(* ===== verification/Template_Write.thy ===== *)
theory Template_Write
  imports Template_Reconcile
begin

text \<open>
  Package \<open>identity/store\<close>, file \<open>template_write.go\<close>: the writer that runs the reconciliation sweep to its
  end before it updates or deletes a role template, and refuses the change when the sweep did not finish.
\<close>

subsection \<open>The writer\<close>

record TemplateWritten =
  tw_Reconciled :: TemplateReconcileResult
  tw_Mutated :: bool

record TemplateWriter =
  tw_hasDB :: bool
  tw_rwPairs :: ReadWritePairs

definition NewTemplateWriter :: "bool \<Rightarrow> ReadWritePairs \<Rightarrow> TemplateWriter" where
  "NewTemplateWriter hasDB rwPairs = \<lparr>tw_hasDB = hasDB, tw_rwPairs = rwPairs\<rparr>"

definition TemplateWritten_zero :: TemplateWritten where
  "TemplateWritten_zero = \<lparr>tw_Reconciled = TemplateReconcileResult_zero, tw_Mutated = False\<rparr>"

text \<open>\<open>write\<close> returns a summary beside its error. \<open>io 0\<close> is the pre-flight read; the mutation's calls
  follow from 2.\<close>

definition write_template :: "(nat \<Rightarrow> bool) \<Rightarrow> (nat \<Rightarrow> io) \<Rightarrow> (nat \<Rightarrow> commit_outcome) \<Rightarrow> io \<Rightarrow> TemplateWriter \<Rightarrow> string
    \<Rightarrow> string list \<Rightarrow> ReconcileOptions \<Rightarrow> (db \<Rightarrow> (store_error + unit) \<times> db) \<Rightarrow> db
    \<Rightarrow> TemplateWritten \<times> store_error option \<times> db" where
  "write_template cancelled ios cms io w i proposed opts mutate d =
     (if \<not> tw_hasDB w then (TemplateWritten_zero, Some ErrNoTemplateReconciler, d)
      else (case GetRoleTemplate io i d of
              Inl e \<Rightarrow> (TemplateWritten_zero, Some e, d)
            | Inr existing \<Rightarrow>
                if tm_IsSystem existing
                then (TemplateWritten_zero, Some (ErrNotFound ''role template not found or is a system template (immutable)''), d)
                else (case ReconcileRoleTemplate cancelled ios cms True i proposed (tw_rwPairs w) opts d of
                        (Inl e, d') \<Rightarrow> (TemplateWritten_zero, Some e, d')
                      | (Inr reconciled, d') \<Rightarrow>
                          if \<not> tr_Done reconciled
                          then (TemplateWritten_zero\<lparr>tw_Reconciled := reconciled\<rparr>, Some ErrReconciliationIncomplete, d')
                          else (case mutate d' of
                                  (Inl e, d'') \<Rightarrow> (TemplateWritten_zero\<lparr>tw_Reconciled := reconciled\<rparr>, Some e, d'')
                                | (Inr _, d'') \<Rightarrow> (\<lparr>tw_Reconciled = reconciled, tw_Mutated = True\<rparr>, None, d'')))))"

definition Writer_UpdateRoleTemplate :: "(nat \<Rightarrow> bool) \<Rightarrow> (nat \<Rightarrow> io) \<Rightarrow> (nat \<Rightarrow> commit_outcome) \<Rightarrow> io \<Rightarrow> time
    \<Rightarrow> TemplateWriter \<Rightarrow> TemplateModel option \<Rightarrow> ReconcileOptions \<Rightarrow> db \<Rightarrow> TemplateWritten \<times> store_error option \<times> db" where
  "Writer_UpdateRoleTemplate cancelled ios cms io now w template opts d =
     (case template of None \<Rightarrow> (TemplateWritten_zero, Some NilTemplate, d)
      | Some t \<Rightarrow> write_template cancelled ios cms io w (tm_ID t) (tm_Scopes t) opts
          (execRoleTemplateMutation (\<lambda>n. io (n + 2)) (updateRoleTemplateStmt now t) (tm_ID t)) d)"

definition Writer_DeleteRoleTemplate :: "(nat \<Rightarrow> bool) \<Rightarrow> (nat \<Rightarrow> io) \<Rightarrow> (nat \<Rightarrow> commit_outcome) \<Rightarrow> io
    \<Rightarrow> TemplateWriter \<Rightarrow> string \<Rightarrow> ReconcileOptions \<Rightarrow> db \<Rightarrow> TemplateWritten \<times> store_error option \<times> db" where
  "Writer_DeleteRoleTemplate cancelled ios cms io w i opts d =
     write_template cancelled ios cms io w i [] opts
       (execRoleTemplateMutation (\<lambda>n. io (n + 2)) (deleteRoleTemplateStmt i) i) d"

subsection \<open>Lemmas\<close>

lemma retained_by_within: "retained_by (granted d u (key_OrganizationID k)) rw k \<longleftrightarrow> key_within rw d u k"
  by (simp add: retained_by_def key_within_def)

lemma granted_member:
  assumes "members_wf d" "m \<in> set (organization_members d)" "member_key m = (org, u)"
  shows "granted d u org = (case unmarshal_strings (coalesced_scopes d m) of None \<Rightarrow> [] | Some ss \<Rightarrow> ss)"
proof -
  have "find (\<lambda>x. mem_OrganizationID x = org \<and> mem_UserID x = u) (organization_members d) = Some m"
  proof (cases "find (\<lambda>x. mem_OrganizationID x = org \<and> mem_UserID x = u) (organization_members d)")
    case None
    with assms(2,3) show ?thesis by (auto simp: find_None_iff member_key_def)
  next
    case (Some m')
    then have "m' \<in> set (organization_members d)" "member_key m' = member_key m"
      using assms(3) by (auto simp: find_Some_iff member_key_def)
    then show ?thesis using Some assms(1,2) distinct_key_unique [of member_key "organization_members d" m' m]
      by (simp add: members_wf_def)
  qed
  then show ?thesis by (simp add: granted_def)
qed

lemma granted_no_member: "(org, u) \<notin> set (pairs d) \<Longrightarrow> granted d u org = []"
  by (auto simp: granted_def pairs_def member_key_def find_Some_iff image_iff split: option.splits)

lemma keys_bounded_subset:
  assumes "keys_bounded rw d" "granted d' = granted d" "set (api_keys d') \<subseteq> set (api_keys d)"
  shows "keys_bounded rw d'"
  using assms by (fastforce simp: keys_bounded_def list_all_iff key_within_def split: option.splits)

lemma keys_bounded_delete_keys: "keys_bounded rw d \<Longrightarrow> keys_bounded rw (delete_keys P d)"
  by (rule keys_bounded_subset) auto

lemma holder_iff:
  assumes "members_wf d" "m \<in> set (organization_members d)"
  shows "member_key m \<in> set (templateHolders d t) \<longleftrightarrow> mem_RoleTemplateID m = Some t"
proof
  assume "member_key m \<in> set (templateHolders d t)"
  then obtain m' where "m' \<in> set (organization_members d)" "mem_RoleTemplateID m' = Some t" "member_key m' = member_key m"
    by (auto simp: set_templateHolders)
  with assms distinct_key_unique [of member_key "organization_members d" m' m] show "mem_RoleTemplateID m = Some t"
    by (simp add: members_wf_def)
next
  show "mem_RoleTemplateID m = Some t \<Longrightarrow> member_key m \<in> set (templateHolders d t)"
    using assms(2) by (auto simp: set_templateHolders)
qed

text \<open>A change of templates keeps the invariant if it leaves everyone else's grant alone and the keys of the
  holders of \<open>t\<close> are within what it grants them now.\<close>

lemma template_change_bounded:
  assumes "keys_bounded rw d" "api_keys d' = api_keys d"
    and others: "\<And>u org. (org, u) \<notin> set (templateHolders d t) \<Longrightarrow> granted d' u org = granted d u org"
    and holders: "\<And>k u. k \<in> set (api_keys d) \<Longrightarrow> key_UserID k = Some u \<Longrightarrow>
      (key_OrganizationID k, u) \<in> set (templateHolders d t) \<Longrightarrow> key_within rw d' u k"
  shows "keys_bounded rw d'"
proof -
  have "unmarshal_strings (key_Scopes k) = None \<or> key_within rw d' u k"
    if "k \<in> set (api_keys d)" "key_UserID k = Some u" for k u
  proof (cases "(key_OrganizationID k, u) \<in> set (templateHolders d t)")
    case True
    with holders that show ?thesis by blast
  next
    case False
    from others [OF this] assms(1) that show ?thesis
      by (fastforce simp: keys_bounded_def list_all_iff key_within_def split: option.splits)
  qed
  then show ?thesis using assms(2) by (auto simp: keys_bounded_def list_all_iff split: option.splits)
qed

lemma find_map_same_id:
  "(\<And>x. P (f x) = P x) \<Longrightarrow> find P (map f xs) = map_option f (find P xs)"
  by (induction xs) auto

lemma find_unique:
  assumes "distinct (map f xs)" "x \<in> set xs"
  shows "find (\<lambda>y. f y = f x) xs = Some x"
  using assms by (induction xs) (auto simp: image_iff)

lemma joined_template_id: "joined_template d m = Some rt \<Longrightarrow> mem_RoleTemplateID m = Some (rt_ID rt) \<and> rt \<in> set (role_templates d)"
  by (auto simp: joined_template_def find_Some_iff split: option.splits)

text \<open>After an update: the holders are granted the new scopes, everyone else what they had.\<close>

lemma coalesced_update:
  "coalesced_scopes (updateRoleTemplateStmt now t d) m =
     (case joined_template d m of None \<Rightarrow> JStrings []
      | Some rt \<Rightarrow> if mutable_row (tm_ID t) rt then marshal_strings (tm_Scopes t) else rt_Scopes rt)"
proof -
  let ?f = "\<lambda>x. if mutable_row (tm_ID t) x
         then x\<lparr>rt_DisplayName := tm_DisplayName t, rt_Description := tm_Description t,
                rt_Scopes := marshal_strings (tm_Scopes t), rt_UpdatedAt := now\<rparr> else x"
  have "find (\<lambda>rt. rt_ID rt = i) (map ?f (role_templates d)) = map_option ?f (find (\<lambda>rt. rt_ID rt = i) (role_templates d))" for i
    by (rule find_map_same_id) simp
  then have "joined_template (updateRoleTemplateStmt now t d) m = map_option ?f (joined_template d m)"
    unfolding joined_template_def updateRoleTemplateStmt_def by (simp split: option.splits)
  then show ?thesis by (simp add: coalesced_scopes_def split: option.splits)
qed

lemma update_fields [simp]:
  "organization_members (updateRoleTemplateStmt now t d) = organization_members d"
  "api_keys (updateRoleTemplateStmt now t d) = api_keys d"
  by (simp_all add: updateRoleTemplateStmt_def)

lemma granted_update:
  assumes wf: "members_wf d" "members_wf (updateRoleTemplateStmt now t d)" "templates_wf d"
    and row: "rt \<in> set (role_templates d)" "mutable_row (tm_ID t) rt"
  shows "granted (updateRoleTemplateStmt now t d) u org =
    (if (org, u) \<in> set (templateHolders d (tm_ID t)) then tm_Scopes t else granted d u org)"
proof (cases "(org, u) \<in> set (pairs d)")
  case False
  then have "(org, u) \<notin> set (templateHolders d (tm_ID t))" "(org, u) \<notin> set (pairs (updateRoleTemplateStmt now t d))"
    by (auto simp: set_templateHolders pairs_def)
  with False show ?thesis by (simp add: granted_no_member)
next
  case True
  then obtain m where m: "m \<in> set (organization_members d)" "member_key m = (org, u)" by (auto simp: pairs_def)
  note g = granted_member [OF wf(1) m] granted_member [OF wf(2), of m org u]
  show ?thesis
  proof (cases "mem_RoleTemplateID m = Some (tm_ID t)")
    case True
    have "find (\<lambda>x. rt_ID x = rt_ID rt) (role_templates d) = Some rt"
      using wf(3) row(1) by (intro find_unique) (simp add: templates_wf_def)
    then have "joined_template d m = Some rt" using True row(2) by (simp add: joined_template_def mutable_row_def)
    with g(2) m row(2) holder_iff [OF wf(1) m(1), of "tm_ID t"] True show ?thesis
      by (simp add: coalesced_update)
  next
    case False
    then have "\<not> mutable_row (tm_ID t) x" if "joined_template d m = Some x" for x
      using joined_template_id [OF that] by (auto simp: mutable_row_def)
    then have "coalesced_scopes (updateRoleTemplateStmt now t d) m = coalesced_scopes d m"
      by (simp add: coalesced_update) (simp add: coalesced_scopes_def split: option.splits)
    with g m holder_iff [OF wf(1) m(1), of "tm_ID t"] False show ?thesis by simp
  qed
qed

text \<open>After a delete: the holders are granted nothing, everyone else what they had.\<close>

lemma find_filter_not: "(\<And>x. x \<in> set xs \<Longrightarrow> Q x \<Longrightarrow> P x) \<Longrightarrow> find Q (filter P xs) = find Q xs"
  by (induction xs) auto

lemma granted_delete:
  assumes wf: "members_wf d" "members_wf (deleteRoleTemplateStmt i d)" "templates_wf d"
    and row: "rt \<in> set (role_templates d)" "mutable_row i rt"
  shows "granted (deleteRoleTemplateStmt i d) u org = (if (org, u) \<in> set (templateHolders d i) then [] else granted d u org)"
proof (cases "(org, u) \<in> set (pairs d)")
  case False
  then have "(org, u) \<notin> set (templateHolders d i)" "(org, u) \<notin> set (pairs (deleteRoleTemplateStmt i d))"
    by (auto simp: set_templateHolders pairs_def deleteRoleTemplateStmt_def delete_role_templates_def Let_def)
  with False show ?thesis by (simp add: granted_no_member)
next
  case True
  then obtain m where m: "m \<in> set (organization_members d)" "member_key m = (org, u)" by (auto simp: pairs_def)
  have gone: "set (map rt_ID (filter (mutable_row i) (role_templates d))) = {i}"
    using row by (auto simp: mutable_row_def)
  let ?m = "clear_template {i} m"
  have m': "?m \<in> set (organization_members (deleteRoleTemplateStmt i d))" "member_key ?m = (org, u)"
    using m gone by (simp_all add: deleteRoleTemplateStmt_def delete_role_templates_def Let_def)
  note g = granted_member [OF wf(1) m] granted_member [OF wf(2) m']
  show ?thesis
  proof (cases "mem_RoleTemplateID m = Some i")
    case True
    then have "coalesced_scopes (deleteRoleTemplateStmt i d) ?m = JStrings []"
      by (simp add: clear_template_def coalesced_scopes_def joined_template_def)
    with g holder_iff [OF wf(1) m(1), of i] True m show ?thesis by simp
  next
    case False
    then have same: "?m = m" by (auto simp: clear_template_def split: option.splits)
    have "joined_template (deleteRoleTemplateStmt i d) m = joined_template d m"
      using False find_filter_not [of "role_templates d" "\<lambda>x. rt_ID x = t" "\<lambda>x. \<not> mutable_row i x" for t]
      by (auto simp: joined_template_def deleteRoleTemplateStmt_def delete_role_templates_def Let_def mutable_row_def
          split: option.splits intro!: find_filter_not)
    then show ?thesis
      using g holder_iff [OF wf(1) m(1), of i] False m same by (simp add: coalesced_scopes_def)
  qed
qed

subsection \<open>What a write does\<close>

lemma write_template_effect:
  assumes "write_template cancelled ios cms io w i proposed opts mutate d = (tw, err, d')"
  shows "(tw_Mutated tw \<longleftrightarrow> err = None) \<and>
    (d' = d \<and> \<not> tw_Mutated tw
     \<or> (\<exists>res. ReconcileRoleTemplate cancelled ios cms True i proposed (tw_rwPairs w) opts d = (res, d')) \<and> \<not> tw_Mutated tw
     \<or> (\<exists>existing r d1. GetRoleTemplate io i d = Inr existing \<and> \<not> tm_IsSystem existing
          \<and> ReconcileRoleTemplate cancelled ios cms True i proposed (tw_rwPairs w) opts d = (Inr r, d1) \<and> tr_Done r
          \<and> snd (mutate d1) = d' \<and> tw_Reconciled tw = r \<and> (tw_Mutated tw \<longleftrightarrow> fst (mutate d1) = Inr ())))"
proof -
  consider (refused) "d' = d" "\<not> tw_Mutated tw" "err \<noteq> None"
    | (go) existing res d1 where "GetRoleTemplate io i d = Inr existing" "\<not> tm_IsSystem existing"
      "ReconcileRoleTemplate cancelled ios cms True i proposed (tw_rwPairs w) opts d = (res, d1)" "tw_hasDB w"
    using assms by (cases "ReconcileRoleTemplate cancelled ios cms True i proposed (tw_rwPairs w) opts d")
      (auto simp: write_template_def TemplateWritten_zero_def split: if_splits sum.splits)
  then show ?thesis
  proof cases
    case refused
    then show ?thesis by simp
  next
    case go
    show ?thesis
    proof (cases "\<exists>r. res = Inr r \<and> tr_Done r")
      case True
      with go assms show ?thesis
        by (cases "mutate d1") (auto simp: write_template_def TemplateWritten_zero_def split: sum.splits)
    next
      case False
      with go assms show ?thesis
        by (cases res) (auto simp: write_template_def TemplateWritten_zero_def)
    qed
  qed
qed

lemma GetRoleTemplate_row:
  assumes "GetRoleTemplate io i d = Inr t" "\<not> tm_IsSystem t"
  shows "\<exists>rt \<in> set (role_templates d). mutable_row i rt"
  using assms by (auto simp: GetRoleTemplate_def toModel_def mutable_row_def split: if_splits list.splits option.splits
      dest!: filter_Cons_mem)

lemma Reconcile_delete_keys:
  assumes "db_wf d" "ReconcileRoleTemplate cancelled ios cms hasDB t proposed rw opts d = (res, d')"
  shows "\<exists>P. d' = delete_keys P d"
  using ReconcileRoleTemplate_effect [OF assms] by blast

lemma done_retained:
  assumes "db_wf d" "ReconcileRoleTemplate cancelled ios cms hasDB t proposed rw opts d = (Inr r, d1)" "tr_Done r"
    and "ro_After opts = None" "k \<in> set (api_keys d1)" "key_UserID k = Some u"
    and "(key_OrganizationID k, u) \<in> set (templateHolders d1 t)"
  shows "retained_by proposed rw k"
proof -
  have d1: "d1 = delete_keys (stranded d t proposed rw (beyond None)) d"
    using ReconcileRoleTemplate_done [OF assms(1-3)] assms(4) by simp
  then have "templateHolders d1 t = templateHolders d t" by (simp add: templateHolders_def)
  with d1 assms(5-7) show ?thesis by (auto simp: stranded_def held_key_def key_principal_def)
qed

subsection \<open>The contract of a template mutation\<close>

lemma delete_fields [simp]: "api_keys (deleteRoleTemplateStmt i d) = api_keys d"
  by (simp add: deleteRoleTemplateStmt_def delete_role_templates_def Let_def)

lemma role_templates_delete_keys [simp]: "role_templates (delete_keys P d) = role_templates d"
  by (simp add: delete_keys_def)

text \<open>What the writer relies on of the statement it runs after the sweep: it keeps the database well formed
  and the keys as they are, and it grants the proposed scopes to the holders of the template and leaves
  everyone else's grant alone.\<close>

locale template_mutation =
  fixes stmt :: "db \<Rightarrow> db"
    and i :: string
    and proposed :: "string list"
  assumes stmt_wf: "db_wf x \<Longrightarrow> db_wf (stmt x)"
    and stmt_keys: "api_keys (stmt x) = api_keys x"
    and stmt_grants: "db_wf x \<Longrightarrow> rt \<in> set (role_templates x) \<Longrightarrow> mutable_row i rt \<Longrightarrow>
      granted (stmt x) u org = (if (org, u) \<in> set (templateHolders x i) then proposed else granted x u org)"
begin

lemma swept_then_mutated:
  assumes "db_wf d" "keys_bounded rw d" "ro_After opts = None"
    and rec: "ReconcileRoleTemplate cancelled ios cms hasDB i proposed rw opts d = (Inr r, d1)" "tr_Done r"
    and row: "rt \<in> set (role_templates d)" "mutable_row i rt"
  shows "keys_bounded rw (stmt d1)"
proof (rule template_change_bounded [where t = i])
  obtain P where P: "d1 = delete_keys P d" using Reconcile_delete_keys [OF assms(1) rec(1)] by blast
  then have wf: "db_wf d1" using assms(1) by (simp add: delete_keys_wf)
  have grants: "granted (stmt d1) u org = (if (org, u) \<in> set (templateHolders d1 i) then proposed else granted d1 u org)" for u org
    using stmt_grants [OF wf _ row(2)] row(1) P by simp
  show "keys_bounded rw d1" using P assms(2) by (simp add: keys_bounded_delete_keys)
  show "api_keys (stmt d1) = api_keys d1" by (rule stmt_keys)
  show "granted (stmt d1) u org = granted d1 u org" if "(org, u) \<notin> set (templateHolders d1 i)" for u org
    using grants that by simp
  show "key_within rw (stmt d1) u k" if "k \<in> set (api_keys d1)" "key_UserID k = Some u"
    "(key_OrganizationID k, u) \<in> set (templateHolders d1 i)" for k u
    using done_retained [OF assms(1) rec assms(3) that] grants that(3) by (simp add: retained_by_within [symmetric])
qed

lemma write_keeps_bounded:
  assumes "db_wf d" "keys_bounded (tw_rwPairs w) d" "ro_After opts = None"
    and "write_template cancelled ios cms io w i proposed opts (execRoleTemplateMutation io' stmt i) d = (tw, err, d')"
  shows "db_wf d' \<and> keys_bounded (tw_rwPairs w) d'"
proof -
  have sub: "db_wf (delete_keys P d) \<and> keys_bounded (tw_rwPairs w) (delete_keys P d)" for P
    using assms(1,2) by (simp add: delete_keys_wf keys_bounded_delete_keys)
  consider (none) "d' = d" | (part) res where "ReconcileRoleTemplate cancelled ios cms True i proposed (tw_rwPairs w) opts d = (res, d')"
    | (full) existing r d1 where "GetRoleTemplate io i d = Inr existing" "\<not> tm_IsSystem existing"
        "ReconcileRoleTemplate cancelled ios cms True i proposed (tw_rwPairs w) opts d = (Inr r, d1)" "tr_Done r"
        "snd (execRoleTemplateMutation io' stmt i d1) = d'"
    using write_template_effect [OF assms(4)] by blast
  then show ?thesis
  proof cases
    case none
    then show ?thesis using assms by simp
  next
    case part
    with Reconcile_delete_keys [OF assms(1) part] sub show ?thesis by blast
  next
    case full
    obtain P where P: "d1 = delete_keys P d" using Reconcile_delete_keys [OF assms(1) full(3)] by blast
    obtain rt where rt: "rt \<in> set (role_templates d)" "mutable_row i rt" using GetRoleTemplate_row [OF full(1,2)] by blast
    have "keys_bounded (tw_rwPairs w) (stmt d1)"
      by (rule swept_then_mutated [OF assms(1-3) full(3,4) rt])
    then show ?thesis using full(5) P sub stmt_wf by (auto simp: execRoleTemplateMutation_state split: if_splits)
  qed
qed

end

interpretation update_stmt: template_mutation "updateRoleTemplateStmt now t" "tm_ID t" "tm_Scopes t"
  for now t
proof
  fix x :: db and rt u org
  show "db_wf x \<Longrightarrow> db_wf (updateRoleTemplateStmt now t x)" by (rule updateRoleTemplateStmt_wf)
  show "api_keys (updateRoleTemplateStmt now t x) = api_keys x" by simp
  assume wf: "db_wf x" and row: "rt \<in> set (role_templates x)" "mutable_row (tm_ID t) rt"
  have "members_wf x" "members_wf (updateRoleTemplateStmt now t x)" "templates_wf x"
    using wf updateRoleTemplateStmt_wf [OF wf, of now t] by (simp_all add: db_wf_def)
  from granted_update [OF this row] show "granted (updateRoleTemplateStmt now t x) u org =
      (if (org, u) \<in> set (templateHolders x (tm_ID t)) then tm_Scopes t else granted x u org)" .
qed

interpretation delete_stmt: template_mutation "deleteRoleTemplateStmt i" i "[]"
  for i
proof
  fix x :: db and rt u org
  show "db_wf x \<Longrightarrow> db_wf (deleteRoleTemplateStmt i x)" by (rule deleteRoleTemplateStmt_wf)
  show "api_keys (deleteRoleTemplateStmt i x) = api_keys x" by simp
  assume wf: "db_wf x" and row: "rt \<in> set (role_templates x)" "mutable_row i rt"
  have "members_wf x" "members_wf (deleteRoleTemplateStmt i x)" "templates_wf x"
    using wf deleteRoleTemplateStmt_wf [OF wf, of i] by (simp_all add: db_wf_def)
  from granted_delete [OF this row] show "granted (deleteRoleTemplateStmt i x) u org =
      (if (org, u) \<in> set (templateHolders x i) then [] else granted x u org)" .
qed

subsection \<open>Properties\<close>

text \<open>
  C10: a template write never leaves a key above its owner's authority. Starting from a well-formed database
  in which every key is within its owner's authority, updating or deleting a template through the writer,
  with the sweep started from the beginning, keeps both, whatever fails, stops or is lost on the way.
\<close>

theorem TemplateWriter_keeps_keys_bounded:
  assumes "db_wf d" "keys_bounded (tw_rwPairs w) d" "ro_After opts = None"
  shows "(case Writer_UpdateRoleTemplate cancelled ios cms io now w template opts d of
            (tw, err, d') \<Rightarrow> db_wf d' \<and> keys_bounded (tw_rwPairs w) d')
    \<and> (case Writer_DeleteRoleTemplate cancelled ios cms io w i opts d of
            (tw, err, d') \<Rightarrow> db_wf d' \<and> keys_bounded (tw_rwPairs w) d')"
proof (intro conjI)
  obtain tw err d' where del: "Writer_DeleteRoleTemplate cancelled ios cms io w i opts d = (tw, err, d')"
    by (cases "Writer_DeleteRoleTemplate cancelled ios cms io w i opts d")
  then show "case Writer_DeleteRoleTemplate cancelled ios cms io w i opts d of
            (tw, err, d') \<Rightarrow> db_wf d' \<and> keys_bounded (tw_rwPairs w) d'"
    using delete_stmt.write_keeps_bounded [OF assms] by (simp add: Writer_DeleteRoleTemplate_def)
  show "case Writer_UpdateRoleTemplate cancelled ios cms io now w template opts d of
            (tw, err, d') \<Rightarrow> db_wf d' \<and> keys_bounded (tw_rwPairs w) d'"
  proof (cases template)
    case None
    then show ?thesis using assms by (simp add: Writer_UpdateRoleTemplate_def)
  next
    case (Some t)
    obtain tw err d' where upd: "Writer_UpdateRoleTemplate cancelled ios cms io now w template opts d = (tw, err, d')"
      by (cases "Writer_UpdateRoleTemplate cancelled ios cms io now w template opts d")
    then show ?thesis
      using update_stmt.write_keeps_bounded [OF assms] Some by (simp add: Writer_UpdateRoleTemplate_def)
  qed
qed

definition ex_writer :: TemplateWriter where
  "ex_writer = NewTemplateWriter True Map.empty"

definition ex_model :: TemplateModel where
  "ex_model = \<lparr>tm_ID = ''writer'', tm_Name = ''writer'', tm_DisplayName = ''W'', tm_Description = None, tm_Scopes = [''r''],
     tm_IsSystem = False, tm_CreatedAt = 1, tm_UpdatedAt = 1\<rparr>"

theorem TemplateWriter_keeps_keys_bounded_witness:
  "case Writer_UpdateRoleTemplate (\<lambda>n. False) (\<lambda>n. no_faults) (\<lambda>n. Committed) no_faults 2 ex_writer (Some ex_model) ex_opts ex_db of
     (tw, err, d') \<Rightarrow> db_wf d' \<and> keys_bounded (tw_rwPairs ex_writer) d'"
  using TemplateWriter_keeps_keys_bounded [of ex_db ex_writer ex_opts "\<lambda>n. False" "\<lambda>n. no_faults" "\<lambda>n. Committed" no_faults 2 "Some ex_model"]
    ex_db_wf ex_db_bounded by (simp add: ex_writer_def NewTemplateWriter_def ex_opts_def)

lemma write_exec_effect:
  assumes "db_wf d"
    and "write_template cancelled ios cms io w i proposed opts (execRoleTemplateMutation io' stmt i) d = (tw, err, d')"
  shows "tw_Mutated tw \<Longrightarrow> tr_Done (tw_Reconciled tw)
      \<and> (\<exists>P rt. d' = stmt (delete_keys P d) \<and> rt \<in> set (role_templates d) \<and> mutable_row i rt)"
    and "\<not> tw_Mutated tw \<Longrightarrow> \<not> io' 1 \<Longrightarrow> \<exists>P. d' = delete_keys P d"
proof -
  have same: "d = delete_keys (\<lambda>k. False) d" by (simp add: delete_keys_def)
  consider (none) "d' = d" "\<not> tw_Mutated tw"
    | (part) res where "ReconcileRoleTemplate cancelled ios cms True i proposed (tw_rwPairs w) opts d = (res, d')" "\<not> tw_Mutated tw"
    | (full) r d1 P rt where "tr_Done r" "d1 = delete_keys P d" "rt \<in> set (role_templates d)" "mutable_row i rt"
        "snd (execRoleTemplateMutation io' stmt i d1) = d'" "tw_Reconciled tw = r"
        "tw_Mutated tw \<longleftrightarrow> fst (execRoleTemplateMutation io' stmt i d1) = Inr ()"
    using write_template_effect [OF assms(2)] Reconcile_delete_keys [OF assms(1)] GetRoleTemplate_row by metis
  note cs = this
  show "tw_Mutated tw \<Longrightarrow> tr_Done (tw_Reconciled tw)
      \<and> (\<exists>P rt. d' = stmt (delete_keys P d) \<and> rt \<in> set (role_templates d) \<and> mutable_row i rt)"
  proof (cases rule: cs)
    case full
    assume "tw_Mutated tw"
    then have "d' = stmt d1" using execRoleTemplateMutation_Inr [of io' stmt i d1] full by simp
    with full show ?thesis by blast
  qed simp_all
  show "\<exists>P. d' = delete_keys P d" if not: "\<not> tw_Mutated tw" "\<not> io' 1"
  proof (cases rule: cs)
    case none
    with same show ?thesis by metis
  next
    case part
    with Reconcile_delete_keys [OF assms(1)] show ?thesis by blast
  next
    case full
    then have "rt \<in> set (role_templates d1)" by simp
    then have "io' 0" using full(7) not full(4) by (auto simp: execRoleTemplateMutation_def filter_empty_conv split: if_splits)
    with full show ?thesis by (auto simp: execRoleTemplateMutation_state)
  qed
qed

lemma update_carries_scopes:
  assumes "rt \<in> set (role_templates d)" "mutable_row (tm_ID t) rt"
  shows "\<exists>x \<in> set (role_templates (updateRoleTemplateStmt now t d)). rt_ID x = tm_ID t \<and> rt_Scopes x = marshal_strings (tm_Scopes t)"
proof -
  let ?x = "rt\<lparr>rt_DisplayName := tm_DisplayName t, rt_Description := tm_Description t,
                rt_Scopes := marshal_strings (tm_Scopes t), rt_UpdatedAt := now\<rparr>"
  have "?x \<in> set (role_templates (updateRoleTemplateStmt now t d))"
    using assms by (force simp: updateRoleTemplateStmt_def image_iff)
  moreover have "rt_ID ?x = tm_ID t" "rt_Scopes ?x = marshal_strings (tm_Scopes t)"
    using assms(2) by (simp_all add: mutable_row_def)
  ultimately show ?thesis by blast
qed

lemma delete_removes:
  assumes "db_wf d" "rt \<in> set (role_templates d)" "mutable_row i rt"
  shows "templateHolders (deleteRoleTemplateStmt i d) i = []
    \<and> (\<forall>x \<in> set (role_templates (deleteRoleTemplateStmt i d)). rt_ID x \<noteq> i)"
proof
  have "i \<in> set (map rt_ID (filter (mutable_row i) (role_templates d)))"
    using assms(2,3) by (auto simp: mutable_row_def)
  then have "mem_RoleTemplateID (clear_template (set (map rt_ID (filter (mutable_row i) (role_templates d)))) m) \<noteq> Some i" for m
    by (auto simp: clear_template_def split: option.splits)
  then show "templateHolders (deleteRoleTemplateStmt i d) i = []"
    by (simp add: templateHolders_def deleteRoleTemplateStmt_def delete_role_templates_def Let_def filter_empty_conv)
  have "x = rt" if "x \<in> set (role_templates d)" "rt_ID x = i" for x
    using distinct_key_unique [of rt_ID "role_templates d" x rt] assms that
    by (auto simp: db_wf_def templates_wf_def mutable_row_def)
  with assms(3) show "\<forall>x \<in> set (role_templates (deleteRoleTemplateStmt i d)). rt_ID x \<noteq> i"
    by (auto simp: deleteRoleTemplateStmt_def delete_role_templates_def Let_def)
qed

text \<open>
  Reconcile first, then mutate, or not at all. A write reports \<open>Mutated\<close> exactly when it reports no
  error. If it did mutate, the sweep finished, and an updated template carries the new scopes and a deleted
  one is gone and named by no membership. If it did not, then unless only the row count of the statement
  was lost, templates and memberships are as before; an unfinished sweep never changes them.
\<close>

theorem TemplateWriter_reconciles_first:
  assumes "db_wf d"
    and upd: "Writer_UpdateRoleTemplate cancelled ios cms io now w (Some t) opts d = (tw, err, d')"
    and del: "Writer_DeleteRoleTemplate cancelled ios cms io w i opts d = (tw2, err2, d2)"
  shows "(tw_Mutated tw \<longleftrightarrow> err = None) \<and> (tw_Mutated tw2 \<longleftrightarrow> err2 = None)
    \<and> (tw_Mutated tw \<longrightarrow> tr_Done (tw_Reconciled tw)
         \<and> (\<exists>rt \<in> set (role_templates d'). rt_ID rt = tm_ID t \<and> rt_Scopes rt = marshal_strings (tm_Scopes t)))
    \<and> (tw_Mutated tw2 \<longrightarrow> tr_Done (tw_Reconciled tw2) \<and> templateHolders d2 i = []
         \<and> (\<forall>rt \<in> set (role_templates d2). rt_ID rt \<noteq> i))
    \<and> (\<not> tw_Mutated tw \<and> \<not> io 3 \<longrightarrow> role_templates d' = role_templates d \<and> organization_members d' = organization_members d)
    \<and> (\<not> tw_Mutated tw2 \<and> \<not> io 3 \<longrightarrow> role_templates d2 = role_templates d \<and> organization_members d2 = organization_members d)"
proof -
  have u: "write_template cancelled ios cms io w (tm_ID t) (tm_Scopes t) opts
      (execRoleTemplateMutation (\<lambda>n. io (n + 2)) (updateRoleTemplateStmt now t) (tm_ID t)) d = (tw, err, d')"
    using upd by (simp add: Writer_UpdateRoleTemplate_def)
  have dl: "write_template cancelled ios cms io w i [] opts
      (execRoleTemplateMutation (\<lambda>n. io (n + 2)) (deleteRoleTemplateStmt i) i) d = (tw2, err2, d2)"
    using del by (simp add: Writer_DeleteRoleTemplate_def)
  have "\<exists>x \<in> set (role_templates d'). rt_ID x = tm_ID t \<and> rt_Scopes x = marshal_strings (tm_Scopes t)" if "tw_Mutated tw"
    using write_exec_effect(1) [OF assms(1) u that] update_carries_scopes [of _ "delete_keys P d" for P] by fastforce
  moreover have "templateHolders d2 i = [] \<and> (\<forall>rt \<in> set (role_templates d2). rt_ID rt \<noteq> i)" if "tw_Mutated tw2"
    using write_exec_effect(1) [OF assms(1) dl that] delete_removes [OF delete_keys_wf [OF assms(1)]] by fastforce
  moreover have "role_templates d' = role_templates d \<and> organization_members d' = organization_members d"
    if "\<not> tw_Mutated tw" "\<not> io 3"
  proof -
    have "\<exists>P. d' = delete_keys P d" using write_exec_effect(2) [OF assms(1) u that(1)] that(2) by (simp add: numeral_3_eq_3)
    then obtain P where "d' = delete_keys P d" by blast
    then show ?thesis by simp
  qed
  moreover have "role_templates d2 = role_templates d \<and> organization_members d2 = organization_members d"
    if "\<not> tw_Mutated tw2" "\<not> io 3"
  proof -
    have "\<exists>P. d2 = delete_keys P d" using write_exec_effect(2) [OF assms(1) dl that(1)] that(2) by (simp add: numeral_3_eq_3)
    then obtain P where "d2 = delete_keys P d" by blast
    then show ?thesis by simp
  qed
  ultimately show ?thesis
    using write_template_effect [OF u] write_template_effect [OF dl] write_exec_effect(1) [OF assms(1) u]
      write_exec_effect(1) [OF assms(1) dl] by blast
qed

lemma ex_write:
  "\<exists>tw d'. Writer_UpdateRoleTemplate (\<lambda>n. False) (\<lambda>n. no_faults) (\<lambda>n. Committed) no_faults 2 ex_writer (Some ex_model) ex_opts ex_db = (tw, None, d')"
  by (simp add: Writer_UpdateRoleTemplate_def write_template_def ex_writer_def NewTemplateWriter_def GetRoleTemplate_def toModel_def
      ex_model_def execRoleTemplateMutation_def mutable_row_def ex_sweep_simps reconcileLoop.simps ex_defs)

theorem TemplateWriter_reconciles_first_witness:
  "\<exists>tw d'. Writer_UpdateRoleTemplate (\<lambda>n. False) (\<lambda>n. no_faults) (\<lambda>n. Committed) no_faults 2 ex_writer (Some ex_model) ex_opts ex_db = (tw, None, d')
     \<and> tr_Done (tw_Reconciled tw) \<and> (\<exists>rt \<in> set (role_templates d'). rt_ID rt = ''writer'' \<and> rt_Scopes rt = marshal_strings [''r''])"
proof -
  obtain tw d' where upd: "Writer_UpdateRoleTemplate (\<lambda>n. False) (\<lambda>n. no_faults) (\<lambda>n. Committed) no_faults 2 ex_writer (Some ex_model) ex_opts ex_db = (tw, None, d')"
    using ex_write by blast
  obtain tw2 err2 d2 where del: "Writer_DeleteRoleTemplate (\<lambda>n. False) (\<lambda>n. no_faults) (\<lambda>n. Committed) no_faults ex_writer ''writer'' ex_opts ex_db = (tw2, err2, d2)"
    by (metis prod.exhaust)
  from TemplateWriter_reconciles_first [OF ex_db_wf upd del] upd show ?thesis by (simp add: ex_model_def)
qed

end
