(* ===== verification/Store_Invariant.thy ===== *)
theory Store_Invariant
  imports Api_Key_Repo User_Repo Audit_Repo Token_Repo Notify_Dedup Oidc_Config_Repo Template_Write
begin



subsection \<open>Each component keeps the constraints\<close>


















subsection \<open>The invariant\<close>




end
