(* ===== verification/Default_Org_Cache.thy ===== *)
theory Default_Org_Cache
  imports Org_Repo
begin

text \<open>
  The default-organization cache of \<open>organization_repository.go\<close> under concurrency. Readers of
  \<open>GetDefaultOrganization\<close> and writers (create, update, rename, delete) run interleaved at the points their
  locks and statements delimit: a reader that misses notes the generation under the read lock, then reads
  the row, then stores it under the write lock; a writer commits its statement, then invalidates. The
  generation counter is 64 bits wide and wraps; the ghost counters of the state count without bound.
\<close>

datatype org_op =
    CreateOp string Organization
  | UpdateOp Organization OrgScope
  | RenameOp string string OrgScope
  | DeleteOp string OrgScope

text \<open>The effect of a write on the database and whether it goes on to invalidate the cache.\<close>

fun run_org_op :: "io \<Rightarrow> time \<Rightarrow> org_op \<Rightarrow> db \<Rightarrow> OrganizationRepository \<Rightarrow> db \<times> OrganizationRepository" where
  "run_org_op io now (CreateOp i org) d r = snd (Create io i now org d r)"
| "run_org_op io now (UpdateOp org scope) d r = snd (Update io now org scope d r)"
| "run_org_op io now (RenameOp i name scope) d r = snd (Rename io now i name scope d r)"
| "run_org_op io now (DeleteOp i scope) d r = snd (Delete io i scope d r)"

lemma run_org_op_cases:
  "run_org_op io now op d r = (d, r) \<or> (\<exists>d'. run_org_op io now op d r = (d', InvalidateDefaultOrgCache r))"
  by (cases op) (auto simp: Create_def Update_def Rename_def Delete_def Let_def checked_def)

subsection \<open>The system\<close>

datatype reader = Missed "64 word" nat | Fetched "64 word" nat Organization

record cache_state =
  cs_db :: db
  cs_repo :: OrganizationRepository
  cs_readers :: "nat \<rightharpoonup> reader"
  cs_pending :: nat
  cs_invalidations :: nat

definition fetch_default :: "db \<Rightarrow> Organization option" where
  "fetch_default d = (case GetByName no_faults ''default'' OrgScopeAllOrganizations d of Inl e \<Rightarrow> None | Inr org \<Rightarrow> Some org)"



subsection \<open>Invariant\<close>

fun reader_ok :: "cache_state \<Rightarrow> reader \<Rightarrow> bool" where
  "reader_ok s (Missed gen n) \<longleftrightarrow> gen = of_nat n \<and> n \<le> cs_invalidations s"
| "reader_ok s (Fetched gen n org) \<longleftrightarrow> gen = of_nat n \<and> n \<le> cs_invalidations s
     \<and> (n = cs_invalidations s \<and> cs_pending s = 0 \<longrightarrow> fetch_default (cs_db s) = Some org)"



lemma reader_ok_irrelevant [simp]:
  "reader_ok (s\<lparr>cs_readers := x\<rparr>) rd = reader_ok s rd" "reader_ok (s\<lparr>cs_repo := y\<rparr>) rd = reader_ok s rd"
  by (cases rd; simp)+












end
