(* ===== verification/Base64.thy ===== *)
theory Base64
  imports Prelude "HOL-Library.Word"
begin

text \<open>
  \<open>base64.RawURLEncoding\<close> of the standard library, as the program uses it to print random bytes: three bytes
  make four characters of the URL-safe alphabet, without padding. Its length and that it can be read back.
\<close>

type_synonym byte = "8 word"

definition b64_alphabet :: string where
  "b64_alphabet = ''ABCDEFGHIJKLMNOPQRSTUVWXYZabcdefghijklmnopqrstuvwxyz0123456789-_''"

definition b64_char :: "nat \<Rightarrow> char" where
  "b64_char n = b64_alphabet ! n"

fun EncodeToString :: "byte list \<Rightarrow> string" where
  "EncodeToString [] = []"
| "EncodeToString [a] = [b64_char (unat a div 4), b64_char (unat a mod 4 * 16)]"
| "EncodeToString [a, b] =
     [b64_char (unat a div 4), b64_char (unat a mod 4 * 16 + unat b div 16), b64_char (unat b mod 16 * 4)]"
| "EncodeToString (a # b # c # rest) =
     b64_char (unat a div 4) # b64_char (unat a mod 4 * 16 + unat b div 16)
     # b64_char (unat b mod 16 * 4 + unat c div 64) # b64_char (unat c mod 64) # EncodeToString rest"

definition b64_index :: "char \<Rightarrow> nat" where
  "b64_index c = length (takeWhile (\<lambda>x. x \<noteq> c) b64_alphabet)"

fun decode :: "nat list \<Rightarrow> byte list" where
  "decode (p # q # r # s # rest) =
     word_of_nat (p * 4 + q div 16) # word_of_nat (q mod 16 * 16 + r div 4) # word_of_nat (r mod 4 * 64 + s) # decode rest"
| "decode [p, q, r] = [word_of_nat (p * 4 + q div 16), word_of_nat (q mod 16 * 16 + r div 4)]"
| "decode [p, q] = [word_of_nat (p * 4 + q div 16)]"
| "decode _ = []"

lemma length_EncodeToString: "length (EncodeToString bs) = (4 * length bs + 2) div 3"
  by (induction bs rule: EncodeToString.induct) auto

lemma length_alphabet: "length b64_alphabet = 64"
  by (simp add: b64_alphabet_def)

lemma distinct_alphabet: "distinct b64_alphabet"
  by (simp add: b64_alphabet_def)

lemma takeWhile_nth: "distinct xs \<Longrightarrow> n < length xs \<Longrightarrow> length (takeWhile (\<lambda>x. x \<noteq> xs ! n) xs) = n"
  by (induction xs arbitrary: n) (auto simp: nth_Cons split: nat.splits)

lemma b64_index_char: "n < 64 \<Longrightarrow> b64_index (b64_char n) = n"
  using takeWhile_nth [OF distinct_alphabet] by (simp add: b64_index_def b64_char_def length_alphabet)

lemma byte_less: "unat (a :: byte) < 256"
  by (rule order.strict_trans2 [OF unsigned_less]) simp

lemma byte_bounds:
  fixes a b c :: byte
  shows "unat a div 4 < 64" "unat a mod 4 * 16 < 64" "unat b mod 16 * 4 < 64" "unat c mod 64 < 64"
    "unat a mod 4 * 16 + unat b div 16 < 64" "unat b mod 16 * 4 + unat c div 64 < 64"
proof -
  have "unat a < 256" "unat b < 256" "unat c < 256" by (rule byte_less)+
  then show "unat a div 4 < 64" "unat a mod 4 * 16 < 64" "unat b mod 16 * 4 < 64" "unat c mod 64 < 64"
    "unat a mod 4 * 16 + unat b div 16 < 64" "unat b mod 16 * 4 + unat c div 64 < 64" by linarith+
qed

lemma byte_quotients:
  fixes b c :: byte
  shows "unat b div 16 div 16 = 0" "unat b div 16 mod 16 = unat b div 16"
    "unat c div 64 div 4 = 0" "unat c div 64 mod 4 = unat c div 64"
proof -
  have "unat b div 16 < 16" "unat c div 64 < 4" using byte_less [of b] byte_less [of c] by linarith+
  then show "unat b div 16 div 16 = 0" "unat b div 16 mod 16 = unat b div 16"
    "unat c div 64 div 4 = 0" "unat c div 64 mod 4 = unat c div 64" by simp_all
qed

lemma byte_decoded:
  fixes a b c :: byte
  shows "word_of_nat (unat a div 4 * 4 + unat a mod 4 * 16 div 16) = a"
    "word_of_nat (unat a div 4 * 4 + (unat a mod 4 * 16 + unat b div 16) div 16) = a"
    "word_of_nat ((unat a mod 4 * 16 + unat b div 16) mod 16 * 16 + unat b mod 16 * 4 div 4) = b"
    "word_of_nat ((unat a mod 4 * 16 + unat b div 16) mod 16 * 16 + (unat b mod 16 * 4 + unat c div 64) div 4) = b"
    "word_of_nat ((unat b mod 16 * 4 + unat c div 64) mod 4 * 64 + unat c mod 64) = c"
  by (simp_all add: byte_quotients)

lemma decode_EncodeToString: "decode (map b64_index (EncodeToString bs)) = bs"
  by (induction bs rule: EncodeToString.induct)
     (simp_all only: EncodeToString.simps list.map decode.simps b64_index_char byte_bounds byte_decoded)

lemma EncodeToString_inj: "EncodeToString a = EncodeToString b \<Longrightarrow> a = b"
  by (metis decode_EncodeToString)


subsection \<open>The padded encoding\<close>

text \<open>\<open>base64.URLEncoding\<close>: the same alphabet, padded to a multiple of four. Decoding ignores line breaks, reads
  four characters at a time and accepts padding only at the end of the last four.\<close>

definition URLEncode :: "byte list \<Rightarrow> string" where
  "URLEncode bs = EncodeToString bs @ replicate ((3 - length bs mod 3) mod 3) (CHR ''='')"

definition in_alphabet :: "char \<Rightarrow> bool" where
  "in_alphabet c \<longleftrightarrow> c \<in> set b64_alphabet"

fun quads :: "string \<Rightarrow> byte list option" where
  "quads [] = Some []"
| "quads (p # q # r # s # rest) =
    (if in_alphabet p \<and> in_alphabet q \<and> in_alphabet r \<and> in_alphabet s then
       map_option ((@) (decode [b64_index p, b64_index q, b64_index r, b64_index s])) (quads rest)
     else if in_alphabet p \<and> in_alphabet q \<and> in_alphabet r \<and> s = CHR ''='' \<and> rest = [] then
       Some (decode [b64_index p, b64_index q, b64_index r])
     else if in_alphabet p \<and> in_alphabet q \<and> r = CHR ''='' \<and> s = CHR ''='' \<and> rest = [] then
       Some (decode [b64_index p, b64_index q])
     else None)"
| "quads _ = None"

definition DecodeString :: "string \<Rightarrow> byte list option" where
  "DecodeString s = quads (filter (\<lambda>c. c \<noteq> CHR 0x0A \<and> c \<noteq> CHR 0x0D) s)"

lemma in_alphabet_char: "n < 64 \<Longrightarrow> in_alphabet (b64_char n)"
  by (simp add: in_alphabet_def b64_char_def length_alphabet)

lemma alphabet_plain: "in_alphabet c \<Longrightarrow> c \<noteq> CHR 0x0A \<and> c \<noteq> CHR 0x0D \<and> c \<noteq> CHR ''=''"
  by (auto simp: in_alphabet_def b64_alphabet_def)

lemma EncodeToString_alphabet: "c \<in> set (EncodeToString bs) \<Longrightarrow> in_alphabet c"
  by (induction bs rule: EncodeToString.induct) (auto simp: in_alphabet_char byte_bounds)

lemma quads_encode: "quads (EncodeToString bs @ replicate ((3 - length bs mod 3) mod 3) (CHR ''='')) = Some bs"
proof (induction bs rule: EncodeToString.induct)
  case (2 a)
  have pad: "replicate ((3 - length [a] mod 3) mod 3) (CHR ''='') = ''==''" by (simp add: numeral_2_eq_2)
  have "\<not> in_alphabet (CHR ''='')" using alphabet_plain by blast
  then show ?case
    by (simp only: pad EncodeToString.simps append.simps quads.simps in_alphabet_char byte_bounds b64_index_char
        simp_thms if_True if_False decode.simps byte_decoded)
next
  case (3 a b)
  have pad: "replicate ((3 - length [a, b] mod 3) mod 3) (CHR ''='') = ''=''" by simp
  have "\<not> in_alphabet (CHR ''='')" using alphabet_plain by blast
  then show ?case
    by (simp only: pad EncodeToString.simps append.simps quads.simps in_alphabet_char byte_bounds b64_index_char
        simp_thms if_True if_False decode.simps byte_decoded)
next
  case (4 a b c rest)
  have pad: "length (a # b # c # rest) mod 3 = length rest mod 3" by simp
  show ?case
    by (simp only: pad EncodeToString.simps append.simps quads.simps in_alphabet_char byte_bounds b64_index_char
        simp_thms if_True decode.simps byte_decoded "4.IH" option.map)
qed simp

theorem DecodeString_URLEncode: "DecodeString (URLEncode bs) = Some bs"
proof -
  have "filter (\<lambda>c. c \<noteq> CHR 0x0A \<and> c \<noteq> CHR 0x0D) (URLEncode bs) = URLEncode bs"
    using EncodeToString_alphabet alphabet_plain by (auto simp: URLEncode_def filter_id_conv)
  then show ?thesis using quads_encode by (simp add: DecodeString_def URLEncode_def)
qed

lemma URLEncode_Nil [simp]: "URLEncode bs = [] \<longleftrightarrow> bs = []"
proof
  assume "URLEncode bs = []"
  then show "bs = []" using DecodeString_URLEncode [of bs] by (simp add: DecodeString_def)
qed (simp add: URLEncode_def)

subsection \<open>Strings as bytes\<close>

definition bytes_of :: "string \<Rightarrow> byte list" where
  "bytes_of s = map (\<lambda>c. word_of_nat (of_char c)) s"

definition string_of :: "byte list \<Rightarrow> string" where
  "string_of bs = map (\<lambda>b. char_of (unat b)) bs"

lemma string_of_bytes_of [simp]: "string_of (bytes_of s) = s"
proof -
  have "char_of (unat (word_of_nat (of_char c) :: byte)) = c" for c
  proof -
    have "(of_char c :: nat) < 256" by (cases c) (simp add: of_char_def)
    then have "unat (word_of_nat (of_char c) :: byte) = of_char c" by (simp add: unsigned_of_nat take_bit_nat_eq_self_iff)
    then show ?thesis by simp
  qed
  then show ?thesis by (simp add: string_of_def bytes_of_def comp_def)
qed

lemma bytes_of_inj [simp]: "bytes_of s = bytes_of t \<longleftrightarrow> s = t"
  by (metis string_of_bytes_of)

lemma bytes_of_simps [simp]: "bytes_of [] = []" "bytes_of (s @ t) = bytes_of s @ bytes_of t" "bytes_of s = [] \<longleftrightarrow> s = []"
  by (simp_all add: bytes_of_def)

end
