(* ===== verification/Oauth_State.thy ===== *)
theory Oauth_State
  imports Base64
begin

text \<open>
  Package \<open>identity/auth/oauthstate\<close>, file \<open>oauthstate.go\<close>: the manager of single-use login states and replay
  markers, over the interface \<open>Store\<close>. The interface is the locale \<open>state_store\<close>: its operations are the
  parameters, what its documentation requires of an implementation are the assumptions, and what the manager
  guarantees is proved from them. The implementation shipped with the package is in \<open>Memory_Store\<close>.

  A stored entry is the bytes of an encoded envelope, or no bytes (a replay marker). The random bytes of a
  state and the present time are arguments; \<open>io 0\<close> says the random source failed, \<open>io 1\<close> that the envelope
  does not encode.
\<close>

datatype oauth_error =
    StNotFound
  | StExpired
  | StPurposeMismatch
  | StAlreadyExists
  | StCapacityExhausted
  | StInvalid string
  | StFailed string
  | StWrapped oauth_error

record envelope =
  env_Purpose :: string
  env_ExpiresAt :: time
  env_Payload :: "byte list"

datatype entry = Encoded envelope | NoBytes

fun decode_entry :: "entry \<Rightarrow> envelope option" where
  "decode_entry (Encoded e) = Some e"
| "decode_entry NoBytes = None"

definition statePrefix :: string where "statePrefix = ''state:''"
definition reservePrefix :: string where "reservePrefix = ''reserve:''"

type_synonym 's put_op = "time \<Rightarrow> string \<Rightarrow> entry \<Rightarrow> duration \<Rightarrow> 's \<Rightarrow> (oauth_error + unit) \<times> 's"
type_synonym 's take_op = "time \<Rightarrow> string \<Rightarrow> 's \<Rightarrow> (oauth_error + entry) \<times> 's"

subsection \<open>The manager\<close>

definition newState :: "bool \<Rightarrow> byte list \<Rightarrow> oauth_error + string" where
  "newState fails rnd = (if fails then Inl (StFailed ''failed to generate state'') else Inr (EncodeToString rnd))"

definition Issue :: "'s put_op \<Rightarrow> io \<Rightarrow> byte list \<Rightarrow> time \<Rightarrow> string \<Rightarrow> byte list \<Rightarrow> duration \<Rightarrow> 's \<Rightarrow> (oauth_error + string) \<times> 's" where
  "Issue put io rnd now purpose payload ttl s =
     (if purpose = '''' then (Inl (StInvalid ''purpose is required''), s)
      else if ttl \<le> 0 then (Inl (StInvalid ''ttl must be positive''), s)
      else (case newState (io 0) rnd of
              Inl e \<Rightarrow> (Inl e, s)
            | Inr state \<Rightarrow>
                if io 1 then (Inl (StFailed ''failed to encode state entry''), s)
                else
                  let encoded = Encoded \<lparr>env_Purpose = purpose, env_ExpiresAt = now + ttl, env_Payload = payload\<rparr>
                  in case put now (statePrefix @ state) encoded ttl s of
                       (Inl e, s') \<Rightarrow> (Inl (StWrapped e), s')
                     | (Inr _, s') \<Rightarrow> (Inr state, s')))"

definition Consume :: "'s take_op \<Rightarrow> time \<Rightarrow> string \<Rightarrow> string \<Rightarrow> 's \<Rightarrow> (oauth_error + byte list) \<times> 's" where
  "Consume tk now purpose state s =
     (if purpose = '''' then (Inl (StInvalid ''purpose is required''), s)
      else (case tk now (statePrefix @ state) s of
              (Inl e, s') \<Rightarrow> (if e = StNotFound then (Inl StNotFound, s') else (Inl (StWrapped e), s'))
            | (Inr stored, s') \<Rightarrow>
                (case decode_entry stored of
                   None \<Rightarrow> (Inl (StFailed ''failed to decode state entry''), s')
                 | Some env \<Rightarrow>
                     if now > env_ExpiresAt env then (Inl StExpired, s')
                     else if env_Purpose env \<noteq> purpose then (Inl StPurposeMismatch, s')
                     else (Inr (env_Payload env), s'))))"

text \<open>The answer and the error, as the Go function returns both.\<close>

definition Reserve :: "'s put_op \<Rightarrow> time \<Rightarrow> string \<Rightarrow> duration \<Rightarrow> 's \<Rightarrow> (bool \<times> oauth_error option) \<times> 's" where
  "Reserve put now key ttl s =
     (if key = '''' then ((False, Some (StInvalid ''key is required'')), s)
      else if ttl \<le> 0 then ((False, Some (StInvalid ''ttl must be positive'')), s)
      else (case put now (reservePrefix @ key) NoBytes ttl s of
              (Inr _, s') \<Rightarrow> ((True, None), s')
            | (Inl e, s') \<Rightarrow> if e = StAlreadyExists then ((False, None), s') else ((False, Some (StWrapped e)), s')))"

text \<open>Any use of the manager, and the expiry sweep a store may run by itself.\<close>

datatype state_op =
    IssueOp io "byte list" time string "byte list" duration
  | ConsumeOp time string string
  | ReserveOp time string duration
  | SweepOp time

fun run_state_op :: "'s put_op \<Rightarrow> 's take_op \<Rightarrow> (time \<Rightarrow> 's \<Rightarrow> 's) \<Rightarrow> state_op \<Rightarrow> 's \<Rightarrow> 's" where
  "run_state_op put tk swp (IssueOp io rnd now purpose payload ttl) s = snd (Issue put io rnd now purpose payload ttl s)"
| "run_state_op put tk swp (ConsumeOp now purpose state) s = snd (Consume tk now purpose state s)"
| "run_state_op put tk swp (ReserveOp now key ttl) s = snd (Reserve put now key ttl s)"
| "run_state_op put tk swp (SweepOp now) s = swp now s"

fun issues :: "string \<Rightarrow> state_op \<Rightarrow> bool" where
  "issues st (IssueOp io rnd now purpose payload ttl) = (EncodeToString rnd = st)"
| "issues st _ = False"

fun op_time :: "state_op \<Rightarrow> time" where
  "op_time (IssueOp io rnd now purpose payload ttl) = now"
| "op_time (ConsumeOp now purpose state) = now"
| "op_time (ReserveOp now key ttl) = now"
| "op_time (SweepOp now) = now"

lemma prefixes_disjoint [simp]:
  "statePrefix @ a \<noteq> reservePrefix @ b" "reservePrefix @ b \<noteq> statePrefix @ a"
  "statePrefix @ a = statePrefix @ c \<longleftrightarrow> a = c" "reservePrefix @ b = reservePrefix @ d \<longleftrightarrow> b = d"
  by (simp_all add: statePrefix_def reservePrefix_def)

subsection \<open>The contract of a store\<close>

text \<open>\<open>look\<close> is what the store holds under a key, with its expiry. A write refuses to replace a live entry; it
  may drop other entries, but no live marker; a take removes the entry on every hit, and returns only a live
  one; expiry removes only entries whose time has passed.\<close>

locale state_store =
  fixes put :: "'s put_op"
    and tk :: "'s take_op"
    and swp :: "time \<Rightarrow> 's \<Rightarrow> 's"
    and look :: "'s \<Rightarrow> string \<Rightarrow> (entry \<times> time) option"
    and invar :: "'s \<Rightarrow> bool"
  assumes put_invar: "invar s \<Longrightarrow> invar (snd (put now k e ttl s))"
    and put_stores: "invar s \<Longrightarrow> put now k e ttl s = (Inr (), s') \<Longrightarrow> look s' k = Some (e, now + ttl)"
    and put_refuses: "invar s \<Longrightarrow> look s k = Some (e', t) \<Longrightarrow> now < t \<Longrightarrow> 0 < ttl \<Longrightarrow>
        fst (put now k e ttl s) = Inl StAlreadyExists"
    and put_others: "invar s \<Longrightarrow> k' \<noteq> k \<or> fst (put now k e ttl s) \<noteq> Inr () \<Longrightarrow>
        look (snd (put now k e ttl s)) k' \<in> {None, look s k'}"
    and put_markers: "invar s \<Longrightarrow> look s (reservePrefix @ m) = Some (e', t) \<Longrightarrow> now < t \<Longrightarrow>
        look (snd (put now k e ttl s)) (reservePrefix @ m) = Some (e', t)"
    and take_invar: "invar s \<Longrightarrow> invar (snd (tk now k s))"
    and take_removes: "invar s \<Longrightarrow> look (snd (tk now k s)) k = None"
    and take_others: "invar s \<Longrightarrow> k' \<noteq> k \<Longrightarrow> look (snd (tk now k s)) k' = look s k'"
    and take_live: "invar s \<Longrightarrow> tk now k s = (Inr e, s') \<Longrightarrow> \<exists>t. look s k = Some (e, t) \<and> now \<le> t"
    and take_missing: "invar s \<Longrightarrow> look s k = None \<Longrightarrow> fst (tk now k s) = Inl StNotFound"
    and take_hit: "invar s \<Longrightarrow> look s k = Some (e, t) \<Longrightarrow> now \<le> t \<Longrightarrow> fst (tk now k s) = Inr e"
    and sweep_invar: "invar s \<Longrightarrow> invar (swp now s)"
    and sweep_drops: "invar s \<Longrightarrow> look (swp now s) k \<in> {None, look s k}"
    and sweep_live: "invar s \<Longrightarrow> look s k = Some (e, t) \<Longrightarrow> now \<le> t \<Longrightarrow> look (swp now s) k = Some (e, t)"
begin

lemma Issue_cases:
  "snd (Issue put io rnd now purpose payload ttl s) = s
   \<or> 0 < ttl \<and> purpose \<noteq> '''' \<and> snd (Issue put io rnd now purpose payload ttl s) =
       snd (put now (statePrefix @ EncodeToString rnd) (Encoded \<lparr>env_Purpose = purpose, env_ExpiresAt = now + ttl, env_Payload = payload\<rparr>) ttl s)"
  by (auto simp: Issue_def newState_def Let_def split: sum.splits prod.splits)

lemma Consume_state:
  "snd (Consume tk now purpose state s) = (if purpose = '''' then s else snd (tk now (statePrefix @ state) s))"
  by (auto simp: Consume_def split: sum.splits prod.splits option.splits)

lemma Reserve_cases:
  "snd (Reserve put now key ttl s) = s
   \<or> 0 < ttl \<and> key \<noteq> '''' \<and> snd (Reserve put now key ttl s) = snd (put now (reservePrefix @ key) NoBytes ttl s)"
  by (auto simp: Reserve_def split: sum.splits prod.splits)

lemma op_invar: "invar s \<Longrightarrow> invar (run_state_op put tk swp op s)"
proof (cases op)
  case (IssueOp io rnd now purpose payload ttl)
  assume "invar s"
  with IssueOp show ?thesis using Issue_cases [of io rnd now purpose payload ttl s] put_invar by auto
next
  case (ConsumeOp now purpose state)
  assume "invar s"
  with ConsumeOp show ?thesis by (simp add: Consume_state take_invar)
next
  case (ReserveOp now key ttl)
  assume "invar s"
  with ReserveOp show ?thesis using Reserve_cases [of now key ttl s] put_invar by auto
next
  case (SweepOp now)
  assume "invar s"
  with SweepOp show ?thesis by (simp add: sweep_invar)
qed

lemma ops_invar: "invar s \<Longrightarrow> invar (fold (run_state_op put tk swp) ops s)"
  by (induction ops arbitrary: s) (simp_all add: op_invar)

text \<open>An operation either leaves a login state as it was, removes it, or is the issue of that very state.\<close>

lemma op_state:
  assumes "invar s" "\<not> issues st op"
  shows "look (run_state_op put tk swp op s) (statePrefix @ st) \<in> {None, look s (statePrefix @ st)}"
proof (cases op)
  case (IssueOp io rnd now purpose payload ttl)
  with assms(2) have "statePrefix @ st \<noteq> statePrefix @ EncodeToString rnd" by auto
  then show ?thesis
    using IssueOp assms(1) Issue_cases [of io rnd now purpose payload ttl s] put_others by (metis insertCI run_state_op.simps(1))
next
  case (ConsumeOp now purpose state)
  then show ?thesis using assms(1) take_removes take_others by (simp add: Consume_state) (metis)
next
  case (ReserveOp now key ttl)
  have "statePrefix @ st \<noteq> reservePrefix @ key" by simp
  then show ?thesis
    using ReserveOp assms(1) Reserve_cases [of now key ttl s] put_others by (metis insertCI run_state_op.simps(3))
next
  case (SweepOp now)
  then show ?thesis using assms(1) sweep_drops by simp
qed

lemma gone_stays_gone:
  assumes "invar s" "look s (statePrefix @ st) = None" "list_all (\<lambda>op. \<not> issues st op) ops"
  shows "look (fold (run_state_op put tk swp) ops s) (statePrefix @ st) = None"
  using assms
proof (induction ops arbitrary: s)
  case (Cons op ops)
  have "look (run_state_op put tk swp op s) (statePrefix @ st) = None"
    using op_state [OF Cons.prems(1), of st op] Cons.prems(2,3) by auto
  with Cons show ?case by (simp add: op_invar)
qed simp

lemma consume_once:
  assumes "invar s" "purpose \<noteq> ''''" "purpose' \<noteq> ''''" "list_all (\<lambda>op. \<not> issues st op) ops"
  shows "fst (Consume tk now' purpose' st (fold (run_state_op put tk swp) ops (snd (Consume tk now purpose st s)))) = Inl StNotFound"
proof -
  let ?s1 = "snd (Consume tk now purpose st s)"
  let ?s2 = "fold (run_state_op put tk swp) ops ?s1"
  have s1: "invar ?s1" "look ?s1 (statePrefix @ st) = None"
    using assms(1,2) by (simp_all add: Consume_state take_invar take_removes)
  have "fst (tk now' (statePrefix @ st) ?s2) = Inl StNotFound"
    using ops_invar [OF s1(1)] gone_stays_gone [OF s1 assms(4)] take_missing by blast
  then show ?thesis using assms(3) by (auto simp: Consume_def split: prod.splits)
qed

text \<open>What is stored under a state was put there by an issue of that state.\<close>

definition issued_by :: "state_op list \<Rightarrow> string \<Rightarrow> envelope \<Rightarrow> time \<Rightarrow> bool" where
  "issued_by ops st env t \<longleftrightarrow>
     (\<exists>io rnd now ttl. IssueOp io rnd now (env_Purpose env) (env_Payload env) ttl \<in> set ops \<and> EncodeToString rnd = st
        \<and> 0 < ttl \<and> env_Purpose env \<noteq> '''' \<and> t = now + ttl \<and> env_ExpiresAt env = t)"

definition authentic :: "state_op list \<Rightarrow> 's \<Rightarrow> bool" where
  "authentic ops s \<longleftrightarrow> (\<forall>st e t. look s (statePrefix @ st) = Some (e, t) \<longrightarrow> (\<exists>env. e = Encoded env \<and> issued_by ops st env t))"

lemma issued_by_mono: "issued_by ops st env t \<Longrightarrow> issued_by (ops @ [op]) st env t"
  unfolding issued_by_def by auto

lemma issue_authentic:
  assumes "invar s" "op = IssueOp io rnd now purpose payload ttl" "EncodeToString rnd = st"
    and "look (run_state_op put tk swp op s) (statePrefix @ st) = Some (e, t)"
  shows "look s (statePrefix @ st) = Some (e, t) \<or> (\<exists>env. e = Encoded env \<and> issued_by [op] st env t)"
proof -
  let ?env = "\<lparr>env_Purpose = purpose, env_ExpiresAt = now + ttl, env_Payload = payload\<rparr>"
  let ?put = "put now (statePrefix @ st) (Encoded ?env) ttl s"
  show ?thesis
  proof (cases "snd (Issue put io rnd now purpose payload ttl s) = s")
    case True
    with assms show ?thesis by simp
  next
    case False
    then have new: "0 < ttl" "purpose \<noteq> ''''" "snd (Issue put io rnd now purpose payload ttl s) = snd ?put"
      using Issue_cases [of io rnd now purpose payload ttl s] assms(3) by blast+
    show ?thesis
    proof (cases "fst ?put = Inr ()")
      case True
      then have "look (snd ?put) (statePrefix @ st) = Some (Encoded ?env, now + ttl)"
        using put_stores [OF assms(1), of now "statePrefix @ st" "Encoded ?env" ttl "snd ?put"] by (metis prod.collapse)
      with assms new show ?thesis by (auto simp: issued_by_def)
    next
      case False
      then have "look (snd ?put) (statePrefix @ st) \<in> {None, look s (statePrefix @ st)}" using put_others [OF assms(1)] by blast
      with assms(2,4) new(3) show ?thesis by auto
    qed
  qed
qed

lemma op_authentic:
  assumes "invar s" "authentic ops s"
  shows "authentic (ops @ [op]) (run_state_op put tk swp op s)"
  unfolding authentic_def
proof (intro allI impI)
  fix st e t
  assume look: "look (run_state_op put tk swp op s) (statePrefix @ st) = Some (e, t)"
  show "\<exists>env. e = Encoded env \<and> issued_by (ops @ [op]) st env t"
  proof (cases "issues st op")
    case True
    then obtain io rnd now purpose payload ttl where op: "op = IssueOp io rnd now purpose payload ttl" "EncodeToString rnd = st"
      by (cases op) auto
    have "look s (statePrefix @ st) = Some (e, t) \<or> (\<exists>env. e = Encoded env \<and> issued_by [op] st env t)"
      by (rule issue_authentic [OF assms(1) op look])
    then show ?thesis using assms(2) issued_by_mono unfolding authentic_def by (fastforce simp: issued_by_def)
  next
    case False
    then have "look s (statePrefix @ st) = Some (e, t)" using op_state [OF assms(1), of st op] look by auto
    then show ?thesis using assms(2) issued_by_mono unfolding authentic_def by blast
  qed
qed

lemma ops_authentic:
  assumes "invar s" "authentic [] s"
  shows "authentic ops (fold (run_state_op put tk swp) ops s)"
proof (induction ops rule: rev_induct)
  case (snoc op ops)
  then show ?case using op_authentic [OF ops_invar [OF assms(1)], of ops ops op] by simp
qed (use assms(2) in simp)

lemma consume_authentic:
  assumes "invar s" "authentic [] s" "fst (Consume tk now purpose st (fold (run_state_op put tk swp) ops s)) = Inr payload"
  shows "\<exists>io rnd t ttl. IssueOp io rnd t purpose payload ttl \<in> set ops \<and> EncodeToString rnd = st \<and> 0 < ttl \<and> now \<le> t + ttl"
proof -
  let ?s = "fold (run_state_op put tk swp) ops s"
  obtain stored s' env where c: "tk now (statePrefix @ st) ?s = (Inr stored, s')" "decode_entry stored = Some env"
    "now \<le> env_ExpiresAt env" "env_Purpose env = purpose" "env_Payload env = payload"
    using assms(3) by (auto simp: Consume_def split: if_splits prod.splits sum.splits option.splits)
  obtain t where "look ?s (statePrefix @ st) = Some (stored, t)" using take_live [OF ops_invar [OF assms(1)] c(1)] by blast
  then obtain env' where "stored = Encoded env'" "issued_by ops st env' t"
    using ops_authentic [OF assms(1,2), of ops] unfolding authentic_def by blast
  then obtain io rnd t0 ttl where "IssueOp io rnd t0 (env_Purpose env) (env_Payload env) ttl \<in> set ops" "EncodeToString rnd = st"
    "0 < ttl" "t = t0 + ttl" "env_ExpiresAt env = t"
    using c(2) by (auto simp: issued_by_def)
  with c(3-5) show ?thesis by (intro exI [of _ io] exI [of _ rnd] exI [of _ t0] exI [of _ ttl]) simp
qed

lemma issue_consume:
  assumes "invar s" "Issue put io rnd now purpose payload ttl s = (Inr st, s')" "now' \<le> now + ttl"
  shows "fst (Consume tk now' purpose st s') = Inr payload"
proof -
  let ?env = "\<lparr>env_Purpose = purpose, env_ExpiresAt = now + ttl, env_Payload = payload\<rparr>"
  have p: "purpose \<noteq> ''''" "put now (statePrefix @ st) (Encoded ?env) ttl s = (Inr (), s')"
    using assms(2) by (auto simp: Issue_def newState_def Let_def split: if_splits sum.splits prod.splits)
  have "look s' (statePrefix @ st) = Some (Encoded ?env, now + ttl)" using put_stores [OF assms(1) p(2)] .
  moreover have "invar s'" using put_invar [OF assms(1), of now "statePrefix @ st" "Encoded ?env" ttl] p(2) by simp
  ultimately have "fst (tk now' (statePrefix @ st) s') = Inr (Encoded ?env)" using take_hit assms(3) by blast
  with p(1) assms(3) show ?thesis by (auto simp: Consume_def split: prod.splits)
qed

text \<open>A replay marker denies until its time is over.\<close>

lemma op_marker:
  assumes "invar s" "look s (reservePrefix @ m) = Some (e, t)" "op_time op < t"
  shows "look (run_state_op put tk swp op s) (reservePrefix @ m) = Some (e, t)"
proof (cases op)
  case (IssueOp io rnd now purpose payload ttl)
  with assms show ?thesis using Issue_cases [of io rnd now purpose payload ttl s] put_markers by auto
next
  case (ConsumeOp now purpose state)
  with assms show ?thesis by (simp add: Consume_state take_others)
next
  case (ReserveOp now key ttl)
  with assms show ?thesis using Reserve_cases [of now key ttl s] put_markers by auto
next
  case (SweepOp now)
  with assms show ?thesis by (simp add: sweep_live)
qed

lemma ops_marker:
  assumes "invar s" "look s (reservePrefix @ m) = Some (e, t)" "list_all (\<lambda>op. op_time op < t) ops"
  shows "look (fold (run_state_op put tk swp) ops s) (reservePrefix @ m) = Some (e, t)"
  using assms by (induction ops arbitrary: s) (simp_all add: op_invar op_marker)

lemma reserve_once:
  assumes "invar s" "Reserve put now key ttl s = ((True, err), s')"
    and "list_all (\<lambda>op. op_time op < now + ttl) ops" "now' < now + ttl"
  shows "fst (Reserve put now' key ttl' (fold (run_state_op put tk swp) ops s')) =
    (if 0 < ttl' then (False, None) else (False, Some (StInvalid ''ttl must be positive'')))"
proof -
  have p: "put now (reservePrefix @ key) NoBytes ttl s = (Inr (), s')"
    using assms(2) by (auto simp: Reserve_def split: if_splits sum.splits prod.splits)
  have s': "invar s'" "look s' (reservePrefix @ key) = Some (NoBytes, now + ttl)"
    using put_stores [OF assms(1) p] put_invar [OF assms(1), of now "reservePrefix @ key" NoBytes ttl] p by simp_all
  let ?s2 = "fold (run_state_op put tk swp) ops s'"
  have "fst (put now' (reservePrefix @ key) NoBytes ttl' ?s2) = Inl StAlreadyExists" if "0 < ttl'"
    using put_refuses [OF ops_invar [OF s'(1)] ops_marker [OF s' assms(3)] assms(4) that] .
  moreover have "key \<noteq> ''''" using assms(2) by (auto simp: Reserve_def split: if_splits)
  ultimately show ?thesis by (auto simp: Reserve_def split: prod.splits)
qed

end

end
