(* ===== verification/Memory_Store.thy ===== *)
theory Memory_Store
  imports Oauth_State "HOL-Library.AList"
begin

text \<open>
  Package \<open>identity/auth/oauthstate\<close>, file \<open>memory.go\<close>: the in-process store of login states and replay markers.
  The map is an association list with distinct keys; its order stands for the unspecified order of iteration
  of a Go map (a tie in the choice of the entry to evict is broken by it). Every operation holds the mutex, so
  concurrent callers are sequences of operations. The janitor calls \<open>sweep\<close> at its interval until the store
  is closed.
\<close>

record memoryEntry =
  me_data :: entry
  me_expiresAt :: time

record MemoryStore =
  ms_entries :: "(string \<times> memoryEntry) list"
  ms_maxEntries :: int

definition DefaultMaxEntries :: int where "DefaultMaxEntries = 4096"

definition NewMemoryStore :: "int \<Rightarrow> MemoryStore" where
  "NewMemoryStore maxEntries = \<lparr>ms_entries = [], ms_maxEntries = (if maxEntries \<le> 0 then DefaultMaxEntries else maxEntries)\<rparr>"

definition isReplayMarker :: "string \<Rightarrow> bool" where
  "isReplayMarker key = HasPrefix key reservePrefix"

definition purgeExpiredLocked :: "time \<Rightarrow> MemoryStore \<Rightarrow> (nat \<times> nat) \<times> MemoryStore" where
  "purgeExpiredLocked now s =
     (let live = filter (\<lambda>(k, e). \<not> me_expiresAt e < now) (ms_entries s)
      in ((length (filter (\<lambda>(k, e). \<not> isReplayMarker k) live), length (filter (\<lambda>(k, e). isReplayMarker k) live)),
          s\<lparr>ms_entries := live\<rparr>))"

fun pickVictim :: "(string \<times> memoryEntry) list \<Rightarrow> string \<Rightarrow> time \<Rightarrow> string" where
  "pickVictim [] victim soonest = victim"
| "pickVictim ((k, e) # es) victim soonest =
     (if isReplayMarker k then pickVictim es victim soonest
      else if victim = '''' \<or> me_expiresAt e < soonest then pickVictim es k (me_expiresAt e)
      else pickVictim es victim soonest)"

definition evictNearestExpiryStateLocked :: "MemoryStore \<Rightarrow> bool \<times> MemoryStore" where
  "evictNearestExpiryStateLocked s =
     (let victim = pickVictim (ms_entries s) '''' 0
      in if victim = '''' then (False, s) else (True, s\<lparr>ms_entries := AList.delete victim (ms_entries s)\<rparr>))"

lemma pickVictim_mem: "pickVictim es v t = v \<or> (pickVictim es v t \<in> fst ` set es \<and> \<not> isReplayMarker (pickVictim es v t))"
  by (induction es v t rule: pickVictim.induct) auto

lemma evict_shorter:
  "evictNearestExpiryStateLocked s = (True, s') \<Longrightarrow> length (ms_entries s') < length (ms_entries s)"
proof -
  assume ev: "evictNearestExpiryStateLocked s = (True, s')"
  let ?v = "pickVictim (ms_entries s) '''' 0"
  have "?v \<noteq> ''''" and s': "s' = s\<lparr>ms_entries := AList.delete ?v (ms_entries s)\<rparr>"
    using ev by (auto simp: evictNearestExpiryStateLocked_def Let_def split: if_splits)
  then have "?v \<in> fst ` set (ms_entries s)" using pickVictim_mem [of "ms_entries s" "''''" 0] by auto
  then have "length (filter (\<lambda>(k', e). ?v \<noteq> k') (ms_entries s)) < length (ms_entries s)"
    by (auto simp: image_iff intro!: length_filter_less)
  then show ?thesis unfolding s' by (simp add: AList.delete_eq case_prod_beta)
qed

text \<open>The eviction loop: while the states are at the limit, evict one.\<close>

function evictLoop :: "int \<Rightarrow> MemoryStore \<Rightarrow> (oauth_error + unit) \<times> MemoryStore" where
  "evictLoop states s =
     (if states \<ge> ms_maxEntries s then
        (case evictNearestExpiryStateLocked s of
           (False, s') \<Rightarrow> (Inl StCapacityExhausted, s')
         | (True, s') \<Rightarrow> evictLoop (states - 1) s')
      else (Inr (), s))"
  by auto
termination by (relation "measure (\<lambda>(states, s). length (ms_entries s))") (auto simp: evict_shorter)

declare evictLoop.simps [simp del]

definition makeRoomLocked :: "string \<Rightarrow> time \<Rightarrow> MemoryStore \<Rightarrow> (oauth_error + unit) \<times> MemoryStore" where
  "makeRoomLocked key now s =
     (case purgeExpiredLocked now s of
        ((states, markers), s1) \<Rightarrow>
          if isReplayMarker key
          then (if int markers \<ge> ms_maxEntries s1 then (Inl StCapacityExhausted, s1) else (Inr (), s1))
          else evictLoop (int states) s1)"

definition PutIfAbsent :: "MemoryStore put_op" where
  "PutIfAbsent now key e ttl s =
     (if key = '''' then (Inl (StInvalid ''key is required''), s)
      else if ttl \<le> 0 then (Inl (StInvalid ''entry ttl must be positive''), s)
      else if (case map_of (ms_entries s) key of None \<Rightarrow> False | Some ex \<Rightarrow> now < me_expiresAt ex)
      then (Inl StAlreadyExists, s)
      else (case makeRoomLocked key now s of
              (Inl err, s1) \<Rightarrow> (Inl err, s1)
            | (Inr _, s1) \<Rightarrow>
                (Inr (), s1\<lparr>ms_entries := AList.update key \<lparr>me_data = e, me_expiresAt = now + ttl\<rparr> (ms_entries s1)\<rparr>)))"

definition Take :: "MemoryStore take_op" where
  "Take now key s =
     (case map_of (ms_entries s) key of
        None \<Rightarrow> (Inl StNotFound, s)
      | Some e \<Rightarrow>
          let s1 = s\<lparr>ms_entries := AList.delete key (ms_entries s)\<rparr>
          in if now > me_expiresAt e then (Inl StNotFound, s1) else (Inr (me_data e), s1))"

definition sweep :: "time \<Rightarrow> MemoryStore \<Rightarrow> MemoryStore" where
  "sweep now s = snd (purgeExpiredLocked now s)"

definition Close :: "MemoryStore \<Rightarrow> MemoryStore" where
  "Close s = s\<lparr>ms_entries := []\<rparr>"

subsection \<open>The invariant\<close>

definition states_of :: "(string \<times> memoryEntry) list \<Rightarrow> (string \<times> memoryEntry) list" where
  "states_of es = filter (\<lambda>p. \<not> isReplayMarker (fst p)) es"

definition markers_of :: "(string \<times> memoryEntry) list \<Rightarrow> (string \<times> memoryEntry) list" where
  "markers_of es = filter (\<lambda>p. isReplayMarker (fst p)) es"

definition mem_invar :: "MemoryStore \<Rightarrow> bool" where
  "mem_invar s \<longleftrightarrow> distinct (map fst (ms_entries s)) \<and> '''' \<notin> fst ` set (ms_entries s) \<and> 0 < ms_maxEntries s
     \<and> int (length (states_of (ms_entries s))) \<le> ms_maxEntries s \<and> int (length (markers_of (ms_entries s))) \<le> ms_maxEntries s"

definition mem_look :: "MemoryStore \<Rightarrow> string \<Rightarrow> (entry \<times> time) option" where
  "mem_look s k = map_option (\<lambda>e. (me_data e, me_expiresAt e)) (map_of (ms_entries s) k)"

lemma NewMemoryStore_invar: "mem_invar (NewMemoryStore n)"
  by (simp add: mem_invar_def NewMemoryStore_def DefaultMaxEntries_def states_of_def markers_of_def)

lemma length_filter_le: "length (filter P (filter Q xs)) \<le> length (filter P xs)"
  by (induction xs) auto

lemma filtered_invar:
  assumes "mem_invar s" "ms_entries s' = filter Q (ms_entries s)" "ms_maxEntries s' = ms_maxEntries s"
  shows "mem_invar s'"
  using assms length_filter_le [of "\<lambda>p. isReplayMarker (fst p)" Q "ms_entries s"]
    length_filter_le [of "\<lambda>p. \<not> isReplayMarker (fst p)" Q "ms_entries s"]
  by (auto simp: mem_invar_def states_of_def markers_of_def distinct_map_filter simp del: filter_filter)

lemma map_of_filter:
  "distinct (map fst es) \<Longrightarrow> map_of (filter Q es) k = (case map_of es k of None \<Rightarrow> None | Some e \<Rightarrow> if Q (k, e) then Some e else None)"
  by (induction es) (auto simp: map_of_eq_None_iff split: option.splits)

lemma purge_spec:
  assumes "mem_invar s" "purgeExpiredLocked now s = ((n, m), s1)"
  shows "mem_invar s1" "n = length (states_of (ms_entries s1))" "m = length (markers_of (ms_entries s1))"
    "ms_maxEntries s1 = ms_maxEntries s"
    "map_of (ms_entries s1) k = (case map_of (ms_entries s) k of None \<Rightarrow> None | Some e \<Rightarrow> if me_expiresAt e < now then None else Some e)"
proof -
  have s1: "s1 = s\<lparr>ms_entries := filter (\<lambda>(k, e). \<not> me_expiresAt e < now) (ms_entries s)\<rparr>"
    using assms(2) by (simp add: purgeExpiredLocked_def Let_def)
  show "mem_invar s1" by (rule filtered_invar [OF assms(1)]) (simp_all add: s1)
  show "n = length (states_of (ms_entries s1))" "m = length (markers_of (ms_entries s1))" "ms_maxEntries s1 = ms_maxEntries s"
    using assms(2) by (auto simp: purgeExpiredLocked_def Let_def states_of_def markers_of_def case_prod_beta)
  show "map_of (ms_entries s1) k = (case map_of (ms_entries s) k of None \<Rightarrow> None | Some e \<Rightarrow> if me_expiresAt e < now then None else Some e)"
    using assms(1) by (auto simp: s1 mem_invar_def map_of_filter split: option.splits)
qed

lemma pickVictim_found:
  "\<exists>p \<in> set es. \<not> isReplayMarker (fst p) \<Longrightarrow> '''' \<notin> fst ` set es \<Longrightarrow> pickVictim es v t \<noteq> ''''"
proof (induction es v t rule: pickVictim.induct)
  case (2 k e es v t)
  have keep: "w \<noteq> '''' \<Longrightarrow> pickVictim es w u \<noteq> ''''" for w u
    using pickVictim_mem [of es w u] 2(5) by (metis image_eqI image_insert insertCI list.simps(15))
  show ?case using 2 keep by auto
qed simp

lemma delete_one_state:
  assumes "distinct (map fst es)" "v \<in> fst ` set es" "\<not> isReplayMarker v"
  shows "Suc (length (states_of (filter (\<lambda>p. v \<noteq> fst p) es))) = length (states_of es)"
  using assms
proof (induction es)
  case (Cons p es)
  show ?case
  proof (cases "fst p = v")
    case True
    then have "filter (\<lambda>p. v \<noteq> fst p) es = es" using Cons.prems(1) by (force simp: filter_id_conv)
    with True Cons.prems(3) show ?thesis by (simp add: states_of_def)
  next
    case False
    with Cons show ?thesis by (auto simp: states_of_def)
  qed
qed simp

lemma evictLoop_spec:
  assumes "distinct (map fst (ms_entries s))" "'''' \<notin> fst ` set (ms_entries s)" "0 < ms_maxEntries s"
    and "states = int (length (states_of (ms_entries s)))"
  shows "\<exists>Q s'. evictLoop states s = (Inr (), s') \<and> ms_maxEntries s' = ms_maxEntries s \<and> ms_entries s' = filter Q (ms_entries s)
    \<and> (\<forall>p. isReplayMarker (fst p) \<longrightarrow> Q p) \<and> int (length (states_of (ms_entries s'))) < ms_maxEntries s"
  using assms
proof (induction states s rule: evictLoop.induct)
  case (1 states s)
  show ?case
  proof (cases "states \<ge> ms_maxEntries s")
    case False
    then have "evictLoop states s = (Inr (), s)" by (subst evictLoop.simps) simp
    with False "1.prems" show ?thesis by (intro exI [of _ "\<lambda>p. True"] exI [of _ s]) simp
  next
    case True
    let ?v = "pickVictim (ms_entries s) '''' 0"
    let ?D = "\<lambda>(k', e :: memoryEntry). ?v \<noteq> k'"
    let ?s1 = "s\<lparr>ms_entries := filter ?D (ms_entries s)\<rparr>"
    from True "1.prems"(3,4) have "states_of (ms_entries s) \<noteq> []" by auto
    then have "\<exists>p \<in> set (ms_entries s). \<not> isReplayMarker (fst p)" by (auto simp: states_of_def filter_empty_conv)
    then have v: "?v \<noteq> ''''" using pickVictim_found "1.prems"(2) by blast
    then have vm: "?v \<in> fst ` set (ms_entries s)" "\<not> isReplayMarker ?v" using pickVictim_mem [of "ms_entries s" "''''" 0] by auto
    have ev: "evictNearestExpiryStateLocked s = (True, ?s1)"
      using v by (simp add: evictNearestExpiryStateLocked_def AList.delete_eq)
    have len: "Suc (length (states_of (ms_entries ?s1))) = length (states_of (ms_entries s))"
      using delete_one_state [OF "1.prems"(1) vm] by (simp add: case_prod_unfold)
    have "\<exists>Q s'. evictLoop (states - 1) ?s1 = (Inr (), s') \<and> ms_maxEntries s' = ms_maxEntries ?s1
        \<and> ms_entries s' = filter Q (ms_entries ?s1) \<and> (\<forall>p. isReplayMarker (fst p) \<longrightarrow> Q p)
        \<and> int (length (states_of (ms_entries s'))) < ms_maxEntries ?s1"
      using "1.prems" len by (intro "1.IH" [OF True ev [symmetric]]) (auto simp: distinct_map_filter)
    then obtain Q s' where Q: "evictLoop (states - 1) ?s1 = (Inr (), s')" "ms_maxEntries s' = ms_maxEntries s"
      "ms_entries s' = filter Q (filter ?D (ms_entries s))" "\<forall>p. isReplayMarker (fst p) \<longrightarrow> Q p"
      "int (length (states_of (ms_entries s'))) < ms_maxEntries s" by auto
    have "evictLoop states s = (Inr (), s')" using True ev Q(1) by (subst evictLoop.simps) simp
    moreover have "\<forall>p. isReplayMarker (fst p) \<longrightarrow> ?D p \<and> Q p" using vm(2) Q(4) by auto
    ultimately show ?thesis using Q(2,3,5) by (intro exI [of _ "\<lambda>p. ?D p \<and> Q p"] exI [of _ s']) simp
  qed
qed

lemma markers_of_filter: "\<forall>p. isReplayMarker (fst p) \<longrightarrow> Q p \<Longrightarrow> markers_of (filter Q es) = markers_of es"
  by (induction es) (auto simp: markers_of_def)

text \<open>Making room keeps every live entry of the other kind, and every live marker; for a state it always succeeds.\<close>

lemma makeRoom_spec:
  assumes "mem_invar s" "makeRoomLocked key now s = (r, s1)"
  shows "mem_invar s1" "ms_maxEntries s1 = ms_maxEntries s"
    "map_of (ms_entries s1) k \<in> {None, map_of (ms_entries s) k}"
    "isReplayMarker k \<Longrightarrow> map_of (ms_entries s) k = Some e \<Longrightarrow> now \<le> me_expiresAt e \<Longrightarrow> map_of (ms_entries s1) k = Some e"
    "r = Inr () \<Longrightarrow> isReplayMarker key \<Longrightarrow> int (length (markers_of (ms_entries s1))) < ms_maxEntries s1"
    "\<not> isReplayMarker key \<Longrightarrow> r = Inr () \<and> int (length (states_of (ms_entries s1))) < ms_maxEntries s1"
proof -
  obtain n m s0 where p: "purgeExpiredLocked now s = ((n, m), s0)" by (metis prod.exhaust)
  note spec = purge_spec [OF assms(1) p]
  have room: "if isReplayMarker key then s1 = s0 \<and> (r = Inr () \<longrightarrow> int m < ms_maxEntries s0) else evictLoop (int n) s0 = (r, s1)"
    using assms(2) p by (auto simp: makeRoomLocked_def split: if_splits)
  have "\<exists>Q. ms_maxEntries s1 = ms_maxEntries s0 \<and> ms_entries s1 = filter Q (ms_entries s0) \<and> (\<forall>p. isReplayMarker (fst p) \<longrightarrow> Q p)
      \<and> (\<not> isReplayMarker key \<longrightarrow> r = Inr () \<and> int (length (states_of (ms_entries s1))) < ms_maxEntries s0)"
  proof (cases "isReplayMarker key")
    case True
    with room show ?thesis by (intro exI [of _ "\<lambda>p. True"]) simp
  next
    case False
    with room spec(1,2) evictLoop_spec [of s0 "int n"] show ?thesis by (auto simp: mem_invar_def)
  qed
  then obtain Q where Q: "ms_maxEntries s1 = ms_maxEntries s0" "ms_entries s1 = filter Q (ms_entries s0)"
    "\<forall>p. isReplayMarker (fst p) \<longrightarrow> Q p"
    "\<not> isReplayMarker key \<longrightarrow> r = Inr () \<and> int (length (states_of (ms_entries s1))) < ms_maxEntries s0" by blast
  show "mem_invar s1" using filtered_invar [OF spec(1) Q(2,1)] .
  show "ms_maxEntries s1 = ms_maxEntries s" using Q(1) spec(4) by simp
  have look: "map_of (ms_entries s1) k = (case map_of (ms_entries s0) k of None \<Rightarrow> None | Some e \<Rightarrow> if Q (k, e) then Some e else None)" for k
    using spec(1) by (simp add: Q(2) map_of_filter mem_invar_def)
  show "map_of (ms_entries s1) k \<in> {None, map_of (ms_entries s) k}"
    using look [of k] spec(5) [of k] by (auto split: option.splits if_splits)
  show "map_of (ms_entries s1) k = Some e"
    if "isReplayMarker k" "map_of (ms_entries s) k = Some e" "now \<le> me_expiresAt e"
    using look [of k] spec(5) [of k] that Q(3) by auto
  show "int (length (markers_of (ms_entries s1))) < ms_maxEntries s1" if "r = Inr ()" "isReplayMarker key"
    using that room spec(3) by simp
  show "r = Inr () \<and> int (length (states_of (ms_entries s1))) < ms_maxEntries s1" if "\<not> isReplayMarker key"
    using that Q(1,4) by simp
qed

lemma counted_update:
  assumes "distinct (map fst es)" "P k"
  shows "length (filter (\<lambda>p. P (fst p)) (AList.update k e es)) \<le> Suc (length (filter (\<lambda>p. P (fst p)) es))"
  using assms by (induction es) auto

lemma uncounted_update:
  "\<not> P k \<Longrightarrow> filter (\<lambda>p. P (fst p)) (AList.update k e es) = filter (\<lambda>p. P (fst p)) es"
  by (induction es) auto

lemma update_invar:
  assumes "mem_invar s" "k \<noteq> ''''"
    and "isReplayMarker k \<Longrightarrow> int (length (markers_of (ms_entries s))) < ms_maxEntries s"
    and "\<not> isReplayMarker k \<Longrightarrow> int (length (states_of (ms_entries s))) < ms_maxEntries s"
  shows "mem_invar (s\<lparr>ms_entries := AList.update k e (ms_entries s)\<rparr>)"
proof -
  let ?es = "ms_entries s"
  have dist: "distinct (map fst ?es)" using assms(1) by (simp add: mem_invar_def)
  have "length (states_of (AList.update k e ?es)) \<le> (if isReplayMarker k then length (states_of ?es) else Suc (length (states_of ?es)))"
    using counted_update [OF dist, of "\<lambda>k. \<not> isReplayMarker k" k e] uncounted_update [of "\<lambda>k. \<not> isReplayMarker k" k e ?es]
    by (auto simp: states_of_def)
  moreover have "length (markers_of (AList.update k e ?es)) \<le> (if isReplayMarker k then Suc (length (markers_of ?es)) else length (markers_of ?es))"
    using counted_update [OF dist, of isReplayMarker k e] uncounted_update [of isReplayMarker k e ?es]
    by (auto simp: markers_of_def)
  ultimately show ?thesis
    using assms dist by (auto simp: mem_invar_def distinct_update dom_update split: if_splits)
qed

lemma PutIfAbsent_cases:
  assumes "mem_invar s"
  shows "(\<exists>err s'. PutIfAbsent now k e ttl s = (Inl err, s') \<and> mem_invar s'
      \<and> (\<forall>k'. map_of (ms_entries s') k' \<in> {None, map_of (ms_entries s) k'})
      \<and> (\<forall>k' x. isReplayMarker k' \<longrightarrow> map_of (ms_entries s) k' = Some x \<longrightarrow> now \<le> me_expiresAt x \<longrightarrow> map_of (ms_entries s') k' = Some x))
    \<or> (\<exists>s1. PutIfAbsent now k e ttl s = (Inr (), s1\<lparr>ms_entries := AList.update k \<lparr>me_data = e, me_expiresAt = now + ttl\<rparr> (ms_entries s1)\<rparr>)
      \<and> k \<noteq> '''' \<and> 0 < ttl \<and> makeRoomLocked k now s = (Inr (), s1)
      \<and> (\<forall>x. map_of (ms_entries s) k = Some x \<longrightarrow> me_expiresAt x \<le> now))"
proof -
  obtain r s1 where m: "makeRoomLocked k now s = (r, s1)" by (metis prod.exhaust)
  note room = makeRoom_spec [OF assms m]
  show ?thesis
  proof (cases "k = '''' \<or> ttl \<le> 0 \<or> (\<exists>x. map_of (ms_entries s) k = Some x \<and> now < me_expiresAt x)")
    case True
    then have "\<exists>err. PutIfAbsent now k e ttl s = (Inl err, s)" by (auto simp: PutIfAbsent_def)
    with assms show ?thesis by auto
  next
    case False
    then have live: "\<not> (case map_of (ms_entries s) k of None \<Rightarrow> False | Some ex \<Rightarrow> now < me_expiresAt ex)"
      "k \<noteq> ''''" "\<not> ttl \<le> 0" "\<forall>x. map_of (ms_entries s) k = Some x \<longrightarrow> me_expiresAt x \<le> now"
      by (force split: option.splits)+
    show ?thesis
    proof (cases r)
      case (Inl err)
      with live m have "PutIfAbsent now k e ttl s = (Inl err, s1)" by (simp add: PutIfAbsent_def)
      with room(1,3,4) show ?thesis by blast
    next
      case (Inr u)
      with live m show ?thesis by (simp add: PutIfAbsent_def)
    qed
  qed
qed

lemma put_success:
  assumes "mem_invar s" "PutIfAbsent now k e ttl s = (Inr (), s')"
  shows "mem_invar s'" "map_of (ms_entries s') k = Some \<lparr>me_data = e, me_expiresAt = now + ttl\<rparr>"
    "k' \<noteq> k \<Longrightarrow> map_of (ms_entries s') k' \<in> {None, map_of (ms_entries s) k'}"
    "k' \<noteq> k \<Longrightarrow> isReplayMarker k' \<Longrightarrow> map_of (ms_entries s) k' = Some x \<Longrightarrow> now \<le> me_expiresAt x \<Longrightarrow> map_of (ms_entries s') k' = Some x"
    "map_of (ms_entries s) k = Some x \<Longrightarrow> me_expiresAt x \<le> now"
proof -
  obtain s1 where s1: "s' = s1\<lparr>ms_entries := AList.update k \<lparr>me_data = e, me_expiresAt = now + ttl\<rparr> (ms_entries s1)\<rparr>"
    "k \<noteq> ''''" "makeRoomLocked k now s = (Inr (), s1)" "\<forall>x. map_of (ms_entries s) k = Some x \<longrightarrow> me_expiresAt x \<le> now"
    using PutIfAbsent_cases [OF assms(1), of now k e ttl] assms(2) by auto
  note room = makeRoom_spec [OF assms(1) s1(3)]
  show "mem_invar s'" unfolding s1(1) using room s1(2) by (intro update_invar) simp_all
  show "map_of (ms_entries s') k = Some \<lparr>me_data = e, me_expiresAt = now + ttl\<rparr>" unfolding s1(1) by (simp add: update_conv')
  show "map_of (ms_entries s') k' \<in> {None, map_of (ms_entries s) k'}" if "k' \<noteq> k"
    using that room(3) [of k'] unfolding s1(1) by (simp add: update_conv')
  show "map_of (ms_entries s') k' = Some x"
    if "k' \<noteq> k" "isReplayMarker k'" "map_of (ms_entries s) k' = Some x" "now \<le> me_expiresAt x"
    using that room(4) [of k' x] unfolding s1(1) by (simp add: update_conv')
  show "me_expiresAt x \<le> now" if "map_of (ms_entries s) k = Some x" using that s1(4) by blast
qed

lemma put_failure:
  assumes "mem_invar s" "PutIfAbsent now k e ttl s = (Inl err, s')"
  shows "mem_invar s'" "map_of (ms_entries s') k' \<in> {None, map_of (ms_entries s) k'}"
    "isReplayMarker k' \<Longrightarrow> map_of (ms_entries s) k' = Some x \<Longrightarrow> now \<le> me_expiresAt x \<Longrightarrow> map_of (ms_entries s') k' = Some x"
  using PutIfAbsent_cases [OF assms(1), of now k e ttl] assms(2) by auto

lemma put_drops:
  assumes "mem_invar s" "k' \<noteq> k \<or> fst (PutIfAbsent now k e ttl s) \<noteq> Inr ()"
  shows "map_of (ms_entries (snd (PutIfAbsent now k e ttl s))) k' \<in> {None, map_of (ms_entries s) k'}"
proof (cases "PutIfAbsent now k e ttl s")
  case (Pair r s')
  show ?thesis
  proof (cases r)
    case (Inl err)
    then show ?thesis using put_failure(2) [OF assms(1), of now k e ttl err s' k'] Pair by simp
  next
    case (Inr u)
    then show ?thesis using put_success(3) [OF assms(1), of now k e ttl s' k'] assms(2) Pair by simp
  qed
qed

lemma put_keeps_markers:
  assumes "mem_invar s" "isReplayMarker m" "map_of (ms_entries s) m = Some x" "now < me_expiresAt x"
  shows "map_of (ms_entries (snd (PutIfAbsent now k e ttl s))) m = Some x"
proof (cases "PutIfAbsent now k e ttl s")
  case (Pair r s')
  show ?thesis
  proof (cases r)
    case (Inl err)
    then show ?thesis using put_failure(3) [OF assms(1), of now k e ttl err s' m x] assms Pair by simp
  next
    case (Inr u)
    then have put: "PutIfAbsent now k e ttl s = (Inr (), s')" using Pair by simp
    have "m \<noteq> k" using put_success(5) [OF assms(1) put, of x] assms(3,4) by auto
    then show ?thesis using put_success(4) [OF assms(1) put, of m x] assms put by simp
  qed
qed

lemma marker_key [simp]: "isReplayMarker (reservePrefix @ m)" "\<not> isReplayMarker (statePrefix @ st)"
  by (simp_all add: isReplayMarker_def HasPrefix_def reservePrefix_def statePrefix_def)

lemma Take_state: "snd (Take now k s) = s\<lparr>ms_entries := AList.delete k (ms_entries s)\<rparr>"
  by (auto simp: Take_def Let_def delete_idem map_of_eq_None_iff split: option.splits)

lemma Take_invar: "mem_invar s \<Longrightarrow> mem_invar (snd (Take now k s))"
  by (rule filtered_invar [where Q = "\<lambda>(k', e). k \<noteq> k'"]) (simp_all add: Take_state AList.delete_eq)

interpretation mem: state_store PutIfAbsent Take sweep mem_look mem_invar
proof
  fix s :: MemoryStore and now k e ttl
  assume inv: "mem_invar s"
  note cases = PutIfAbsent_cases [OF inv, of now k e ttl]
  show "mem_invar (snd (PutIfAbsent now k e ttl s))"
    using cases put_success(1) [OF inv, of now k e ttl] by auto
  show "mem_invar (snd (Take now k s))" using inv by (rule Take_invar)
  show "mem_look (snd (Take now k s)) k = None" by (simp add: Take_state mem_look_def delete_conv')
  show "mem_invar (sweep now s)"
    unfolding sweep_def using inv purge_spec(1) by (metis prod.collapse)
  show "mem_look (sweep now s) k \<in> {None, mem_look s k}"
    using purge_spec(5) [OF inv, of now _ _ "sweep now s" k] unfolding sweep_def
    by (cases "purgeExpiredLocked now s") (auto simp: mem_look_def split: option.splits if_splits)
  show "fst (Take now k s) = Inl StNotFound" if "mem_look s k = None"
    using that by (simp add: Take_def mem_look_def)
  show "mem_look s' k = Some (e, now + ttl)" if "PutIfAbsent now k e ttl s = (Inr (), s')" for s'
    using put_success(2) [OF inv that] by (simp add: mem_look_def)
  show "fst (PutIfAbsent now k e ttl s) = Inl StAlreadyExists" if live: "mem_look s k = Some (e', t)" "now < t" "0 < ttl" for e' t
  proof -
    obtain x where x: "map_of (ms_entries s) k = Some x" "me_expiresAt x = t" using live(1) by (auto simp: mem_look_def)
    then have "k \<noteq> ''''" using inv by (force simp: mem_invar_def dest: map_of_SomeD)
    with x live(2,3) show ?thesis by (simp add: PutIfAbsent_def)
  qed
  show "mem_look (snd (PutIfAbsent now k e ttl s)) k' \<in> {None, mem_look s k'}"
    if "k' \<noteq> k \<or> fst (PutIfAbsent now k e ttl s) \<noteq> Inr ()" for k'
    using put_drops [OF inv that] by (auto simp: mem_look_def)
  show "mem_look (snd (PutIfAbsent now k e ttl s)) (reservePrefix @ m) = Some (e', t)"
    if "mem_look s (reservePrefix @ m) = Some (e', t)" "now < t" for m e' t
    using that put_keeps_markers [OF inv, of "reservePrefix @ m"] by (auto simp: mem_look_def)
  show "mem_look (snd (Take now k s)) k' = mem_look s k'" if "k' \<noteq> k" for k'
    using that by (simp add: Take_state mem_look_def delete_conv')
  show "\<exists>t. mem_look s k = Some (e, t) \<and> now \<le> t" if "Take now k s = (Inr e, s')" for e s'
    using that by (auto simp: Take_def mem_look_def Let_def split: option.splits if_splits)
  show "fst (Take now k s) = Inr e" if "mem_look s k = Some (e, t)" "now \<le> t" for e t
    using that by (auto simp: Take_def mem_look_def Let_def)
  show "mem_look (sweep now s) k = Some (e, t)" if "mem_look s k = Some (e, t)" "now \<le> t" for e t
    using that purge_spec(5) [OF inv, of now _ _ "sweep now s" k] unfolding sweep_def
    by (cases "purgeExpiredLocked now s") (auto simp: mem_look_def)
qed

subsection \<open>What the package guarantees\<close>

text \<open>The operations of the package over its store.\<close>

abbreviation run_ops :: "state_op list \<Rightarrow> MemoryStore \<Rightarrow> MemoryStore" where
  "run_ops \<equiv> fold (run_state_op PutIfAbsent Take sweep)"


lemma PutIfAbsent_max: "mem_invar s \<Longrightarrow> ms_maxEntries (snd (PutIfAbsent now k e ttl s)) = ms_maxEntries s"
  using makeRoom_spec(2) [of s k now]
  by (auto simp: PutIfAbsent_def split: prod.splits sum.splits option.splits)

lemma sweep_max: "ms_maxEntries (sweep now s) = ms_maxEntries s"
  by (simp add: sweep_def purgeExpiredLocked_def Let_def)

lemma run_op_max: "mem_invar s \<Longrightarrow> ms_maxEntries (run_state_op PutIfAbsent Take sweep op s) = ms_maxEntries s"
proof (cases op)
  case (IssueOp io rnd now purpose payload ttl)
  assume "mem_invar s"
  with IssueOp show ?thesis using mem.Issue_cases [of io rnd now purpose payload ttl s] PutIfAbsent_max by auto
next
  case (ConsumeOp now purpose state)
  then show ?thesis by (simp add: mem.Consume_state Take_state)
next
  case (ReserveOp now key ttl)
  assume "mem_invar s"
  with ReserveOp show ?thesis using mem.Reserve_cases [of now key ttl s] PutIfAbsent_max by auto
qed (simp add: sweep_max)

lemma run_ops_max: "mem_invar s \<Longrightarrow> ms_maxEntries (run_ops ops s) = ms_maxEntries s"
  by (induction ops arbitrary: s) (simp_all add: run_op_max mem.op_invar)



text \<open>
  A state that was issued can be redeemed. Issuing returns a state under which, until the end of its
  lifetime, exactly the payload is returned to a caller that names the purpose; and on a store that respects
  its bounds issuing a fresh state never fails for lack of room.
\<close>

theorem Issue_then_Consume:
  assumes "mem_invar s" "purpose \<noteq> ''''" "0 < ttl" "now' \<le> now + ttl"
    and "mem_look s (statePrefix @ EncodeToString rnd) = None"
  shows "fst (Issue PutIfAbsent no_faults rnd now purpose payload ttl s) = Inr (EncodeToString rnd)
    \<and> fst (Consume Take now' purpose (EncodeToString rnd) (snd (Issue PutIfAbsent no_faults rnd now purpose payload ttl s))) = Inr payload"
proof -
  let ?k = "statePrefix @ EncodeToString rnd"
  let ?e = "Encoded \<lparr>env_Purpose = purpose, env_ExpiresAt = now + ttl, env_Payload = payload\<rparr>"
  obtain r s1 where m: "makeRoomLocked ?k now s = (r, s1)" by (metis prod.exhaust)
  have "r = Inr ()" using makeRoom_spec(6) [OF assms(1) m] by simp
  moreover have "?k \<noteq> ''''" by (simp add: statePrefix_def)
  ultimately have "\<exists>s'. PutIfAbsent now ?k ?e ttl s = (Inr (), s')"
    using m assms(3,5) by (auto simp: PutIfAbsent_def mem_look_def split: option.splits)
  then obtain s' where "Issue PutIfAbsent no_faults rnd now purpose payload ttl s = (Inr (EncodeToString rnd), s')"
    using assms(2,3) by (auto simp: Issue_def newState_def)
  with mem.issue_consume [OF assms(1) this assms(4)] show ?thesis by simp
qed

theorem Issue_then_Consume_witness:
  "fst (Consume Take 8 ''login'' (EncodeToString [1, 2]) (snd (Issue PutIfAbsent no_faults [1, 2] 3 ''login'' [7] 10 (NewMemoryStore 0)))) = Inr [7]"
  using Issue_then_Consume [OF NewMemoryStore_invar, of "''login''" 10 8 3 0 "[1, 2]" "[7]"]
  by (simp add: mem_look_def NewMemoryStore_def)

text \<open>
  A replay marker denies for its whole lifetime. Once a key has been reserved, no sequence of operations
  before the end of the lifetime (a flood of logins, other reservations, the janitor) makes it available
  again: reserving it a second time is reported as a replay.
\<close>

theorem Reserve_denies_replay:
  assumes "mem_invar s" "Reserve PutIfAbsent now key ttl s = ((True, err), s')"
    and "list_all (\<lambda>op. op_time op < now + ttl) ops" "now' < now + ttl" "0 < ttl'"
  shows "fst (Reserve PutIfAbsent now' key ttl' (run_ops ops s')) = (False, None)"
  using mem.reserve_once [OF assms(1-4)] assms(5) by simp

theorem Reserve_denies_replay_witness:
  "\<exists>s'. Reserve PutIfAbsent 1 ''a'' 10 (NewMemoryStore 1) = ((True, None), s')
     \<and> fst (Reserve PutIfAbsent 9 ''a'' 10 (run_ops [IssueOp no_faults [1] 2 ''p'' [] 50, IssueOp no_faults [2] 3 ''p'' [] 50] s')) = (False, None)"
proof -
  have "\<exists>s'. Reserve PutIfAbsent 1 ''a'' 10 (NewMemoryStore 1) = ((True, None), s')"
    by (simp add: Reserve_def PutIfAbsent_def NewMemoryStore_def makeRoomLocked_def purgeExpiredLocked_def reservePrefix_def
        isReplayMarker_def HasPrefix_def)
  then obtain s' where s': "Reserve PutIfAbsent 1 ''a'' 10 (NewMemoryStore 1) = ((True, None), s')" by blast
  show ?thesis
    using Reserve_denies_replay [OF NewMemoryStore_invar s', of "[IssueOp no_faults [1] 2 ''p'' [] 50, IssueOp no_faults [2] 3 ''p'' [] 50]" 9 10] s'
    by simp
qed

text \<open>
  C40: the store is bounded. After any sequence of operations it holds at most the configured number of login
  states and at most that many replay markers; reading the limit as given, or 4096 when it is not positive.
\<close>

theorem MemoryStore_bounded:
  "int (length (states_of (ms_entries (run_ops ops (NewMemoryStore n))))) \<le> (if n \<le> 0 then 4096 else n)
   \<and> int (length (markers_of (ms_entries (run_ops ops (NewMemoryStore n))))) \<le> (if n \<le> 0 then 4096 else n)"
proof -
  have "ms_maxEntries (run_ops ops (NewMemoryStore n)) = ms_maxEntries (NewMemoryStore n)"
    by (rule run_ops_max [OF NewMemoryStore_invar])
  moreover have "ms_maxEntries (NewMemoryStore n) = (if n \<le> 0 then 4096 else n)"
    by (simp add: NewMemoryStore_def DefaultMaxEntries_def)
  ultimately show ?thesis using mem.ops_invar [OF NewMemoryStore_invar, of ops n] unfolding mem_invar_def by argo
qed

end
