(* ===== verification/Token_Manager.thy ===== *)
theory Token_Manager
  imports Scopes Base64
begin

text \<open>
  Package \<open>identity/auth\<close>, file \<open>jwt.go\<close>: minting and validating session tokens, the rotation of the signing
  secret, and the issuer and audience checks of coupled deployments.

  The JWT library is not part of the program. Its two entry points are parameters: \<open>sign\<close> makes the token of
  a method, a key and claims; \<open>parse\<close> decodes a token with a function that chooses the key from the token's
  method, the audience to require, and the present. \<open>jwt_library\<close> states what its documentation promises: a
  token that parses is one that the chosen key signed, it is not expired and has the audience; a signed, live
  token parses; and a token determines the claims it carries. Dates in claims have the precision of a second.
\<close>

datatype jwt_error =
    ErrNoSigningSecret
  | JwtConfig string
  | JwtLibrary string
  | UnexpectedMethod
  | InvalidToken
  | IssuerNotAllowed

datatype signing_method = HS256 | OtherMethod string

type_synonym 't signer = "signing_method \<Rightarrow> byte list \<Rightarrow> Claims \<Rightarrow> 't"
type_synonym 't parser = "'t \<Rightarrow> (signing_method \<Rightarrow> jwt_error + byte list) \<Rightarrow> string option \<Rightarrow> time \<Rightarrow> jwt_error + (bool \<times> Claims)"

definition NumericDate :: "time \<Rightarrow> time" where
  "NumericDate t = t - t mod second"

definition unexpired :: "time \<Rightarrow> Claims \<Rightarrow> bool" where
  "unexpired now c \<longleftrightarrow> (case cl_ExpiresAt c of None \<Rightarrow> True | Some e \<Rightarrow> now < e)"

definition has_audience :: "string option \<Rightarrow> Claims \<Rightarrow> bool" where
  "has_audience aud c \<longleftrightarrow> (case aud of None \<Rightarrow> True | Some a \<Rightarrow> a \<in> set (cl_Audience c))"

definition jwt_library :: "'t signer \<Rightarrow> 't parser \<Rightarrow> bool" where
  "jwt_library sign parse \<longleftrightarrow>
     (\<forall>t keyfunc aud now v c. parse t keyfunc aud now = Inr (v, c) \<longrightarrow>
        v \<and> (\<exists>m k. keyfunc m = Inr k \<and> t = sign m k c) \<and> unexpired now c \<and> has_audience aud c)
     \<and> (\<forall>m k c keyfunc aud now. keyfunc m = Inr k \<and> unexpired now c \<and> has_audience aud c \<longrightarrow>
          parse (sign m k c) keyfunc aud now = Inr (True, c))
     \<and> (\<forall>m k c m' k' c'. sign m k c = sign m' k' c' \<longrightarrow> c = c')"

subsection \<open>Claims\<close>

definition TokenID :: "Claims option \<Rightarrow> string" where
  "TokenID c = (case c of None \<Rightarrow> '''' | Some c \<Rightarrow> if cl_JTI c \<noteq> '''' then cl_JTI c else cl_ID c)"

definition syncTokenID :: "Claims \<Rightarrow> Claims" where
  "syncTokenID c = (let i = TokenID (Some c) in if i \<noteq> '''' then c\<lparr>cl_JTI := i, cl_ID := i\<rparr> else c)"

subsection \<open>The manager\<close>

record TokenManager =
  tm_issuer :: string
  tm_current :: "byte list option"
  tm_previous :: "byte list option"
  tm_allowedIssuers :: "string list option"
  tm_audience :: "string option"

definition DefaultExpiry :: duration where "DefaultExpiry = hour"

definition NewTokenManager :: "byte list \<Rightarrow> string \<Rightarrow> TokenManager" where
  "NewTokenManager secret issuer =
     \<lparr>tm_issuer = issuer, tm_current = Some secret, tm_previous = None, tm_allowedIssuers = None, tm_audience = None\<rparr>"

definition SetAllowedIssuers :: "string list option \<Rightarrow> TokenManager \<Rightarrow> TokenManager" where
  "SetAllowedIssuers issuers m = m\<lparr>tm_allowedIssuers := issuers\<rparr>"

definition SetAudience :: "string \<Rightarrow> TokenManager \<Rightarrow> TokenManager" where
  "SetAudience aud m = m\<lparr>tm_audience := (if aud = '''' then None else Some aud)\<rparr>"

definition NewCoupledTokenManager :: "byte list \<Rightarrow> string \<Rightarrow> string list \<Rightarrow> string \<Rightarrow> jwt_error + TokenManager" where
  "NewCoupledTokenManager secret issuer allowedIssuers audience =
     (if issuer = '''' then Inl (JwtConfig ''requires a non-empty issuer'')
      else if audience = '''' then Inl (JwtConfig ''requires a non-empty audience'')
      else if length allowedIssuers = 0 then Inl (JwtConfig ''requires a non-empty allowedIssuers set'')
      else if \<not> list_ex (\<lambda>a. a = issuer) allowedIssuers
      then Inl (JwtConfig ''requires issuer to be present in allowedIssuers'')
      else Inr (SetAudience audience (SetAllowedIssuers (Some allowedIssuers)
             \<lparr>tm_issuer = issuer, tm_current = Some secret, tm_previous = None, tm_allowedIssuers = None, tm_audience = None\<rparr>)))"

text \<open>The two stores of a rotation, in their order.\<close>

definition storePrevious :: "TokenManager \<Rightarrow> TokenManager" where
  "storePrevious m = (case tm_current m of None \<Rightarrow> m | Some cur \<Rightarrow> m\<lparr>tm_previous := Some cur\<rparr>)"

definition storeCurrent :: "byte list \<Rightarrow> TokenManager \<Rightarrow> TokenManager" where
  "storeCurrent newSecret m = m\<lparr>tm_current := Some newSecret\<rparr>"

definition RotateSecret :: "byte list \<Rightarrow> TokenManager \<Rightarrow> TokenManager" where
  "RotateSecret newSecret m = storeCurrent newSecret (storePrevious m)"

definition ClearPreviousSecret :: "TokenManager \<Rightarrow> TokenManager" where
  "ClearPreviousSecret m = m\<lparr>tm_previous := None\<rparr>"

definition issuerAllowed :: "TokenManager \<Rightarrow> string \<Rightarrow> bool" where
  "issuerAllowed m iss = (case tm_allowedIssuers m of None \<Rightarrow> True | Some allowed \<Rightarrow> list_ex (\<lambda>a. a = iss) allowed)"

definition currentSecret :: "TokenManager \<Rightarrow> byte list" where
  "currentSecret m = (case tm_current m of None \<Rightarrow> [] | Some p \<Rightarrow> p)"

text \<open>\<open>jti\<close> is the identifier drawn; \<open>fails\<close>: the library reports an error while signing.\<close>

definition generate :: "'t signer \<Rightarrow> bool \<Rightarrow> string \<Rightarrow> time \<Rightarrow> time \<Rightarrow> TokenManager \<Rightarrow> string \<Rightarrow> string \<Rightarrow> string \<Rightarrow> string list
    \<Rightarrow> duration \<Rightarrow> jwt_error + 't" where
  "generate sign fails jti now now' m userID email orgID scopes expiresIn =
     (let expiresIn = (if expiresIn = 0 then DefaultExpiry else expiresIn);
          secret = currentSecret m
      in if length secret = 0 then Inl ErrNoSigningSecret
         else
           let claims = \<lparr>cl_UserID = userID, cl_Email = email, cl_OrgID = orgID, cl_Scopes = scopes, cl_JTI = jti,
                 cl_ExpiresAt = Some (NumericDate (now + expiresIn)), cl_IssuedAt = Some (NumericDate now'),
                 cl_Issuer = tm_issuer m, cl_Subject = userID, cl_ID = jti,
                 cl_Audience = (case tm_audience m of None \<Rightarrow> [] | Some aud \<Rightarrow> [aud])\<rparr>
           in if fails then Inl (JwtLibrary ''sign'') else Inr (sign HS256 secret claims))"

definition Generate :: "'t signer \<Rightarrow> bool \<Rightarrow> string \<Rightarrow> time \<Rightarrow> time \<Rightarrow> TokenManager \<Rightarrow> string \<Rightarrow> string \<Rightarrow> string list \<Rightarrow> duration
    \<Rightarrow> jwt_error + 't" where
  "Generate sign fails jti now now' m userID email scopes expiresIn =
     generate sign fails jti now now' m userID email '''' scopes expiresIn"

definition GenerateForOrg :: "'t signer \<Rightarrow> bool \<Rightarrow> string \<Rightarrow> time \<Rightarrow> time \<Rightarrow> TokenManager \<Rightarrow> string \<Rightarrow> string \<Rightarrow> string \<Rightarrow> string list
    \<Rightarrow> duration \<Rightarrow> jwt_error + 't" where
  "GenerateForOrg sign fails jti now now' m userID email orgID scopes expiresIn =
     generate sign fails jti now now' m userID email orgID scopes expiresIn"

definition keyfunc :: "byte list \<Rightarrow> signing_method \<Rightarrow> jwt_error + byte list" where
  "keyfunc secret m = (if m \<noteq> HS256 then Inl UnexpectedMethod else Inr secret)"

definition validateWith :: "'t parser \<Rightarrow> time \<Rightarrow> TokenManager \<Rightarrow> 't \<Rightarrow> byte list \<Rightarrow> jwt_error + Claims" where
  "validateWith parse now m token secret =
     (if length secret = 0 then Inl ErrNoSigningSecret
      else (case parse token (keyfunc secret) (tm_audience m) now of
              Inl e \<Rightarrow> Inl e
            | Inr (valid, claims) \<Rightarrow>
                if \<not> valid then Inl InvalidToken
                else if \<not> issuerAllowed m (cl_Issuer claims) then Inl IssuerNotAllowed
                else Inr (syncTokenID claims)))"

text \<open>Validation loads the current secret, and later, if that one fails, the previous one. \<open>m\<close> and \<open>m'\<close> are the
  manager at the two loads; between them another goroutine may rotate.\<close>

definition ValidateLoads :: "'t parser \<Rightarrow> time \<Rightarrow> TokenManager \<Rightarrow> TokenManager \<Rightarrow> 't \<Rightarrow> jwt_error + Claims" where
  "ValidateLoads parse now m m' token =
     (case validateWith parse now m token (currentSecret m) of
        Inr claims \<Rightarrow> Inr claims
      | Inl err \<Rightarrow>
          (case tm_previous m' of
             None \<Rightarrow> Inl err
           | Some prev \<Rightarrow>
               (case validateWith parse now m' token prev of
                  Inr c \<Rightarrow> Inr c
                | Inl _ \<Rightarrow> Inl err)))"


subsection \<open>What a validated token is\<close>

lemma syncTokenID_fields [simp]:
  "cl_UserID (syncTokenID c) = cl_UserID c" "cl_OrgID (syncTokenID c) = cl_OrgID c" "cl_Scopes (syncTokenID c) = cl_Scopes c"
  "cl_Issuer (syncTokenID c) = cl_Issuer c" "cl_Audience (syncTokenID c) = cl_Audience c" "cl_ExpiresAt (syncTokenID c) = cl_ExpiresAt c"
  by (simp_all add: syncTokenID_def Let_def)

lemma syncTokenID_id:
  "TokenID (Some (syncTokenID c)) = TokenID (Some c) \<and> (TokenID (Some c) \<noteq> '''' \<longrightarrow>
     cl_JTI (syncTokenID c) = TokenID (Some c) \<and> cl_ID (syncTokenID c) = TokenID (Some c))"
  by (simp add: syncTokenID_def TokenID_def Let_def)

lemma jwt_parse:
  assumes "jwt_library sign parse" "parse t kf aud now = Inr (v, c)"
  shows "v \<and> (\<exists>m k. kf m = Inr k \<and> t = sign m k c) \<and> unexpired now c \<and> has_audience aud c"
  using assms(1) [unfolded jwt_library_def, THEN conjunct1, rule_format, OF assms(2)] .

lemma jwt_sign:
  assumes "jwt_library sign parse" "kf m = Inr k" "unexpired now c" "has_audience aud c"
  shows "parse (sign m k c) kf aud now = Inr (True, c)"
  using assms(1) [unfolded jwt_library_def, THEN conjunct2, THEN conjunct1, rule_format] assms(2-4) by blast

lemma jwt_claims:
  assumes "jwt_library sign parse" "sign m k c = sign m' k' c'"
  shows "c = c'"
  using assms(1) [unfolded jwt_library_def, THEN conjunct2, THEN conjunct2, rule_format, OF assms(2)] .

lemma validateWith_sound:
  assumes "jwt_library sign parse" "validateWith parse now m t secret = Inr c"
  shows "\<exists>c0. t = sign HS256 secret c0 \<and> secret \<noteq> [] \<and> c = syncTokenID c0 \<and> unexpired now c0 \<and> has_audience (tm_audience m) c0
    \<and> issuerAllowed m (cl_Issuer c0)"
proof -
  obtain v c0 where p: "parse t (keyfunc secret) (tm_audience m) now = Inr (v, c0)" "secret \<noteq> []"
    "issuerAllowed m (cl_Issuer c0)" "c = syncTokenID c0"
    using assms(2) by (auto simp: validateWith_def split: if_splits sum.splits)
  from jwt_parse [OF assms(1) p(1)] show ?thesis using p(2-4) by (auto simp: keyfunc_def split: if_splits)
qed

lemma validateWith_complete:
  assumes "jwt_library sign parse" "secret \<noteq> []" "unexpired now c" "has_audience (tm_audience m) c" "issuerAllowed m (cl_Issuer c)"
  shows "validateWith parse now m (sign HS256 secret c) secret = Inr (syncTokenID c)"
proof -
  have "parse (sign HS256 secret c) (keyfunc secret) (tm_audience m) now = Inr (True, c)"
    by (rule jwt_sign [OF assms(1) _ assms(3,4)]) (simp add: keyfunc_def)
  with assms(2,5) show ?thesis by (simp add: validateWith_def)
qed


lemma ValidateLoads_complete:
  assumes "jwt_library sign parse" "secret \<noteq> []" "unexpired now c"
    and "tm_audience m' = tm_audience m" "tm_allowedIssuers m' = tm_allowedIssuers m"
    and "has_audience (tm_audience m) c" "issuerAllowed m (cl_Issuer c)"
    and "currentSecret m = secret \<or> tm_previous m' = Some secret"
  shows "ValidateLoads parse now m m' (sign HS256 secret c) = Inr (syncTokenID c)"
proof (cases "validateWith parse now m (sign HS256 secret c) (currentSecret m)")
  case (Inr c1)
  then obtain c0 where "sign HS256 secret c = sign HS256 (currentSecret m) c0" "c1 = syncTokenID c0"
    using validateWith_sound [OF assms(1)] by metis
  moreover from this(1) have "c0 = c" using jwt_claims [OF assms(1)] by metis
  ultimately show ?thesis using Inr by (simp add: ValidateLoads_def)
next
  case (Inl e)
  have all: "has_audience (tm_audience m') c" "issuerAllowed m' (cl_Issuer c)" using assms(4-7) by (simp_all add: issuerAllowed_def)
  have "currentSecret m \<noteq> secret" using Inl validateWith_complete [OF assms(1-3) assms(6,7)] by auto
  with assms(8) have "tm_previous m' = Some secret" by blast
  moreover have "validateWith parse now m' (sign HS256 secret c) secret = Inr (syncTokenID c)"
    by (rule validateWith_complete [OF assms(1-3) all])
  ultimately show ?thesis using Inl by (simp add: ValidateLoads_def)
qed

lemma rotation_loads:
  assumes "tm_current m = Some secret" "(a, b) \<in> {(m, m), (m, storePrevious m), (m, RotateSecret new m),
      (storePrevious m, storePrevious m), (storePrevious m, RotateSecret new m), (RotateSecret new m, RotateSecret new m)}"
  shows "currentSecret a = secret \<or> tm_previous b = Some secret"
    "tm_audience a = tm_audience m" "tm_audience b = tm_audience m"
    "tm_allowedIssuers a = tm_allowedIssuers m" "tm_allowedIssuers b = tm_allowedIssuers m"
  using assms by (auto simp: currentSecret_def RotateSecret_def storeCurrent_def storePrevious_def)

text \<open>
  A session survives the rotation of the secret. A token the manager minted is accepted until it expires,
  with the user, organization, scopes and identifier it was minted with: before a rotation, after it, and
  whenever the two loads of the validation fall before, between or after the two stores of the rotation.
  Minting fails only without a secret or when the library does.
\<close>

theorem minted_token_survives_rotation:
  assumes "jwt_library sign parse" "generate sign fails jti now0 now1 m userID email orgID scopes expiresIn = Inr t"
    and "now < NumericDate (now0 + (if expiresIn = 0 then hour else expiresIn))" "issuerAllowed m (tm_issuer m)"
    and "(a, b) \<in> {(m, m), (m, storePrevious m), (m, RotateSecret new m),
      (storePrevious m, storePrevious m), (storePrevious m, RotateSecret new m), (RotateSecret new m, RotateSecret new m)}"
  shows "\<exists>c. ValidateLoads parse now a b t = Inr c \<and> cl_UserID c = userID \<and> cl_OrgID c = orgID \<and> cl_Scopes c = scopes
    \<and> TokenID (Some c) = jti"
proof -
  obtain secret c where g: "tm_current m = Some secret" "secret \<noteq> []" "t = sign HS256 secret c"
    "cl_UserID c = userID" "cl_OrgID c = orgID" "cl_Scopes c = scopes" "cl_JTI c = jti" "cl_ID c = jti"
    "cl_ExpiresAt c = Some (NumericDate (now0 + (if expiresIn = 0 then hour else expiresIn)))" "cl_Issuer c = tm_issuer m"
    "has_audience (tm_audience m) c"
    using assms(2)
    by (auto simp: generate_def currentSecret_def DefaultExpiry_def has_audience_def Let_def split: if_splits option.splits)
  note loads = rotation_loads [OF g(1) assms(5)]
  have "ValidateLoads parse now a b t = Inr (syncTokenID c)"
    unfolding g(3)
  proof (rule ValidateLoads_complete [OF assms(1) g(2)])
    show "unexpired now c" using g(9) assms(3) by (simp add: unexpired_def)
    show "issuerAllowed a (cl_Issuer c)" using assms(4) g(10) loads(4) by (simp add: issuerAllowed_def)
  qed (use loads g(11) in simp_all)
  then show ?thesis using g(4-8) syncTokenID_id [of c] by (auto simp: TokenID_def)
qed

text \<open>A signature scheme that meets the contract: the token is the triple itself.\<close>

definition sign0 :: "(signing_method \<times> byte list \<times> Claims) signer" where
  "sign0 m k c = (m, k, c)"

definition parse0 :: "(signing_method \<times> byte list \<times> Claims) parser" where
  "parse0 t kf aud now =
     (case t of (m, k, c) \<Rightarrow>
        (case kf m of
           Inl e \<Rightarrow> Inl e
         | Inr k' \<Rightarrow> if k' = k \<and> unexpired now c \<and> has_audience aud c then Inr (True, c) else Inl (JwtLibrary ''invalid'')))"

lemma jwt_library0: "jwt_library sign0 parse0"
  unfolding jwt_library_def sign0_def parse0_def by (auto split: prod.splits sum.splits if_splits)


theorem minted_token_survives_rotation_witness:
  "\<exists>t c. generate sign0 False ''j'' 0 0 (NewTokenManager [1] ''iss'') ''u'' ''e'' '''' [] 0 = Inr t
     \<and> ValidateLoads parse0 1 (RotateSecret [2] (NewTokenManager [1] ''iss'')) (RotateSecret [2] (NewTokenManager [1] ''iss'')) t = Inr c
     \<and> TokenID (Some c) = ''j''"
proof -
  let ?m = "NewTokenManager [1] ''iss''"
  obtain t where t: "generate sign0 False ''j'' 0 0 ?m ''u'' ''e'' '''' [] 0 = Inr t"
    by (simp add: generate_def NewTokenManager_def currentSecret_def)
  have "(1::int) < NumericDate (0 + (if (0::int) = 0 then hour else 0))" "issuerAllowed ?m (tm_issuer ?m)"
    by (simp_all add: NumericDate_def hour_def minute_def second_def issuerAllowed_def NewTokenManager_def)
  then show ?thesis
    using t minted_token_survives_rotation [OF jwt_library0 t, of 1 "RotateSecret [2] ?m" "RotateSecret [2] ?m" "[2]"] by blast
qed

end
