(* ===== verification/Api_Key_Auth.thy ===== *)
theory Api_Key_Auth
  imports Base64
begin

text \<open>
  Package \<open>identity/auth\<close>, file \<open>apikey.go\<close>: minting an API key, comparing a presented key with a stored digest,
  and reading the key from an authorization header.

  The digest is that of the bcrypt library, which is not part of the program: \<open>gen\<close> digests a password (or
  fails) and \<open>cmp\<close> compares. \<open>bcrypt\<close> states what its documentation promises: a password of at most 72
  bytes is digested unless the random source fails, a longer one is refused, and a digest accepts its own
  password.
\<close>

datatype key_error =
    PrefixTooLong string
  | KeyRandomFailed
  | KeyHashFailed
  | HeaderEmpty
  | HeaderNotBearer
  | HeaderNoKey

definition APIKeyLength :: nat where "APIKeyLength = 32"
definition DisplayPrefixLength :: nat where "DisplayPrefixLength = 10"
definition BcryptCost :: nat where "BcryptCost = 12"
definition MinPrefixRandomChars :: nat where "MinPrefixRandomChars = 2"
definition MaxAPIKeyPrefixLength :: nat where "MaxAPIKeyPrefixLength = 7"

type_synonym bcrypt_gen = "string \<Rightarrow> nat \<Rightarrow> bool \<Rightarrow> string option"
type_synonym bcrypt_cmp = "string \<Rightarrow> string \<Rightarrow> bool"

definition bcrypt :: "bcrypt_gen \<Rightarrow> bcrypt_cmp \<Rightarrow> bool" where
  "bcrypt gen cmp \<longleftrightarrow>
     (\<forall>pw cost. length pw \<le> 72 \<longrightarrow> (\<exists>h. gen pw cost False = Some h \<and> cmp h pw))
     \<and> (\<forall>pw cost f. 72 < length pw \<longrightarrow> gen pw cost f = None)
     \<and> (\<forall>pw cost f h. gen pw cost f = Some h \<longrightarrow> cmp h pw)"

text \<open>\<open>io 0\<close>: the random source fails; \<open>io 1\<close>: it fails inside the digest.\<close>

definition GenerateAPIKey :: "bcrypt_gen \<Rightarrow> io \<Rightarrow> byte list \<Rightarrow> string \<Rightarrow> key_error + (string \<times> string \<times> string)" where
  "GenerateAPIKey gen io rnd pfx =
     (if length pfx > MaxAPIKeyPrefixLength then Inl (PrefixTooLong pfx)
      else if io 0 then Inl KeyRandomFailed
      else
        let randomPart = EncodeToString rnd;
            fullKey = pfx @ ''_'' @ randomPart
        in case gen fullKey BcryptCost (io 1) of
             None \<Rightarrow> Inl KeyHashFailed
           | Some hash \<Rightarrow>
               let displayPrefixStr = (if length fullKey > DisplayPrefixLength then take DisplayPrefixLength fullKey else fullKey)
               in Inr (fullKey, hash, displayPrefixStr))"

definition ValidateAPIKey :: "bcrypt_cmp \<Rightarrow> string \<Rightarrow> string \<Rightarrow> bool" where
  "ValidateAPIKey cmp providedKey storedHash = cmp storedHash providedKey"

definition is_blank :: "char \<Rightarrow> bool" where
  "is_blank c \<longleftrightarrow> c = CHR '' '' \<or> c = CHR 0x09"

definition ExtractAPIKeyFromHeader :: "string \<Rightarrow> key_error + string" where
  "ExtractAPIKeyFromHeader header =
     (if header = '''' then Inl HeaderEmpty
      else
        let trimmed = dropWhile is_blank header;
            scheme = takeWhile (\<lambda>c. \<not> is_blank c) trimmed;
            rest = dropWhile (\<lambda>c. \<not> is_blank c) trimmed
        in case rest of
             [] \<Rightarrow> Inl HeaderNotBearer
           | sep # after \<Rightarrow>
               if \<not> EqualFold scheme ''Bearer'' then Inl HeaderNotBearer
               else
                 let key = TrimSpace after
                 in if key = '''' then Inl HeaderNoKey else Inr key)"

subsection \<open>Minted keys\<close>

lemma random_length: "length rnd = APIKeyLength \<Longrightarrow> length (EncodeToString rnd) = 43"
  by (simp add: length_EncodeToString APIKeyLength_def)

lemma minted_key:
  assumes "GenerateAPIKey gen io rnd pfx = Inr (key, hash, display)" "length rnd = APIKeyLength"
  shows "key = pfx @ ''_'' @ EncodeToString rnd" "length pfx \<le> 7" "gen key BcryptCost (io 1) = Some hash"
    "display = take 10 key" "length key = length pfx + 44"
  using assms random_length [OF assms(2)]
  by (auto simp: GenerateAPIKey_def MaxAPIKeyPrefixLength_def DisplayPrefixLength_def Let_def split: if_splits option.splits)

text \<open>
  A minted key is usable and its prefix discriminates. A call is refused exactly for a prefix of more than 7
  bytes or a failed random source, never because the key exceeds what the digest accepts; the key returned
  matches its digest; the display prefix is the first 10 bytes of the key, contains the prefix and the
  separator whole, and at least two characters of it come from the random part.
\<close>

theorem GenerateAPIKey_discriminates:
  assumes "bcrypt gen cmp" "length rnd = APIKeyLength"
  shows "(7 < length pfx \<longrightarrow> GenerateAPIKey gen io rnd pfx = Inl (PrefixTooLong pfx))
    \<and> (length pfx \<le> 7 \<and> \<not> io 0 \<and> \<not> io 1 \<longrightarrow> (\<exists>r. GenerateAPIKey gen io rnd pfx = Inr r))
    \<and> (\<forall>key hash display. GenerateAPIKey gen io rnd pfx = Inr (key, hash, display) \<longrightarrow>
         ValidateAPIKey cmp key hash \<and> length key \<le> 72 \<and> length display = DisplayPrefixLength
         \<and> display = take DisplayPrefixLength key
         \<and> (\<exists>n \<ge> MinPrefixRandomChars. display = pfx @ ''_'' @ take n (EncodeToString rnd)))"
proof (intro conjI allI impI)
  show "GenerateAPIKey gen io rnd pfx = Inl (PrefixTooLong pfx)" if "7 < length pfx"
    using that by (simp add: GenerateAPIKey_def MaxAPIKeyPrefixLength_def)
  let ?key = "pfx @ ''_'' @ EncodeToString rnd"
  show "\<exists>r. GenerateAPIKey gen io rnd pfx = Inr r" if ok: "length pfx \<le> 7 \<and> \<not> io 0 \<and> \<not> io 1"
  proof -
    have "length ?key \<le> 72" using ok random_length [OF assms(2)] by simp
    then obtain h where "gen ?key BcryptCost False = Some h" using assms(1) unfolding bcrypt_def by blast
    with ok show ?thesis by (simp add: GenerateAPIKey_def MaxAPIKeyPrefixLength_def Let_def)
  qed
  fix key hash display
  assume g: "GenerateAPIKey gen io rnd pfx = Inr (key, hash, display)"
  note k = minted_key [OF g assms(2)]
  show "ValidateAPIKey cmp key hash" using k(3) assms(1) unfolding bcrypt_def ValidateAPIKey_def by blast
  show "length key \<le> 72" "length display = DisplayPrefixLength" "display = take DisplayPrefixLength key"
    using k by (simp_all add: DisplayPrefixLength_def)
  have "display = pfx @ ''_'' @ take (9 - length pfx) (EncodeToString rnd)"
    using k(1,2,4) by (auto simp: take_Cons' numeral_eq_Suc split: nat.splits)
  then show "\<exists>n \<ge> MinPrefixRandomChars. display = pfx @ ''_'' @ take n (EncodeToString rnd)"
    using k(2) by (intro exI [of _ "9 - length pfx"]) (simp add: MinPrefixRandomChars_def)
qed

text \<open>A digest that meets the contract: the password itself.\<close>

definition gen0 :: bcrypt_gen where "gen0 pw cost f = (if f \<or> 72 < length pw then None else Some pw)"
definition cmp0 :: bcrypt_cmp where "cmp0 h pw = (h = pw)"

lemma bcrypt0: "bcrypt gen0 cmp0"
  by (auto simp: bcrypt_def gen0_def cmp0_def)

definition ex_random :: "byte list" where "ex_random = replicate 32 7"

theorem GenerateAPIKey_discriminates_witness:
  "\<exists>key hash display. GenerateAPIKey gen0 no_faults ex_random ''tfr'' = Inr (key, hash, display) \<and> ValidateAPIKey cmp0 key hash
     \<and> length display = 10"
proof -
  have len: "length ex_random = APIKeyLength" by (simp add: ex_random_def APIKeyLength_def)
  note spec = GenerateAPIKey_discriminates [OF bcrypt0 len, of "''tfr''" no_faults]
  obtain key hash display where g: "GenerateAPIKey gen0 no_faults ex_random ''tfr'' = Inr (key, hash, display)"
    using spec by (auto simp: no_faults_def)
  have "ValidateAPIKey cmp0 key hash" "length display = DisplayPrefixLength" using spec g by blast+
  then show ?thesis using g by (simp add: DisplayPrefixLength_def)
qed

subsection \<open>The header\<close>

lemma EqualFold_refl [simp]: "EqualFold s s"
  by (simp add: EqualFold_def)

lemma TrimSpace_unpadded:
  assumes "key \<noteq> []" "\<not> is_space (hd key)" "\<not> is_space (last key)"
  shows "TrimSpace key = key"
proof -
  have "dropWhile is_space key = key" using assms(1,2) by (cases key) auto
  moreover have "dropWhile is_space (rev key) = rev key" using assms(1,3) by (cases key rule: rev_cases) auto
  ultimately show ?thesis by (simp add: TrimSpace_def)
qed

text \<open>
  Reading a bearer key from a header. The scheme is recognised in any letter case and after leading
  blanks, the key is what follows its first blank without surrounding white space, and it is never empty;
  any header of that form is accepted and no other.
\<close>

theorem ExtractAPIKeyFromHeader_spec:
  "ExtractAPIKeyFromHeader header = Inr key \<longleftrightarrow>
     (\<exists>blanks scheme sep rest. header = blanks @ scheme @ sep # rest \<and> list_all is_blank blanks
        \<and> EqualFold scheme ''Bearer'' \<and> list_all (\<lambda>c. \<not> is_blank c) scheme \<and> is_blank sep
        \<and> key = TrimSpace rest \<and> key \<noteq> '''')"
proof
  assume e: "ExtractAPIKeyFromHeader header = Inr key"
  let ?t = "dropWhile is_blank header"
  let ?scheme = "takeWhile (\<lambda>c. \<not> is_blank c) ?t"
  obtain sep rest where r: "dropWhile (\<lambda>c. \<not> is_blank c) ?t = sep # rest" "EqualFold ?scheme ''Bearer''" "key = TrimSpace rest" "key \<noteq> ''''"
    using e by (auto simp: ExtractAPIKeyFromHeader_def Let_def split: if_splits list.splits)
  have "is_blank sep" using r(1) by (metis dropWhile_eq_Cons_conv)
  moreover have "header = takeWhile is_blank header @ ?scheme @ sep # rest"
    using takeWhile_dropWhile_id [of is_blank header] takeWhile_dropWhile_id [of "\<lambda>c. \<not> is_blank c" ?t] r(1) by metis
  moreover have "list_all is_blank (takeWhile is_blank header)" "list_all (\<lambda>c. \<not> is_blank c) ?scheme"
    by (auto simp: list_all_iff dest: set_takeWhileD)
  ultimately show "\<exists>blanks scheme sep rest. header = blanks @ scheme @ sep # rest \<and> list_all is_blank blanks
        \<and> EqualFold scheme ''Bearer'' \<and> list_all (\<lambda>c. \<not> is_blank c) scheme \<and> is_blank sep
        \<and> key = TrimSpace rest \<and> key \<noteq> ''''" using r(2-4) by blast
next
  assume "\<exists>blanks scheme sep rest. header = blanks @ scheme @ sep # rest \<and> list_all is_blank blanks
        \<and> EqualFold scheme ''Bearer'' \<and> list_all (\<lambda>c. \<not> is_blank c) scheme \<and> is_blank sep
        \<and> key = TrimSpace rest \<and> key \<noteq> ''''"
  then obtain blanks scheme sep rest where h: "header = blanks @ scheme @ sep # rest" "list_all is_blank blanks"
    "EqualFold scheme ''Bearer''" "list_all (\<lambda>c. \<not> is_blank c) scheme" "is_blank sep" "key = TrimSpace rest" "key \<noteq> ''''" by blast
  have "scheme \<noteq> []" using h(3) by (auto simp: EqualFold_def ToLower_def)
  then have t: "dropWhile is_blank header = scheme @ sep # rest"
    using h(1,2,4) by (cases scheme) (auto simp: list_all_iff dropWhile_append)
  have "takeWhile (\<lambda>c. \<not> is_blank c) (scheme @ sep # rest) = scheme" "dropWhile (\<lambda>c. \<not> is_blank c) (scheme @ sep # rest) = sep # rest"
    using h(4,5) by (auto simp: list_all_iff takeWhile_append dropWhile_append)
  then show "ExtractAPIKeyFromHeader header = Inr key"
    using h(1,3,6,7) t by (simp add: ExtractAPIKeyFromHeader_def Let_def)
qed

end
