(* ===== verification/Org_Access.thy ===== *)
theory Org_Access
  imports Org_Repo
begin

text \<open>
  What the accessors of \<open>Org_Repo\<close> guarantee about tenancy: the scope computed for a user is exactly the set of
  organizations where the user's role grants the requirement, and a scoped accessor neither reads nor changes
  an organization or a membership outside its scope.
\<close>

subsection \<open>The scope of a user\<close>

text \<open>The organizations in which some membership of the user has a role that satisfies the requirement.\<close>

definition granted :: "db \<Rightarrow> string \<Rightarrow> string \<Rightarrow> ReadWritePairs \<Rightarrow> string set" where
  "granted d u required rw =
     {i. i \<noteq> '''' \<and> (\<exists>m \<in> set (organization_members d). mem_UserID m = u \<and> mem_OrganizationID m = i
          \<and> (\<exists>scopes. unmarshal_strings (coalesced_scopes d m) = Some scopes \<and> HasScope scopes required rw))}"

lemma scanUserMembership_Inr:
  "scanUserMembership d m = Inr um \<Longrightarrow> um_OrganizationID um = mem_OrganizationID m
     \<and> unmarshal_strings (coalesced_scopes d m) = Some (um_RoleTemplateScopes um)"
  by (auto simp: scanUserMembership_def unmarshalRoleTemplateScopes_def split: option.splits)

lemma GetUserMemberships_mem:
  assumes "GetUserMemberships io u d = Inr ums"
  shows "um \<in> set ums \<Longrightarrow> \<exists>m \<in> set (organization_members d). mem_UserID m = u \<and> scanUserMembership d m = Inr um"
    and "m \<in> set (organization_members d) \<Longrightarrow> mem_UserID m = u \<Longrightarrow> \<exists>um \<in> set ums. scanUserMembership d m = Inr um"
proof -
  have scan: "scan_rows (scanUserMembership d) (order_desc mem_CreatedAt (filter (\<lambda>m. mem_UserID m = u) (organization_members d))) = Inr ums"
    using assms by (auto simp: GetUserMemberships_def split: if_splits sum.splits)
  show "\<exists>m \<in> set (organization_members d). mem_UserID m = u \<and> scanUserMembership d m = Inr um" if "um \<in> set ums"
    using scan_rows_mem [OF scan that] by auto
  show "\<exists>um \<in> set ums. scanUserMembership d m = Inr um" if "m \<in> set (organization_members d)" "mem_UserID m = u"
    using scan_rows_mem' [OF scan, of m] that by auto
qed

lemma OrgScopeForUser_ids:
  assumes "OrgScopeForUser io u required rw d = Inr s" "u \<noteq> ''''"
  shows "\<not> sc_all s" "\<not> sc_unowned s" "set (sc_orgIDs s) = granted d u required rw"
proof -
  obtain ums where ums: "GetUserMemberships io u d = Inr ums"
    "s = OrgScopeOrganizations (map um_OrganizationID (filter (\<lambda>m. HasScope (um_RoleTemplateScopes m) required rw) ums))"
    using assms by (auto simp: OrgScopeForUser_def split: sum.splits)
  show "\<not> sc_all s" "\<not> sc_unowned s" using ums(2) by simp_all
  have "i \<in> um_OrganizationID ` {m \<in> set ums. HasScope (um_RoleTemplateScopes m) required rw} \<longleftrightarrow>
      (\<exists>m \<in> set (organization_members d). mem_UserID m = u \<and> mem_OrganizationID m = i
        \<and> (\<exists>scopes. unmarshal_strings (coalesced_scopes d m) = Some scopes \<and> HasScope scopes required rw))" for i
  proof
    assume "i \<in> um_OrganizationID ` {m \<in> set ums. HasScope (um_RoleTemplateScopes m) required rw}"
    then obtain um where um: "um \<in> set ums" "HasScope (um_RoleTemplateScopes um) required rw" "um_OrganizationID um = i" by auto
    obtain m where m: "m \<in> set (organization_members d)" "mem_UserID m = u" "scanUserMembership d m = Inr um"
      using GetUserMemberships_mem(1) [OF ums(1) um(1)] by blast
    from m um(2,3) scanUserMembership_Inr [OF m(3)] show "\<exists>m \<in> set (organization_members d). mem_UserID m = u \<and> mem_OrganizationID m = i
        \<and> (\<exists>scopes. unmarshal_strings (coalesced_scopes d m) = Some scopes \<and> HasScope scopes required rw)" by (intro bexI [of _ m]) auto
  next
    assume "\<exists>m \<in> set (organization_members d). mem_UserID m = u \<and> mem_OrganizationID m = i
        \<and> (\<exists>scopes. unmarshal_strings (coalesced_scopes d m) = Some scopes \<and> HasScope scopes required rw)"
    then obtain m scopes where m: "m \<in> set (organization_members d)" "mem_UserID m = u" "mem_OrganizationID m = i"
      "unmarshal_strings (coalesced_scopes d m) = Some scopes" "HasScope scopes required rw" by blast
    then obtain um where "um \<in> set ums" "scanUserMembership d m = Inr um"
      using GetUserMemberships_mem(2) [OF ums(1)] by blast
    with m scanUserMembership_Inr [of d m um]
    show "i \<in> um_OrganizationID ` {m \<in> set ums. HasScope (um_RoleTemplateScopes m) required rw}" by force
  qed
  then show "set (sc_orgIDs s) = granted d u required rw"
    unfolding ums(2) OrgScopeOrganizations_ids granted_def by auto
qed

text \<open>
  The scope resolved for a user is exact. When \<open>OrgScopeForUser\<close> succeeds, the scope permits exactly the
  organizations in which the user has a membership whose role satisfies the requirement, no unowned row and no
  other organization; with no user, or where nothing is granted, it permits nothing.
\<close>

theorem OrgScopeForUser_exact:
  assumes "OrgScopeForUser io u required rw d = Inr s"
  shows "(permits s own \<longleftrightarrow> u \<noteq> '''' \<and> (\<exists>i. own = Some i \<and> i \<in> granted d u required rw))
    \<and> (u = '''' \<or> granted d u required rw = {} \<longrightarrow> MatchesNothing s)"
proof (cases "u = ''''")
  case True
  then have "s = OrgScope_zero" using assms by (simp add: OrgScopeForUser_def)
  then show ?thesis using True by (simp add: MatchesNothing_def)
next
  case False
  note ids = OrgScopeForUser_ids [OF assms False]
  then show ?thesis using False by (auto simp: permits_def MatchesNothing_def split: option.splits)
qed

theorem OrgScopeForUser_exact_witness:
  "\<exists>s. OrgScopeForUser no_faults ''u1'' ''w'' Map.empty ex_db = Inr s \<and> permits s (Some ''o1'')"
proof -
  obtain s where s: "OrgScopeForUser no_faults ''u1'' ''w'' Map.empty ex_db = Inr s"
    by (simp add: OrgScopeForUser_def GetUserMemberships_def scanUserMembership_def unmarshalRoleTemplateScopes_def
        coalesced_scopes_def joined_template_def ex_defs order_desc_def)
  have "''o1'' \<in> granted ex_db ''u1'' ''w'' Map.empty"
    by (simp add: granted_def ex_defs coalesced_scopes_def joined_template_def HasScope_iff)
  then show ?thesis using s OrgScopeForUser_exact [OF s, of "Some ''o1''"] by auto
qed

subsection \<open>Scoped accessors\<close>

definition hidden_orgs :: "OrgScope \<Rightarrow> db \<Rightarrow> Organization list" where
  "hidden_orgs scope d = filter (\<lambda>x. \<not> permits scope (Some (org_ID x))) (organizations d)"

definition hidden_members :: "OrgScope \<Rightarrow> db \<Rightarrow> OrganizationMember list" where
  "hidden_members scope d = filter (\<lambda>m. \<not> permits scope (Some (mem_OrganizationID m))) (organization_members d)"

lemma members_update_hidden:
  assumes "max_param q \<le> length args"
  shows "hidden_members scope (update_members (selected ms member_cols (andScope q scope ''organization_id'' args)) t d) = hidden_members scope d"
  using members.update_keeps_out_of_scope [OF assms, of "\<lambda>m. m\<lparr>mem_RoleTemplateID := t\<rparr>" scope ms "organization_members d"]
  by (simp add: hidden_members_def update_members_def)

lemma members_delete_hidden:
  assumes "max_param q \<le> length args"
  shows "hidden_members scope (delete_members (selected ms member_cols (andScope q scope ''organization_id'' args)) d) = hidden_members scope d"
  using members.delete_keeps_out_of_scope [OF assms, of scope ms "organization_members d"]
  by (simp add: hidden_members_def delete_members_def)

lemma orgs_update_hidden:
  assumes "max_param q \<le> length args" "\<And>x. org_ID (f x) = org_ID x"
  shows "hidden_orgs scope (update_orgs (selected ms org_cols (andScope q scope ''id'' args)) f d) = hidden_orgs scope d"
  using orgs.update_keeps_out_of_scope [OF assms(1), of f scope ms "organizations d"] assms(2)
  by (simp add: hidden_orgs_def update_orgs_def)

lemma orgs_delete_hidden:
  assumes "max_param q \<le> length args"
  shows "hidden_orgs scope (delete_organizations (selected ms org_cols (andScope q scope ''id'' args)) d) = hidden_orgs scope d"
    and "hidden_members scope (delete_organizations (selected ms org_cols (andScope q scope ''id'' args)) d) = hidden_members scope d"
proof -
  let ?hit = "selected ms org_cols (andScope q scope ''id'' args)"
  show "hidden_orgs scope (delete_organizations ?hit d) = hidden_orgs scope d"
    using orgs.delete_keeps_out_of_scope [OF assms, of scope ms "organizations d"]
    by (simp add: hidden_orgs_def delete_organizations_def Let_def)
  have "mem_OrganizationID m \<notin> set (map org_ID (filter ?hit (organizations d)))" if "\<not> permits scope (Some (mem_OrganizationID m))" for m
    using that orgs.selected_iff [OF assms, of ms scope] by auto
  then show "hidden_members scope (delete_organizations ?hit d) = hidden_members scope d"
    by (auto simp: hidden_members_def delete_organizations_def Let_def intro!: filter_cong)
qed

lemma add_member_hidden:
  "hidden_members scope (snd (AddMemberWithRoleTemplate io now orgID u t scope d)) = hidden_members scope d"
  by (auto simp: AddMemberWithRoleTemplate_def hidden_members_def filter_empty_conv orgs_o.selected_iff Let_def
      split: option.splits)

text \<open>
  Organizations and memberships are isolated between tenants. Whatever the arguments and failures, no
  scoped operation changes an organization or a membership of an organization outside its scope; and what is
  read by id, by name, as a member or in a listing is inside it.
\<close>

theorem orgs_scoped:
  "hidden_orgs scope (fst (snd (Update io now org scope d r))) = hidden_orgs scope d
   \<and> hidden_orgs scope (fst (snd (Rename io now orgID name scope d r))) = hidden_orgs scope d
   \<and> hidden_orgs scope (fst (snd (Delete io orgID scope d r))) = hidden_orgs scope d
   \<and> hidden_members scope (fst (snd (Delete io orgID scope d r))) = hidden_members scope d
   \<and> hidden_members scope (snd (AddMemberWithRoleTemplate io now orgID u t scope d)) = hidden_members scope d
   \<and> hidden_members scope (snd (RemoveMember io orgID u scope d)) = hidden_members scope d
   \<and> hidden_members scope (snd (UpdateMemberRoleTemplate io orgID u t scope d)) = hidden_members scope d
   \<and> hidden_members scope (snd (RemoveAllMembershipsForUser io u scope d)) = hidden_members scope d
   \<and> (case GetByID io orgID scope d of Inr x \<Rightarrow> permits scope (Some (org_ID x)) \<and> x \<in> set (organizations d) | Inl e \<Rightarrow> True)
   \<and> (case GetByName io name scope d of Inr x \<Rightarrow> permits scope (Some (org_ID x)) \<and> x \<in> set (organizations d) | Inl e \<Rightarrow> True)
   \<and> (case GetMember io orgID u scope d of Inr m \<Rightarrow> permits scope (Some (mem_OrganizationID m)) | Inl e \<Rightarrow> True)
   \<and> (case ListOrgs io limit offset scope d of Inr xs \<Rightarrow> list_all (\<lambda>x. permits scope (Some (org_ID x))) xs | Inl e \<Rightarrow> True)
   \<and> (case SearchOrgs io query limit offset scope d of Inr xs \<Rightarrow> list_all (\<lambda>x. permits scope (Some (org_ID x))) xs | Inl e \<Rightarrow> True)"
proof (intro conjI)
  show "hidden_orgs scope (fst (snd (Update io now org scope d r))) = hidden_orgs scope d"
    using orgs_update_hidden [of "P_eq ''id'' 1"]
    by (auto simp: Update_def Let_def split: option.splits)
  show "hidden_orgs scope (fst (snd (Rename io now orgID name scope d r))) = hidden_orgs scope d"
    using orgs_update_hidden [of "P_eq ''id'' 2"] by (auto simp: Rename_def Let_def split: option.splits)
  show "hidden_orgs scope (fst (snd (Delete io orgID scope d r))) = hidden_orgs scope d"
    "hidden_members scope (fst (snd (Delete io orgID scope d r))) = hidden_members scope d"
    using orgs_delete_hidden [of "P_eq ''id'' 1" "[VText orgID]"] by (auto simp: Delete_def Let_def)
  show "hidden_members scope (snd (AddMemberWithRoleTemplate io now orgID u t scope d)) = hidden_members scope d"
    by (rule add_member_hidden)
  show "hidden_members scope (snd (RemoveMember io orgID u scope d)) = hidden_members scope d"
    using members_delete_hidden [of "P_and (P_eq ''organization_id'' 1) (P_eq ''user_id'' 2)"] by (auto simp: RemoveMember_def Let_def)
  show "hidden_members scope (snd (UpdateMemberRoleTemplate io orgID u t scope d)) = hidden_members scope d"
    using members_update_hidden [of "P_and (P_eq ''organization_id'' 1) (P_eq ''user_id'' 2)"]
    by (auto simp: UpdateMemberRoleTemplate_def Let_def split: option.splits)
  show "hidden_members scope (snd (RemoveAllMembershipsForUser io u scope d)) = hidden_members scope d"
    using members_delete_hidden [of "P_eq ''user_id'' 1"] by (auto simp: RemoveAllMembershipsForUser_def Let_def)
  show "case GetByID io orgID scope d of Inr x \<Rightarrow> permits scope (Some (org_ID x)) \<and> x \<in> set (organizations d) | Inl e \<Rightarrow> True"
    by (auto simp: GetByID_def Let_def orgs.selected_iff split: sum.splits if_splits list.splits dest!: filter_Cons_mem)
  show "case GetByName io name scope d of Inr x \<Rightarrow> permits scope (Some (org_ID x)) \<and> x \<in> set (organizations d) | Inl e \<Rightarrow> True"
    by (auto simp: GetByName_def Let_def orgs.selected_iff split: sum.splits if_splits list.splits dest!: filter_Cons_mem)
  show "case GetMember io orgID u scope d of Inr m \<Rightarrow> permits scope (Some (mem_OrganizationID m)) | Inl e \<Rightarrow> True"
    by (auto simp: GetMember_def Let_def members.selected_iff split: sum.splits if_splits list.splits dest!: filter_Cons_mem)
  show "case ListOrgs io limit offset scope d of Inr xs \<Rightarrow> list_all (\<lambda>x. permits scope (Some (org_ID x))) xs | Inl e \<Rightarrow> True"
    by (auto simp: ListOrgs_def Let_def orgs.selected_iff list_all_iff split: sum.splits if_splits option.splits dest!: paginate_set)
  show "case SearchOrgs io query limit offset scope d of Inr xs \<Rightarrow> list_all (\<lambda>x. permits scope (Some (org_ID x))) xs | Inl e \<Rightarrow> True"
    by (auto simp: SearchOrgs_def Let_def orgs.selected_iff list_all_iff split: sum.splits if_splits option.splits dest!: paginate_set)
qed

end
