(* ===== verification/Platform_Admin.thy ===== *)
theory Platform_Admin
  imports Reducer Pg_Quote "HOL-Library.Product_Lexorder" "HOL-Library.Word"
begin

text \<open>
  Package \<open>identity/platformadmin\<close>: the carrier of platform-admin authority (\<open>platformadmin.go\<close>), the floor
  predicate (\<open>floor.go\<close>) and the elevation of a session (\<open>scopes.go\<close>).

  The carrier is a table of grants owned by the application; its rows are a list in which \<open>user_id\<close> is unique
  (the unique index \<open>VerifyTable\<close> insists on). A mutation runs in a transaction over the pair of that table and the
  application's own tables \<open>'s\<close>, where the audit intent writer records it: the writer is an argument of the operation,
  as is the floor predicate. Calls: \<open>io 0\<close> is the statement of a read, or the begin of a transaction; the following
  indices are the further driver calls in order. The server's clock is an argument. User ids are compared as
  the text the server stores. The test hook \<open>insideLock\<close> is absent (it is nil in production).
\<close>

datatype pa_error =
    ErrNotConfigured string
  | ErrAlreadyPlatformAdmin
  | ErrNotPlatformAdmin
  | ErrAuditIntentRequired
  | ErrLastPlatformAdmin
  | ErrIdentityUnavailable string
  | ErrNotSerialized
  | WrongRowCount string nat
  | Driver string
  | AppError string

text \<open>\<open>errors.Is(err, store.ErrNotFound)\<close>: one sentinel wraps it.\<close>

fun wraps_not_found :: "pa_error \<Rightarrow> bool" where
  "wraps_not_found ErrNotPlatformAdmin = True"
| "wraps_not_found _ = False"

record Grant =
  gr_UserID :: string
  gr_GrantedBy :: "string option"
  gr_GrantedAt :: time
  gr_Note :: "string option"

type_synonym 's AuditIntentWriter = "'s \<Rightarrow> (pa_error + unit) \<times> 's"
type_synonym floor_predicate = "Grant list \<Rightarrow> pa_error + unit"

record Carrier =
  ca_hasDB :: bool
  ca_table :: string
  ca_lockKey :: int
  existsQuery :: string
  listQuery :: string
  lockQuery :: string
  insertQuery :: string
  deleteQuery :: string

subsection \<open>Construction\<close>

fun quoteTableParts :: "(string list \<Rightarrow> string) \<Rightarrow> string list \<Rightarrow> pa_error + string list" where
  "quoteTableParts sanitize [] = Inr []"
| "quoteTableParts sanitize (p # ps) =
     (if \<not> ValidIdentifier p then Inl (ErrNotConfigured ''not a bare SQL identifier'')
      else if length p > MaxIdentifierLength then Inl (ErrNotConfigured ''over the length limit'')
      else (case quoteTableParts sanitize ps of
              Inl e \<Rightarrow> Inl e
            | Inr qs \<Rightarrow> Inr (Identifier sanitize p # qs)))"

definition quoteTable :: "(string list \<Rightarrow> string) \<Rightarrow> string \<Rightarrow> pa_error + string" where
  "quoteTable sanitize table =
     (let trimmed = TrimSpace table
      in if trimmed = '''' then Inl (ErrNotConfigured ''no table name'')
         else
           let parts = Split CHR ''.'' trimmed
           in if length parts > 2 then Inl (ErrNotConfigured ''too many parts'')
              else (case quoteTableParts sanitize parts of Inl e \<Rightarrow> Inl e | Inr qs \<Rightarrow> Inr (Join ''.'' qs)))"

text \<open>Package \<open>hash/fnv\<close>: the 64-bit FNV-1a hash.\<close>

definition fnv64a :: "string \<Rightarrow> 64 word" where
  "fnv64a s = fold (\<lambda>c h. xor h (of_char c) * 1099511628211) s 14695981039346656037"

definition advisoryLockKey :: "string \<Rightarrow> int" where
  "advisoryLockKey quotedTable = sint (fnv64a (''terraform-suite-identity/platformadmin'' @ [CHR 0x00] @ quotedTable))"

definition grantColumns :: string where
  "grantColumns = ''user_id, granted_by, granted_at, note''"

definition New :: "(string list \<Rightarrow> string) \<Rightarrow> bool \<Rightarrow> string \<Rightarrow> pa_error + Carrier" where
  "New sanitize hasDB table =
     (if \<not> hasDB then Inl (ErrNotConfigured ''no database connection'')
      else (case quoteTable sanitize table of
              Inl e \<Rightarrow> Inl e
            | Inr quoted \<Rightarrow>
                Inr \<lparr>ca_hasDB = True, ca_table = quoted, ca_lockKey = advisoryLockKey quoted,
                     existsQuery = ''SELECT EXISTS(SELECT 1 FROM '' @ quoted @ '' WHERE user_id = $1)'',
                     listQuery = ''SELECT '' @ grantColumns @ '' FROM '' @ quoted @ '' ORDER BY granted_at ASC, user_id ASC'',
                     lockQuery = ''SELECT '' @ grantColumns @ '' FROM '' @ quoted @ '' ORDER BY granted_at ASC, user_id ASC FOR UPDATE'',
                     insertQuery = ''INSERT INTO '' @ quoted @ '' (user_id, granted_by, note) VALUES ($1, $2, $3) ''
                       @ ''ON CONFLICT (user_id) DO NOTHING RETURNING '' @ grantColumns,
                     deleteQuery = ''DELETE FROM '' @ quoted @ '' WHERE user_id = $1''\<rparr>))"

text \<open>The guard \<open>c == nil || c.db == nil\<close> every method opens with.\<close>

definition unconstructed :: "Carrier option \<Rightarrow> bool" where
  "unconstructed c = (case c of None \<Rightarrow> True | Some cr \<Rightarrow> \<not> ca_hasDB cr)"

subsection \<open>Reading\<close>

definition IsPlatformAdmin :: "io \<Rightarrow> Carrier option \<Rightarrow> string \<Rightarrow> Grant list \<Rightarrow> pa_error + bool" where
  "IsPlatformAdmin io c userID gs =
     (if unconstructed c then Inl (ErrNotConfigured ''IsPlatformAdmin'')
      else if userID = '''' then Inr False
      else if io 0 then Inl (Driver ''exists'')
      else Inr (list_ex (\<lambda>g. gr_UserID g = userID) gs))"

definition by_age :: "Grant list \<Rightarrow> Grant list" where
  "by_age gs = sort_key (\<lambda>g. (gr_GrantedAt g, gr_UserID g)) gs"

definition Carrier_List :: "io \<Rightarrow> Carrier option \<Rightarrow> Grant list \<Rightarrow> pa_error + Grant list" where
  "Carrier_List io c gs =
     (if unconstructed c then Inl (ErrNotConfigured ''List'')
      else if io 0 then Inl (Driver ''list'')
      else if io 1 then Inl (Driver ''rows'')
      else Inr (by_age gs))"

subsection \<open>Granting\<close>

text \<open>\<open>INSERT ... ON CONFLICT (user_id) DO NOTHING RETURNING\<close>: \<open>None\<close> is the empty result.\<close>

definition insert_grant :: "Grant \<Rightarrow> Grant list \<Rightarrow> (Grant \<times> Grant list) option" where
  "insert_grant g gs = (if list_ex (\<lambda>x. gr_UserID x = gr_UserID g) gs then None else Some (g, gs @ [g]))"

definition Carrier_Grant :: "io \<Rightarrow> commit_outcome \<Rightarrow> time \<Rightarrow> Carrier option \<Rightarrow> string \<Rightarrow> string option \<Rightarrow> string option
    \<Rightarrow> 's AuditIntentWriter option \<Rightarrow> Grant list \<times> 's \<Rightarrow> (pa_error + Grant) \<times> (Grant list \<times> 's)" where
  "Carrier_Grant io cm now c userID grantedBy note writeAuditIntent w =
     (if unconstructed c then (Inl (ErrNotConfigured ''Grant''), w)
      else case writeAuditIntent of None \<Rightarrow> (Inl ErrAuditIntentRequired, w)
      | Some write \<Rightarrow>
          if TrimSpace userID = '''' then (Inl (ErrNotConfigured ''Grant names no principal''), w)
          else if io 0 then (Inl (Driver ''begin''), w)
          else if io 1 then (Inl (Driver ''insert''), w)
          else (case insert_grant \<lparr>gr_UserID = userID, gr_GrantedBy = grantedBy, gr_GrantedAt = now, gr_Note = note\<rparr> (fst w) of
                  None \<Rightarrow> (Inl ErrAlreadyPlatformAdmin, w)
                | Some (g, gs') \<Rightarrow>
                    (case write (snd w) of
                       (Inl e, _) \<Rightarrow> (Inl e, w)
                     | (Inr _, s') \<Rightarrow> commit_tx cm (Driver ''commit'') g w (gs', s'))))"

subsection \<open>Revoking\<close>

fun separate :: "string \<Rightarrow> Grant list \<Rightarrow> Grant option \<Rightarrow> Grant list \<Rightarrow> Grant option \<times> Grant list" where
  "separate userID [] target remaining = (target, remaining)"
| "separate userID (g # gs) target remaining =
     (if gr_UserID g = userID then separate userID gs (Some g) remaining
      else separate userID gs target (remaining @ [g]))"

definition lockCarrier :: "io \<Rightarrow> string \<Rightarrow> Grant list \<Rightarrow> pa_error + (Grant option \<times> Grant list)" where
  "lockCarrier io userID gs =
     (if io 1 then Inl (Driver ''lock'')
      else if io 2 then Inl (Driver ''rows'')
      else Inr (separate userID (by_age gs) None []))"

definition Carrier_Revoke :: "io \<Rightarrow> commit_outcome \<Rightarrow> Carrier option \<Rightarrow> string \<Rightarrow> floor_predicate option
    \<Rightarrow> 's AuditIntentWriter option \<Rightarrow> Grant list \<times> 's \<Rightarrow> (pa_error + Grant) \<times> (Grant list \<times> 's)" where
  "Carrier_Revoke io cm c userID keepsAnAdmin writeAuditIntent w =
     (if unconstructed c then (Inl (ErrNotConfigured ''Revoke''), w)
      else case writeAuditIntent of None \<Rightarrow> (Inl ErrAuditIntentRequired, w)
      | Some write \<Rightarrow>
          (case keepsAnAdmin of None \<Rightarrow> (Inl (ErrNotConfigured ''Revoke requires a floor predicate''), w)
           | Some keeps \<Rightarrow>
               if TrimSpace userID = '''' then (Inl (ErrNotConfigured ''Revoke names no principal''), w)
               else if io 0 then (Inl (Driver ''begin''), w)
               else (case lockCarrier io userID (fst w) of
                       Inl e \<Rightarrow> (Inl e, w)
                     | Inr (None, _) \<Rightarrow> (Inl ErrNotPlatformAdmin, w)
                     | Inr (Some target, remaining) \<Rightarrow>
                         (case keeps remaining of
                            Inl e \<Rightarrow> (Inl e, w)
                          | Inr _ \<Rightarrow>
                              if io 3 then (Inl (Driver ''delete''), w)
                              else if io 4 then (Inl (Driver ''rows affected''), w)
                              else
                                let affected = length (filter (\<lambda>g. gr_UserID g = userID) (fst w));
                                    gs' = filter (\<lambda>g. gr_UserID g \<noteq> userID) (fst w)
                                in if affected \<noteq> 1 then (Inl (WrongRowCount userID affected), w)
                                   else (case write (snd w) of
                                           (Inl e, _) \<Rightarrow> (Inl e, w)
                                         | (Inr _, s') \<Rightarrow> commit_tx cm (Driver ''commit'') target w (gs', s'))))))"

text \<open>\<open>Serialize\<close>: the function runs only once the advisory lock is held; its own effects are not part of the
  lock's transaction.\<close>

definition Serialize :: "io \<Rightarrow> Carrier option \<Rightarrow> ('w \<Rightarrow> (pa_error + unit) \<times> 'w) option \<Rightarrow> 'w \<Rightarrow> (pa_error + unit) \<times> 'w" where
  "Serialize io c fn w =
     (case fn of None \<Rightarrow> (Inl (ErrNotConfigured ''Serialize was given nothing to run''), w)
      | Some f \<Rightarrow>
          if unconstructed c then (Inl (ErrNotConfigured ''Serialize''), w)
          else if io 0 then (Inl ErrNotSerialized, w)
          else if io 1 then (Inl ErrNotSerialized, w)
          else f w)"

subsection \<open>The floor\<close>

text \<open>A resolver answers yes, no, or fails (with the cause).\<close>

type_synonym resolver = "string \<Rightarrow> string + bool"

fun exercisable_loop :: "resolver \<Rightarrow> (string \<rightharpoonup> bool) \<Rightarrow> Grant list \<Rightarrow> pa_error + unit" where
  "exercisable_loop r seen [] = Inl ErrLastPlatformAdmin"
| "exercisable_loop r seen (g # gs) =
     (case seen (gr_UserID g) of
        Some ex \<Rightarrow> if ex then Inr () else exercisable_loop r seen gs
      | None \<Rightarrow>
          (case r (gr_UserID g) of
             Inl cause \<Rightarrow> Inl (ErrIdentityUnavailable (gr_UserID g))
           | Inr ex \<Rightarrow> if ex then Inr () else exercisable_loop r (seen(gr_UserID g \<mapsto> ex)) gs))"

definition RequireAnotherExercisableAdmin :: "resolver option \<Rightarrow> floor_predicate" where
  "RequireAnotherExercisableAdmin r remaining =
     (case r of None \<Rightarrow> Inl (ErrIdentityUnavailable '''')
      | Some f \<Rightarrow> exercisable_loop f Map.empty remaining)"

subsection \<open>Elevation\<close>

fun withoutAdmin :: "string list \<Rightarrow> string list" where
  "withoutAdmin [] = []"
| "withoutAdmin (s # ss) = (if s = ScopeAdmin then withoutAdmin ss else s # withoutAdmin ss)"

definition SessionScopes :: "io \<Rightarrow> Carrier option \<Rightarrow> string \<Rightarrow> string list \<Rightarrow> Grant list \<Rightarrow> string list \<times> pa_error option" where
  "SessionScopes io c userID scopes gs =
     (let base = withoutAdmin scopes
      in case IsPlatformAdmin io c userID gs of
           Inl e \<Rightarrow> (base, Some e)
         | Inr isAdmin \<Rightarrow> if \<not> isAdmin then (base, None) else (base @ [ScopeAdmin], None))"

definition KeyScopes :: "string list \<Rightarrow> string list" where
  "KeyScopes scopes = withoutAdmin scopes"

subsection \<open>The operations, case by case\<close>

definition grants_wf :: "Grant list \<Rightarrow> bool" where
  "grants_wf gs \<longleftrightarrow> distinct (map gr_UserID gs)"

lemma set_by_age [simp]: "set (by_age gs) = set gs"
  by (simp add: by_age_def)

lemma unconstructed_Some [simp]: "ca_hasDB cr \<Longrightarrow> \<not> unconstructed (Some cr)"
  by (simp add: unconstructed_def)

lemma separate_eq:
  "separate u gs t rem =
     (case filter (\<lambda>g. gr_UserID g = u) gs of [] \<Rightarrow> t | g # hs \<Rightarrow> Some (last (g # hs)), rem @ filter (\<lambda>g. gr_UserID g \<noteq> u) gs)"
  by (induction u gs t rem rule: separate.induct) (auto split: list.splits)

lemma separate_Some:
  assumes "separate u gs None [] = (Some target, remaining)"
  shows "target \<in> set gs" "gr_UserID target = u" "remaining = filter (\<lambda>g. gr_UserID g \<noteq> u) gs"
proof -
  have *: "last (filter (\<lambda>g. gr_UserID g = u) gs) = target" "filter (\<lambda>g. gr_UserID g = u) gs \<noteq> []"
    "remaining = filter (\<lambda>g. gr_UserID g \<noteq> u) gs"
    using assms by (auto simp: separate_eq split: list.splits)
  from last_in_set [OF *(2)] *(1) show "target \<in> set gs" "gr_UserID target = u" by auto
  show "remaining = filter (\<lambda>g. gr_UserID g \<noteq> u) gs" by (rule *(3))
qed

lemma Carrier_Grant_cases:
  assumes "Carrier_Grant io cm now c u by note writer (gs, s) = (res, gs', s')"
  shows "(\<exists>e. res = Inl e) \<and> gs' = gs \<and> s' = s \<or>
    (\<exists>write. writer = Some write \<and> write s = (Inr (), s') \<and> TrimSpace u \<noteq> '''' \<and> u \<notin> gr_UserID ` set gs
      \<and> gs' = gs @ [\<lparr>gr_UserID = u, gr_GrantedBy = by, gr_GrantedAt = now, gr_Note = note\<rparr>]
      \<and> (res = Inr \<lparr>gr_UserID = u, gr_GrantedBy = by, gr_GrantedAt = now, gr_Note = note\<rparr> \<and> cm = Committed
          \<or> (\<exists>e. res = Inl e) \<and> cm = Unacknowledged))"
  using assms
  by (auto simp: Carrier_Grant_def insert_grant_def commit_tx_def list_ex_iff
      split: if_splits option.splits sum.splits prod.splits commit_outcome.splits)

lemma Carrier_Revoke_cases:
  assumes "Carrier_Revoke io cm c u keeps writer (gs, s) = (res, gs', s')"
  shows "(\<exists>e. res = Inl e) \<and> gs' = gs \<and> s' = s \<or>
    (\<exists>write k target. writer = Some write \<and> keeps = Some k \<and> write s = (Inr (), s') \<and> TrimSpace u \<noteq> ''''
      \<and> target \<in> set gs \<and> gr_UserID target = u \<and> k (filter (\<lambda>g. gr_UserID g \<noteq> u) (by_age gs)) = Inr ()
      \<and> gs' = filter (\<lambda>g. gr_UserID g \<noteq> u) gs
      \<and> (res = Inr target \<and> cm = Committed \<or> (\<exists>e. res = Inl e) \<and> cm = Unacknowledged))"
proof (cases "\<exists>target remaining. separate u (by_age gs) None [] = (Some target, remaining)")
  case True
  then obtain target remaining where sep: "separate u (by_age gs) None [] = (Some target, remaining)" by blast
  note t = separate_Some [OF sep]
  from assms sep t show ?thesis
    by (auto simp: Carrier_Revoke_def lockCarrier_def commit_tx_def Let_def
        split: if_splits option.splits sum.splits prod.splits commit_outcome.splits)
next
  case False
  with assms show ?thesis
    by (auto simp: Carrier_Revoke_def lockCarrier_def split: if_splits option.splits sum.splits prod.splits)
qed

text \<open>
  C13: a privileged change is recorded or does not happen. Whatever driver call fails and however the commit
  ends, granting and revoking either leave both the carrier and the application's tables as they were and report
  an error, or change the carrier in exactly the named row and commit, in the same step, the record the audit intent writer made;
  in particular without a writer nothing changes, an existing grant is never overwritten, and every
  other grant keeps its provenance.
\<close>

theorem privileged_change_is_recorded:
  assumes "Carrier_Grant io cm now c u by note writer (gs, s) = (res, gs1, s1)"
    and "Carrier_Revoke io' cm' c' u' keeps writer' (gs, s) = (res', gs2, s2)"
  shows "((gs1, s1) = (gs, s) \<and> (\<exists>e. res = Inl e)
      \<or> (\<exists>write. writer = Some write \<and> write s = (Inr (), s1)) \<and> u \<notin> gr_UserID ` set gs
         \<and> gs1 = gs @ [\<lparr>gr_UserID = u, gr_GrantedBy = by, gr_GrantedAt = now, gr_Note = note\<rparr>])
    \<and> ((gs2, s2) = (gs, s) \<and> (\<exists>e. res' = Inl e)
      \<or> (\<exists>write. writer' = Some write \<and> write s = (Inr (), s2)) \<and> u' \<in> gr_UserID ` set gs
         \<and> gs2 = filter (\<lambda>g. gr_UserID g \<noteq> u') gs)"
  using Carrier_Grant_cases [OF assms(1)] Carrier_Revoke_cases [OF assms(2)] by auto

definition ex_carrier :: Carrier where
  "ex_carrier = (case New pgx_sanitize True ''registry.platform_admins'' of Inr c \<Rightarrow> c)"

definition ex_grant :: "string \<Rightarrow> Grant" where
  "ex_grant u = \<lparr>gr_UserID = u, gr_GrantedBy = None, gr_GrantedAt = 1, gr_Note = None\<rparr>"

lemma ex_quoteTable: "quoteTable pgx_sanitize ''registry.platform_admins'' =
    Inr ([CHR 0x22] @ ''registry'' @ [CHR 0x22, CHR ''.'', CHR 0x22] @ ''platform_admins'' @ [CHR 0x22])"
  by code_simp

lemma ex_carrier_usable [simp]: "\<not> unconstructed (Some ex_carrier)"
  by (simp add: ex_carrier_def New_def ex_quoteTable)

lemma ex_trim [simp]: "TrimSpace ''u1'' = ''u1''" "TrimSpace ''u2'' = ''u2''"
  by code_simp+

theorem privileged_change_is_recorded_witness:
  "Carrier_Grant no_faults Committed 5 (Some ex_carrier) ''u2'' None None (Some (\<lambda>n. (Inr (), n + 1 :: nat))) ([ex_grant ''u1''], 0)
     = (Inr ((ex_grant ''u2'')\<lparr>gr_GrantedAt := 5\<rparr>), [ex_grant ''u1'', (ex_grant ''u2'')\<lparr>gr_GrantedAt := 5\<rparr>], 1)
   \<and> (\<exists>write. Some (\<lambda>n. (Inr () :: pa_error + unit, n + 1 :: nat)) = Some write \<and> write 0 = (Inr (), 1))"
proof -
  have g: "Carrier_Grant no_faults Committed 5 (Some ex_carrier) ''u2'' None None (Some (\<lambda>n. (Inr (), n + 1 :: nat))) ([ex_grant ''u1''], 0)
     = (Inr ((ex_grant ''u2'')\<lparr>gr_GrantedAt := 5\<rparr>), [ex_grant ''u1'', (ex_grant ''u2'')\<lparr>gr_GrantedAt := 5\<rparr>], 1)"
    by (simp add: Carrier_Grant_def insert_grant_def ex_grant_def commit_tx_def)
  have r: "Carrier_Revoke no_faults Committed (Some ex_carrier) ''u1'' None (Some (\<lambda>n. (Inr (), n + 1 :: nat))) ([ex_grant ''u1''], 0)
     = (Inl (ErrNotConfigured ''Revoke requires a floor predicate''), [ex_grant ''u1''], 0)"
    by (simp add: Carrier_Revoke_def)
  from privileged_change_is_recorded [OF g r] g show ?thesis by auto
qed

subsection \<open>The floor predicate and its reference\<close>

text \<open>The predicate without the memo: the first remaining grant that is not a known orphan decides.\<close>

definition floor_spec :: "resolver \<Rightarrow> Grant list \<Rightarrow> pa_error + unit" where
  "floor_spec r gs =
     (case find (\<lambda>g. r (gr_UserID g) \<noteq> Inr False) gs of
        None \<Rightarrow> Inl ErrLastPlatformAdmin
      | Some g \<Rightarrow> (case r (gr_UserID g) of Inl _ \<Rightarrow> Inl (ErrIdentityUnavailable (gr_UserID g)) | Inr _ \<Rightarrow> Inr ()))"

lemma exercisable_loop_spec:
  "(\<And>u b. seen u = Some b \<Longrightarrow> r u = Inr b) \<Longrightarrow> exercisable_loop r seen gs = floor_spec r gs"
proof (induction gs arbitrary: seen)
  case Nil
  then show ?case by (simp add: floor_spec_def)
next
  case (Cons g gs)
  show ?case
  proof (cases "r (gr_UserID g) = Inr False")
    case True
    have "exercisable_loop r seen' gs = floor_spec r gs" if "seen' = seen \<or> seen' = seen(gr_UserID g \<mapsto> False)" for seen'
      using that True Cons.prems by (intro Cons.IH) (auto split: if_splits)
    moreover have "seen (gr_UserID g) = None \<or> seen (gr_UserID g) = Some False"
      using Cons.prems [of "gr_UserID g"] True by (cases "seen (gr_UserID g)") auto
    ultimately show ?thesis using True by (auto simp: floor_spec_def)
  next
    case False
    then show ?thesis using Cons.prems [of "gr_UserID g"]
      by (cases "seen (gr_UserID g)") (auto simp: floor_spec_def split: sum.splits)
  qed
qed

lemma split_first_Cons:
  "(\<exists>pre y post. x # xs = pre @ y # post \<and> A y \<and> list_all B pre) \<longleftrightarrow>
     A x \<or> B x \<and> (\<exists>pre y post. xs = pre @ y # post \<and> A y \<and> list_all B pre)" (is "?L \<longleftrightarrow> ?R")
proof
  assume ?L
  then obtain pre y post where "x # xs = pre @ y # post" "A y" "list_all B pre" by blast
  then show ?R by (cases pre) auto
next
  assume ?R
  then show ?L
  proof
    assume "A x"
    then show ?L by (intro exI [of _ "[]"]) auto
  next
    assume "B x \<and> (\<exists>pre y post. xs = pre @ y # post \<and> A y \<and> list_all B pre)"
    then obtain pre y post where "B x" "xs = pre @ y # post" "A y" "list_all B pre" by blast
    then show ?L by (intro exI [of _ "x # pre"] exI [of _ y] exI [of _ post]) simp
  qed
qed

lemma floor_spec_Inr:
  "floor_spec r gs = Inr () \<longleftrightarrow>
     (\<exists>pre g post. gs = pre @ g # post \<and> r (gr_UserID g) = Inr True \<and> list_all (\<lambda>x. r (gr_UserID x) = Inr False) pre)"
proof (induction gs)
  case Nil
  then show ?case by (simp add: floor_spec_def)
next
  case (Cons g gs)
  have "floor_spec r (g # gs) = Inr () \<longleftrightarrow> r (gr_UserID g) = Inr True \<or> r (gr_UserID g) = Inr False \<and> floor_spec r gs = Inr ()"
    by (auto simp: floor_spec_def split: sum.splits)
  then show ?case unfolding split_first_Cons Cons.IH .
qed

lemma RequireAnother_spec: "RequireAnotherExercisableAdmin (Some r) gs = floor_spec r gs"
  using exercisable_loop_spec [of Map.empty r gs] by (simp add: RequireAnotherExercisableAdmin_def)

lemma RequireAnother_Inr: "RequireAnotherExercisableAdmin (Some r) gs = Inr () \<Longrightarrow> \<exists>g \<in> set gs. r (gr_UserID g) = Inr True"
  unfolding RequireAnother_spec floor_spec_def
  by (auto split: option.splits sum.splits dest!: find_Some_mem)

text \<open>
  The floor counts administrators, and an outage is not an absence. The memoised predicate equals its
  memo-free reference; it answers "last administrator" exactly when every remaining grant is known to resolve to
  nobody, it accepts only with a remaining grant that resolves, and a lookup failure met before any such grant
  refuses as unavailable; without a resolver it always refuses.
\<close>

theorem RequireAnotherExercisableAdmin_spec:
  "RequireAnotherExercisableAdmin (Some r) gs = floor_spec r gs
   \<and> (RequireAnotherExercisableAdmin (Some r) gs = Inl ErrLastPlatformAdmin \<longleftrightarrow> list_all (\<lambda>g. r (gr_UserID g) = Inr False) gs)
   \<and> (RequireAnotherExercisableAdmin (Some r) gs = Inr () \<longleftrightarrow>
        (\<exists>pre g post. gs = pre @ g # post \<and> r (gr_UserID g) = Inr True \<and> list_all (\<lambda>x. r (gr_UserID x) = Inr False) pre))
   \<and> RequireAnotherExercisableAdmin None gs = Inl (ErrIdentityUnavailable '''')"
proof (intro conjI)
  show "RequireAnotherExercisableAdmin (Some r) gs = floor_spec r gs" by (rule RequireAnother_spec)
  show "RequireAnotherExercisableAdmin (Some r) gs = Inl ErrLastPlatformAdmin \<longleftrightarrow> list_all (\<lambda>g. r (gr_UserID g) = Inr False) gs"
    unfolding RequireAnother_spec floor_spec_def list_all_iff
    by (auto simp: find_None_iff split: option.splits sum.splits dest!: find_Some_mem)
  show "RequireAnotherExercisableAdmin None gs = Inl (ErrIdentityUnavailable '''')"
    by (simp add: RequireAnotherExercisableAdmin_def)
  show "RequireAnotherExercisableAdmin (Some r) gs = Inr () \<longleftrightarrow>
        (\<exists>pre g post. gs = pre @ g # post \<and> r (gr_UserID g) = Inr True \<and> list_all (\<lambda>x. r (gr_UserID x) = Inr False) pre)"
    unfolding RequireAnother_spec by (rule floor_spec_Inr)
qed

subsection \<open>Concurrent revocations\<close>

text \<open>
  Revocations from several connections, interleaved. A transaction reads the carrier under \<open>FOR UPDATE\<close>, so it
  waits while any row it would read is locked by another; it then holds every row's lock, its \<open>DELETE\<close>
  invisible to others, until it commits or rolls back. A grant inserts a row that no transaction in
  progress has read.
\<close>

record carrier_state =
  cs_table :: "Grant list"
  cs_locks :: "nat \<Rightarrow> string set"
  cs_pending :: "nat \<Rightarrow> string option"

definition rows_free :: "carrier_state \<Rightarrow> nat \<Rightarrow> bool" where
  "rows_free s t \<longleftrightarrow> (\<forall>g \<in> set (cs_table s). \<forall>t'. t' \<noteq> t \<longrightarrow> gr_UserID g \<notin> cs_locks s t')"

inductive carrier_step :: "(nat \<Rightarrow> floor_predicate) \<Rightarrow> carrier_state \<Rightarrow> carrier_state \<Rightarrow> bool" for keeps where
  lock: "cs_pending s t = None \<Longrightarrow> rows_free s t \<Longrightarrow>
     separate u (by_age (cs_table s)) None [] = (Some target, remaining) \<Longrightarrow> keeps t remaining = Inr () \<Longrightarrow>
     carrier_step keeps s (s\<lparr>cs_locks := (cs_locks s)(t := gr_UserID ` set (cs_table s)), cs_pending := (cs_pending s)(t := Some u)\<rparr>)"
| commit: "cs_pending s t = Some u \<Longrightarrow>
     carrier_step keeps s (s\<lparr>cs_table := filter (\<lambda>g. gr_UserID g \<noteq> u) (cs_table s),
       cs_locks := (cs_locks s)(t := {}), cs_pending := (cs_pending s)(t := None)\<rparr>)"
| rollback: "cs_pending s t = Some u \<Longrightarrow>
     carrier_step keeps s (s\<lparr>cs_locks := (cs_locks s)(t := {}), cs_pending := (cs_pending s)(t := None)\<rparr>)"
| grant: "insert_grant g (cs_table s) = Some (g, gs') \<Longrightarrow> carrier_step keeps s (s\<lparr>cs_table := gs'\<rparr>)"

inductive_cases carrier_stepE: "carrier_step keeps s s'"

definition idle_carrier :: "Grant list \<Rightarrow> carrier_state" where
  "idle_carrier gs = \<lparr>cs_table = gs, cs_locks = (\<lambda>_. {}), cs_pending = (\<lambda>_. None)\<rparr>"

definition exercisable :: "(string \<Rightarrow> bool) \<Rightarrow> Grant list \<Rightarrow> bool" where
  "exercisable E gs \<longleftrightarrow> (\<exists>g \<in> set gs. E (gr_UserID g))"

text \<open>A sequential \<open>Revoke\<close> that deletes is a lock step followed by a commit step.\<close>

lemma Carrier_Revoke_steps:
  assumes "Carrier_Revoke io cm c u (Some k) writer (gs, s) = (res, gs', s')" "gs' \<noteq> gs" "keeps 0 = k"
  shows "(carrier_step keeps)\<^sup>*\<^sup>* (idle_carrier gs) (idle_carrier gs')"
proof -
  obtain target where t: "target \<in> set gs" "gr_UserID target = u" "k (filter (\<lambda>g. gr_UserID g \<noteq> u) (by_age gs)) = Inr ()"
    "gs' = filter (\<lambda>g. gr_UserID g \<noteq> u) gs"
    using Carrier_Revoke_cases [OF assms(1)] assms(2) by auto
  have "filter (\<lambda>g. gr_UserID g = u) (by_age gs) \<noteq> []" using t(1,2) by (auto simp: filter_empty_conv)
  then obtain h hs where "filter (\<lambda>g. gr_UserID g = u) (by_age gs) = h # hs" by (meson list.exhaust)
  then have "separate u (by_age gs) None [] = (Some (last (h # hs)), filter (\<lambda>g. gr_UserID g \<noteq> u) (by_age gs))"
    by (simp add: separate_eq)
  from carrier_step.lock [of "idle_carrier gs" 0 u "last (h # hs)" _ keeps] this t(3) assms(3)
  have "carrier_step keeps (idle_carrier gs)
      \<lparr>cs_table = gs, cs_locks = (\<lambda>_. {})(0 := gr_UserID ` set gs), cs_pending = (\<lambda>_. None)(0 := Some u)\<rparr>"
    by (simp add: idle_carrier_def rows_free_def)
  moreover have "carrier_step keeps
      \<lparr>cs_table = gs, cs_locks = (\<lambda>_. {})(0 := gr_UserID ` set gs), cs_pending = (\<lambda>_. None)(0 := Some u)\<rparr> (idle_carrier gs')"
    using carrier_step.commit [of "\<lparr>cs_table = gs, cs_locks = (\<lambda>_. {})(0 := gr_UserID ` set gs), cs_pending = (\<lambda>_. None)(0 := Some u)\<rparr>" 0 u keeps]
    using fun_upd_triv [of "\<lambda>_::nat. {} :: string set" 0] by (simp add: idle_carrier_def t(4))
  ultimately show ?thesis by (meson converse_rtranclp_into_rtranclp r_into_rtranclp)
qed

lemma Carrier_Grant_steps:
  assumes "Carrier_Grant io cm now c u by note writer (gs, s) = (res, gs', s')"
  shows "(carrier_step keeps)\<^sup>*\<^sup>* (idle_carrier gs) (idle_carrier gs')"
proof (cases "gs' = gs")
  case False
  let ?g = "\<lparr>gr_UserID = u, gr_GrantedBy = by, gr_GrantedAt = now, gr_Note = note\<rparr>"
  have gs': "u \<notin> gr_UserID ` set gs" "gs' = gs @ [?g]" using Carrier_Grant_cases [OF assms] False by auto
  then have "insert_grant ?g (cs_table (idle_carrier gs)) = Some (?g, gs')"
    by (auto simp: insert_grant_def idle_carrier_def list_ex_iff)
  from carrier_step.grant [OF this, of keeps] show ?thesis by (auto simp: idle_carrier_def)
qed simp

text \<open>
  The operations refine the step system. Whatever fails, what a call of \<open>Grant\<close> or \<open>Revoke\<close> does to the carrier is a
  sequence of the steps whose interleavings are studied below, with the same floor predicate: nothing, a grant step, or a
  lock step followed by its commit.
\<close>

theorem carrier_operations_refine_steps:
  assumes "Carrier_Grant io cm now c u by note writer (gs, s) = (res, gs1, s1)"
    and "Carrier_Revoke io' cm' c' u' (Some k) writer' (gs, s) = (res', gs2, s2)" "keeps 0 = k"
  shows "(carrier_step keeps)\<^sup>*\<^sup>* (idle_carrier gs) (idle_carrier gs1) \<and> (carrier_step keeps)\<^sup>*\<^sup>* (idle_carrier gs) (idle_carrier gs2)"
  using Carrier_Grant_steps [OF assms(1)] Carrier_Revoke_steps [OF assms(2), of keeps] assms(3) by (cases "gs2 = gs") auto

text \<open>What a floor predicate promises, and what follows for every interleaving.\<close>

locale revocation_floor =
  fixes keeps :: "nat \<Rightarrow> floor_predicate"
    and E :: "string \<Rightarrow> bool"
  assumes keeps_sound: "keeps t remaining = Inr () \<Longrightarrow> exercisable E remaining"
begin

definition floor_inv :: "carrier_state \<Rightarrow> bool" where
  "floor_inv s \<longleftrightarrow> exercisable E (cs_table s)
     \<and> (\<forall>t u. cs_pending s t = Some u \<longrightarrow> u \<in> gr_UserID ` set (cs_table s) \<and> u \<in> cs_locks s t
          \<and> exercisable E (filter (\<lambda>g. gr_UserID g \<noteq> u) (cs_table s)))
     \<and> (\<forall>t t' u u'. cs_pending s t = Some u \<longrightarrow> cs_pending s t' = Some u' \<longrightarrow> t = t')"

lemma floor_inv_step:
  assumes "floor_inv s" "carrier_step keeps s s'"
  shows "floor_inv s'"
  using assms(2)
proof (cases rule: carrier_step.cases)
  case (lock t u target remaining)
  note sep = separate_Some [OF lock(4)]
  have "cs_pending s t' = None" for t'
  proof (rule ccontr)
    assume "cs_pending s t' \<noteq> None"
    then obtain u' where p: "cs_pending s t' = Some u'" by blast
    then have "t' \<noteq> t" using lock(2) by auto
    with p assms(1) lock(3) show False unfolding floor_inv_def rows_free_def by blast
  qed
  moreover have "exercisable E (filter (\<lambda>g. gr_UserID g \<noteq> u) (cs_table s))"
    using keeps_sound [OF lock(5)] by (auto simp: exercisable_def sep(3))
  moreover have "u \<in> gr_UserID ` set (cs_table s)" using sep(1,2) by auto
  ultimately show ?thesis using assms(1) by (auto simp: floor_inv_def lock(1) split: if_splits)
next
  case (commit t u)
  have "cs_pending s t' = None" if "t' \<noteq> t" for t'
    using that commit(2) assms(1) by (cases "cs_pending s t'") (auto simp: floor_inv_def)
  then show ?thesis using assms(1) commit(2) by (auto simp: floor_inv_def commit(1) split: if_splits)
next
  case (rollback t u)
  then show ?thesis using assms(1) by (auto simp: floor_inv_def split: if_splits)
next
  case (grant g gs')
  then have gs': "gs' = cs_table s @ [g]" by (auto simp: insert_grant_def split: if_splits)
  show ?thesis using assms(1) unfolding floor_inv_def grant(1) gs' exercisable_def by fastforce
qed

lemma floor_kept:
  assumes "(carrier_step keeps)\<^sup>*\<^sup>* (idle_carrier gs) s" "exercisable E gs"
  shows "exercisable E (cs_table s)"
proof -
  have "floor_inv s"
    using assms(1)
  proof (induction rule: rtranclp_induct)
    case base
    then show ?case using assms(2) by (simp add: floor_inv_def idle_carrier_def)
  next
    case (step y z)
    then show ?case using floor_inv_step by blast
  qed
  then show ?thesis by (simp add: floor_inv_def)
qed

end

text \<open>A resolver over an identity store in which exactly the ids of \<open>E\<close> exist; the lookups in \<open>down\<close> fail.\<close>

definition store_resolver :: "(nat \<Rightarrow> string \<Rightarrow> bool) \<Rightarrow> (string \<Rightarrow> bool) \<Rightarrow> nat \<Rightarrow> resolver" where
  "store_resolver down E t u = (if down t u then Inl ''unavailable'' else Inr (E u))"

interpretation resolved: revocation_floor "\<lambda>t. RequireAnotherExercisableAdmin (Some (store_resolver down E t))" E
  for down E
proof
  fix t remaining
  assume "RequireAnotherExercisableAdmin (Some (store_resolver down E t)) remaining = Inr ()"
  from RequireAnother_Inr [OF this] show "exercisable E remaining"
    by (auto simp: exercisable_def store_resolver_def split: if_splits)
qed

text \<open>
  C5: the floor survives every interleaving. From a carrier with an administrator that exists, no interleaving of
  concurrent revocations (each guarded by the resolving predicate, in which any lookups may fail), roll-backs and grants reaches a carrier
  in which no grant belongs to an existing user.
\<close>

theorem concurrent_revocations_keep_floor:
  assumes "exercisable E gs"
    and "(carrier_step (\<lambda>t. RequireAnotherExercisableAdmin (Some (store_resolver down E t))))\<^sup>*\<^sup>* (idle_carrier gs) s"
  shows "exercisable E (cs_table s)"
  using resolved.floor_kept [OF assms(2,1)] .

lemma ex_revoke:
  "Carrier_Revoke no_faults Committed (Some ex_carrier) ''u2'' (Some (RequireAnotherExercisableAdmin (Some (store_resolver (\<lambda>_ _. False) (\<lambda>u. u = ''u1'') 0))))
     (Some (\<lambda>n. (Inr (), n + 1 :: nat))) ([ex_grant ''u1'', ex_grant ''u2''], 0) = (Inr (ex_grant ''u2''), [ex_grant ''u1''], 1)"
  by (simp add: Carrier_Revoke_def lockCarrier_def by_age_def ex_grant_def RequireAnotherExercisableAdmin_def store_resolver_def
      commit_tx_def)

theorem carrier_operations_refine_steps_witness:
  "(carrier_step (\<lambda>t. RequireAnotherExercisableAdmin (Some (store_resolver (\<lambda>_ _. False) (\<lambda>u. u = ''u1'') t))))\<^sup>*\<^sup>*
     (idle_carrier [ex_grant ''u1'', ex_grant ''u2'']) (idle_carrier [ex_grant ''u1''])"
proof -
  have g: "Carrier_Grant no_faults Committed 5 (Some ex_carrier) ''u2'' None None (Some (\<lambda>n. (Inr (), n + 1 :: nat))) ([ex_grant ''u1'', ex_grant ''u2''], 0)
     = (Inl ErrAlreadyPlatformAdmin, [ex_grant ''u1'', ex_grant ''u2''], 0)"
    by (simp add: Carrier_Grant_def insert_grant_def ex_grant_def)
  show ?thesis
    using carrier_operations_refine_steps [OF g ex_revoke, of "\<lambda>t. RequireAnotherExercisableAdmin (Some (store_resolver (\<lambda>_ _. False) (\<lambda>u. u = ''u1'') t))"]
    by simp
qed

theorem concurrent_revocations_keep_floor_witness:
  "\<exists>s. (carrier_step (\<lambda>t. RequireAnotherExercisableAdmin (Some (store_resolver (\<lambda>_ _. False) (\<lambda>u. u = ''u1'') t))))\<^sup>*\<^sup>*
          (idle_carrier [ex_grant ''u1'', ex_grant ''u2'']) s
      \<and> cs_table s = [ex_grant ''u1''] \<and> exercisable (\<lambda>u. u = ''u1'') (cs_table s)"
proof -
  have ex: "exercisable (\<lambda>u. u = ''u1'') [ex_grant ''u1'', ex_grant ''u2'']" by (simp add: exercisable_def ex_grant_def)
  from Carrier_Revoke_steps [OF ex_revoke, of "\<lambda>t. RequireAnotherExercisableAdmin (Some (store_resolver (\<lambda>_ _. False) (\<lambda>u. u = ''u1'') t))"]
  have st: "(carrier_step (\<lambda>t. RequireAnotherExercisableAdmin (Some (store_resolver (\<lambda>_ _. False) (\<lambda>u. u = ''u1'') t))))\<^sup>*\<^sup>*
          (idle_carrier [ex_grant ''u1'', ex_grant ''u2'']) (idle_carrier [ex_grant ''u1''])" by simp
  from concurrent_revocations_keep_floor [OF ex st] st show ?thesis
    by (intro exI [of _ "idle_carrier [ex_grant ''u1'']"]) (simp add: idle_carrier_def)
qed

subsection \<open>Elevation is live, and keys are never elevated\<close>

lemma withoutAdmin_filter: "withoutAdmin ss = filter (\<lambda>s. s \<noteq> ScopeAdmin) ss"
  by (induction ss) auto

lemma IsPlatformAdmin_Inr:
  "IsPlatformAdmin io c u gs = Inr True \<longleftrightarrow> \<not> unconstructed c \<and> u \<noteq> '''' \<and> \<not> io 0 \<and> u \<in> gr_UserID ` set gs"
  by (auto simp: IsPlatformAdmin_def list_ex_iff)

lemma SessionScopes_admin:
  "ScopeAdmin \<in> set (fst (SessionScopes io c u scopes gs)) \<longleftrightarrow> IsPlatformAdmin io c u gs = Inr True"
  by (auto simp: SessionScopes_def withoutAdmin_filter Let_def split: sum.splits)

text \<open>
  C23: platform authority is what the carrier says now. The scopes of a session contain \<open>admin\<close> exactly when
  the carrier, read without failure, holds a row for that user, whatever the token claimed; every other scope is kept in order; an API key
  never has it. Once a revocation has committed, no later request of that user is elevated, with whatever scopes and on whatever carrier handle.
\<close>

theorem elevation_is_live:
  assumes "Carrier_Revoke io cm c u keeps writer (gs, s) = (Inr g, gs', s')"
  shows "(ScopeAdmin \<in> set (fst (SessionScopes io1 c1 v scopes gs)) \<longleftrightarrow>
        \<not> unconstructed c1 \<and> v \<noteq> '''' \<and> \<not> io1 0 \<and> v \<in> gr_UserID ` set gs)
    \<and> filter (\<lambda>x. x \<noteq> ScopeAdmin) (fst (SessionScopes io1 c1 v scopes gs)) = filter (\<lambda>x. x \<noteq> ScopeAdmin) scopes
    \<and> KeyScopes scopes = filter (\<lambda>x. x \<noteq> ScopeAdmin) scopes
    \<and> ScopeAdmin \<notin> set (fst (SessionScopes io2 c2 u scopes' gs'))
    \<and> (v \<noteq> u \<longrightarrow> SessionScopes io2 c2 v scopes' gs' = SessionScopes io2 c2 v scopes' gs)"
proof (intro conjI)
  show "ScopeAdmin \<in> set (fst (SessionScopes io1 c1 v scopes gs)) \<longleftrightarrow>
        \<not> unconstructed c1 \<and> v \<noteq> '''' \<and> \<not> io1 0 \<and> v \<in> gr_UserID ` set gs"
    by (simp add: SessionScopes_admin IsPlatformAdmin_Inr)
  show "filter (\<lambda>x. x \<noteq> ScopeAdmin) (fst (SessionScopes io1 c1 v scopes gs)) = filter (\<lambda>x. x \<noteq> ScopeAdmin) scopes"
    by (auto simp: SessionScopes_def withoutAdmin_filter Let_def split: sum.splits)
  show "KeyScopes scopes = filter (\<lambda>x. x \<noteq> ScopeAdmin) scopes" by (simp add: KeyScopes_def withoutAdmin_filter)
  have gs': "gs' = filter (\<lambda>g. gr_UserID g \<noteq> u) gs" using Carrier_Revoke_cases [OF assms] by auto
  show "ScopeAdmin \<notin> set (fst (SessionScopes io2 c2 u scopes' gs'))"
    by (auto simp: SessionScopes_admin IsPlatformAdmin_Inr gs')
  show "v \<noteq> u \<longrightarrow> SessionScopes io2 c2 v scopes' gs' = SessionScopes io2 c2 v scopes' gs"
  proof
    assume "v \<noteq> u"
    then have "list_ex (\<lambda>g. gr_UserID g = v) gs' = list_ex (\<lambda>g. gr_UserID g = v) gs" by (auto simp: gs' list_ex_iff)
    then show "SessionScopes io2 c2 v scopes' gs' = SessionScopes io2 c2 v scopes' gs"
      by (simp add: SessionScopes_def IsPlatformAdmin_def)
  qed
qed

theorem elevation_is_live_witness:
  "ScopeAdmin \<in> set (fst (SessionScopes no_faults (Some ex_carrier) ''u2'' [''a''] [ex_grant ''u1'', ex_grant ''u2'']))
   \<and> ScopeAdmin \<notin> set (fst (SessionScopes no_faults (Some ex_carrier) ''u2'' [''admin''] [ex_grant ''u1'']))"
  using elevation_is_live [OF ex_revoke, of no_faults "Some ex_carrier" "''u2''" "[''a'']"]
    elevation_is_live [OF ex_revoke, of no_faults "Some ex_carrier" "''u2''" "[''a'']" no_faults "Some ex_carrier" "[''admin'']"]
  by (simp add: ex_grant_def)

subsection \<open>Construction and the lock key\<close>

lemma quoteTableParts_Inr:
  "quoteTableParts sanitize ps = Inr qs \<Longrightarrow> list_all ValidIdentifier ps \<and> qs = map (Identifier sanitize) ps"
  by (induction ps arbitrary: qs) (auto split: if_splits sum.splits)

lemma New_Inr:
  assumes "New sanitize hasDB table = Inr c"
  shows "ca_hasDB c" "ca_lockKey c = advisoryLockKey (ca_table c)"
    "\<exists>ps. length ps \<le> 2 \<and> list_all ValidIdentifier ps \<and> ca_table c = Join ''.'' (map (Identifier sanitize) ps)"
proof -
  obtain quoted where q: "quoteTable sanitize table = Inr quoted" "ca_table c = quoted" "ca_hasDB c"
    "ca_lockKey c = advisoryLockKey quoted"
    using assms by (auto simp: New_def split: if_splits sum.splits)
  show "ca_hasDB c" "ca_lockKey c = advisoryLockKey (ca_table c)" using q by simp_all
  obtain ps qs where "length ps \<le> 2" "quoteTableParts sanitize ps = Inr qs" "quoted = Join ''.'' qs"
    using q(1) by (auto simp: quoteTable_def Let_def not_less split: if_splits sum.splits)
  then show "\<exists>ps. length ps \<le> 2 \<and> list_all ValidIdentifier ps \<and> ca_table c = Join ''.'' (map (Identifier sanitize) ps)"
    using quoteTableParts_Inr q(2) by blast
qed

lemma advisoryLockKey_range: "- (2 ^ 63) \<le> advisoryLockKey q \<and> advisoryLockKey q < 2 ^ 63"
  using sint_greater_eq [of "fnv64a (''terraform-suite-identity/platformadmin'' @ [CHR 0x00] @ q)"]
    sint_less [of "fnv64a (''terraform-suite-identity/platformadmin'' @ [CHR 0x00] @ q)"]
  by (simp add: advisoryLockKey_def)

text \<open>One table under two spellings is guarded by two different locks.\<close>

lemma spelling_changes_lock:
  "map_sum id ca_lockKey (New pgx_sanitize True ''platform_admins'') \<noteq> map_sum id ca_lockKey (New pgx_sanitize True ''registry.platform_admins'')"
  by code_simp

end
