(* ===== verification/Platform_Schema.thy ===== *)
theory Platform_Schema
  imports Platform_Admin
begin

text \<open>
  Package \<open>identity/platformadmin\<close>, file \<open>schema.go\<close>: the canonical definition of the carrier table and the
  startup assertion that the application's table has the shape the statements need. The catalog is an
  argument: what \<open>to_regclass\<close> resolves the quoted name to on this connection, if anything. Problems are
  values rather than sentences. Calls: 0 acquires the connection, 1 reads the search path, 2 and 3 query and read the
  columns, 4 the indexes.
\<close>

record column_def =
  cd_name :: string
  cd_type :: string
  cd_notNull :: bool

record index_def =
  ix_columns :: "string list"
  ix_unique :: bool
  ix_valid :: bool
  ix_partial :: bool

record relation_def =
  rel_schema :: string
  rel_columns :: "column_def list"
  rel_indexes :: "index_def list"

definition TableDDL :: "(string list \<Rightarrow> string) \<Rightarrow> string \<Rightarrow> pa_error + string" where
  "TableDDL sanitize table =
     (case quoteTable sanitize table of
        Inl e \<Rightarrow> Inl e
      | Inr quoted \<Rightarrow>
          Inr (''CREATE TABLE IF NOT EXISTS '' @ quoted @ '' ('' @ [CHR 0x0A]
            @ ''    user_id     UUID        PRIMARY KEY,'' @ [CHR 0x0A]
            @ ''    granted_by  UUID,'' @ [CHR 0x0A]
            @ ''    granted_at  TIMESTAMPTZ NOT NULL DEFAULT now(),'' @ [CHR 0x0A]
            @ ''    note        TEXT'' @ [CHR 0x0A] @ '');''))"

record columnRequirement =
  cq_types :: "string list"
  cq_notNull :: bool

definition columnRequirements :: "(string \<times> columnRequirement) list" where
  "columnRequirements =
     [(''user_id'', \<lparr>cq_types = [''uuid'', ''text'', ''character varying'', ''character''], cq_notNull = True\<rparr>),
      (''granted_by'', \<lparr>cq_types = [''uuid'', ''text'', ''character varying'', ''character''], cq_notNull = False\<rparr>),
      (''granted_at'', \<lparr>cq_types = [''timestamp with time zone''], cq_notNull = True\<rparr>),
      (''note'', \<lparr>cq_types = [''text'', ''character varying'', ''character''], cq_notNull = False\<rparr>)]"

record actualColumn =
  ac_dataType :: string
  ac_notNull :: bool

datatype shape_problem =
    Missing string
  | WrongType string string
  | Nullable string
  | NoUniqueIndex

datatype shape_error =
    Unconstructed
  | Unreadable
  | ResolvesToNothing
  | ErrTableShape "shape_problem list"

text \<open>\<open>IndexByte\<close>, then the text before it.\<close>

definition typeSatisfies :: "string \<Rightarrow> string list \<Rightarrow> bool" where
  "typeSatisfies dataType accepted =
     (let base = (if CHR ''('' \<in> set dataType then TrimSpace (takeWhile (\<lambda>c. c \<noteq> CHR ''('') dataType) else dataType)
      in list_ex (\<lambda>want. base = want) accepted)"

fun shapeLoop :: "(string \<rightharpoonup> actualColumn) \<Rightarrow> string list \<Rightarrow> shape_problem list" where
  "shapeLoop actual [] = []"
| "shapeLoop actual (name # names) =
     (case map_of columnRequirements name of
        None \<Rightarrow> shapeLoop actual names
      | Some req \<Rightarrow>
          (case actual name of
             None \<Rightarrow> Missing name # shapeLoop actual names
           | Some got \<Rightarrow>
               (if \<not> typeSatisfies (ac_dataType got) (cq_types req) then [WrongType name (ac_dataType got)] else [])
               @ (if cq_notNull req \<and> \<not> ac_notNull got then [Nullable name] else [])
               @ shapeLoop actual names))"

definition shapeProblems :: "(string \<rightharpoonup> actualColumn) \<Rightarrow> shape_problem list" where
  "shapeProblems actual = shapeLoop actual (sort (map fst columnRequirements))"

text \<open>\<open>LastIndex\<close> of the separator between two quoted parts.\<close>

fun lastPart_from :: "string \<Rightarrow> string option" where
  "lastPart_from (a # b # c # s) =
     (case lastPart_from (b # c # s) of
        Some r \<Rightarrow> Some r
      | None \<Rightarrow> if a = CHR 0x22 \<and> b = CHR ''.'' \<and> c = CHR 0x22 then Some (c # s) else None)"
| "lastPart_from s = None"

definition lastPart :: "string \<Rightarrow> string" where
  "lastPart quoted = (case lastPart_from quoted of Some r \<Rightarrow> r | None \<Rightarrow> quoted)"

definition trim_quotes :: "string \<Rightarrow> string" where
  "trim_quotes s = rev (dropWhile (\<lambda>c. c = CHR 0x22) (rev (dropWhile (\<lambda>c. c = CHR 0x22) s)))"

text \<open>The statements: the columns of the resolved relation, and whether a valid, total unique index on exactly
  \<open>user_id\<close> exists.\<close>

definition tableShapeQuery :: "relation_def option \<Rightarrow> (string \<times> column_def) list" where
  "tableShapeQuery rel = (case rel of None \<Rightarrow> [] | Some r \<Rightarrow> map (\<lambda>c. (rel_schema r, c)) (rel_columns r))"

definition uniqueUserIDQuery :: "relation_def option \<Rightarrow> bool" where
  "uniqueUserIDQuery rel =
     (case rel of None \<Rightarrow> False
      | Some r \<Rightarrow> list_ex (\<lambda>i. ix_unique i \<and> ix_valid i \<and> \<not> ix_partial i \<and> ix_columns i = [''user_id'']) (rel_indexes r))"

fun readShape :: "(string \<times> column_def) list \<Rightarrow> string \<Rightarrow> (string \<rightharpoonup> actualColumn) \<Rightarrow> string \<times> (string \<rightharpoonup> actualColumn)" where
  "readShape [] schema actual = (schema, actual)"
| "readShape ((nsp, c) # rows) schema actual =
     readShape rows nsp (actual(cd_name c \<mapsto> \<lparr>ac_dataType = cd_type c, ac_notNull = cd_notNull c\<rparr>))"

definition VerifyTable :: "io \<Rightarrow> (string \<Rightarrow> relation_def option) \<Rightarrow> Carrier option \<Rightarrow> string \<times> shape_error option" where
  "VerifyTable io to_regclass c =
     (if unconstructed c then ('''', Some Unconstructed)
      else if io 0 \<or> io 1 \<or> io 2 \<or> io 3 then ('''', Some Unreadable)
      else
        let rel = to_regclass (ca_table (the c));
            (schema, actual) = readShape (tableShapeQuery rel) '''' Map.empty
        in if schema = '''' then ('''', Some ResolvesToNothing)
           else
             let qualified = schema @ ''.'' @ trim_quotes (lastPart (ca_table (the c)));
                 problems = shapeProblems actual
             in if io 4 then (qualified, Some Unreadable)
                else
                  let problems' = problems @ (if uniqueUserIDQuery rel then [] else [NoUniqueIndex])
                  in if length problems' = 0 then (qualified, None)
                     else (qualified, Some (ErrTableShape problems')))"

subsection \<open>What an accepted table guarantees\<close>

lemma readShape_map:
  "readShape (map (\<lambda>c. (nsp, c)) cs) schema actual =
     (if cs = [] then schema else nsp,
      actual ++ map_of (rev (map (\<lambda>c. (cd_name c, \<lparr>ac_dataType = cd_type c, ac_notNull = cd_notNull c\<rparr>)) cs)))"
  by (induction cs arbitrary: schema actual) (auto simp: map_add_def fun_eq_iff split: option.splits)

lemma shapeLoop_Nil:
  "shapeLoop actual names = [] \<longleftrightarrow>
     (\<forall>name \<in> set names. \<forall>req. map_of columnRequirements name = Some req \<longrightarrow>
        (\<exists>got. actual name = Some got \<and> typeSatisfies (ac_dataType got) (cq_types req) \<and> (cq_notNull req \<longrightarrow> ac_notNull got)))"
  by (induction names) (auto split: option.splits)

lemma shapeProblems_Nil:
  "shapeProblems actual = [] \<longleftrightarrow>
     (\<forall>(name, req) \<in> set columnRequirements.
        \<exists>got. actual name = Some got \<and> typeSatisfies (ac_dataType got) (cq_types req) \<and> (cq_notNull req \<longrightarrow> ac_notNull got))"
  unfolding shapeProblems_def shapeLoop_Nil by (simp add: columnRequirements_def) blast

text \<open>The column a statement would read under a name: the last one of that name (a relation has at most one).\<close>

definition column_of :: "relation_def \<Rightarrow> string \<Rightarrow> column_def option" where
  "column_of r name = find (\<lambda>c. cd_name c = name) (rev (rel_columns r))"

lemma map_of_columns:
  "map_of (map (\<lambda>c. (cd_name c, f c)) cs) name = map_option f (find (\<lambda>c. cd_name c = name) cs)"
  by (induction cs) auto

text \<open>
  The startup assertion is exact. \<open>VerifyTable\<close> accepts the table if and only if the carrier is usable, every
  catalog read succeeds, the name resolves to a relation with columns, each required column is present with an accepted type and the
  required nullability, and a valid total unique index on \<open>user_id\<close> exists: the conditions under which the
  carrier's statements, the conflict clause of the grant included, are well-formed.
\<close>

theorem VerifyTable_accepts_iff:
  "snd (VerifyTable io to_regclass c) = None \<longleftrightarrow>
     \<not> unconstructed c \<and> \<not> io 0 \<and> \<not> io 1 \<and> \<not> io 2 \<and> \<not> io 3 \<and> \<not> io 4
     \<and> (\<exists>r. to_regclass (ca_table (the c)) = Some r \<and> rel_schema r \<noteq> '''' \<and> rel_columns r \<noteq> []
          \<and> list_all (\<lambda>(name, req). \<exists>col. column_of r name = Some col \<and> typeSatisfies (cd_type col) (cq_types req)
                \<and> (cd_notNull col \<or> \<not> cq_notNull req)) columnRequirements
          \<and> list_ex (\<lambda>i. ix_unique i \<and> ix_valid i \<and> \<not> ix_partial i \<and> ix_columns i = [''user_id'']) (rel_indexes r))"
proof (cases "to_regclass (ca_table (the c))")
  case None
  then show ?thesis by (simp add: VerifyTable_def tableShapeQuery_def)
next
  case (Some r)
  let ?actual = "map_of (rev (map (\<lambda>c. (cd_name c, \<lparr>ac_dataType = cd_type c, ac_notNull = cd_notNull c\<rparr>)) (rel_columns r)))"
  have "?actual name = map_option (\<lambda>c. \<lparr>ac_dataType = cd_type c, ac_notNull = cd_notNull c\<rparr>) (column_of r name)" for name
    unfolding rev_map map_of_columns column_of_def ..
  then have "shapeProblems ?actual = [] \<longleftrightarrow>
      list_all (\<lambda>(name, req). \<exists>col. column_of r name = Some col \<and> typeSatisfies (cd_type col) (cq_types req)
                \<and> (cd_notNull col \<or> \<not> cq_notNull req)) columnRequirements"
    unfolding shapeProblems_Nil list_all_iff by (intro ball_cong refl) auto
  with Some show ?thesis
    by (auto simp: VerifyTable_def tableShapeQuery_def uniqueUserIDQuery_def readShape_map Let_def)
qed

text \<open>The relation the canonical statement creates.\<close>

definition canonical_relation :: "string \<Rightarrow> relation_def" where
  "canonical_relation schema =
     \<lparr>rel_schema = schema,
      rel_columns =
        [\<lparr>cd_name = ''user_id'', cd_type = ''uuid'', cd_notNull = True\<rparr>,
         \<lparr>cd_name = ''granted_by'', cd_type = ''uuid'', cd_notNull = False\<rparr>,
         \<lparr>cd_name = ''granted_at'', cd_type = ''timestamp with time zone'', cd_notNull = True\<rparr>,
         \<lparr>cd_name = ''note'', cd_type = ''text'', cd_notNull = False\<rparr>],
      rel_indexes = [\<lparr>ix_columns = [''user_id''], ix_unique = True, ix_valid = True, ix_partial = False\<rparr>]\<rparr>"

lemma canonical_accepted:
  "VerifyTable no_faults (\<lambda>_. Some (canonical_relation ''registry'')) (Some ex_carrier) = (''registry.platform_admins'', None)"
  unfolding ex_carrier_def by code_simp

end
