(* ===== verification/Tenant_Scope.thy ===== *)
theory Tenant_Scope
  imports Platform_Admin Org_Access
begin

text \<open>
  Package \<open>identity/tenantscope\<close>: resolving the organizations a request may reach (\<open>tenantscope.go\<close>) and the one
  organization a write belongs to (\<open>acting.go\<close>). The two lookups are interfaces of the package: the
  resolver holds them as functions of the database state \<open>'d\<close>. \<open>Memberships\<close> is provided by
  \<open>OrganizationRepository.OrgScopeForUser\<close> and \<open>PlatformAdmins\<close> by \<open>Carrier.IsPlatformAdmin\<close>.
\<close>

datatype tenant_error =
    ErrAdminsNotConfigured
  | CarrierError pa_error
  | MembershipError store_error
  | ErrNoActingOrganization
  | ErrAmbiguousActingOrganization
  | ErrActingOrganizationNotPermitted

datatype Credential = CredentialUnspecified | CredentialSession | CredentialAPIKey

fun Credential_String :: "Credential \<Rightarrow> string" where
  "Credential_String CredentialSession = ''session''"
| "Credential_String CredentialAPIKey = ''apikey''"
| "Credential_String CredentialUnspecified = ''unspecified''"

record Principal =
  pr_UserID :: string
  pr_Credential :: Credential
  pr_KeyOrgID :: string

record Scope =
  ts_PlatformAdmin :: bool
  ts_OrgIDs :: "string list"

definition Scope_zero :: Scope where
  "Scope_zero = \<lparr>ts_PlatformAdmin = False, ts_OrgIDs = []\<rparr>"

definition Permits :: "Scope \<Rightarrow> string \<Rightarrow> bool" where
  "Permits s orgID =
     (if ts_PlatformAdmin s then True
      else
        let orgID = TrimSpace orgID
        in if orgID = '''' then False
           else list_ex (\<lambda>i. i = orgID) (ts_OrgIDs s))"

definition PermitsPtr :: "Scope \<Rightarrow> string option \<Rightarrow> bool" where
  "PermitsPtr s orgID =
     (if ts_PlatformAdmin s then True
      else case orgID of None \<Rightarrow> False | Some i \<Rightarrow> Permits s i)"

definition Scope_Empty :: "Scope \<Rightarrow> bool" where
  "Scope_Empty s \<longleftrightarrow> \<not> ts_PlatformAdmin s \<and> length (ts_OrgIDs s) = 0"

record 'd Resolver =
  rs_Memberships :: "(string \<Rightarrow> string \<Rightarrow> ReadWritePairs \<Rightarrow> 'd \<Rightarrow> tenant_error + OrgScope) option"
  rs_Admins :: "(string \<Rightarrow> 'd \<Rightarrow> tenant_error + bool) option"
  rs_ReadWritePairs :: ReadWritePairs
  rs_AdminsApplyToAPIKeys :: bool
  rs_KeyBindsOrganization :: bool

text \<open>\<open>errors.Is(err, ErrAdminsNotConfigured) || errors.Is(err, platformadmin.ErrNotConfigured)\<close>.\<close>

fun not_configured :: "tenant_error \<Rightarrow> bool" where
  "not_configured ErrAdminsNotConfigured = True"
| "not_configured (CarrierError (ErrNotConfigured w)) = True"
| "not_configured _ = False"

text \<open>The part of \<open>Resolve\<close> after the platform-admin question.\<close>

definition resolveOrganizations :: "'d Resolver \<Rightarrow> Principal \<Rightarrow> string \<Rightarrow> 'd \<Rightarrow> Scope \<times> tenant_error option" where
  "resolveOrganizations r p required d =
     (if pr_Credential p = CredentialAPIKey \<and> rs_KeyBindsOrganization r \<and> TrimSpace (pr_KeyOrgID p) \<noteq> ''''
      then (\<lparr>ts_PlatformAdmin = False, ts_OrgIDs = [TrimSpace (pr_KeyOrgID p)]\<rparr>, None)
      else case rs_Memberships r of None \<Rightarrow> (Scope_zero, None)
      | Some memberships \<Rightarrow>
          (case memberships (TrimSpace (pr_UserID p)) required (rs_ReadWritePairs r) d of
             Inl e \<Rightarrow> (Scope_zero, Some e)
           | Inr orgScope \<Rightarrow> (\<lparr>ts_PlatformAdmin = False, ts_OrgIDs = OrganizationIDs orgScope\<rparr>, None)))"

definition Resolve :: "'d Resolver \<Rightarrow> Principal \<Rightarrow> string \<Rightarrow> 'd \<Rightarrow> Scope \<times> tenant_error option" where
  "Resolve r p required d =
     (let userID = TrimSpace (pr_UserID p)
      in if userID = '''' then (Scope_zero, None)
         else case rs_Admins r of None \<Rightarrow> resolveOrganizations r p required d
         | Some isAdmin \<Rightarrow>
             if pr_Credential p = CredentialSession \<or> rs_AdminsApplyToAPIKeys r then
               (case isAdmin userID d of
                  Inl e \<Rightarrow> if not_configured e then resolveOrganizations r p required d else (Scope_zero, Some e)
                | Inr yes \<Rightarrow> if yes then (\<lparr>ts_PlatformAdmin = True, ts_OrgIDs = []\<rparr>, None)
                             else resolveOrganizations r p required d)
             else resolveOrganizations r p required d)"

definition ActingOrganization :: "Scope \<Rightarrow> string \<Rightarrow> tenant_error + string" where
  "ActingOrganization scope selected0 =
     (let selected = TrimSpace selected0
      in if selected \<noteq> '''' then (if \<not> Permits scope selected then Inl ErrActingOrganizationNotPermitted else Inr selected)
         else if ts_PlatformAdmin scope then Inl ErrAmbiguousActingOrganization
         else (case ts_OrgIDs scope of
                 [] \<Rightarrow> Inl ErrNoActingOrganization
               | [i] \<Rightarrow> Inr i
               | _ \<Rightarrow> Inl ErrAmbiguousActingOrganization))"

subsection \<open>Shared facts\<close>

lemma Scope_zero_simps [simp]: "\<not> ts_PlatformAdmin Scope_zero" "ts_OrgIDs Scope_zero = []"
  by (simp_all add: Scope_zero_def)

lemma Permits_iff: "Permits s i \<longleftrightarrow> ts_PlatformAdmin s \<or> TrimSpace i \<noteq> '''' \<and> TrimSpace i \<in> set (ts_OrgIDs s)"
  by (auto simp: Permits_def Let_def list_ex_iff)

lemma Permits_zero [simp]: "\<not> Permits Scope_zero i"
  by (simp add: Permits_iff)

subsection \<open>The contract of the two lookups\<close>

text \<open>
  What the resolver relies on: the platform-admin lookup says yes only of an administrator (\<open>admin d u\<close>), and the
  membership lookup returns the organizations in which the user qualifies (\<open>qualifies d u required rw\<close>).
\<close>

locale tenancy_lookups =
  fixes memberships :: "string \<Rightarrow> string \<Rightarrow> ReadWritePairs \<Rightarrow> 'd \<Rightarrow> tenant_error + OrgScope"
    and admins :: "string \<Rightarrow> 'd \<Rightarrow> tenant_error + bool"
    and admin :: "'d \<Rightarrow> string \<Rightarrow> bool"
    and qualifies :: "'d \<Rightarrow> string \<Rightarrow> string \<Rightarrow> ReadWritePairs \<Rightarrow> string set"
  assumes admins_sound: "admins u d = Inr b \<Longrightarrow> b \<longleftrightarrow> admin d u"
    and memberships_exact: "u \<noteq> '''' \<Longrightarrow> memberships u required rw d = Inr s \<Longrightarrow> set (OrganizationIDs s) = qualifies d u required rw"
begin

lemma resolveOrganizations_sound:
  assumes "rs_Memberships r = Some memberships" "TrimSpace (pr_UserID p) \<noteq> ''''"
  shows "\<not> ts_PlatformAdmin (fst (resolveOrganizations r p required d))"
    and "set (ts_OrgIDs (fst (resolveOrganizations r p required d)))
      \<subseteq> (if pr_Credential p = CredentialAPIKey \<and> rs_KeyBindsOrganization r \<and> TrimSpace (pr_KeyOrgID p) \<noteq> ''''
         then {TrimSpace (pr_KeyOrgID p)} else qualifies d (TrimSpace (pr_UserID p)) required (rs_ReadWritePairs r))"
  using assms memberships_exact [OF assms(2)]
  by (auto simp: resolveOrganizations_def split: if_splits sum.splits)

lemma Resolve_sound:
  assumes "rs_Memberships r = Some memberships" "rs_Admins r = Some admins" "Resolve r p required d = (s, err)"
  shows "ts_PlatformAdmin s \<Longrightarrow> TrimSpace (pr_UserID p) \<noteq> '''' \<and> admin d (TrimSpace (pr_UserID p))
        \<and> (pr_Credential p = CredentialSession \<or> rs_AdminsApplyToAPIKeys r)"
    and "set (ts_OrgIDs s)
      \<subseteq> (if pr_Credential p = CredentialAPIKey \<and> rs_KeyBindsOrganization r \<and> TrimSpace (pr_KeyOrgID p) \<noteq> ''''
         then {TrimSpace (pr_KeyOrgID p)} else qualifies d (TrimSpace (pr_UserID p)) required (rs_ReadWritePairs r))"
    and "err \<noteq> None \<Longrightarrow> s = Scope_zero"
proof -
  note ro = resolveOrganizations_sound [OF assms(1), of p required d]
  have zero: "err \<noteq> None \<Longrightarrow> s = Scope_zero" if "resolveOrganizations r p required d = (s, err)"
    using that by (auto simp: resolveOrganizations_def split: if_splits sum.splits option.splits)
  have cases: "s = Scope_zero
      \<or> resolveOrganizations r p required d = (s, err) \<and> TrimSpace (pr_UserID p) \<noteq> ''''
      \<or> s = \<lparr>ts_PlatformAdmin = True, ts_OrgIDs = []\<rparr> \<and> err = None \<and> TrimSpace (pr_UserID p) \<noteq> ''''
          \<and> admins (TrimSpace (pr_UserID p)) d = Inr True \<and> (pr_Credential p = CredentialSession \<or> rs_AdminsApplyToAPIKeys r)"
    using assms(2,3) by (auto simp: Resolve_def Let_def split: if_splits sum.splits)
  show "ts_PlatformAdmin s \<Longrightarrow> TrimSpace (pr_UserID p) \<noteq> '''' \<and> admin d (TrimSpace (pr_UserID p))
        \<and> (pr_Credential p = CredentialSession \<or> rs_AdminsApplyToAPIKeys r)"
    using cases ro(1) admins_sound [of "TrimSpace (pr_UserID p)" d True] by auto
  show "set (ts_OrgIDs s)
      \<subseteq> (if pr_Credential p = CredentialAPIKey \<and> rs_KeyBindsOrganization r \<and> TrimSpace (pr_KeyOrgID p) \<noteq> ''''
         then {TrimSpace (pr_KeyOrgID p)} else qualifies d (TrimSpace (pr_UserID p)) required (rs_ReadWritePairs r))"
    using cases ro(2) by fastforce
  show "err \<noteq> None \<Longrightarrow> s = Scope_zero" using cases zero by auto
qed

end

subsection \<open>The lookups of this module\<close>

text \<open>The state is the identity database together with the application's carrier table.\<close>

definition store_memberships :: "io \<Rightarrow> string \<Rightarrow> string \<Rightarrow> ReadWritePairs \<Rightarrow> db \<times> Grant list \<Rightarrow> tenant_error + OrgScope" where
  "store_memberships io u required rw w = map_sum MembershipError id (OrgScopeForUser io u required rw (fst w))"

definition carrier_admins :: "io \<Rightarrow> Carrier option \<Rightarrow> string \<Rightarrow> db \<times> Grant list \<Rightarrow> tenant_error + bool" where
  "carrier_admins io c u w = map_sum CarrierError id (IsPlatformAdmin io c u (snd w))"

interpretation module_lookups: tenancy_lookups "store_memberships io" "carrier_admins io' c"
  "\<lambda>w u. u \<noteq> '''' \<and> u \<in> gr_UserID ` set (snd w)" "\<lambda>w u required rw. granted (fst w) u required rw"
  for io io' c
proof
  show "carrier_admins io' c u w = Inr b \<Longrightarrow> b \<longleftrightarrow> u \<noteq> '''' \<and> u \<in> gr_UserID ` set (snd w)" for u w b
    by (auto simp: carrier_admins_def IsPlatformAdmin_def list_ex_iff split: if_splits)
  show "set (OrganizationIDs s) = granted (fst w) u required rw"
    if "u \<noteq> ''''" "store_memberships io u required rw w = Inr s" for u required rw w s
  proof -
    have "OrgScopeForUser io u required rw (fst w) = Inr s"
      using that(2) by (cases "OrgScopeForUser io u required rw (fst w)") (auto simp: store_memberships_def)
    from OrgScopeForUser_ids(3) [OF this that(1)] show ?thesis by (simp add: OrganizationIDs_def)
  qed
qed

subsection \<open>What a resolved request may reach\<close>

text \<open>The authority a request can draw on for an organization: a carrier row (for a session, or where the
  application lets keys inherit it), the organization its key is bound to, or a qualifying membership.\<close>

definition may_reach :: "(db \<times> Grant list) Resolver \<Rightarrow> Principal \<Rightarrow> string \<Rightarrow> db \<times> Grant list \<Rightarrow> string \<Rightarrow> bool" where
  "may_reach r p required w i \<longleftrightarrow>
     TrimSpace (pr_UserID p) \<noteq> '''' \<and>
     ((pr_Credential p = CredentialSession \<or> rs_AdminsApplyToAPIKeys r) \<and> TrimSpace (pr_UserID p) \<in> gr_UserID ` set (snd w)
      \<or> pr_Credential p = CredentialAPIKey \<and> rs_KeyBindsOrganization r \<and> i = TrimSpace (pr_KeyOrgID p) \<and> i \<noteq> ''''
      \<or> i \<in> granted (fst w) (TrimSpace (pr_UserID p)) required (rs_ReadWritePairs r))"

lemma Resolve_may_reach:
  assumes "rs_Memberships r = Some (store_memberships io)" "rs_Admins r = Some (carrier_admins io' c)"
    and "Resolve r p required w = (s, err)" and "ts_PlatformAdmin s \<or> i \<in> set (ts_OrgIDs s)"
  shows "err = None \<and> may_reach r p required w i"
proof -
  note sound = module_lookups.Resolve_sound [OF assms(1-3)]
  have nz: "s \<noteq> Scope_zero" using assms(4) by auto
  then have "err = None" using sound(3) by blast
  moreover from nz have "TrimSpace (pr_UserID p) \<noteq> ''''" using assms(3) by (auto simp: Resolve_def)
  ultimately show ?thesis
    using sound assms(4) unfolding may_reach_def by (auto split: if_splits)
qed

text \<open>
  C12: a request reaches, and a write is stamped with, only what its principal holds. With the module's own lookups, an
  organization the resolved scope permits (or that a write resolves to) is one the principal may reach: through a live
  carrier row, the organization its key is bound to, or a membership whose role satisfies the requirement. A
  failed lookup permits nothing and is reported, and a request without a user reaches nothing.
\<close>

theorem resolved_scope_within_authority:
  assumes "rs_Memberships r = Some (store_memberships io)" "rs_Admins r = Some (carrier_admins io' c)"
    and "Resolve r p required w = (s, err)"
  shows "(Permits s i \<longrightarrow> err = None \<and> may_reach r p required w (TrimSpace i))
    \<and> (PermitsPtr s own \<longrightarrow> own = None \<or> Permits s (the own))
    \<and> (ActingOrganization s sel = Inr j \<longrightarrow> err = None \<and> may_reach r p required w j)
    \<and> (err \<noteq> None \<or> TrimSpace (pr_UserID p) = '''' \<longrightarrow> Scope_Empty s \<and> \<not> Permits s i)"
proof (intro conjI impI)
  note reach = Resolve_may_reach [OF assms]
  show "err = None" "may_reach r p required w (TrimSpace i)" if "Permits s i"
    using that reach by (auto simp: Permits_iff)
  show "own = None \<or> Permits s (the own)" if "PermitsPtr s own"
    using that by (auto simp: PermitsPtr_def Permits_iff split: if_splits option.splits)
  show "err = None" "may_reach r p required w j" if "ActingOrganization s sel = Inr j"
  proof -
    have "ts_PlatformAdmin s \<or> j \<in> set (ts_OrgIDs s)"
      using that by (auto simp: ActingOrganization_def Let_def Permits_iff split: if_splits list.splits)
    from reach [OF this] show "err = None" "may_reach r p required w j" by blast+
  qed
  have "s = Scope_zero" if "err \<noteq> None \<or> TrimSpace (pr_UserID p) = ''''"
    using that module_lookups.Resolve_sound(3) [OF assms] assms(3) by (auto simp: Resolve_def)
  then show "Scope_Empty s" "\<not> Permits s i" if "err \<noteq> None \<or> TrimSpace (pr_UserID p) = ''''"
    using that by (auto simp: Scope_Empty_def)
qed

definition ex_resolver :: "(db \<times> Grant list) Resolver" where
  "ex_resolver = \<lparr>rs_Memberships = Some (store_memberships no_faults), rs_Admins = Some (carrier_admins no_faults (Some ex_carrier)),
     rs_ReadWritePairs = Map.empty, rs_AdminsApplyToAPIKeys = False, rs_KeyBindsOrganization = True\<rparr>"

theorem resolved_scope_within_authority_witness:
  "\<exists>s. Resolve ex_resolver \<lparr>pr_UserID = ''u1'', pr_Credential = CredentialAPIKey, pr_KeyOrgID = ''u2''\<rparr> ''w'' (ex_db, []) = (s, None)
     \<and> Permits s ''u2'' \<and> may_reach ex_resolver \<lparr>pr_UserID = ''u1'', pr_Credential = CredentialAPIKey, pr_KeyOrgID = ''u2''\<rparr> ''w'' (ex_db, []) ''u2''"
proof -
  let ?p = "\<lparr>pr_UserID = ''u1'', pr_Credential = CredentialAPIKey, pr_KeyOrgID = ''u2''\<rparr>"
  have r: "Resolve ex_resolver ?p ''w'' (ex_db, []) = (\<lparr>ts_PlatformAdmin = False, ts_OrgIDs = [''u2'']\<rparr>, None)"
    by (simp add: Resolve_def ex_resolver_def resolveOrganizations_def)
  from resolved_scope_within_authority [of ex_resolver no_faults no_faults "Some ex_carrier", OF _ _ r, of "''u2''"] r
  show ?thesis by (auto simp: ex_resolver_def Permits_iff)
qed

text \<open>
  The organization of a write is never guessed. The outcome of \<open>ActingOrganization\<close> is fixed by the six
  documented rules: a named organization is used if and only if the scope permits it; without a name, only a
  caller reaching exactly one organization acts in it, and every other caller is refused with the error that
  says why.
\<close>

theorem ActingOrganization_rules:
  "ActingOrganization s sel =
     (if TrimSpace sel \<noteq> '''' \<and> Permits s sel then Inr (TrimSpace sel)
      else if TrimSpace sel \<noteq> '''' then Inl ErrActingOrganizationNotPermitted
      else if ts_PlatformAdmin s \<or> length (ts_OrgIDs s) \<ge> 2 then Inl ErrAmbiguousActingOrganization
      else if ts_OrgIDs s = [] then Inl ErrNoActingOrganization
      else Inr (hd (ts_OrgIDs s)))"
  by (auto simp: ActingOrganization_def Let_def Permits_iff split: list.splits)

end
