(* ===== verification/Group_Config.thy ===== *)
theory Group_Config
  imports Oidc_Config_Repo "HOL-Library.AList"
begin

text \<open>
  Package \<open>identity/models\<close>, files \<open>oidc_config.go\<close> (the group-mapping settings inside \<open>ExtraConfig\<close>) and
  \<open>organization_member.go\<close> (\<open>ParseRoleTemplateID\<close>), with what they use of \<open>encoding/json\<close>: decoding an object into a struct
  (the field of a key by its exact name, else by case folding; \<open>null\<close> and mismatched values leave a field as it is, a mismatch is an error
  that does not stop the decoding; an array is decoded into the slots the slice already has), decoding into \<open>map[string]interface{}\<close>
  (duplicates: the last wins; \<open>null\<close> makes the map nil) and encoding (keys in byte order, bytes that are not UTF-8 replaced by
  U+FFFD). What a number becomes when it passes through a \<open>float64\<close> is the parameter \<open>float64\<close> (none: out of range);
  \<open>uuid.Parse\<close> is the parameter \<open>parse\<close>.
\<close>

subsection \<open>Text\<close>

definition between :: "nat \<Rightarrow> nat \<Rightarrow> char \<Rightarrow> bool" where
  "between a b c \<longleftrightarrow> a \<le> (of_char c :: nat) \<and> (of_char c :: nat) \<le> b"

abbreviation continuation :: "char \<Rightarrow> bool" where
  "continuation \<equiv> between 128 191"

text \<open>\<open>utf8.DecodeRune\<close>: the width of the rune a text begins with, zero where it begins with none.\<close>

definition runeWidth :: "string \<Rightarrow> nat" where
  "runeWidth s =
    (case s of
       [] \<Rightarrow> 0
     | a # s1 \<Rightarrow>
         if between 0 127 a then 1
         else case s1 of
                [] \<Rightarrow> 0
              | b # s2 \<Rightarrow>
                  if between 194 223 a then (if continuation b then 2 else 0)
                  else case s2 of
                         [] \<Rightarrow> 0
                       | c # s3 \<Rightarrow>
                           if between 224 239 a
                           then (if (if between 224 224 a then between 160 191 b else if between 237 237 a then between 128 159 b
                                     else continuation b) \<and> continuation c then 3 else 0)
                           else case s3 of
                                  [] \<Rightarrow> 0
                                | d # _ \<Rightarrow>
                                    if between 240 244 a \<and> (if between 240 240 a then between 144 191 b else if between 244 244 a
                                       then between 128 143 b else continuation b) \<and> continuation c \<and> continuation d then 4 else 0)"

function validText :: "string \<Rightarrow> string" where
  "validText s =
    (if s = [] then []
     else if runeWidth s = 0 then [CHR 0xEF, CHR 0xBF, CHR 0xBD] @ validText (tl s)
     else take (runeWidth s) s @ validText (drop (runeWidth s) s))"
  by auto
termination by (relation "measure length") auto

declare validText.simps [simp del]

lemma validText_ascii: "list_all (between 0 127) s \<Longrightarrow> validText s = s"
  by (induction s) (simp_all add: validText.simps runeWidth_def)

text \<open>\<open>foldName\<close>: ASCII letters in upper case, and the two runes outside ASCII that fold to an ASCII letter, U+017F and U+212A. It is
  used to compare with names in ASCII only, so other runes stay as they are.\<close>

fun foldName :: "string \<Rightarrow> string" where
  "foldName [] = []"
| "foldName (c # s) =
    (if between 97 122 c then char_of ((of_char c :: nat) - 32) # foldName s
     else if c = CHR 0xC5 \<and> take 1 s = [CHR 0xBF] then CHR ''S'' # foldName (drop 1 s)
     else if c = CHR 0xE2 \<and> take 2 s = [CHR 0x84, CHR 0xAA] then CHR ''K'' # foldName (drop 2 s)
     else c # foldName s)"

text \<open>The field of a struct that a key is decoded into.\<close>

definition jsonField :: "string list \<Rightarrow> string \<Rightarrow> string option" where
  "jsonField names k = (if k \<in> set names then Some k else find (\<lambda>n. foldName n = foldName k) names)"

lemma jsonField_exact [simp]: "k \<in> set names \<Longrightarrow> jsonField names k = Some k"
  by (simp add: jsonField_def)

subsection \<open>Decoding into the structs\<close>

definition storeString :: "gojson \<Rightarrow> string \<Rightarrow> string \<times> bool" where
  "storeString j old = (case j of GString s \<Rightarrow> (s, True) | GNull \<Rightarrow> (old, True) | _ \<Rightarrow> (old, False))"

definition mappingNames :: "string list" where
  "mappingNames = [''group'', ''organization'', ''role'']"

definition mappingMember :: "string \<times> gojson \<Rightarrow> OIDCGroupMapping \<times> bool \<Rightarrow> OIDCGroupMapping \<times> bool" where
  "mappingMember kv r =
    (let m = fst r; j = snd kv
     in case jsonField mappingNames (fst kv) of
          None \<Rightarrow> r
        | Some f \<Rightarrow>
            if f = ''group'' then (m\<lparr>gm_Group := fst (storeString j (gm_Group m))\<rparr>, snd r \<and> snd (storeString j (gm_Group m)))
            else if f = ''organization''
            then (m\<lparr>gm_Organization := fst (storeString j (gm_Organization m))\<rparr>, snd r \<and> snd (storeString j (gm_Organization m)))
            else (m\<lparr>gm_Role := fst (storeString j (gm_Role m))\<rparr>, snd r \<and> snd (storeString j (gm_Role m))))"

definition decodeMapping :: "gojson \<Rightarrow> OIDCGroupMapping \<Rightarrow> OIDCGroupMapping \<times> bool" where
  "decodeMapping j m = (case j of GObject kvs \<Rightarrow> fold mappingMember kvs (m, True) | GNull \<Rightarrow> (m, True) | _ \<Rightarrow> (m, False))"

definition zeroMapping :: OIDCGroupMapping where
  "zeroMapping = \<lparr>gm_Group = '''', gm_Organization = '''', gm_Role = ''''\<rparr>"

text \<open>The elements of an array, decoded one after the other into the slots of the slice's array, those it has and then fresh ones.\<close>

fun decodeElems :: "gojson list \<Rightarrow> OIDCGroupMapping list \<Rightarrow> OIDCGroupMapping list \<times> bool" where
  "decodeElems [] slots = (slots, True)"
| "decodeElems (j # js) slots =
    (let (m, ok) = decodeMapping j (case slots of [] \<Rightarrow> zeroMapping | s # _ \<Rightarrow> s);
         (ms, oks) = decodeElems js (tl slots)
     in (m # ms, ok \<and> oks))"

text \<open>A slice: nil, or the slots of its array and its length.\<close>

type_synonym mapping_slice = "(OIDCGroupMapping list \<times> nat) option"

definition decodeSlice :: "gojson \<Rightarrow> mapping_slice \<Rightarrow> mapping_slice \<times> bool" where
  "decodeSlice j v =
    (case j of
       GArray js \<Rightarrow>
         if js = [] then (Some ([], 0), True)
         else let (slots, ok) = decodeElems js (case v of None \<Rightarrow> [] | Some (slots, _) \<Rightarrow> slots) in (Some (slots, length js), ok)
     | GNull \<Rightarrow> (None, True)
     | _ \<Rightarrow> (v, False))"

record groupMappingExtra =
  GroupClaimName :: string
  GroupMappings :: mapping_slice
  DefaultRole :: string

definition extraNames :: "string list" where
  "extraNames = [''group_claim_name'', ''group_mappings'', ''default_role'']"

definition extraMember :: "string \<times> gojson \<Rightarrow> groupMappingExtra \<times> bool \<Rightarrow> groupMappingExtra \<times> bool" where
  "extraMember kv r =
    (let e = fst r; j = snd kv
     in case jsonField extraNames (fst kv) of
          None \<Rightarrow> r
        | Some f \<Rightarrow>
            if f = ''group_claim_name''
            then (e\<lparr>GroupClaimName := fst (storeString j (GroupClaimName e))\<rparr>, snd r \<and> snd (storeString j (GroupClaimName e)))
            else if f = ''group_mappings''
            then (e\<lparr>GroupMappings := fst (decodeSlice j (GroupMappings e))\<rparr>, snd r \<and> snd (decodeSlice j (GroupMappings e)))
            else (e\<lparr>DefaultRole := fst (storeString j (DefaultRole e))\<rparr>, snd r \<and> snd (storeString j (DefaultRole e))))"

definition decodeExtra :: "gojson \<Rightarrow> groupMappingExtra \<times> bool" where
  "decodeExtra j =
    (let zero = \<lparr>GroupClaimName = '''', GroupMappings = None, DefaultRole = ''''\<rparr>
     in case j of GObject kvs \<Rightarrow> fold extraMember kvs (zero, True) | GNull \<Rightarrow> (zero, True) | _ \<Rightarrow> (zero, False))"

definition GetGroupMappingConfig :: "OIDCConfig \<Rightarrow> string \<times> OIDCGroupMapping list option \<times> string" where
  "GetGroupMappingConfig c =
    (case oc_ExtraConfig c of
       None \<Rightarrow> ('''', None, '''')
     | Some Malformed \<Rightarrow> ('''', None, '''')
     | Some (Document j) \<Rightarrow>
         (let (extra, ok) = decodeExtra j
          in if \<not> ok then ('''', None, '''')
             else (GroupClaimName extra, map_option (\<lambda>(slots, n). take n slots) (GroupMappings extra), DefaultRole extra)))"


subsection \<open>Decoding into a map, and encoding\<close>

definition goMap :: "(string \<times> gojson) list \<Rightarrow> (string \<times> gojson) list" where
  "goMap kvs = fold (\<lambda>(k, v). AList.update k v) kvs []"

definition encodeMap :: "(string \<times> gojson) list \<Rightarrow> gojson" where
  "encodeMap m = GObject (sort_key fst m)"

text \<open>A value that is decoded into an \<open>interface{}\<close> and encoded again.\<close>

fun reencode :: "(string \<Rightarrow> string option) \<Rightarrow> gojson \<Rightarrow> gojson option"
  and reencodeAll :: "(string \<Rightarrow> string option) \<Rightarrow> gojson list \<Rightarrow> gojson list option"
  and reencodeMembers :: "(string \<Rightarrow> string option) \<Rightarrow> (string \<times> gojson) list \<Rightarrow> (string \<times> gojson) list option" where
  "reencode float64 GNull = Some GNull"
| "reencode float64 (GBool b) = Some (GBool b)"
| "reencode float64 (GNumber t) = map_option GNumber (float64 t)"
| "reencode float64 (GString s) = Some (GString s)"
| "reencode float64 (GArray js) = map_option GArray (reencodeAll float64 js)"
| "reencode float64 (GObject kvs) = map_option (\<lambda>m. encodeMap (goMap m)) (reencodeMembers float64 kvs)"
| "reencodeAll float64 [] = Some []"
| "reencodeAll float64 (j # js) =
    (case (reencode float64 j, reencodeAll float64 js) of (Some x, Some xs) \<Rightarrow> Some (x # xs) | _ \<Rightarrow> None)"
| "reencodeMembers float64 [] = Some []"
| "reencodeMembers float64 ((k, v) # kvs) =
    (case (reencode float64 v, reencodeMembers float64 kvs) of (Some x, Some xs) \<Rightarrow> Some ((k, x) # xs) | _ \<Rightarrow> None)"

definition encodeMapping :: "OIDCGroupMapping \<Rightarrow> gojson" where
  "encodeMapping m = GObject [(''group'', GString (validText (gm_Group m))),
                              (''organization'', GString (validText (gm_Organization m))),
                              (''role'', GString (validText (gm_Role m)))]"

definition encodeMappings :: "OIDCGroupMapping list option \<Rightarrow> gojson" where
  "encodeMappings ms = (case ms of None \<Rightarrow> GNull | Some xs \<Rightarrow> GArray (map encodeMapping xs))"

text \<open>The outcome of \<open>SetGroupMappingConfig\<close>: the configuration as it is left, an error, or the panic of an assignment into a nil map.\<close>

datatype set_outcome = Stored OIDCConfig | Undecodable | NilMapPanic

text \<open>The map the existing settings decode to: nil for the document \<open>null\<close>.\<close>

definition existingMap :: "(string \<Rightarrow> string option) \<Rightarrow> rawjson option \<Rightarrow> (string \<times> gojson) list option option" where
  "existingMap float64 raw =
    (case raw of
       None \<Rightarrow> Some (Some [])
     | Some (Document GNull) \<Rightarrow> Some None
     | Some (Document (GObject kvs)) \<Rightarrow> map_option (\<lambda>m. Some (goMap m)) (reencodeMembers float64 kvs)
     | _ \<Rightarrow> None)"

definition SetGroupMappingConfig :: "(string \<Rightarrow> string option) \<Rightarrow> OIDCConfig \<Rightarrow> string \<Rightarrow> OIDCGroupMapping list option \<Rightarrow> string \<Rightarrow> set_outcome" where
  "SetGroupMappingConfig float64 c claimName mappings defaultRole =
    (case existingMap float64 (oc_ExtraConfig c) of
       None \<Rightarrow> Undecodable
     | Some None \<Rightarrow> NilMapPanic
     | Some (Some existing) \<Rightarrow>
         Stored (c\<lparr>oc_ExtraConfig := Some (Document (encodeMap
           (AList.update ''default_role'' (GString (validText defaultRole))
             (AList.update ''group_mappings'' (encodeMappings mappings)
               (AList.update ''group_claim_name'' (GString (validText claimName)) existing)))))\<rparr>))"

subsection \<open>\<open>ParseRoleTemplateID\<close>\<close>

definition ParseRoleTemplateID :: "(string \<Rightarrow> 'u option) \<Rightarrow> string option \<Rightarrow> string + 'u option" where
  "ParseRoleTemplateID parse i =
    (case i of
       None \<Rightarrow> Inr None
     | Some s \<Rightarrow> (case parse s of None \<Rightarrow> Inl (''invalid role template id '' @ s) | Some u \<Rightarrow> Inr (Some u)))"

definition OrganizationMember_RoleTemplateUUID :: "(string \<Rightarrow> 'u option) \<Rightarrow> OrganizationMember \<Rightarrow> string + 'u option" where
  "OrganizationMember_RoleTemplateUUID parse m = ParseRoleTemplateID parse (mem_RoleTemplateID m)"

definition OrganizationMemberWithUser_RoleTemplateUUID :: "(string \<Rightarrow> 'u option) \<Rightarrow> OrganizationMemberWithUser \<Rightarrow> string + 'u option" where
  "OrganizationMemberWithUser_RoleTemplateUUID parse m = ParseRoleTemplateID parse (mw_RoleTemplateID m)"

definition UserMembership_RoleTemplateUUID :: "(string \<Rightarrow> 'u option) \<Rightarrow> UserMembership \<Rightarrow> string + 'u option" where
  "UserMembership_RoleTemplateUUID parse m = ParseRoleTemplateID parse (um_RoleTemplateID m)"

subsection \<open>The settings are read back as they were stored\<close>

lemma map_of_sort_key: "distinct (map fst m) \<Longrightarrow> map_of (sort_key fst m) = map_of m"
  by (subst map_of_inject_set) (simp_all add: distinct_map inj_on_def)

lemma fold_update_distinct:
  "distinct (map fst m) \<Longrightarrow> distinct (map fst (fold (\<lambda>(k, v). AList.update k v) kvs m))"
  by (induction kvs arbitrary: m) (auto simp: distinct_update)

lemma map_of_fold_update: "map_of (fold (\<lambda>(k, v). AList.update k v) kvs m) = map_of m ++ map_of (rev kvs)"
  by (induction kvs arbitrary: m) (auto simp: update_conv' map_add_def fun_eq_iff split: option.splits)

lemma goMap_distinct [simp]: "distinct (map fst (goMap kvs))"
  unfolding goMap_def by (rule fold_update_distinct) simp

lemma map_of_goMap: "map_of (goMap kvs) = map_of (rev kvs)"
  by (simp add: goMap_def map_of_fold_update)

text \<open>An object whose keys are distinct and name the three settings by their exact names only: each setting is decoded once, independently.\<close>

definition exact_keys :: "string list \<Rightarrow> (string \<times> gojson) list \<Rightarrow> bool" where
  "exact_keys names kvs \<longleftrightarrow> (\<forall>k \<in> set (map fst kvs). jsonField names k \<noteq> None \<longrightarrow> k \<in> set names)"

lemma extraMember_simps:
  "extraMember (''group_claim_name'', j) (e, ok) = (e\<lparr>GroupClaimName := fst (storeString j (GroupClaimName e))\<rparr>, ok \<and> snd (storeString j (GroupClaimName e)))"
  "extraMember (''group_mappings'', j) (e, ok) = (e\<lparr>GroupMappings := fst (decodeSlice j (GroupMappings e))\<rparr>, ok \<and> snd (decodeSlice j (GroupMappings e)))"
  "extraMember (''default_role'', j) (e, ok) = (e\<lparr>DefaultRole := fst (storeString j (DefaultRole e))\<rparr>, ok \<and> snd (storeString j (DefaultRole e)))"
  "jsonField extraNames k = None \<Longrightarrow> extraMember (k, j) r = r"
  by (simp_all add: extraMember_def extraNames_def Let_def)

lemma fold_extraMember:
  assumes "distinct (map fst kvs)" "exact_keys extraNames kvs"
  shows "fold extraMember kvs (e, ok) =
    (let claim = (case map_of kvs ''group_claim_name'' of None \<Rightarrow> (GroupClaimName e, True) | Some j \<Rightarrow> storeString j (GroupClaimName e));
         ms = (case map_of kvs ''group_mappings'' of None \<Rightarrow> (GroupMappings e, True) | Some j \<Rightarrow> decodeSlice j (GroupMappings e));
         role = (case map_of kvs ''default_role'' of None \<Rightarrow> (DefaultRole e, True) | Some j \<Rightarrow> storeString j (DefaultRole e))
     in (\<lparr>GroupClaimName = fst claim, GroupMappings = fst ms, DefaultRole = fst role\<rparr>, ok \<and> snd claim \<and> snd ms \<and> snd role))"
  using assms
proof (induction kvs arbitrary: e ok)
  case Nil
  then show ?case by (simp add: Let_def)
next
  case (Cons kv kvs)
  obtain k j where kv: "kv = (k, j)" by (cases kv)
  have d: "distinct (map fst kvs)" "map_of kvs k = None" and x: "exact_keys extraNames kvs"
    and k: "jsonField extraNames k = None \<or> k = ''group_claim_name'' \<or> k = ''group_mappings'' \<or> k = ''default_role''"
    using Cons.prems by (auto simp: kv exact_keys_def map_of_eq_None_iff extraNames_def)
  note IH = Cons.IH [OF d(1) x]
  from k show ?case
  proof (elim disjE)
    assume n: "jsonField extraNames k = None"
    then have "k \<noteq> ''group_claim_name''" "k \<noteq> ''group_mappings''" "k \<noteq> ''default_role''"
      by (auto simp: extraNames_def)
    with n show ?thesis using IH by (simp add: kv extraMember_simps)
  qed (use d(2) in \<open>simp_all add: kv extraMember_simps IH Let_def conj_ac cong: option.case_cong\<close>)
qed

lemma decode_encodeMapping:
  "decodeMapping (encodeMapping m) zeroMapping =
    (\<lparr>gm_Group = validText (gm_Group m), gm_Organization = validText (gm_Organization m), gm_Role = validText (gm_Role m)\<rparr>, True)"
  by (simp add: decodeMapping_def encodeMapping_def mappingMember_def mappingNames_def storeString_def zeroMapping_def)

definition cleanMapping :: "OIDCGroupMapping \<Rightarrow> OIDCGroupMapping" where
  "cleanMapping m = \<lparr>gm_Group = validText (gm_Group m), gm_Organization = validText (gm_Organization m), gm_Role = validText (gm_Role m)\<rparr>"

lemma decodeElems_encode: "decodeElems (map encodeMapping ms) [] = (map cleanMapping ms, True)"
  by (induction ms) (simp_all add: decode_encodeMapping cleanMapping_def)

lemma decodeSlice_encode:
  "decodeSlice (encodeMappings ms) None = (map_option (\<lambda>xs. (map cleanMapping xs, length xs)) ms, True)"
  by (cases ms) (auto simp: encodeMappings_def decodeSlice_def decodeElems_encode)

text \<open>The keys of an object that are read as one of the settings without being one.\<close>

definition shadowing_keys :: "rawjson option \<Rightarrow> bool" where
  "shadowing_keys raw = (case raw of Some (Document (GObject kvs)) \<Rightarrow> \<not> exact_keys extraNames kvs | _ \<Rightarrow> False)"

lemma reencodeMembers_keys: "reencodeMembers f kvs = Some m \<Longrightarrow> map fst m = map fst kvs"
  by (induction kvs arbitrary: m) (auto split: option.splits)

lemma reencodeMembers_values: "reencodeMembers f kvs = Some m \<Longrightarrow> (k, v) \<in> set kvs \<Longrightarrow> reencode f v \<noteq> None"
  by (induction kvs arbitrary: m) (auto split: option.splits)

lemma reencodeMembers_lookup:
  "reencodeMembers f kvs = Some m \<Longrightarrow> map_of (rev m) k = Option.bind (map_of (rev kvs) k) (reencode f)"
proof (induction kvs arbitrary: m)
  case (Cons kv kvs)
  then obtain x xs where m: "m = (fst kv, x) # xs" "reencode f (snd kv) = Some x" "reencodeMembers f kvs = Some xs"
    by (cases kv) (auto split: option.splits)
  have "map_of (rev kvs) k = Some v \<Longrightarrow> reencode f v \<noteq> None" for v
    using reencodeMembers_values [OF m(3)] map_of_SomeD [of "rev kvs" k v] by auto
  with Cons.IH [OF m(3)] m show ?case by (cases kv) (auto simp: map_add_def split: option.splits)
qed simp

lemma existingMap_keys:
  assumes "existingMap f raw = Some (Some m)"
  shows "distinct (map fst m)" "\<not> shadowing_keys raw \<Longrightarrow> exact_keys extraNames m"
proof -
  show "distinct (map fst m)"
    using assms by (auto simp: existingMap_def split: option.splits rawjson.splits gojson.splits)
  assume n: "\<not> shadowing_keys raw"
  have goMap_keys: "set (map fst (goMap kvs)) = set (map fst kvs)" for kvs
    using map_of_goMap [of kvs] dom_map_of_conv_image_fst [of "goMap kvs"] dom_map_of_conv_image_fst [of "rev kvs"] by simp
  consider "m = []" | kvs z where "raw = Some (Document (GObject kvs))" "reencodeMembers f kvs = Some z" "m = goMap z"
    using assms by (auto simp: existingMap_def split: option.splits rawjson.splits gojson.splits)
  then show "exact_keys extraNames m"
  proof cases
    case 2
    then have "set (map fst m) = set (map fst kvs)" by (simp only: goMap_keys reencodeMembers_keys [OF 2(2)])
    with n 2(1) show ?thesis by (simp only: shadowing_keys_def exact_keys_def) auto
  qed (simp add: exact_keys_def)
qed


lemma stored_document:
  assumes set: "SetGroupMappingConfig f c claimName mappings defaultRole = Stored c'"
  obtains existing m where "existingMap f (oc_ExtraConfig c) = Some (Some existing)"
    "c' = c\<lparr>oc_ExtraConfig := Some (Document (GObject m))\<rparr>" "distinct (map fst m)" "sorted (map fst m)"
    "map_of m = (map_of existing)(''group_claim_name'' \<mapsto> GString (validText claimName),
       ''group_mappings'' \<mapsto> encodeMappings mappings, ''default_role'' \<mapsto> GString (validText defaultRole))"
    "set (map fst m) = set (map fst existing) \<union> set extraNames"
proof -
  obtain existing where ex: "existingMap f (oc_ExtraConfig c) = Some (Some existing)"
    using set by (auto simp: SetGroupMappingConfig_def split: option.splits)
  let ?u = "AList.update ''default_role'' (GString (validText defaultRole))
    (AList.update ''group_mappings'' (encodeMappings mappings) (AList.update ''group_claim_name'' (GString (validText claimName)) existing))"
  have d: "distinct (map fst ?u)"
    by (intro distinct_update existingMap_keys [OF ex])
  have mo: "map_of ?u = (map_of existing)(''group_claim_name'' \<mapsto> GString (validText claimName),
       ''group_mappings'' \<mapsto> encodeMappings mappings, ''default_role'' \<mapsto> GString (validText defaultRole))"
    by (simp add: update_conv')
  have keys: "dom (map_of ?u) = dom (map_of existing) \<union> set extraNames"
    unfolding mo by (auto simp: extraNames_def)
  show thesis
  proof (rule that [OF ex, of "sort_key fst ?u"])
    show "c' = c\<lparr>oc_ExtraConfig := Some (Document (GObject (sort_key fst ?u)))\<rparr>"
      using set by (simp add: SetGroupMappingConfig_def ex encodeMap_def)
    show "distinct (map fst (sort_key fst ?u))" using d by (simp add: distinct_map)
    show "set (map fst (sort_key fst ?u)) = set (map fst existing) \<union> set extraNames"
      using keys by (simp add: dom_map_of_conv_image_fst)
  qed (use d in \<open>simp_all add: map_of_sort_key mo\<close>)
qed

text \<open>
  The settings stored are the settings read. Storing changes nothing of the configuration but \<open>ExtraConfig\<close>, whose result is always an
  object with each key once, in order; every other key keeps its value (as it is after passing through \<open>interface{}\<close>); and where no
  key of the old document is read as a setting without being one (in another case, say), reading gives back the claim name, the mappings, nil
  or not, and the default role, with bytes that are not UTF-8 replaced.
\<close>

theorem SetGroupMappingConfig_read_back:
  assumes set: "SetGroupMappingConfig f c claimName mappings defaultRole = Stored c'"
  shows "\<exists>m. c' = c\<lparr>oc_ExtraConfig := Some (Document (GObject m))\<rparr> \<and> distinct (map fst m) \<and> sorted (map fst m) \<and>
      (\<forall>k. k \<notin> set extraNames \<longrightarrow> map_of m k = (case oc_ExtraConfig c of
         Some (Document (GObject kvs)) \<Rightarrow> Option.bind (map_of (rev kvs) k) (reencode f) | _ \<Rightarrow> None))"
    and "\<not> shadowing_keys (oc_ExtraConfig c) \<Longrightarrow>
      GetGroupMappingConfig c' = (validText claimName, map_option (map cleanMapping) mappings, validText defaultRole)"
proof -
  from set obtain existing m where ex: "existingMap f (oc_ExtraConfig c) = Some (Some existing)"
    and c': "c' = c\<lparr>oc_ExtraConfig := Some (Document (GObject m))\<rparr>" and d: "distinct (map fst m)" and s: "sorted (map fst m)"
    and mo: "map_of m = (map_of existing)(''group_claim_name'' \<mapsto> GString (validText claimName),
       ''group_mappings'' \<mapsto> encodeMappings mappings, ''default_role'' \<mapsto> GString (validText defaultRole))"
    and keys: "set (map fst m) = set (map fst existing) \<union> set extraNames"
    by (rule stored_document)
  have "map_of existing k = (case oc_ExtraConfig c of
         Some (Document (GObject kvs)) \<Rightarrow> Option.bind (map_of (rev kvs) k) (reencode f) | _ \<Rightarrow> None)" for k
    using ex reencodeMembers_lookup
    by (auto simp: existingMap_def map_of_goMap split: option.splits rawjson.splits gojson.splits)
  then show "\<exists>m. c' = c\<lparr>oc_ExtraConfig := Some (Document (GObject m))\<rparr> \<and> distinct (map fst m) \<and> sorted (map fst m) \<and>
      (\<forall>k. k \<notin> set extraNames \<longrightarrow> map_of m k = (case oc_ExtraConfig c of
         Some (Document (GObject kvs)) \<Rightarrow> Option.bind (map_of (rev kvs) k) (reencode f) | _ \<Rightarrow> None))"
    using c' d s mo by (intro exI [of _ m]) (simp add: extraNames_def)
  assume "\<not> shadowing_keys (oc_ExtraConfig c)"
  then have "exact_keys extraNames m" using existingMap_keys(2) [OF ex] keys by (auto simp: exact_keys_def)
  from fold_extraMember [OF d this]
  show "GetGroupMappingConfig c' = (validText claimName, map_option (map cleanMapping) mappings, validText defaultRole)"
    by (auto simp: c' GetGroupMappingConfig_def decodeExtra_def mo decodeSlice_encode storeString_def Let_def option.map_comp o_def)
qed

text \<open>Storing fails on bytes that are not JSON, on a document that is not an object, and on a number out of range; and it panics on the document
  \<open>null\<close>, which decodes into the map by making it nil.\<close>

theorem SetGroupMappingConfig_outcomes:
  "SetGroupMappingConfig f c claimName mappings defaultRole = NilMapPanic \<longleftrightarrow> oc_ExtraConfig c = Some (Document GNull)"
  "SetGroupMappingConfig f c claimName mappings defaultRole = Undecodable \<longleftrightarrow>
     (case oc_ExtraConfig c of None \<Rightarrow> False | Some Malformed \<Rightarrow> True | Some (Document GNull) \<Rightarrow> False
      | Some (Document (GObject kvs)) \<Rightarrow> reencodeMembers f kvs = None | Some (Document _) \<Rightarrow> True)"
  by (auto simp: SetGroupMappingConfig_def existingMap_def split: option.splits rawjson.splits gojson.splits)

text \<open>A key that differs from a setting in case only survives the storing, and a value of another kind under it makes the settings unreadable.\<close>

theorem shadowing_key_hides_settings:
  "\<exists>c'. SetGroupMappingConfig f (c\<lparr>oc_ExtraConfig := Some (Document (GObject [(''Default_Role'', GBool True)]))\<rparr>) ''groups'' (Some []) ''viewer'' = Stored c'
     \<and> GetGroupMappingConfig c' = ('''', None, '''')"
  by (simp add: SetGroupMappingConfig_def existingMap_def goMap_def GetGroupMappingConfig_def encodeMap_def decodeExtra_def extraMember_def
      jsonField_def extraNames_def between_def encodeMappings_def storeString_def decodeSlice_def char_of_def bit_0)

text \<open>No assigned template is neither an error nor an identifier; an assigned one is parsed, and an unparsable one is an error.\<close>

theorem ParseRoleTemplateID_spec:
  "ParseRoleTemplateID parse i = Inr None \<longleftrightarrow> i = None"
  "ParseRoleTemplateID parse i = Inr (Some u) \<longleftrightarrow> (\<exists>s. i = Some s \<and> parse s = Some u)"
  "(\<exists>e. ParseRoleTemplateID parse i = Inl e) \<longleftrightarrow> (\<exists>s. i = Some s \<and> parse s = None)"
  by (auto simp: ParseRoleTemplateID_def split: option.splits)

end
