(* ===== verification/Outbox_Table.thy ===== *)
theory Outbox_Table
  imports Pg_Quote
begin

text \<open>
  Package \<open>identity/auditoutbox\<close>, file \<open>table.go\<close>: the name of a table the application supplies, parsed into
  validated parts, and the names generated from it.
\<close>

datatype table_error =
    TableEmpty
  | TableParts nat
  | TableTooLong string
  | TableUpperCase string
  | TableNotIdentifier string

record table =
  tb_schema :: string
  tb_name :: string

definition validateIdentifier :: "string \<Rightarrow> table_error + unit" where
  "validateIdentifier part =
     (if length part > MaxIdentifierLength then Inl (TableTooLong part)
      else if ValidIdentifier part then Inr ()
      else
        let lowered = ToLower part
        in if lowered \<noteq> part \<and> ValidIdentifier lowered then Inl (TableUpperCase part)
           else Inl (TableNotIdentifier part))"

fun validateParts :: "string list \<Rightarrow> table_error + unit" where
  "validateParts [] = Inr ()"
| "validateParts (p # ps) = (case validateIdentifier p of Inl e \<Rightarrow> Inl e | Inr _ \<Rightarrow> validateParts ps)"

definition parseTable :: "string \<Rightarrow> table_error + table" where
  "parseTable s =
     (let trimmed = TrimSpace s
      in if trimmed = '''' then Inl TableEmpty
         else
           let parts = Split CHR ''.'' trimmed
           in if length parts > 2 then Inl (TableParts (length parts))
              else (case validateParts parts of
                      Inl e \<Rightarrow> Inl e
                    | Inr _ \<Rightarrow>
                        (case parts of
                           [a, b] \<Rightarrow> Inr \<lparr>tb_schema = a, tb_name = b\<rparr>
                         | a # _ \<Rightarrow> Inr \<lparr>tb_schema = '''', tb_name = a\<rparr>
                         | [] \<Rightarrow> Inl TableEmpty)))"

definition table_String :: "table \<Rightarrow> string" where
  "table_String t = (if tb_schema t = '''' then tb_name t else tb_schema t @ ''.'' @ tb_name t)"

definition table_sql :: "(string list \<Rightarrow> string) \<Rightarrow> table \<Rightarrow> string" where
  "table_sql sanitize t =
     (if tb_schema t = '''' then Identifier sanitize (tb_name t)
      else Identifier sanitize (tb_schema t) @ ''.'' @ Identifier sanitize (tb_name t))"

definition derive :: "string \<Rightarrow> table \<Rightarrow> table_error + table" where
  "derive sfx t =
     (let name = tb_name t @ sfx
      in if length name > MaxIdentifierLength then Inl (TableTooLong name)
         else Inr \<lparr>tb_schema = tb_schema t, tb_name = name\<rparr>)"

subsection \<open>Round trip\<close>

definition table_ok :: "table \<Rightarrow> bool" where
  "table_ok t \<longleftrightarrow> (tb_schema t = '''' \<or> ValidIdentifier (tb_schema t)) \<and> ValidIdentifier (tb_name t)"

lemma validateIdentifier_Inr: "validateIdentifier p = Inr () \<longleftrightarrow> ValidIdentifier p"
  by (auto simp: validateIdentifier_def ValidIdentifier_def Let_def)

lemma validateParts_Inr: "validateParts ps = Inr () \<longleftrightarrow> list_all ValidIdentifier ps"
  by (induction ps) (auto simp: validateIdentifier_Inr [symmetric] split: sum.splits)

lemma parseTable_ok: "parseTable s = Inr t \<Longrightarrow> table_ok t"
  by (auto simp: parseTable_def table_ok_def validateParts_Inr Let_def split: if_splits sum.splits list.splits)

lemma Split_none: "d \<notin> set s \<Longrightarrow> Split d s = [s]"
  by (induction s) auto

lemma Split_append_sep: "d \<notin> set a \<Longrightarrow> Split d (a @ d # b) = a # Split d b"
  by (induction a) auto

lemma ident_not_space: "ident_first c \<or> ident_rest c \<Longrightarrow> \<not> is_space c"
  by (auto simp: ident_first_def ident_rest_def is_space_def less_eq_char_def)

lemma ValidIdentifier_chars: "ValidIdentifier p \<Longrightarrow> list_all (\<lambda>c. \<not> is_space c) p"
  using ident_not_space by (cases p) (auto simp: ValidIdentifier_def list_all_iff)

lemma dropWhile_none: "\<forall>c \<in> set s. \<not> P c \<Longrightarrow> dropWhile P s = s"
  by (cases s) auto

lemma TrimSpace_no_space: "list_all (\<lambda>c. \<not> is_space c) s \<Longrightarrow> TrimSpace s = s"
  by (simp add: TrimSpace_def list_all_iff dropWhile_none)

lemma table_String_no_space: "table_ok t \<Longrightarrow> list_all (\<lambda>c. \<not> is_space c) (table_String t)"
  using ValidIdentifier_chars [of "tb_schema t"] ValidIdentifier_chars [of "tb_name t"]
  by (auto simp: table_ok_def table_String_def is_space_def)

lemma parse_String: "table_ok t \<Longrightarrow> parseTable (table_String t) = Inr t"
proof -
  assume ok: "table_ok t"
  note trim = TrimSpace_no_space [OF table_String_no_space [OF ok]]
  have nm: "ValidIdentifier (tb_name t)" "CHR ''.'' \<notin> set (tb_name t)" "tb_name t \<noteq> []"
    using ok ValidIdentifier_plain [of "tb_name t"] by (auto simp: table_ok_def)
  show ?thesis
  proof (cases "tb_schema t = ''''")
    case True
    then show ?thesis using nm trim by (cases t) (auto simp: parseTable_def table_String_def Split_none validateIdentifier_Inr [THEN iffD2] Let_def)
  next
    case False
    then have "ValidIdentifier (tb_schema t)" "CHR ''.'' \<notin> set (tb_schema t)"
      using ok ValidIdentifier_plain [of "tb_schema t"] by (auto simp: table_ok_def)
    then have "Split CHR ''.'' (table_String t) = [tb_schema t, tb_name t]"
      using False nm(2) Split_append_sep [of "CHR ''.''" "tb_schema t" "tb_name t"] by (simp add: table_String_def Split_none)
    moreover have "table_String t \<noteq> []" using False by (simp add: table_String_def)
    ultimately show ?thesis using \<open>ValidIdentifier (tb_schema t)\<close> nm trim by (cases t) (simp add: parseTable_def validateIdentifier_Inr [THEN iffD2] Let_def)
  qed
qed

end
