(* ===== verification/Audit_Outbox.thy ===== *)
theory Audit_Outbox
  imports Outbox_Table Batch_Prune "HOL-Library.Product_Lexorder"
begin

text \<open>
  Package \<open>identity/auditoutbox\<close>: intents (\<open>intent.go\<close>), the outbox table (\<open>outbox.go\<close>) and the table sink
  (\<open>sink.go\<close>). The outbox is a list of rows with unique \<open>event_id\<close>; the destination is a relation of the
  application with whatever columns it has, possibly on another database, its rows maps from column names to values. Metadata is a JSON
  object, kept as its members; a failure to encode it is one of the calls of an operation. The clock of the process is
  \<open>now\<close>, that of the server \<open>dbnow\<close>; a fresh UUID is an argument.
\<close>

datatype outbox_error =
    ErrNoOutbox
  | ErrIntentIncomplete string
  | ErrIntentRequired
  | ErrDestinationShape
  | ErrOutboxShape "string list"
  | RelayNoSink
  | InvalidTable table_error
  | OutboxFailed string

type_synonym metadata = "(string \<times> string) list"

record Event =
  ev_EventID :: string
  ev_OccurredAt :: time
  ev_Action :: string
  ev_ActorUserID :: "string option"
  ev_ActorEmail :: "string option"
  ev_OrganizationID :: "string option"
  ev_ResourceType :: "string option"
  ev_ResourceID :: "string option"
  ev_IPAddress :: "string option"

record Intent = Event +
  in_Metadata :: "metadata option"

text \<open>A row of the outbox: the event, the metadata document, and the delivery bookkeeping.\<close>

record OutboxRow = Event +
  ob_metadata :: "jsondoc option"
  ob_txid :: nat
  ob_delivered_at :: "time option"
  ob_attempts :: int
  ob_last_error :: "string option"

record pendingIntent =
  pi_Intent :: Intent
  pi_Attempts :: int

record Entry =
  en_Timestamp :: time
  en_EventID :: string
  en_Action :: string
  en_UserID :: string
  en_ActorEmail :: string
  en_OrganizationID :: string
  en_ResourceType :: string
  en_ResourceID :: string
  en_IPAddress :: string
  en_Metadata :: "metadata option"

definition RequireIntentWriter :: "'w option \<Rightarrow> outbox_error + unit" where
  "RequireIntentWriter w = (case w of None \<Rightarrow> Inl ErrIntentRequired | Some _ \<Rightarrow> Inr ())"

definition marshalMetadata :: "bool \<Rightarrow> metadata option \<Rightarrow> outbox_error + jsondoc option" where
  "marshalMetadata fails m =
     (case m of None \<Rightarrow> Inr None
      | Some kvs \<Rightarrow> if fails then Inl (ErrIntentIncomplete ''metadata is not JSON-encodable'') else Inr (Some (JObject kvs)))"

definition derefString :: "string option \<Rightarrow> string" where
  "derefString s = (case s of None \<Rightarrow> '''' | Some x \<Rightarrow> x)"

subsection \<open>The outbox\<close>

record Outbox =
  ox_hasDB :: bool
  ox_table :: table

definition New_outbox :: "bool \<Rightarrow> string \<Rightarrow> outbox_error + Outbox" where
  "New_outbox hasDB outboxTable =
     (if \<not> hasDB then Inl ErrNoOutbox
      else (case parseTable outboxTable of
              Inl e \<Rightarrow> Inl (InvalidTable e)
            | Inr t \<Rightarrow> Inr \<lparr>ox_hasDB = True, ox_table = t\<rparr>))"

definition no_outbox :: "Outbox option \<Rightarrow> bool" where
  "no_outbox ob = (case ob of None \<Rightarrow> True | Some x \<Rightarrow> \<not> ox_hasDB x)"

definition outbox_row :: "nat \<Rightarrow> jsondoc option \<Rightarrow> Intent \<Rightarrow> OutboxRow" where
  "outbox_row tx meta i =
     \<lparr>ev_EventID = ev_EventID i, ev_OccurredAt = ev_OccurredAt i, ev_Action = ev_Action i, ev_ActorUserID = ev_ActorUserID i,
      ev_ActorEmail = ev_ActorEmail i, ev_OrganizationID = ev_OrganizationID i, ev_ResourceType = ev_ResourceType i,
      ev_ResourceID = ev_ResourceID i, ev_IPAddress = ev_IPAddress i,
      ob_metadata = meta, ob_txid = tx, ob_delivered_at = None, ob_attempts = 0, ob_last_error = None\<rparr>"

text \<open>\<open>Enqueue\<close> writes inside the caller's transaction \<open>tx\<close> (\<open>None\<close>: nil): the rows returned are those the transaction sees. The
  intent is returned with the fields filled in. \<open>io 0\<close>: the metadata does not marshal; \<open>io 1\<close>: the insert fails. An
  \<open>event_id\<close> already present violates the primary key.\<close>

definition filled :: "string \<Rightarrow> time \<Rightarrow> Intent \<Rightarrow> Intent" where
  "filled uuid now i =
     (let i1 = (if ev_EventID i = '''' then i\<lparr>ev_EventID := uuid\<rparr> else i)
      in if is_zero (ev_OccurredAt i1) then i1\<lparr>ev_OccurredAt := now\<rparr> else i1)"

definition Enqueue :: "io \<Rightarrow> string \<Rightarrow> time \<Rightarrow> Outbox option \<Rightarrow> nat option \<Rightarrow> Intent option \<Rightarrow> OutboxRow list
    \<Rightarrow> (outbox_error + unit) \<times> Intent option \<times> OutboxRow list" where
  "Enqueue io uuid now ob tx intent rows =
     (if no_outbox ob then (Inl ErrNoOutbox, intent, rows)
      else case tx of None \<Rightarrow> (Inl ErrNoOutbox, intent, rows)
      | Some t \<Rightarrow>
          (case intent of None \<Rightarrow> (Inl (ErrIntentIncomplete ''nil intent''), None, rows)
           | Some i \<Rightarrow>
               if ev_Action i = '''' then (Inl (ErrIntentIncomplete ''action is empty''), Some i, rows)
               else
                 let i' = filled uuid now i
                 in (case marshalMetadata (io 0) (in_Metadata i') of
                       Inl e \<Rightarrow> (Inl e, Some i', rows)
                     | Inr meta \<Rightarrow>
                         if io 1 \<or> list_ex (\<lambda>r. ev_EventID r = ev_EventID i') rows
                         then (Inl (OutboxFailed ''failed to enqueue audit intent''), Some i', rows)
                         else (Inr (), Some i', rows @ [outbox_row t meta i']))))"

text \<open>\<open>Writer\<close> binds an intent to the outbox; it is never nil.\<close>

definition Writer :: "io \<Rightarrow> string \<Rightarrow> time \<Rightarrow> Outbox option \<Rightarrow> nat option \<Rightarrow> Intent option
    \<Rightarrow> (OutboxRow list \<Rightarrow> (outbox_error + unit) \<times> OutboxRow list) option" where
  "Writer io uuid now ob tx intent = Some (\<lambda>rows. case Enqueue io uuid now ob tx intent rows of (res, _, rows') \<Rightarrow> (res, rows'))"

definition read_metadata :: "jsondoc option \<Rightarrow> metadata option" where
  "read_metadata m =
     (case m of None \<Rightarrow> None
      | Some j \<Rightarrow> (case unmarshal_object j of Some kvs \<Rightarrow> Some kvs | None \<Rightarrow> Some [(''metadata_unreadable'', ''cannot unmarshal'')]))"

definition intent_of :: "OutboxRow \<Rightarrow> Intent" where
  "intent_of r =
     \<lparr>ev_EventID = ev_EventID r, ev_OccurredAt = ev_OccurredAt r, ev_Action = ev_Action r, ev_ActorUserID = ev_ActorUserID r,
      ev_ActorEmail = ev_ActorEmail r, ev_OrganizationID = ev_OrganizationID r, ev_ResourceType = ev_ResourceType r,
      ev_ResourceID = ev_ResourceID r, ev_IPAddress = ev_IPAddress r, in_Metadata = read_metadata (ob_metadata r)\<rparr>"

definition undelivered :: "OutboxRow \<Rightarrow> bool" where
  "undelivered r \<longleftrightarrow> ob_delivered_at r = None"

text \<open>The claim statement: the oldest undelivered rows that no other relay holds (\<open>SKIP LOCKED\<close>).\<close>

definition queue_order :: "OutboxRow list \<Rightarrow> OutboxRow list" where
  "queue_order rows = sort_key (\<lambda>r. (ev_OccurredAt r, ev_EventID r)) rows"

definition claimable :: "string set \<Rightarrow> OutboxRow list \<Rightarrow> OutboxRow list" where
  "claimable locked rows = queue_order (filter (\<lambda>r. undelivered r \<and> ev_EventID r \<notin> locked) rows)"

definition claim :: "io \<Rightarrow> string set \<Rightarrow> int \<Rightarrow> OutboxRow list \<Rightarrow> outbox_error + pendingIntent list" where
  "claim io locked limit rows =
     (if io 1 then Inl (OutboxFailed ''failed to claim audit intents'')
      else (case paginate limit 0 (claimable locked rows) of
              None \<Rightarrow> Inl (OutboxFailed ''failed to claim audit intents'')
            | Some rs \<Rightarrow>
                if io 2 then Inl (OutboxFailed ''failed to read claimed audit intents'')
                else Inr (map (\<lambda>r. \<lparr>pi_Intent = intent_of r, pi_Attempts = ob_attempts r\<rparr>) rs)))"

definition markDelivered :: "time \<Rightarrow> string \<Rightarrow> OutboxRow list \<Rightarrow> OutboxRow list" where
  "markDelivered dbnow eventID rows =
     map (\<lambda>r. if ev_EventID r = eventID
              then r\<lparr>ob_delivered_at := Some dbnow, ob_attempts := ob_attempts r + 1, ob_last_error := None\<rparr> else r) rows"

definition recordFailure :: "string \<Rightarrow> string \<Rightarrow> OutboxRow list \<Rightarrow> OutboxRow list" where
  "recordFailure eventID cause rows =
     map (\<lambda>r. if ev_EventID r = eventID
              then r\<lparr>ob_attempts := ob_attempts r + 1, ob_last_error := Some cause\<rparr> else r) rows"

record Backlog =
  bl_Pending :: nat
  bl_Failed :: nat
  bl_OldestPending :: time

definition Outbox_Backlog :: "io \<Rightarrow> Outbox option \<Rightarrow> OutboxRow list \<Rightarrow> outbox_error + Backlog" where
  "Outbox_Backlog io ob rows =
     (if no_outbox ob then Inl ErrNoOutbox
      else if io 0 then Inl (OutboxFailed ''failed to read the audit outbox backlog'')
      else
        let pend = filter undelivered rows
        in Inr \<lparr>bl_Pending = length pend, bl_Failed = length (filter (\<lambda>r. ob_attempts r > 0) pend),
               bl_OldestPending = (if pend = [] then 0 else Min (set (map ev_OccurredAt pend)))\<rparr>)"

definition defaultPruneLimit :: int where
  "defaultPruneLimit = 1000"

definition delivered_stamp :: "OutboxRow \<Rightarrow> time" where
  "delivered_stamp r = (case ob_delivered_at r of None \<Rightarrow> 0 | Some t \<Rightarrow> t)"

definition prunable :: "time \<Rightarrow> OutboxRow \<Rightarrow> bool" where
  "prunable before r = (case ob_delivered_at r of None \<Rightarrow> False | Some t \<Rightarrow> t < before)"

definition PruneDelivered :: "io \<Rightarrow> Outbox option \<Rightarrow> time \<Rightarrow> int \<Rightarrow> OutboxRow list \<Rightarrow> (outbox_error + nat) \<times> OutboxRow list" where
  "PruneDelivered io ob before limit0 rows =
     (if no_outbox ob then (Inl ErrNoOutbox, rows)
      else
        let limit = (if limit0 \<le> 0 then defaultPruneLimit else limit0)
        in if io 0 then (Inl (OutboxFailed ''failed to prune delivered audit intents''), rows)
           else (case sweep_table ev_EventID delivered_stamp (prunable before) limit rows of
                   None \<Rightarrow> (Inl (OutboxFailed ''failed to prune delivered audit intents''), rows)
                 | Some (rest, n) \<Rightarrow>
                     if io 1 then (Inl (OutboxFailed ''failed to count pruned audit intents''), rest)
                     else (Inr n, rest)))"

subsection \<open>Describing a table\<close>

text \<open>A relation of the application, as the catalog describes it; \<open>None\<close>: the name resolves to nothing.\<close>

record catalog_entry =
  ct_schema :: string
  ct_columns :: "string list"

record tableShape =
  sh_qualified :: string
  sh_columns :: "string set"

definition shape_exists :: "tableShape \<Rightarrow> bool" where
  "shape_exists s \<longleftrightarrow> sh_qualified s \<noteq> ''''"

definition shape_has :: "tableShape \<Rightarrow> string \<Rightarrow> bool" where
  "shape_has s column \<longleftrightarrow> column \<in> sh_columns s"

text \<open>\<open>describeTable\<close>: calls 0 to 3 acquire the connection, read the search path, query and read the rows. The left
  join yields a row even for a relation without columns.\<close>

definition describeTable :: "io \<Rightarrow> table \<Rightarrow> catalog_entry option \<Rightarrow> outbox_error + tableShape" where
  "describeTable io t c =
     (if io 0 \<or> io 1 \<or> io 2 \<or> io 3 then Inl (OutboxFailed ''failed to describe'')
      else (case c of
              None \<Rightarrow> Inr \<lparr>sh_qualified = '''', sh_columns = {}\<rparr>
            | Some e \<Rightarrow> Inr \<lparr>sh_qualified = ct_schema e @ ''.'' @ tb_name t, sh_columns = set (ct_columns e)\<rparr>))"

definition outboxRequiredColumns :: "string list" where
  "outboxRequiredColumns =
     [''event_id'', ''txid'', ''occurred_at'', ''action'', ''actor_user_id'', ''actor_email'',
      ''organization_id'', ''resource_type'', ''resource_id'', ''ip_address'', ''metadata'',
      ''delivered_at'', ''attempts'', ''last_error'']"

definition Outbox_Verify :: "io \<Rightarrow> Outbox option \<Rightarrow> catalog_entry option \<Rightarrow> string \<times> outbox_error option" where
  "Outbox_Verify io ob c =
     (if no_outbox ob then ('''', Some ErrNoOutbox)
      else (case describeTable io (ox_table (the ob)) c of
              Inl e \<Rightarrow> ('''', Some e)
            | Inr shape \<Rightarrow>
                if \<not> shape_exists shape then ('''', Some (ErrOutboxShape []))
                else
                  let missing = filter (\<lambda>col. \<not> shape_has shape col) outboxRequiredColumns
                  in if length missing > 0 then (sh_qualified shape, Some (ErrOutboxShape missing))
                     else (sh_qualified shape, None)))"

subsection \<open>The table sink\<close>

datatype destval = DText "string option" | DTime time | DJson "jsondoc option"

type_synonym dest_row = "string \<rightharpoonup> destval"

text \<open>The destination columns in order, whether each is required, and the value an intent gives it.\<close>

definition destinationColumns :: "(string \<times> bool) list" where
  "destinationColumns =
     [(''id'', True), (''user_id'', False), (''organization_id'', False), (''action'', True), (''resource_type'', False),
      (''resource_id'', False), (''metadata'', False), (''ip_address'', False), (''created_at'', False), (''actor_email'', False)]"

definition column_value :: "bool \<Rightarrow> string \<Rightarrow> Intent \<Rightarrow> outbox_error + destval" where
  "column_value marshalFails name i =
     (if name = ''id'' then Inr (DText (Some (ev_EventID i)))
      else if name = ''user_id'' then Inr (DText (ev_ActorUserID i))
      else if name = ''organization_id'' then Inr (DText (ev_OrganizationID i))
      else if name = ''action'' then Inr (DText (Some (ev_Action i)))
      else if name = ''resource_type'' then Inr (DText (ev_ResourceType i))
      else if name = ''resource_id'' then Inr (DText (ev_ResourceID i))
      else if name = ''metadata'' then map_sum id DJson (marshalMetadata marshalFails (in_Metadata i))
      else if name = ''ip_address'' then Inr (DText (ev_IPAddress i))
      else if name = ''created_at'' then Inr (DTime (ev_OccurredAt i))
      else Inr (DText (ev_ActorEmail i)))"

text \<open>The sink caches the plan it derived: the names of the columns it inserts.\<close>

record TableSink =
  sk_hasDB :: bool
  sk_table :: table
  sk_stmt :: "string list option"
  sk_resolved :: string

record destination =
  ds_catalog :: "catalog_entry option"
  ds_rows :: "dest_row list"

definition NewTableSink :: "bool \<Rightarrow> string \<Rightarrow> outbox_error + TableSink" where
  "NewTableSink hasDB destinationTable =
     (if \<not> hasDB then Inl ErrDestinationShape
      else (case parseTable destinationTable of
              Inl e \<Rightarrow> Inl (InvalidTable e)
            | Inr t \<Rightarrow> Inr \<lparr>sk_hasDB = True, sk_table = t, sk_stmt = None, sk_resolved = ''''\<rparr>))"

fun planLoop :: "tableShape \<Rightarrow> (string \<times> bool) list \<Rightarrow> string list \<Rightarrow> string list \<Rightarrow> string list \<times> string list" where
  "planLoop shape [] names missing = (names, missing)"
| "planLoop shape ((col, required) # cols) names missing =
     (if \<not> shape_has shape col then planLoop shape cols names (if required then missing @ [col] else missing)
      else planLoop shape cols (names @ [col]) missing)"

definition sink_plan :: "io \<Rightarrow> TableSink \<Rightarrow> catalog_entry option \<Rightarrow> (outbox_error + string list) \<times> TableSink" where
  "sink_plan io s c =
     (case sk_stmt s of Some names \<Rightarrow> (Inr names, s)
      | None \<Rightarrow>
          (case describeTable io (sk_table s) c of
             Inl e \<Rightarrow> (Inl e, s)
           | Inr shape \<Rightarrow>
               if \<not> shape_exists shape then (Inl ErrDestinationShape, s)
               else
                 let (names, missing) = planLoop shape destinationColumns [] []
                 in if length missing > 0 then (Inl ErrDestinationShape, s)
                    else (Inr names, s\<lparr>sk_stmt := Some names, sk_resolved := sh_qualified shape\<rparr>)))"

definition invalidate :: "TableSink \<Rightarrow> TableSink" where
  "invalidate s = s\<lparr>sk_stmt := None\<rparr>"

definition Sink_Verify :: "io \<Rightarrow> TableSink option \<Rightarrow> catalog_entry option \<Rightarrow> (string \<times> outbox_error option) \<times> TableSink option" where
  "Sink_Verify io s c =
     (case s of None \<Rightarrow> (('''', Some ErrDestinationShape), None)
      | Some sk \<Rightarrow>
          if \<not> sk_hasDB sk then (('''', Some ErrDestinationShape), Some sk)
          else (case sink_plan io sk c of
                  (Inl e, sk') \<Rightarrow> (('''', Some e), Some sk')
                | (Inr _, sk') \<Rightarrow> ((sk_resolved sk', None), Some sk')))"

fun extract_args :: "bool \<Rightarrow> string list \<Rightarrow> Intent \<Rightarrow> dest_row \<Rightarrow> outbox_error + dest_row" where
  "extract_args marshalFails [] i row = Inr row"
| "extract_args marshalFails (n # ns) i row =
     (case column_value marshalFails n i of
        Inl e \<Rightarrow> Inl e
      | Inr v \<Rightarrow> extract_args marshalFails ns i (row(n \<mapsto> v)))"

definition row_id :: "dest_row \<Rightarrow> string option" where
  "row_id r = (case r ''id'' of Some (DText x) \<Rightarrow> x | _ \<Rightarrow> None)"

text \<open>Executing the insert. A relation that is gone or a column that is gone is refused (the latter with
  undefined-column); otherwise the row is added unless its \<open>id\<close> is already there. \<open>io 5\<close>: it fails for
  another reason (a constraint of the destination included).\<close>

datatype exec_outcome = Executed destination | UndefinedColumn | ExecFailed

definition exec_insert :: "bool \<Rightarrow> string list \<Rightarrow> dest_row \<Rightarrow> destination \<Rightarrow> exec_outcome" where
  "exec_insert fails names row ds =
     (case ds_catalog ds of None \<Rightarrow> ExecFailed
      | Some c \<Rightarrow>
          if fails then ExecFailed
          else if list_ex (\<lambda>n. n \<notin> set (ct_columns c)) names then UndefinedColumn
          else if list_ex (\<lambda>r. row_id r = row_id row) (ds_rows ds) then Executed ds
          else Executed (ds\<lparr>ds_rows := ds_rows ds @ [row]\<rparr>))"

definition Deliver :: "io \<Rightarrow> Intent \<Rightarrow> TableSink option \<times> destination \<Rightarrow> outbox_error option \<times> (TableSink option \<times> destination)" where
  "Deliver io intent w =
     (case fst w of None \<Rightarrow> (Some ErrDestinationShape, w)
      | Some sk \<Rightarrow>
          if \<not> sk_hasDB sk then (Some ErrDestinationShape, w)
          else if ev_EventID intent = '''' then (Some (ErrIntentIncomplete ''event id is empty''), w)
          else (case sink_plan io sk (ds_catalog (snd w)) of
                  (Inl e, sk') \<Rightarrow> (Some e, Some sk', snd w)
                | (Inr names, sk') \<Rightarrow>
                    (case extract_args (io 4) names intent Map.empty of
                       Inl e \<Rightarrow> (Some e, Some sk', snd w)
                     | Inr row \<Rightarrow>
                         (case exec_insert (io 5) names row (snd w) of
                            Executed ds' \<Rightarrow> (None, Some sk', ds')
                          | UndefinedColumn \<Rightarrow> (Some (OutboxFailed ''failed to deliver audit intent''), Some (invalidate sk'), snd w)
                          | ExecFailed \<Rightarrow> (Some (OutboxFailed ''failed to deliver audit intent''), Some sk', snd w)))))"

subsection \<open>Pruning keeps the backlog\<close>

interpretation outbox_sweep: batch_sweep ev_EventID delivered_stamp "sweep_table ev_EventID delivered_stamp"
  by (rule sweep_table_batch_sweep)

lemma PruneDelivered_rows:
  assumes "distinct (map ev_EventID rows)"
  shows "snd (PruneDelivered io ob before limit rows) = rows \<or>
    (\<exists>rest n. snd (PruneDelivered io ob before limit rows) = rest \<and> rest = filter (\<lambda>r. r \<in> set rest) rows
       \<and> (\<forall>r \<in> set rows. \<not> prunable before r \<longrightarrow> r \<in> set rest))"
proof -
  have "rest = filter (\<lambda>r. r \<in> set rest) rows \<and> (\<forall>r \<in> set rows. \<not> prunable before r \<longrightarrow> r \<in> set rest)"
    if "sweep_table ev_EventID delivered_stamp (prunable before) lim rows = Some (rest, n)" for lim rest n
    using outbox_sweep.sweep_spec(1,2) [OF that assms] by blast
  then show ?thesis
    by (auto simp: PruneDelivered_def Let_def split: option.splits)
qed

lemma prune_undelivered:
  assumes "distinct (map ev_EventID rows)"
  shows "filter undelivered (snd (PruneDelivered io ob before limit rows)) = filter undelivered rows"
    and "set (snd (PruneDelivered io ob before limit rows)) \<subseteq> set rows"
    and "distinct (map ev_EventID (snd (PruneDelivered io ob before limit rows)))"
proof -
  let ?rows' = "snd (PruneDelivered io ob before limit rows)"
  have f: "?rows' = filter (\<lambda>r. r \<in> set ?rows') rows" "\<forall>r \<in> set rows. \<not> prunable before r \<longrightarrow> r \<in> set ?rows'"
    using PruneDelivered_rows [OF assms, of io ob before limit] by (auto simp: filter_id_conv)
  have "filter undelivered (filter (\<lambda>r. r \<in> set ?rows') rows) = filter undelivered rows"
    using f(2) by (auto simp: undelivered_def prunable_def intro!: filter_cong split: option.splits)
  then show "filter undelivered ?rows' = filter undelivered rows" using f(1) by metis
  show "set ?rows' \<subseteq> set rows" using f(1) by (metis filter_is_subset)
  show "distinct (map ev_EventID ?rows')" using f(1) filter_distinct_map [OF assms] by metis
qed

subsection \<open>The plan and the row it inserts\<close>

lemma planLoop_eq:
  "planLoop shape cols names missing =
     (names @ map fst (filter (\<lambda>c. shape_has shape (fst c)) cols),
      missing @ map fst (filter (\<lambda>c. \<not> shape_has shape (fst c) \<and> snd c) cols))"
  by (induction shape cols names missing rule: planLoop.induct) auto

lemma extract_Inr:
  "extract_args f names i row = Inr row' \<Longrightarrow>
     (\<forall>n \<in> set names. \<exists>v. column_value f n i = Inr v \<and> row' n = Some v) \<and> (\<forall>n. n \<notin> set names \<longrightarrow> row' n = row n)"
proof (induction names arbitrary: row)
  case (Cons n ns)
  then obtain v where v: "column_value f n i = Inr v" "extract_args f ns i (row(n \<mapsto> v)) = Inr row'"
    by (auto split: sum.splits)
  note ih = Cons.IH [OF v(2)]
  then have "row' n = Some v" using v(1) by (cases "n \<in> set ns") auto
  with ih v(1) show ?case by auto
qed simp

lemma column_id: "column_value f ''id'' i = Inr (DText (Some (ev_EventID i)))"
  by (simp add: column_value_def)

lemma extract_total: "\<not> f \<Longrightarrow> \<exists>row'. extract_args f names i row = Inr row'"
proof (induction names arbitrary: row)
  case (Cons n ns)
  have "\<exists>v. column_value f n i = Inr v"
    using Cons.prems by (auto simp: column_value_def marshalMetadata_def split: option.splits)
  with Cons show ?case by auto
qed simp

text \<open>The sink's state: a cached plan names the required columns, and the destination's ids are unique.\<close>

definition sink_ok :: "TableSink option \<times> destination \<Rightarrow> bool" where
  "sink_ok w \<longleftrightarrow> (\<forall>sk names. fst w = Some sk \<longrightarrow> sk_stmt sk = Some names \<longrightarrow> ''id'' \<in> set names \<and> ''action'' \<in> set names)
     \<and> distinct (map row_id (ds_rows (snd w)))"

definition dest_stored :: "TableSink option \<times> destination \<Rightarrow> string \<Rightarrow> bool" where
  "dest_stored w x \<longleftrightarrow> (\<exists>row \<in> set (ds_rows (snd w)). row_id row = Some x)"

lemma sink_plan_cases:
  assumes "sink_plan io sk c = (res, sk')"
    and "\<And>names. sk_stmt sk = Some names \<Longrightarrow> ''id'' \<in> set names \<and> ''action'' \<in> set names"
  shows "sk_hasDB sk' = sk_hasDB sk" "\<And>names. res = Inr names \<Longrightarrow> sk_stmt sk' = Some names"
    "\<And>names. sk_stmt sk' = Some names \<Longrightarrow> ''id'' \<in> set names \<and> ''action'' \<in> set names"
proof -
  have req: "''id'' \<in> set (map fst (filter (\<lambda>c. shape_has shape (fst c)) destinationColumns))
      \<and> ''action'' \<in> set (map fst (filter (\<lambda>c. shape_has shape (fst c)) destinationColumns))"
    if "map fst (filter (\<lambda>c. \<not> shape_has shape (fst c) \<and> snd c) destinationColumns) = []" for shape
    using that by (auto simp: destinationColumns_def split: if_splits)
  show "sk_hasDB sk' = sk_hasDB sk" "\<And>names. res = Inr names \<Longrightarrow> sk_stmt sk' = Some names"
    using assms(1) by (auto simp: sink_plan_def Let_def split: option.splits sum.splits if_splits prod.splits)
  show "\<And>names. sk_stmt sk' = Some names \<Longrightarrow> ''id'' \<in> set names \<and> ''action'' \<in> set names"
    using assms req
    by (auto simp: sink_plan_def planLoop_eq Let_def split: option.splits sum.splits if_splits)
qed

text \<open>The statement run on the extracted values: it adds the row, or the identifier was there already and nothing changes.\<close>

lemma insert_effect:
  assumes "sink_ok (sk, ds)" "extract_args f names i Map.empty = Inr row" "exec_insert g names row ds = Executed ds'" "''id'' \<in> set names"
  shows "sink_ok (sk, ds')" "dest_stored (sk, ds') (ev_EventID i)" "row_id row = Some (ev_EventID i)"
    "ds_rows ds' = ds_rows ds \<or> \<not> dest_stored (sk, ds) (ev_EventID i) \<and> ds_rows ds' = ds_rows ds @ [row]"
    "row n = (if n \<in> set names then (case column_value f n i of Inr v \<Rightarrow> Some v | Inl _ \<Rightarrow> None) else None)"
proof -
  note xt = extract_Inr [OF assms(2)]
  show "row n = (if n \<in> set names then (case column_value f n i of Inr v \<Rightarrow> Some v | Inl _ \<Rightarrow> None) else None)" using xt by auto
  have "row ''id'' = Some (DText (Some (ev_EventID i)))" using xt assms(4) column_id by fastforce
  then show rid: "row_id row = Some (ev_EventID i)" by (simp add: row_id_def)
  let ?old = "dest_stored (sk, ds) (ev_EventID i)"
  have present: "ds' = ds" if ?old
    using that assms(3) rid by (auto simp: exec_insert_def dest_stored_def list_ex_iff split: option.splits if_splits)
  have added: "ds_rows ds' = ds_rows ds @ [row]" "row_id row \<notin> row_id ` set (ds_rows ds)" if "\<not> ?old"
    using that assms(3) rid by (auto simp: exec_insert_def dest_stored_def list_ex_iff split: option.splits if_splits)
  show "sink_ok (sk, ds')" using assms(1) present added by (cases ?old) (auto simp: sink_ok_def)
  show "dest_stored (sk, ds') (ev_EventID i)" using present added rid by (cases ?old) (auto simp: dest_stored_def)
  show "ds_rows ds' = ds_rows ds \<or> \<not> ?old \<and> ds_rows ds' = ds_rows ds @ [row]" using present added by blast
qed

text \<open>A delivery either fails and leaves the rows as they are, or runs the statement of a plan with the required columns.\<close>

lemma Deliver_outcome:
  assumes "sink_ok w" "Deliver io i w = (err, w')"
  obtains (failed) "err \<noteq> None" "sink_ok w'" "snd w' = snd w"
    | (ran) sk names row ds' where "err = None" "w' = (Some sk, ds')" "sink_ok (Some sk, snd w)" "''id'' \<in> set names" "''action'' \<in> set names"
        "extract_args (io 4) names i Map.empty = Inr row" "exec_insert (io 5) names row (snd w) = Executed ds'"
proof (cases "\<exists>sk. fst w = Some sk \<and> sk_hasDB sk \<and> ev_EventID i \<noteq> ''''")
  case False
  with assms show ?thesis by (intro failed) (auto simp: Deliver_def split: option.splits if_splits)
next
  case True
  then obtain sk where sk: "fst w = Some sk" "sk_hasDB sk" "ev_EventID i \<noteq> ''''" by blast
  obtain res sk' where pl: "sink_plan io sk (ds_catalog (snd w)) = (res, sk')" by fastforce
  have cached: "''id'' \<in> set names \<and> ''action'' \<in> set names" if "sk_stmt sk = Some names" for names
    using that assms(1) sk(1) by (auto simp: sink_ok_def)
  note plan = sink_plan_cases [OF pl cached]
  have ok1: "sink_ok (Some sk', snd w)" "sink_ok (Some (invalidate sk'), snd w)"
    using assms(1) plan(3) by (auto simp: sink_ok_def invalidate_def)
  show ?thesis
  proof (cases "\<exists>names row ds'. res = Inr names \<and> extract_args (io 4) names i Map.empty = Inr row \<and> exec_insert (io 5) names row (snd w) = Executed ds'")
    case False
    with assms(2) sk pl ok1 show ?thesis
      by (intro failed) (auto simp: Deliver_def split: sum.splits exec_outcome.splits)
  next
    case True
    then obtain names row ds' where ex: "res = Inr names" "extract_args (io 4) names i Map.empty = Inr row"
      "exec_insert (io 5) names row (snd w) = Executed ds'" by blast
    have "err = None" "w' = (Some sk', ds')" using ex assms(2) sk pl by (auto simp: Deliver_def)
    moreover have "''id'' \<in> set names" "''action'' \<in> set names" using plan(2,3) ex(1) by blast+
    ultimately show ?thesis using ran ok1(1) ex(2,3) by blast
  qed
qed

text \<open>A delivery leaves the destination alone or adds one row with a fresh \<open>id\<close>; it succeeds only if the event is there.\<close>

lemma Deliver_cases:
  assumes "sink_ok w" "Deliver io i w = (err, w')"
  shows "sink_ok w'" "err = None \<Longrightarrow> dest_stored w' (ev_EventID i)"
    and "ds_rows (snd w') = ds_rows (snd w) \<or>
      (err = None \<and> \<not> dest_stored w (ev_EventID i) \<and> (\<exists>row names. ds_rows (snd w') = ds_rows (snd w) @ [row] \<and> row_id row = Some (ev_EventID i)
         \<and> ''action'' \<in> set names
         \<and> (\<forall>n. row n = (if n \<in> set names then (case column_value (io 4) n i of Inr v \<Rightarrow> Some v | Inl _ \<Rightarrow> None) else None))))"
proof -
  let ?added = "\<lambda>row names. ds_rows (snd w') = ds_rows (snd w) @ [row] \<and> row_id row = Some (ev_EventID i) \<and> ''action'' \<in> set names
         \<and> (\<forall>n. row n = (if n \<in> set names then (case column_value (io 4) n i of Inr v \<Rightarrow> Some v | Inl _ \<Rightarrow> None) else None))"
  have "sink_ok w' \<and> (err = None \<longrightarrow> dest_stored w' (ev_EventID i)) \<and> (ds_rows (snd w') = ds_rows (snd w) \<or>
      (err = None \<and> \<not> dest_stored w (ev_EventID i) \<and> (\<exists>row names. ?added row names)))"
  proof (cases rule: Deliver_outcome [OF assms])
    case (2 sk names row ds')
    note eff = insert_effect [OF 2(3,6,7,4)]
    have "ds_rows ds' = ds_rows (snd w) @ [row] \<Longrightarrow> ?added row names" using eff(3,5) 2(2,5) by simp
    then show ?thesis using eff(1,2,4) 2(1,2) unfolding dest_stored_def by (cases w) auto
  qed auto
  then show "sink_ok w'" "err = None \<Longrightarrow> dest_stored w' (ev_EventID i)"
    and "ds_rows (snd w') = ds_rows (snd w) \<or> (err = None \<and> \<not> dest_stored w (ev_EventID i) \<and> (\<exists>row names. ?added row names))"
    by simp_all
qed

text \<open>A sink in a good state: the destination has the required columns and a cached plan is still valid.\<close>

definition sink_healthy :: "TableSink option \<times> destination \<Rightarrow> bool" where
  "sink_healthy w \<longleftrightarrow>
     (\<exists>sk c. fst w = Some sk \<and> sk_hasDB sk \<and> ds_catalog (snd w) = Some c \<and> {''id'', ''action''} \<subseteq> set (ct_columns c)
        \<and> (\<forall>names. sk_stmt sk = Some names \<longrightarrow> set names \<subseteq> set (ct_columns c)))"

lemma healthy_plan:
  assumes "ds_catalog (snd w) = Some c" "{''id'', ''action''} \<subseteq> set (ct_columns c)"
    and "\<And>names. sk_stmt sk = Some names \<Longrightarrow> set names \<subseteq> set (ct_columns c)"
  shows "\<exists>names sk'. sink_plan no_faults sk (ds_catalog (snd w)) = (Inr names, sk') \<and> sk_hasDB sk' = sk_hasDB sk
    \<and> sk_stmt sk' = Some names \<and> set names \<subseteq> set (ct_columns c)"
  using assms
  by (cases "sk_stmt sk")
    (auto simp: sink_plan_def describeTable_def shape_exists_def shape_has_def planLoop_eq destinationColumns_def)

lemma healthy_Deliver:
  assumes "sink_healthy w" "ev_EventID i \<noteq> ''''"
  shows "fst (Deliver no_faults i w) = None \<and> sink_healthy (snd (Deliver no_faults i w))"
proof -
  obtain sk c where sk: "fst w = Some sk" "sk_hasDB sk" "ds_catalog (snd w) = Some c" "{''id'', ''action''} \<subseteq> set (ct_columns c)"
    "\<And>names. sk_stmt sk = Some names \<Longrightarrow> set names \<subseteq> set (ct_columns c)"
    using assms(1) by (auto simp: sink_healthy_def)
  from healthy_plan [of w, OF sk(3,4), of sk] sk(5)
  obtain names sk' where pl: "sink_plan no_faults sk (ds_catalog (snd w)) = (Inr names, sk')" "sk_hasDB sk' = sk_hasDB sk"
    "sk_stmt sk' = Some names" "set names \<subseteq> set (ct_columns c)" by blast
  obtain row where row: "extract_args False names i Map.empty = Inr row" using extract_total [of False] by blast
  have "\<exists>ds'. exec_insert False names row (snd w) = Executed ds' \<and> ds_catalog ds' = Some c"
    using pl(4) sk(3) by (auto simp: exec_insert_def list_ex_iff)
  then obtain ds' where "exec_insert False names row (snd w) = Executed ds'" "ds_catalog ds' = Some c" by blast
  with sk pl row assms(2) show ?thesis by (auto simp: Deliver_def sink_healthy_def)
qed

end
