(* ===== verification/Outbox_DDL.thy ===== *)
theory Outbox_DDL
  imports Audit_Outbox
begin

text \<open>
  Package \<open>identity/auditoutbox\<close>, file \<open>ddl.go\<close>: the definitions the application's migrations apply, rendered as text, and what
  the database does with them. The constraint trigger is kept as a small program (\<open>trigger_branches\<close>) that
  \<open>render_branch\<close> prints; \<open>run_stmt\<close> and \<open>assert_intent\<close> say how the server runs it at commit. The quoting of
  identifiers is the driver's, the parameter \<open>sanitize\<close>.
\<close>

definition nl :: string where "nl = [CHR 0x0A]"

definition assertIntentSuffix :: string where "assertIntentSuffix = ''_assert_intent''"
definition requireIntentSuffix :: string where "requireIntentSuffix = ''_require_audit_intent''"

datatype ddl_error = BadTable table_error | NoSubjectColumn | NoResourceType | NoGuardedOperation

subsection \<open>The outbox table\<close>

text \<open>The body of the assertion function, between the dollar quotes.\<close>

definition assert_body :: "(string list \<Rightarrow> string) \<Rightarrow> table \<Rightarrow> string" where
  "assert_body sanitize t = (let name = table_sql sanitize t in
     Join nl ['''',
      ''BEGIN'',
      ''    IF subject IS NULL THEN'',
      ''        RAISE EXCEPTION 'audit outbox: refusing a % mutation with no subject to audit', resource'',
      ''            USING ERRCODE = '23514';'',
      ''    END IF;'',
      ''    IF NOT EXISTS ('',
      ''        SELECT 1 FROM '']
     @ name
     @ Join nl ['' o'',
      ''         WHERE o.txid = pg_current_xact_id()'',
      ''           AND o.resource_type = resource'',
      ''           AND lower(o.resource_id) = lower(subject)'',
      ''           AND o.action = expected_action'',
      ''    ) THEN'',
      ''        RAISE EXCEPTION 'audit outbox: % on % has no audit intent in this transaction (expected a '']
     @ table_String t
     @ Join nl ['' row with action=%, resource_type=%, resource_id=%)','',
      ''            expected_action, subject, expected_action, resource, subject'',
      ''            USING ERRCODE = '23514','',
      ''                  HINT = 'Write the audit intent in the same transaction as the mutation: identity/auditoutbox, Outbox.Enqueue.';'',
      ''    END IF;'',
      ''END;'',
      ''''])"

definition outbox_head :: "(string list \<Rightarrow> string) \<Rightarrow> table \<Rightarrow> table \<Rightarrow> table \<Rightarrow> table \<Rightarrow> table \<Rightarrow> string" where
  "outbox_head sanitize t asrt pendingIdx deliveredIdx txidIdx = (let name = table_sql sanitize t in
     ''-- Rendered by identity/auditoutbox.OutboxDDL(''
     @ Literal (table_String t)
     @ Join nl ['').'',
      ''-- The transactional audit outbox: an audit INTENT written in the same'',
      ''-- transaction as the privileged mutation it describes, delivered afterwards.'',
      ''CREATE TABLE IF NOT EXISTS '']
     @ name
     @ Join nl ['' ('',
      ''    -- Chosen by the writer BEFORE the mutation commits, and reused verbatim as'',
      ''    -- the destination row's id. That is what makes redelivery idempotent: the'',
      ''    -- second attempt conflicts on the destination's primary key.'',
      ''    event_id        UUID         PRIMARY KEY,'',
      ''    -- The transaction that wrote this intent. Read only by the trigger.'',
      ''    txid            xid8         NOT NULL DEFAULT pg_current_xact_id(),'',
      ''    -- When the audited event happened, not when it was delivered. Delivery may'',
      ''    -- be minutes later; the audit trail must say the former.'',
      ''    occurred_at     TIMESTAMPTZ  NOT NULL DEFAULT now(),'',
      ''    action          VARCHAR(500) NOT NULL,'',
      ''    actor_user_id   UUID,'',
      ''    -- The actor's address as it stood at the time, denormalised so the entry'',
      ''    -- stays attributable after the user row is gone. This package never'',
      ''    -- resolves it from a users table: identity may be another database.'',
      ''    actor_email     VARCHAR(255),'',
      ''    organization_id UUID,'',
      ''    resource_type   VARCHAR(100),'',
      ''    resource_id     VARCHAR(255),'',
      ''    ip_address      VARCHAR(45),'',
      ''    metadata        JSONB,'',
      ''    -- Delivery bookkeeping. delivered_at IS NULL is the backlog.'',
      ''    delivered_at    TIMESTAMPTZ,'',
      ''    attempts        INTEGER      NOT NULL DEFAULT 0,'',
      ''    last_error      TEXT,'',
      ''    created_at      TIMESTAMPTZ  NOT NULL DEFAULT now()'',
      '');'',
      '''',
      ''-- The relay's claim scan. Partial, on the undelivered rows only, so it stays'',
      ''-- small no matter how much delivered history has yet to be pruned.'',
      ''CREATE INDEX IF NOT EXISTS '']
     @ Identifier sanitize (tb_name pendingIdx)
     @ Join nl ['''',
      ''    ON '']
     @ name
     @ Join nl ['' (occurred_at, event_id) WHERE delivered_at IS NULL;'',
      '''',
      ''-- The pruner's scan over delivered history.'',
      ''CREATE INDEX IF NOT EXISTS '']
     @ Identifier sanitize (tb_name deliveredIdx)
     @ Join nl ['''',
      ''    ON '']
     @ name
     @ Join nl ['' (delivered_at) WHERE delivered_at IS NOT NULL;'',
      '''',
      ''-- The trigger's same-transaction lookup. Every commit that touches a guarded'',
      ''-- table runs it, so it is not optional.'',
      ''CREATE INDEX IF NOT EXISTS '']
     @ Identifier sanitize (tb_name txidIdx)
     @ Join nl ['''',
      ''    ON '']
     @ name
     @ Join nl ['' (txid, resource_type, resource_id);'',
      '''',
      ''-- Raises unless the CURRENT transaction has already written an intent naming'',
      ''-- this subject with this action.'',
      ''--'',
      ''-- resource_id is compared case-insensitively: uuid::text is canonical lower'',
      ''-- case, but an operator writing an intent by hand may not be.'',
      ''CREATE OR REPLACE FUNCTION '']
     @ table_sql sanitize asrt
     @ Join nl [''('',
      ''    subject TEXT, resource TEXT, expected_action TEXT'',
      '') RETURNS void AS ''])"

definition outbox_text :: "(string list \<Rightarrow> string) \<Rightarrow> table \<Rightarrow> table \<Rightarrow> table \<Rightarrow> table \<Rightarrow> table \<Rightarrow> string" where
  "outbox_text sanitize t asrt pendingIdx deliveredIdx txidIdx =
     outbox_head sanitize t asrt pendingIdx deliveredIdx txidIdx @ ''$$'' @ assert_body sanitize t @ ''$$'' @ '' LANGUAGE plpgsql;'' @ nl"

definition OutboxDDL :: "(string list \<Rightarrow> string) \<Rightarrow> string \<Rightarrow> ddl_error + string" where
  "OutboxDDL sanitize outboxTable =
    (case parseTable outboxTable of
       Inl e \<Rightarrow> Inl (BadTable e)
     | Inr t \<Rightarrow>
         (case derive assertIntentSuffix t of
            Inl e \<Rightarrow> Inl (BadTable e)
          | Inr asrt \<Rightarrow>
              (case derive ''_pending_idx'' t of
                 Inl e \<Rightarrow> Inl (BadTable e)
               | Inr pendingIdx \<Rightarrow>
                   (case derive ''_delivered_idx'' t of
                      Inl e \<Rightarrow> Inl (BadTable e)
                    | Inr deliveredIdx \<Rightarrow>
                        (case derive ''_txid_idx'' t of
                           Inl e \<Rightarrow> Inl (BadTable e)
                         | Inr txidIdx \<Rightarrow> Inr (outbox_text sanitize t asrt pendingIdx deliveredIdx txidIdx))))))"

definition OutboxDropDDL :: "(string list \<Rightarrow> string) \<Rightarrow> string \<Rightarrow> ddl_error + string" where
  "OutboxDropDDL sanitize outboxTable =
    (case parseTable outboxTable of
       Inl e \<Rightarrow> Inl (BadTable e)
     | Inr t \<Rightarrow>
         (case derive assertIntentSuffix t of
            Inl e \<Rightarrow> Inl (BadTable e)
          | Inr asrt \<Rightarrow> Inr (''DROP FUNCTION IF EXISTS ''
     @ table_sql sanitize asrt
     @ Join nl [''(TEXT, TEXT, TEXT);'',
      ''DROP TABLE IF EXISTS '']
     @ table_sql sanitize t
     @ Join nl ['';'',
      ''''])))"

subsection \<open>The constraint trigger\<close>

record TriggerSpec =
  ts_Outbox :: string
  ts_Table :: string
  ts_SubjectColumn :: string
  ts_ResourceType :: string
  ts_OnInsert :: string
  ts_OnUpdate :: string
  ts_OnDelete :: string

definition TriggerSpec_names :: "TriggerSpec \<Rightarrow> ddl_error + table \<times> table \<times> table" where
  "TriggerSpec_names s =
    (case parseTable (ts_Outbox s) of
       Inl e \<Rightarrow> Inl (BadTable e)
     | Inr outbox \<Rightarrow>
         (case parseTable (ts_Table s) of
            Inl e \<Rightarrow> Inl (BadTable e)
          | Inr guarded \<Rightarrow>
              if ts_SubjectColumn s = [] then Inl NoSubjectColumn
              else (case validateIdentifier (ts_SubjectColumn s) of
                 Inl e \<Rightarrow> Inl (BadTable e)
               | Inr _ \<Rightarrow>
                   if TrimSpace (ts_ResourceType s) = [] then Inl NoResourceType
                   else if ts_OnInsert s = [] \<and> ts_OnUpdate s = [] \<and> ts_OnDelete s = [] then Inl NoGuardedOperation
                   else (case derive requireIntentSuffix guarded of
                      Inl e \<Rightarrow> Inl (BadTable e)
                    | Inr fn \<Rightarrow> Inr (outbox, guarded, fn)))))"

text \<open>The trigger function as a program: for each guarded operation, the assertions it performs on the old and the new row.\<close>

datatype row_var = NEW | OLD

datatype plstmt = Perform row_var string | IfDistinct plstmt

definition trigger_branches :: "TriggerSpec \<Rightarrow> (string \<times> plstmt list) list" where
  "trigger_branches s =
    (if ts_OnInsert s \<noteq> [] then [(''INSERT'', [Perform NEW (ts_OnInsert s)])] else [])
    @ (if ts_OnUpdate s \<noteq> [] then [(''UPDATE'', [Perform OLD (ts_OnUpdate s), IfDistinct (Perform NEW (ts_OnUpdate s))])] else [])
    @ (if ts_OnDelete s \<noteq> [] then [(''DELETE'', [Perform OLD (ts_OnDelete s)])] else [])"

definition trigger_events :: "TriggerSpec \<Rightarrow> string list" where
  "trigger_events s = map fst (trigger_branches s)"

fun row_var_text :: "row_var \<Rightarrow> string" where
  "row_var_text NEW = ''NEW''"
| "row_var_text OLD = ''OLD''"

fun render_stmt :: "string \<Rightarrow> string \<Rightarrow> string \<Rightarrow> string \<Rightarrow> plstmt \<Rightarrow> string" where
  "render_stmt ind asrt subject resource (Perform v act) =
     ind @ ''PERFORM '' @ asrt @ ''('' @ row_var_text v @ ''.'' @ subject @ ''::text, '' @ resource @ '', '' @ Literal act @ '');'' @ nl"
| "render_stmt ind asrt subject resource (IfDistinct st) =
     ind @ ''IF NEW.'' @ subject @ '' IS DISTINCT FROM OLD.'' @ subject @ '' THEN'' @ nl
     @ render_stmt (ind @ ''    '') asrt subject resource st
     @ ind @ ''END IF;'' @ nl"

definition render_branch :: "string \<Rightarrow> string \<Rightarrow> string \<Rightarrow> string \<times> plstmt list \<Rightarrow> string" where
  "render_branch asrt subject resource br =
     ''    IF TG_OP = '' @ [CHR 0x27] @ fst br @ [CHR 0x27] @ '' THEN'' @ nl
     @ concat (map (render_stmt ''        '' asrt subject resource) (snd br))
     @ ''    END IF;'' @ nl"

definition trigger_body :: "(string list \<Rightarrow> string) \<Rightarrow> table \<Rightarrow> TriggerSpec \<Rightarrow> string" where
  "trigger_body sanitize asrt s =
     nl @ ''BEGIN'' @ nl
     @ Join [] (map (render_branch (table_sql sanitize asrt) (Identifier sanitize (ts_SubjectColumn s)) (Literal (ts_ResourceType s)))
         (trigger_branches s))
     @ ''    RETURN NULL;'' @ nl @ ''END;'' @ nl"

definition trigger_head :: "(string list \<Rightarrow> string) \<Rightarrow> table \<Rightarrow> table \<Rightarrow> string" where
  "trigger_head sanitize guarded fn =
     ''-- Rendered by identity/auditoutbox.TriggerSpec.DDL for ''
     @ table_String guarded
     @ Join nl [''.'',
      ''CREATE OR REPLACE FUNCTION '']
     @ table_sql sanitize fn
     @ ''() RETURNS TRIGGER AS ''"

definition trigger_tail :: "(string list \<Rightarrow> string) \<Rightarrow> table \<Rightarrow> table \<Rightarrow> string list \<Rightarrow> string" where
  "trigger_tail sanitize guarded fn events =
     Join nl ['' LANGUAGE plpgsql;'',
      '''',
      ''-- DEFERRABLE INITIALLY DEFERRED: the check runs at COMMIT, so the mutation and'',
      ''-- its intent may be written in either order within the transaction, and the'',
      ''-- failure aborts the commit rather than one statement.'',
      ''DROP TRIGGER IF EXISTS '']
     @ Identifier sanitize (tb_name fn)
     @ '' ON ''
     @ table_sql sanitize guarded
     @ Join nl ['';'',
      ''CREATE CONSTRAINT TRIGGER '']
     @ Identifier sanitize (tb_name fn)
     @ Join nl ['''',
      ''    AFTER '']
     @ Join '' OR '' events
     @ '' ON ''
     @ table_sql sanitize guarded
     @ Join nl ['''',
      ''    DEFERRABLE INITIALLY DEFERRED'',
      ''    FOR EACH ROW EXECUTE FUNCTION '']
     @ table_sql sanitize fn
     @ Join nl [''();'',
      '''']"

definition trigger_text :: "(string list \<Rightarrow> string) \<Rightarrow> table \<Rightarrow> table \<Rightarrow> table \<Rightarrow> TriggerSpec \<Rightarrow> string" where
  "trigger_text sanitize asrt guarded fn s =
     trigger_head sanitize guarded fn @ ''$$'' @ trigger_body sanitize asrt s @ ''$$''
     @ trigger_tail sanitize guarded fn (trigger_events s)"

definition TriggerSpec_DDL :: "(string list \<Rightarrow> string) \<Rightarrow> TriggerSpec \<Rightarrow> ddl_error + string" where
  "TriggerSpec_DDL sanitize s =
    (case TriggerSpec_names s of
       Inl e \<Rightarrow> Inl e
     | Inr (outbox, guarded, fn) \<Rightarrow>
         (case derive assertIntentSuffix outbox of
            Inl e \<Rightarrow> Inl (BadTable e)
          | Inr asrt \<Rightarrow> Inr (trigger_text sanitize asrt guarded fn s)))"

definition TriggerSpec_DropDDL :: "(string list \<Rightarrow> string) \<Rightarrow> TriggerSpec \<Rightarrow> ddl_error + string" where
  "TriggerSpec_DropDDL sanitize s =
    (case TriggerSpec_names s of
       Inl e \<Rightarrow> Inl e
     | Inr (outbox, guarded, fn) \<Rightarrow> Inr (''DROP TRIGGER IF EXISTS ''
     @ Identifier sanitize (tb_name fn)
     @ '' ON ''
     @ table_sql sanitize guarded
     @ Join nl ['';'',
      ''DROP FUNCTION IF EXISTS '']
     @ table_sql sanitize fn
     @ Join nl [''();'',
      '''']))"

subsection \<open>What the server runs at commit\<close>

text \<open>
  \<open>assert_intent\<close> is the assertion function: it passes (\<open>True\<close>) or raises. A change of the guarded table is given by the
  subject column of the old and the new row, \<open>None\<close> for NULL. The trigger is deferred: it runs once per changed
  row, on the outbox rows visible to the committing transaction.
\<close>

definition assert_intent :: "nat \<Rightarrow> OutboxRow list \<Rightarrow> string option \<Rightarrow> string \<Rightarrow> string \<Rightarrow> bool" where
  "assert_intent tx rows subject resource expected =
    (case subject of
       None \<Rightarrow> False
     | Some sub \<Rightarrow>
         list_ex (\<lambda>r. ob_txid r = tx \<and> ev_ResourceType r = Some resource
           \<and> map_option ToLower (ev_ResourceID r) = Some (ToLower sub) \<and> ev_Action r = expected) rows)"

datatype row_change =
    Inserted "string option"
  | Updated "string option" "string option"
  | Deleted "string option"

fun TG_OP :: "row_change \<Rightarrow> string" where
  "TG_OP (Inserted _) = ''INSERT''"
| "TG_OP (Updated _ _) = ''UPDATE''"
| "TG_OP (Deleted _) = ''DELETE''"

fun row_subject :: "row_change \<Rightarrow> row_var \<Rightarrow> string option" where
  "row_subject (Inserted n) NEW = n"
| "row_subject (Inserted n) OLD = None"
| "row_subject (Updated ol n) NEW = n"
| "row_subject (Updated ol n) OLD = ol"
| "row_subject (Deleted ol) NEW = None"
| "row_subject (Deleted ol) OLD = ol"

fun run_stmt :: "nat \<Rightarrow> OutboxRow list \<Rightarrow> string \<Rightarrow> row_change \<Rightarrow> plstmt \<Rightarrow> bool" where
  "run_stmt tx rows resource ch (Perform v act) = assert_intent tx rows (row_subject ch v) resource act"
| "run_stmt tx rows resource ch (IfDistinct st) =
     (if row_subject ch NEW \<noteq> row_subject ch OLD then run_stmt tx rows resource ch st else True)"

definition run_trigger :: "TriggerSpec \<Rightarrow> nat \<Rightarrow> OutboxRow list \<Rightarrow> row_change \<Rightarrow> bool" where
  "run_trigger s tx rows ch =
    (if TG_OP ch \<in> set (trigger_events s) then
       list_all (\<lambda>(op, stmts). if TG_OP ch = op then list_all (run_stmt tx rows (ts_ResourceType s) ch) stmts else True)
         (trigger_branches s)
     else True)"

definition commit_passes :: "TriggerSpec \<Rightarrow> nat \<Rightarrow> OutboxRow list \<Rightarrow> row_change list \<Rightarrow> bool" where
  "commit_passes s tx rows changes = list_all (run_trigger s tx rows) changes"

subsection \<open>A guarded change commits exactly with its intents\<close>

text \<open>The records a change owes: a repointed subject is two subjects.\<close>

fun demands :: "TriggerSpec \<Rightarrow> row_change \<Rightarrow> (string option \<times> string) list" where
  "demands s (Inserted n) = (if ts_OnInsert s = [] then [] else [(n, ts_OnInsert s)])"
| "demands s (Updated ol n) = (if ts_OnUpdate s = [] then [] else [(ol, ts_OnUpdate s), (n, ts_OnUpdate s)])"
| "demands s (Deleted ol) = (if ts_OnDelete s = [] then [] else [(ol, ts_OnDelete s)])"

definition records :: "nat \<Rightarrow> string \<Rightarrow> string option \<times> string \<Rightarrow> OutboxRow \<Rightarrow> bool" where
  "records tx resource d r \<longleftrightarrow> ob_txid r = tx \<and> ev_ResourceType r = Some resource \<and> ev_Action r = snd d \<and>
     (\<exists>x y. fst d = Some x \<and> ev_ResourceID r = Some y \<and> ToLower y = ToLower x)"

lemma assert_intent_iff: "assert_intent tx rows sub resource act \<longleftrightarrow> (\<exists>r \<in> set rows. records tx resource (sub, act) r)"
  by (cases sub) (auto simp: assert_intent_def records_def list_ex_iff)

lemma run_trigger_iff:
  "run_trigger s tx rows ch \<longleftrightarrow> (\<forall>d \<in> set (demands s ch). \<exists>r \<in> set rows. records tx (ts_ResourceType s) d r)"
  by (cases ch) (auto simp: run_trigger_def trigger_events_def trigger_branches_def assert_intent_iff)


definition dx_spec :: TriggerSpec where
  "dx_spec = \<lparr>ts_Outbox = ''app.audit_outbox'', ts_Table = ''app.platform_admins'', ts_SubjectColumn = ''user_id'',
     ts_ResourceType = ''platform_admin'', ts_OnInsert = ''grant'', ts_OnUpdate = [], ts_OnDelete = ''revoke''\<rparr>"

definition dx_intent :: Intent where
  "dx_intent = \<lparr>ev_EventID = ''e1'', ev_OccurredAt = 5, ev_Action = ''grant'', ev_ActorUserID = None, ev_ActorEmail = None,
     ev_OrganizationID = None, ev_ResourceType = Some ''platform_admin'', ev_ResourceID = Some ''U1'', ev_IPAddress = None,
     in_Metadata = None\<rparr>"

definition dx_outbox :: Outbox where
  "dx_outbox = \<lparr>ox_hasDB = True, ox_table = \<lparr>tb_schema = ''app'', tb_name = ''audit_outbox''\<rparr>\<rparr>"

lemma dx_lower: "ToLower ''U1'' = ''u1''" "ToLower ''u1'' = ''u1''"
  by code_simp+


lemma Enqueue_row:
  assumes "Enqueue io uuid now ob (Some tx) (Some i) rows = (Inr (), i', rows')"
  obtains meta where "rows' = rows @ [outbox_row tx meta (filled uuid now i)]"
  using assms by (auto simp: Enqueue_def Let_def split: if_splits sum.splits)

lemma filled_fields [simp]:
  "ev_Action (filled uuid now i) = ev_Action i" "ev_ResourceType (filled uuid now i) = ev_ResourceType i"
  "ev_ResourceID (filled uuid now i) = ev_ResourceID i"
  by (simp_all add: filled_def Let_def)

text \<open>The outbox and the trigger fit together. In a transaction that has enqueued nothing a guarded change cannot commit,
  whatever older intents the table holds; after \<open>Enqueue\<close> succeeded for an intent that names the subjects, the resource
  type and the action, in the same transaction, the change commits.\<close>

theorem enqueue_lets_the_change_commit:
  assumes fresh: "\<forall>r \<in> set rows. ob_txid r \<noteq> tx" and guarded: "demands s ch \<noteq> []"
    and enq: "Enqueue io uuid now ob (Some tx) (Some i) rows = (Inr (), i', rows')"
    and intent: "ev_ResourceType i = Some (ts_ResourceType s)" "ev_ResourceID i = Some y"
    and named: "\<forall>d \<in> set (demands s ch). snd d = ev_Action i \<and> (\<exists>x. fst d = Some x \<and> ToLower y = ToLower x)"
  shows "\<not> commit_passes s tx rows [ch] \<and> commit_passes s tx rows' [ch]"
proof -
  obtain sub act where "(sub, act) \<in> set (demands s ch)" using guarded by (cases "demands s ch") auto
  then have "\<not> run_trigger s tx rows ch" using fresh by (force simp: run_trigger_iff records_def)
  moreover obtain meta where "rows' = rows @ [outbox_row tx meta (filled uuid now i)]" using enq by (rule Enqueue_row)
  then have "run_trigger s tx rows' ch"
    using intent named by (fastforce simp: run_trigger_iff records_def outbox_row_def)
  ultimately show ?thesis by (simp add: commit_passes_def)
qed

theorem enqueue_lets_the_change_commit_witness:
  "\<not> commit_passes dx_spec 7 [outbox_row 6 None dx_intent] [Inserted (Some ''u1'')] \<and>
   commit_passes dx_spec 7
     (snd (snd (Enqueue no_faults ''e2'' 9 (Some dx_outbox) (Some 7) (Some (dx_intent\<lparr>ev_EventID := ''''\<rparr>)) [outbox_row 6 None dx_intent])))
     [Inserted (Some ''u1'')]"
  by (rule enqueue_lets_the_change_commit
      [of "[outbox_row 6 None dx_intent]" 7 dx_spec "Inserted (Some ''u1'')" no_faults "''e2''" 9 "Some dx_outbox"
        "dx_intent\<lparr>ev_EventID := ''''\<rparr>" "Some (filled ''e2'' 9 (dx_intent\<lparr>ev_EventID := ''''\<rparr>))" _ "''U1''"])
    (simp_all add: Enqueue_def no_outbox_def dx_outbox_def dx_intent_def dx_spec_def filled_def marshalMetadata_def outbox_row_def
      is_zero_def dx_lower)

subsection \<open>The dollar quotes\<close>

text \<open>How the server reads a dollar-quoted body: up to the first \<open>$$\<close>.\<close>

fun dollar_body :: "string \<Rightarrow> (string \<times> string) option" where
  "dollar_body [] = None"
| "dollar_body (c # s) =
     (if c = CHR ''$'' \<and> take 1 s = ''$'' then Some ([], drop 1 s) else map_option (\<lambda>(b, r). (c # b, r)) (dollar_body s))"

lemma dollar_body_plain: "CHR ''$'' \<notin> set b \<Longrightarrow> dollar_body (b @ ''$$'' @ rest) = Some (b, rest)"
  by (induction b) auto

lemma dollar_ReplaceAll: "CHR ''$'' \<notin> set new \<Longrightarrow> CHR ''$'' \<notin> set s \<Longrightarrow> CHR ''$'' \<notin> set (ReplaceAll s c new)"
  by (auto simp: ReplaceAll_def split: if_splits)

lemma dollar_Literal: "CHR ''$'' \<notin> set s \<Longrightarrow> CHR ''$'' \<notin> set (Literal s)"
  by (auto simp: Literal_def Let_def dollar_ReplaceAll split: if_splits)

lemma dollar_nl [simp]: "CHR ''$'' \<notin> set nl"
  by (simp add: nl_def)

lemma dollar_table_String:
  "CHR ''$'' \<notin> set (tb_schema t) \<Longrightarrow> CHR ''$'' \<notin> set (tb_name t) \<Longrightarrow> CHR ''$'' \<notin> set (table_String t)"
  by (simp add: table_String_def)

lemma dollar_Identifier:
  "sanitize_quotes sanitize \<Longrightarrow> ValidIdentifier p \<Longrightarrow> CHR ''$'' \<notin> set p \<Longrightarrow> CHR ''$'' \<notin> set (Identifier sanitize p)"
  by (simp add: Identifier_quoted)

lemma dollar_table_sql:
  "sanitize_quotes sanitize \<Longrightarrow> table_ok t \<Longrightarrow> CHR ''$'' \<notin> set (tb_schema t) \<Longrightarrow> CHR ''$'' \<notin> set (tb_name t) \<Longrightarrow>
   CHR ''$'' \<notin> set (table_sql sanitize t)"
  by (auto simp: table_sql_def table_ok_def dollar_Identifier)

lemma dollar_row_var [simp]: "CHR ''$'' \<notin> set (row_var_text v)"
  by (cases v) simp_all

fun stmt_action :: "plstmt \<Rightarrow> string" where
  "stmt_action (Perform v act) = act"
| "stmt_action (IfDistinct st) = stmt_action st"

lemma dollar_stmt:
  "CHR ''$'' \<notin> set ind \<Longrightarrow> CHR ''$'' \<notin> set asrt \<Longrightarrow> CHR ''$'' \<notin> set subject \<Longrightarrow> CHR ''$'' \<notin> set resource \<Longrightarrow>
   CHR ''$'' \<notin> set (stmt_action st) \<Longrightarrow> CHR ''$'' \<notin> set (render_stmt ind asrt subject resource st)"
  by (induction st arbitrary: ind) (simp_all add: dollar_Literal)

lemma dollar_branch:
  assumes "CHR ''$'' \<notin> set asrt" "CHR ''$'' \<notin> set subject" "CHR ''$'' \<notin> set resource"
    and "CHR ''$'' \<notin> set (fst br)" "\<forall>st \<in> set (snd br). CHR ''$'' \<notin> set (stmt_action st)"
  shows "CHR ''$'' \<notin> set (render_branch asrt subject resource br)"
  using assms dollar_stmt [of "''        ''" asrt subject resource] by (auto simp: render_branch_def)

lemma Join_Nil_concat: "Join [] ws = concat ws"
  by (induction ws rule: Join.induct [of "\<lambda>sep ws. Join [] ws = concat ws" "[]"]) simp_all

lemma branch_parts:
  "br \<in> set (trigger_branches s) \<Longrightarrow> CHR ''$'' \<notin> set (fst br) \<and>
     (\<forall>st \<in> set (snd br). stmt_action st \<in> {ts_OnInsert s, ts_OnUpdate s, ts_OnDelete s})"
  by (auto simp: trigger_branches_def split: if_splits)

definition dollar_free :: "TriggerSpec \<Rightarrow> bool" where
  "dollar_free s \<longleftrightarrow> list_all (\<lambda>x. CHR ''$'' \<notin> set x)
     [ts_Outbox s, ts_Table s, ts_SubjectColumn s, ts_ResourceType s, ts_OnInsert s, ts_OnUpdate s, ts_OnDelete s]"

lemma dollar_trigger_body:
  assumes "dollar_free s" "sanitize_quotes sanitize" "ValidIdentifier (ts_SubjectColumn s)" "CHR ''$'' \<notin> set (table_sql sanitize asrt)"
  shows "CHR ''$'' \<notin> set (trigger_body sanitize asrt s)"
proof -
  have "CHR ''$'' \<notin> set (render_branch (table_sql sanitize asrt) (Identifier sanitize (ts_SubjectColumn s)) (Literal (ts_ResourceType s)) br)"
    if "br \<in> set (trigger_branches s)" for br
    using assms branch_parts [OF that] by (intro dollar_branch) (auto simp: dollar_free_def dollar_Identifier dollar_Literal)
  then show ?thesis by (auto simp: trigger_body_def Join_Nil_concat)
qed


lemma ValidIdentifier_append:
  "ValidIdentifier p \<Longrightarrow> list_all ident_rest sfx \<Longrightarrow> length (p @ sfx) \<le> MaxIdentifierLength \<Longrightarrow> ValidIdentifier (p @ sfx)"
  by (cases p) (auto simp: ValidIdentifier_def)

lemma derive_ok:
  assumes "derive sfx t = Inr t'" "table_ok t" "list_all ident_rest sfx"
  shows "table_ok t'" "tb_schema t' = tb_schema t" "tb_name t' = tb_name t @ sfx"
  using assms ValidIdentifier_append [of "tb_name t" sfx] by (auto simp: derive_def table_ok_def Let_def split: if_splits)

lemma suffixes_ident: "list_all ident_rest assertIntentSuffix" "list_all ident_rest requireIntentSuffix"
  by code_simp+

lemma TrimSpace_set: "set (TrimSpace s) \<subseteq> set s"
  by (auto simp: TrimSpace_def dest!: set_dropWhileD)

lemma Split_set: "w \<in> set (Split d s) \<Longrightarrow> set w \<subseteq> set s"
  by (induction s arbitrary: w) (auto split: list.splits if_splits, blast)

lemma parseTable_parts:
  assumes "parseTable s = Inr t"
  shows "set (tb_schema t) \<subseteq> set s" "set (tb_name t) \<subseteq> set s"
proof -
  have "tb_schema t = [] \<or> tb_schema t \<in> set (Split CHR ''.'' (TrimSpace s))" "tb_name t \<in> set (Split CHR ''.'' (TrimSpace s))"
    using assms by (auto simp: parseTable_def Let_def split: if_splits sum.splits list.splits)
  then show "set (tb_schema t) \<subseteq> set s" "set (tb_name t) \<subseteq> set s"
    using Split_set [of _ "CHR ''.''" "TrimSpace s"] TrimSpace_set [of s] by fastforce+
qed

lemma TriggerSpec_names_ok:
  assumes "TriggerSpec_names s = Inr (outbox, guarded, fn)"
  shows "parseTable (ts_Outbox s) = Inr outbox" "parseTable (ts_Table s) = Inr guarded" "derive requireIntentSuffix guarded = Inr fn"
    and "ValidIdentifier (ts_SubjectColumn s)" "ts_ResourceType s \<noteq> []" "trigger_events s \<noteq> []"
  using assms
  by (auto simp: TriggerSpec_names_def validateIdentifier_Inr [symmetric] trigger_events_def trigger_branches_def
      split: sum.splits if_splits)

text \<open>The rendered trigger is the trigger that runs. When a specification without dollar signs is rendered, the server reads
  as the body of the trigger function exactly the rendered program: nothing before the opening dollar quote ends it, and no
  name, resource type or action inside closes it; and at least one operation is guarded.\<close>

theorem trigger_body_intact:
  assumes ddl: "TriggerSpec_DDL sanitize s = Inr sql" and free: "dollar_free s" and q: "sanitize_quotes sanitize"
  shows "\<exists>outbox asrt pre post. parseTable (ts_Outbox s) = Inr outbox \<and> derive assertIntentSuffix outbox = Inr asrt \<and>
    sql = pre @ ''$$'' @ trigger_body sanitize asrt s @ ''$$'' @ post \<and> CHR ''$'' \<notin> set pre \<and>
    dollar_body (trigger_body sanitize asrt s @ ''$$'' @ post) = Some (trigger_body sanitize asrt s, post) \<and>
    trigger_events s \<noteq> []"
proof -
  obtain outbox guarded fn asrt where n: "TriggerSpec_names s = Inr (outbox, guarded, fn)"
    and a: "derive assertIntentSuffix outbox = Inr asrt" and t: "sql = trigger_text sanitize asrt guarded fn s"
    using ddl by (auto simp: TriggerSpec_DDL_def split: sum.splits prod.splits)
  note names = TriggerSpec_names_ok [OF n]
  note oks = parseTable_ok [OF names(1)] parseTable_ok [OF names(2)]
  note asrt = derive_ok [OF a oks(1) suffixes_ident(1)] and fn = derive_ok [OF names(3) oks(2) suffixes_ident(2)]
  have d: "CHR ''$'' \<notin> set (tb_schema outbox)" "CHR ''$'' \<notin> set (tb_name outbox)"
    "CHR ''$'' \<notin> set (tb_schema guarded)" "CHR ''$'' \<notin> set (tb_name guarded)"
    using free parseTable_parts [OF names(1)] parseTable_parts [OF names(2)] by (auto simp: dollar_free_def)
  have sfx: "CHR ''$'' \<notin> set assertIntentSuffix" "CHR ''$'' \<notin> set requireIntentSuffix"
    by (simp_all add: assertIntentSuffix_def requireIntentSuffix_def)
  have "CHR ''$'' \<notin> set (table_sql sanitize asrt)" and fn_sql: "CHR ''$'' \<notin> set (table_sql sanitize fn)"
    using dollar_table_sql [OF q asrt(1)] dollar_table_sql [OF q fn(1)] d sfx asrt fn by simp_all
  then have body: "CHR ''$'' \<notin> set (trigger_body sanitize asrt s)"
    using dollar_trigger_body [OF free q names(4)] by blast
  have "CHR ''$'' \<notin> set (trigger_head sanitize guarded fn)"
    using fn_sql dollar_table_String [OF d(3,4)] by (simp add: trigger_head_def)
  with names a show ?thesis
    using dollar_body_plain [OF body] by (simp only: t trigger_text_def) blast
qed

theorem trigger_body_intact_witness:
  "\<exists>outbox asrt pre post. parseTable (ts_Outbox dx_spec) = Inr outbox \<and> derive assertIntentSuffix outbox = Inr asrt \<and>
    (case TriggerSpec_DDL pgx_sanitize dx_spec of Inl _ \<Rightarrow> [] | Inr sql \<Rightarrow> sql)
      = pre @ ''$$'' @ trigger_body pgx_sanitize asrt dx_spec @ ''$$'' @ post \<and> CHR ''$'' \<notin> set pre \<and>
    dollar_body (trigger_body pgx_sanitize asrt dx_spec @ ''$$'' @ post) = Some (trigger_body pgx_sanitize asrt dx_spec, post) \<and>
    trigger_events dx_spec \<noteq> []"
proof -
  have "isl (TriggerSpec_DDL pgx_sanitize dx_spec) = False" by code_simp
  then obtain sql where t: "TriggerSpec_DDL pgx_sanitize dx_spec = Inr sql"
    by (cases "TriggerSpec_DDL pgx_sanitize dx_spec") auto
  moreover have "dollar_free dx_spec" by (simp add: dollar_free_def dx_spec_def)
  ultimately show ?thesis
    using trigger_body_intact [of pgx_sanitize dx_spec sql] pgx_sanitize_quotes by simp
qed

text \<open>The condition is needed: an action with two dollar signs passes the validation, and the server ends the body inside it.\<close>

theorem dollar_action_cuts_the_body:
  "\<exists>s asrt. isl (TriggerSpec_DDL pgx_sanitize s) = False \<and> derive assertIntentSuffix \<lparr>tb_schema = ''app'', tb_name = ''audit_outbox''\<rparr> = Inr asrt \<and>
     ts_Outbox s = ''app.audit_outbox'' \<and>
     map_option (\<lambda>(b, _). length b < length (trigger_body pgx_sanitize asrt s)) (dollar_body (trigger_body pgx_sanitize asrt s @ ''$$'')) = Some True"
proof -
  let ?s = "dx_spec\<lparr>ts_OnInsert := ''grant$$x''\<rparr>"
  let ?a = "\<lparr>tb_schema = ''app'', tb_name = ''audit_outbox_assert_intent''\<rparr>"
  have "isl (TriggerSpec_DDL pgx_sanitize ?s) = False" by code_simp
  moreover have "derive assertIntentSuffix \<lparr>tb_schema = ''app'', tb_name = ''audit_outbox''\<rparr> = Inr ?a" by code_simp
  moreover have "ts_Outbox ?s = ''app.audit_outbox''" by code_simp
  moreover have "map_option (\<lambda>(b, _). length b < length (trigger_body pgx_sanitize ?a ?s)) (dollar_body (trigger_body pgx_sanitize ?a ?s @ ''$$'')) = Some True"
    by code_simp
  ultimately show ?thesis by blast
qed

end
