(* ===== verification/Mutation_Guard.thy ===== *)
theory Mutation_Guard
  imports Outbox_Table "HOL-Library.AList"
begin

text \<open>
  Package \<open>identity/auditoutbox\<close>, file \<open>guard.go\<close>: the source scan that reports every function of a package that writes a
  protected table without taking an audit-intent writer. The syntax trees of \<open>go/ast\<close> keep what the scan looks at: a
  literal, an identifier, a parenthesis, a binary expression, and any other node with its children in source order. The
  files of the directory come as an argument, each with its tree or a parse error; \<open>io 0\<close>: listing the directory fails.
  Go iterates over a map in an order of its own choosing at every pass, which is the argument \<open>order\<close>.
\<close>

subsection \<open>Syntax trees\<close>

datatype lit_kind = STRING | INT | FLOAT | IMAG | CHAR

datatype node =
    BasicLit lit_kind string
  | Ident string
  | ParenExpr node
  | BinaryExpr string node node
  | OtherNode "node list"

datatype type_expr = TIdent string | TSelector string | TOther

record FuncDecl =
  fn_Pos :: string
  fn_Recv :: "nat option"
  fn_Name :: string
  fn_Params :: "type_expr list option"
  fn_Body :: "node option"

datatype gen_token = CONST_tok | VAR_tok | TYPE_tok | IMPORT_tok

datatype go_spec = ValueSpec "string list" "node list" | OtherSpec

datatype decl = Func FuncDecl | Gen gen_token "go_spec list"

type_synonym go_file = "decl list"

subsection \<open>\<open>strconv.Unquote\<close>\<close>

definition hexval :: "char \<Rightarrow> nat option" where
  "hexval c = (let n = (of_char c :: nat) in
     if 48 \<le> n \<and> n \<le> 57 then Some (n - 48) else if 97 \<le> n \<and> n \<le> 102 then Some (n - 87)
     else if 65 \<le> n \<and> n \<le> 70 then Some (n - 55) else None)"

definition octval :: "char \<Rightarrow> nat option" where
  "octval c = (let n = (of_char c :: nat) in if 48 \<le> n \<and> n \<le> 55 then Some (n - 48) else None)"

fun numeral_of :: "nat \<Rightarrow> (char \<Rightarrow> nat option) \<Rightarrow> string \<Rightarrow> nat \<Rightarrow> nat option" where
  "numeral_of base val [] acc = Some acc"
| "numeral_of base val (c # s) acc = (case val c of None \<Rightarrow> None | Some d \<Rightarrow> numeral_of base val s (acc * base + d))"

definition utf8 :: "nat \<Rightarrow> string option" where
  "utf8 r =
    (if r < 128 then Some [char_of r]
     else if r < 2048 then Some [char_of (192 + r div 64), char_of (128 + r mod 64)]
     else if 55296 \<le> r \<and> r < 57344 then None
     else if r < 65536 then Some [char_of (224 + r div 4096), char_of (128 + r div 64 mod 64), char_of (128 + r mod 64)]
     else if r < 1114112 then
       Some [char_of (240 + r div 262144), char_of (128 + r div 4096 mod 64), char_of (128 + r div 64 mod 64), char_of (128 + r mod 64)]
     else None)"

definition simple_escapes :: "(char \<times> char) list" where
  "simple_escapes =
    [(CHR ''a'', CHR 0x07), (CHR ''b'', CHR 0x08), (CHR ''f'', CHR 0x0C), (CHR ''n'', CHR 0x0A), (CHR ''r'', CHR 0x0D),
     (CHR ''t'', CHR 0x09), (CHR ''v'', CHR 0x0B), (CHR 0x5C, CHR 0x5C), (CHR 0x22, CHR 0x22)]"

text \<open>One escape after the backslash: the bytes it stands for and the rest.\<close>

definition escape :: "string \<Rightarrow> (string \<times> string) option" where
  "escape s =
    (case s of
       [] \<Rightarrow> None
     | c # r \<Rightarrow>
         (case map_of simple_escapes c of
            Some b \<Rightarrow> Some ([b], r)
          | None \<Rightarrow>
              if c = CHR ''x'' then
                (if length r < 2 then None else map_option (\<lambda>n. ([char_of n], drop 2 r)) (numeral_of 16 hexval (take 2 r) 0))
              else if c = CHR ''u'' then
                (if length r < 4 then None
                 else Option.bind (numeral_of 16 hexval (take 4 r) 0) (\<lambda>n. map_option (\<lambda>bs. (bs, drop 4 r)) (utf8 n)))
              else if c = CHR ''U'' then
                (if length r < 8 then None
                 else Option.bind (numeral_of 16 hexval (take 8 r) 0) (\<lambda>n. map_option (\<lambda>bs. (bs, drop 8 r)) (utf8 n)))
              else if octval c \<noteq> None then
                (if length r < 2 then None
                 else Option.bind (numeral_of 8 octval (take 3 s) 0)
                   (\<lambda>n. if 255 < n then None else Some ([char_of n], drop 3 s)))
              else None))"

lemma escape_shorter: "escape s = Some (bs, r) \<Longrightarrow> length r < length s"
  by (auto simp: escape_def split: list.splits option.splits if_splits bind_splits)

function unescape :: "string \<Rightarrow> string option" where
  "unescape [] = Some []"
| "unescape (c # s) =
     (if c = CHR 0x22 \<or> c = CHR 0x0A then None
      else if c = CHR 0x5C then
        (case escape s of None \<Rightarrow> None | Some (bs, r) \<Rightarrow> map_option (\<lambda>t. bs @ t) (unescape r))
      else map_option (Cons c) (unescape s))"
  by pat_completeness auto
termination
  by (relation "measure length") (auto dest!: escape_shorter)

definition Unquote :: "string \<Rightarrow> string option" where
  "Unquote s =
    (if length s < 2 \<or> hd s \<noteq> last s then None
     else let q = hd s; body = butlast (tl s) in
       if q = CHR 0x60 then (if CHR 0x60 \<in> set body then None else Some (filter (\<lambda>c. c \<noteq> CHR 0x0D) body))
       else if q = CHR 0x22 then unescape body
       else None)"

definition lit_text :: "string \<Rightarrow> string" where
  "lit_text v = (case Unquote v of None \<Rightarrow> v | Some t \<Rightarrow> t)"

subsection \<open>The pattern of a write\<close>

text \<open>
  The regular expression as a matcher: from the byte before the position and the rest of the text, every position it can
  reach. Letters match in either case.
\<close>

type_synonym pos = "char option \<times> string"

definition p_one :: "(char \<Rightarrow> bool) \<Rightarrow> pos \<Rightarrow> pos list" where
  "p_one P p = (case snd p of [] \<Rightarrow> [] | c # s \<Rightarrow> if P c then [(Some c, s)] else [])"

fun p_word :: "string \<Rightarrow> pos \<Rightarrow> pos list" where
  "p_word [] p = [p]"
| "p_word (w # ws) p = concat (map (p_word ws) (p_one (\<lambda>c. lower_char c = w) p))"

fun p_many_rest :: "(char \<Rightarrow> bool) \<Rightarrow> char option \<Rightarrow> string \<Rightarrow> pos list" where
  "p_many_rest P prev [] = [(prev, [])]"
| "p_many_rest P prev (c # s) = (prev, c # s) # (if P c then p_many_rest P (Some c) s else [])"

definition p_many :: "(char \<Rightarrow> bool) \<Rightarrow> pos \<Rightarrow> pos list" where
  "p_many P p = p_many_rest P (fst p) (snd p)"

definition p_seq :: "(pos \<Rightarrow> pos list) \<Rightarrow> (pos \<Rightarrow> pos list) \<Rightarrow> pos \<Rightarrow> pos list" where
  "p_seq f g p = concat (map g (f p))"

definition p_alt :: "(pos \<Rightarrow> pos list) \<Rightarrow> (pos \<Rightarrow> pos list) \<Rightarrow> pos \<Rightarrow> pos list" where
  "p_alt f g p = f p @ g p"

definition p_opt :: "(pos \<Rightarrow> pos list) \<Rightarrow> pos \<Rightarrow> pos list" where
  "p_opt f p = f p @ [p]"

definition re_space :: "char \<Rightarrow> bool" where
  "re_space c \<longleftrightarrow> of_char c \<in> {9, 10, 12, 13, 32 :: nat}"

definition re_word_char :: "char \<Rightarrow> bool" where
  "re_word_char c \<longleftrightarrow> (let l = lower_char c in CHR ''a'' \<le> l \<and> l \<le> CHR ''z'' \<or> CHR ''0'' \<le> l \<and> l \<le> CHR ''9'' \<or> l = CHR ''_'')"

definition p_boundary :: "pos \<Rightarrow> pos list" where
  "p_boundary p =
    (let before_w = (case fst p of None \<Rightarrow> False | Some c \<Rightarrow> re_word_char c);
         after_w = (case snd p of [] \<Rightarrow> False | c # _ \<Rightarrow> re_word_char c)
     in if before_w \<noteq> after_w then [p] else [])"

definition p_spaces :: "pos \<Rightarrow> pos list" where
  "p_spaces = p_seq (p_one re_space) (p_many re_space)"

definition p_quote :: "pos \<Rightarrow> pos list" where
  "p_quote = p_opt (p_one (\<lambda>c. c = CHR 0x22))"

definition p_verb :: "pos \<Rightarrow> pos list" where
  "p_verb =
    p_alt (p_seq (p_word ''insert'') (p_seq p_spaces (p_word ''into'')))
      (p_alt (p_seq (p_word ''delete'') (p_seq p_spaces (p_word ''from''))) (p_word ''update''))"

definition p_schema :: "pos \<Rightarrow> pos list" where
  "p_schema =
    p_opt (p_seq (p_one (\<lambda>c. ident_first (lower_char c)))
      (p_seq (p_many (\<lambda>c. ident_rest (lower_char c)))
        (p_seq p_quote (p_seq (p_one (\<lambda>c. c = CHR ''.'')) p_quote))))"

definition write_pattern :: "string \<Rightarrow> pos \<Rightarrow> pos list" where
  "write_pattern name =
    p_seq p_verb (p_seq p_spaces (p_seq p_quote (p_seq p_schema (p_seq (p_word name) (p_seq p_quote p_boundary)))))"

text \<open>\<open>MatchString\<close>: a match may start anywhere.\<close>

fun match_from :: "(pos \<Rightarrow> pos list) \<Rightarrow> char option \<Rightarrow> string \<Rightarrow> bool" where
  "match_from m prev [] = (m (prev, []) \<noteq> [])"
| "match_from m prev (c # s) = (m (prev, c # s) \<noteq> [] \<or> match_from m (Some c) s)"

definition MatchString :: "(pos \<Rightarrow> pos list) \<Rightarrow> string \<Rightarrow> bool" where
  "MatchString m s = match_from m None s"

subsection \<open>The scan\<close>

datatype guard_error = NoTables | GuardTable table_error | ListFailed | ParseFailed string | NoSources

definition defaultWriterTypes :: "string list" where
  "defaultWriterTypes = [''IntentWriter'', ''AuditIntentWriter'']"

record MutationGuard =
  gd_Tables :: "string list"
  gd_WriterTypes :: "string list"

record Finding =
  fd_Position :: string
  fd_Func :: string
  fd_Table :: string

record Report =
  rp_Files :: nat
  rp_Mutators :: nat
  rp_Findings :: "Finding list"

record tableMatcher =
  tm_table :: string
  tm_pattern :: "pos \<Rightarrow> pos list"

fun matcherLoop :: "string list \<Rightarrow> guard_error + tableMatcher list" where
  "matcherLoop [] = Inr []"
| "matcherLoop (name # names) =
     (case parseTable name of
        Inl e \<Rightarrow> Inl (GuardTable e)
      | Inr t \<Rightarrow>
          (case matcherLoop names of
             Inl e \<Rightarrow> Inl e
           | Inr ms \<Rightarrow> Inr (\<lparr>tm_table = table_String t, tm_pattern = write_pattern (tb_name t)\<rparr> # ms)))"

definition matchers :: "MutationGuard \<Rightarrow> guard_error + tableMatcher list" where
  "matchers g = (if length (gd_Tables g) = 0 then Inl NoTables else matcherLoop (gd_Tables g))"

fun evalString :: "node \<Rightarrow> (string \<rightharpoonup> string) \<Rightarrow> string option" where
  "evalString (BasicLit k v) resolved = (if k \<noteq> STRING then None else Some (lit_text v))"
| "evalString (Ident x) resolved = resolved x"
| "evalString (ParenExpr e) resolved = evalString e resolved"
| "evalString (BinaryExpr op x y) resolved =
     (if op \<noteq> ''+'' then None
      else case (evalString x resolved, evalString y resolved) of (Some l, Some r) \<Rightarrow> Some (l @ r) | _ \<Rightarrow> None)"
| "evalString (OtherNode ns) resolved = None"

text \<open>The map \<open>raw\<close>: of names declared more than once (the blank identifier) the last value stays.\<close>

definition spec_values :: "go_spec \<Rightarrow> (string \<times> node) list" where
  "spec_values sp = (case sp of ValueSpec names values \<Rightarrow> zip names values | OtherSpec \<Rightarrow> [])"

definition decl_values :: "decl \<Rightarrow> (string \<times> node) list" where
  "decl_values d = (case d of Func _ \<Rightarrow> [] | Gen tok specs \<Rightarrow> if tok = CONST_tok \<or> tok = VAR_tok then concat (map spec_values specs) else [])"

definition raw_strings :: "go_file list \<Rightarrow> (string \<times> node) list" where
  "raw_strings files = fold (\<lambda>(x, e) raw. AList.update x e raw) (concat (map decl_values (concat files))) []"

text \<open>One pass over the map, in the given order; \<open>progressed\<close> is the second component.\<close>

fun resolvePass :: "(string \<rightharpoonup> node) \<Rightarrow> string list \<Rightarrow> (string \<rightharpoonup> string) \<times> bool \<Rightarrow> (string \<rightharpoonup> string) \<times> bool" where
  "resolvePass raw [] st = st"
| "resolvePass raw (x # xs) (resolved, progressed) =
     resolvePass raw xs
       (if resolved x \<noteq> None then (resolved, progressed)
        else case Option.bind (raw x) (\<lambda>e. evalString e resolved) of
               None \<Rightarrow> (resolved, progressed)
             | Some s \<Rightarrow> (resolved(x \<mapsto> s), True))"

fun settleLoop :: "(string \<rightharpoonup> node) \<Rightarrow> (nat \<Rightarrow> string list) \<Rightarrow> nat \<Rightarrow> (string \<rightharpoonup> string) \<Rightarrow> (string \<rightharpoonup> string)" where
  "settleLoop raw order 0 resolved = resolved"
| "settleLoop raw order (Suc n) resolved =
     (case resolvePass raw (order n) (resolved, False) of
        (resolved', progressed) \<Rightarrow> if \<not> progressed then resolved' else settleLoop raw order n resolved')"

definition packageStrings :: "(nat \<Rightarrow> string list) \<Rightarrow> go_file list \<Rightarrow> (string \<rightharpoonup> string)" where
  "packageStrings order files =
    (let raw = raw_strings files in settleLoop (map_of raw) order (length raw) Map.empty)"

text \<open>\<open>ast.Inspect\<close>: every node, parents first.\<close>

fun preorder :: "node \<Rightarrow> node list" where
  "preorder (BasicLit k v) = [BasicLit k v]"
| "preorder (Ident x) = [Ident x]"
| "preorder (ParenExpr e) = ParenExpr e # preorder e"
| "preorder (BinaryExpr op x y) = BinaryExpr op x y # preorder x @ preorder y"
| "preorder (OtherNode ns) = OtherNode ns # concat (map preorder ns)"

definition node_hits :: "(string \<rightharpoonup> string) \<Rightarrow> (pos \<Rightarrow> pos list) \<Rightarrow> node \<Rightarrow> bool" where
  "node_hits consts pattern n =
    (case n of
       BasicLit k v \<Rightarrow> if k \<noteq> STRING then False else MatchString pattern (lit_text v)
     | Ident x \<Rightarrow> (case consts x of None \<Rightarrow> False | Some t \<Rightarrow> MatchString pattern t)
     | _ \<Rightarrow> False)"

definition bodyMutates :: "node \<Rightarrow> (string \<rightharpoonup> string) \<Rightarrow> (pos \<Rightarrow> pos list) \<Rightarrow> bool" where
  "bodyMutates body consts pattern = list_ex (node_hits consts pattern) (preorder body)"

definition type_name :: "type_expr \<Rightarrow> string" where
  "type_name t = (case t of TIdent x \<Rightarrow> x | TSelector x \<Rightarrow> x | TOther \<Rightarrow> [])"

definition takesWriter :: "FuncDecl \<Rightarrow> string list \<Rightarrow> bool" where
  "takesWriter fn writerTypes =
    (case fn_Params fn of
       None \<Rightarrow> False
     | Some fs \<Rightarrow> list_ex (\<lambda>t. list_ex (\<lambda>want. type_name t = want) writerTypes) fs)"

definition funcName :: "FuncDecl \<Rightarrow> string" where
  "funcName fn = (if fn_Recv fn = Some 1 then ''(receiver).'' @ fn_Name fn else fn_Name fn)"

text \<open>The loop over the declarations; \<open>hit\<close> is the first table the body writes.\<close>

fun scanDecls :: "tableMatcher list \<Rightarrow> string list \<Rightarrow> (string \<rightharpoonup> string) \<Rightarrow> decl list \<Rightarrow> nat \<times> Finding list" where
  "scanDecls ms writerTypes consts [] = (0, [])"
| "scanDecls ms writerTypes consts (d # ds) =
     (let rest = scanDecls ms writerTypes consts ds in
      case d of
        Gen _ _ \<Rightarrow> rest
      | Func fn \<Rightarrow>
          (case fn_Body fn of
             None \<Rightarrow> rest
           | Some body \<Rightarrow>
               (case find (\<lambda>m. bodyMutates body consts (tm_pattern m)) ms of
                  None \<Rightarrow> rest
                | Some m \<Rightarrow>
                    (fst rest + 1,
                     if takesWriter fn writerTypes then snd rest
                     else \<lparr>fd_Position = fn_Pos fn, fd_Func = funcName fn, fd_Table = tm_table m\<rparr> # snd rest))))"

fun parseFiles :: "(string \<times> go_file option) list \<Rightarrow> guard_error + go_file list" where
  "parseFiles [] = Inr []"
| "parseFiles ((path, parsed) # rest) =
     (if HasPrefix (rev path) (rev ''_test.go'') then parseFiles rest
      else case parsed of
             None \<Rightarrow> Inl (ParseFailed path)
           | Some f \<Rightarrow> (case parseFiles rest of Inl e \<Rightarrow> Inl e | Inr fs \<Rightarrow> Inr (f # fs)))"

definition ScanDir :: "io \<Rightarrow> (nat \<Rightarrow> string list) \<Rightarrow> MutationGuard \<Rightarrow> (string \<times> go_file option) list \<Rightarrow> guard_error + Report" where
  "ScanDir io order g entries =
    (case matchers g of
       Inl e \<Rightarrow> Inl e
     | Inr ms \<Rightarrow>
         let writerTypes = (if length (gd_WriterTypes g) = 0 then defaultWriterTypes else gd_WriterTypes g) in
         if io 0 then Inl ListFailed
         else case parseFiles (sort_key fst entries) of
                Inl e \<Rightarrow> Inl e
              | Inr files \<Rightarrow>
                  if length files = 0 then Inl NoSources
                  else let consts = packageStrings order files; (n, fs) = scanDecls ms writerTypes consts (concat files)
                       in Inr \<lparr>rp_Files = length files, rp_Mutators = n, rp_Findings = fs\<rparr>)"

subsection \<open>The values of package-level strings\<close>

text \<open>The reference: the string an expression stands for, given the declarations, with no order of evaluation.\<close>

inductive str_value :: "(string \<rightharpoonup> node) \<Rightarrow> node \<Rightarrow> string \<Rightarrow> bool" for raw where
  value_lit: "str_value raw (BasicLit STRING v) (lit_text v)"
| value_ident: "raw x = Some e \<Longrightarrow> str_value raw e s \<Longrightarrow> str_value raw (Ident x) s"
| value_paren: "str_value raw e s \<Longrightarrow> str_value raw (ParenExpr e) s"
| value_add: "str_value raw x l \<Longrightarrow> str_value raw y r \<Longrightarrow> str_value raw (BinaryExpr ''+'' x y) (l @ r)"

inductive_cases value_litE: "str_value raw (BasicLit k v) s"
inductive_cases value_identE: "str_value raw (Ident x) s"
inductive_cases value_parenE: "str_value raw (ParenExpr e) s"
inductive_cases value_addE: "str_value raw (BinaryExpr op x y) s"

lemma str_value_unique: "str_value raw e s \<Longrightarrow> str_value raw e s' \<Longrightarrow> s' = s"
proof (induction arbitrary: s' rule: str_value.induct)
  case (value_add x l y r)
  from value_add.prems obtain l' r' where "str_value raw x l'" "str_value raw y r'" "s' = l' @ r'" by (rule value_addE)
  with value_add.IH show ?case by simp
next
  case (value_ident x e s)
  from value_ident.prems obtain e' where "raw x = Some e'" "str_value raw e' s'" by (rule value_identE)
  with value_ident show ?case by simp
next
  case (value_paren e s)
  from value_paren.prems have "str_value raw e s'" by (rule value_parenE)
  then show ?case by (rule value_paren.IH)
next
  case (value_lit v)
  then show ?case by (rule value_litE)
qed

definition resolved_ok :: "(string \<rightharpoonup> node) \<Rightarrow> (string \<rightharpoonup> string) \<Rightarrow> bool" where
  "resolved_ok raw r \<longleftrightarrow> (\<forall>x s. r x = Some s \<longrightarrow> (\<exists>e. raw x = Some e \<and> str_value raw e s))"

definition stable :: "(string \<rightharpoonup> node) \<Rightarrow> string set \<Rightarrow> (string \<rightharpoonup> string) \<Rightarrow> bool" where
  "stable raw X r \<longleftrightarrow> (\<forall>x \<in> X. r x \<noteq> None \<or> Option.bind (raw x) (\<lambda>e. evalString e r) = None)"

lemma evalString_sound: "resolved_ok raw r \<Longrightarrow> evalString e r = Some s \<Longrightarrow> str_value raw e s"
proof (induction e arbitrary: s)
  case (BasicLit k v)
  then show ?case by (auto intro: value_lit split: if_splits)
next
  case (Ident x)
  then show ?case by (auto simp: resolved_ok_def intro: value_ident)
next
  case (BinaryExpr op x y)
  then show ?case by (auto intro: value_add split: if_splits option.splits)
qed (auto intro: value_paren)

lemma evalString_complete:
  assumes "resolved_ok raw r" "stable raw (dom raw) r"
  shows "str_value raw e s \<Longrightarrow> evalString e r = Some s"
proof (induction rule: str_value.induct)
  case (value_ident x e s)
  then have "r x \<noteq> None" using assms(2) by (auto simp: stable_def)
  then obtain s' where "r x = Some s'" by blast
  moreover from this have "str_value raw e s'" using assms(1) value_ident.hyps(1) by (fastforce simp: resolved_ok_def)
  ultimately show ?case using str_value_unique [OF value_ident.hyps(2)] by simp
qed simp_all

lemma resolvePass_Cons_cases:
  assumes "resolvePass raw (x # xs) (r, b) = st"
  obtains (skip) "resolvePass raw xs (r, b) = st" "r x \<noteq> None \<or> Option.bind (raw x) (\<lambda>e. evalString e r) = None"
  | (add) e s where "resolvePass raw xs (r(x \<mapsto> s), True) = st" "r x = None" "raw x = Some e" "evalString e r = Some s"
  using assms by (auto simp: bind_eq_Some_conv split: if_splits option.splits)

lemma resolvePass_sound: "resolved_ok raw r \<Longrightarrow> resolvePass raw xs (r, b) = (r', b') \<Longrightarrow> resolved_ok raw r'"
proof (induction xs arbitrary: r b)
  case (Cons x xs)
  from Cons.prems(2) show ?case
  proof (cases rule: resolvePass_Cons_cases)
    case (add e s)
    then have "resolved_ok raw (r(x \<mapsto> s))"
      using Cons.prems(1) evalString_sound [OF Cons.prems(1)] by (auto simp: resolved_ok_def)
    then show ?thesis using add(1) by (rule Cons.IH)
  qed (rule Cons.IH [OF Cons.prems(1)])
qed simp

lemma resolvePass_grows: "resolvePass raw xs (r, b) = (r', b') \<Longrightarrow> dom r \<subseteq> dom r' \<and> dom r' \<subseteq> dom r \<union> dom raw"
proof (induction xs arbitrary: r b)
  case (Cons x xs)
  from Cons.prems show ?case
  proof (cases rule: resolvePass_Cons_cases)
    case (add e s)
    then have "x \<in> dom raw" by blast
    with Cons.IH [OF add(1)] show ?thesis unfolding dom_fun_upd by auto
  qed (rule Cons.IH)
qed simp

lemma resolvePass_marked: "resolvePass raw xs (r, True) = (r', b') \<Longrightarrow> b'"
proof (induction xs arbitrary: r)
  case (Cons x xs)
  from Cons.prems show ?case by (cases rule: resolvePass_Cons_cases) (blast intro: Cons.IH)+
qed simp

lemma resolvePass_stuck: "resolvePass raw xs (r, b) = (r', False) \<Longrightarrow> r' = r \<and> stable raw (set xs) r"
proof (induction xs arbitrary: r b)
  case (Cons x xs)
  from Cons.prems show ?case
  proof (cases rule: resolvePass_Cons_cases)
    case skip
    with Cons.IH [OF skip(1)] show ?thesis by (auto simp: stable_def)
  qed (use resolvePass_marked in blast)
qed (simp add: stable_def)

lemma resolvePass_progress: "resolvePass raw xs (r, False) = (r', True) \<Longrightarrow> dom r \<subset> dom r'"
proof (induction xs arbitrary: r)
  case (Cons x xs)
  from Cons.prems show ?case
  proof (cases rule: resolvePass_Cons_cases)
    case (add e s)
    then have "x \<notin> dom r" by blast
    with resolvePass_grows [OF add(1)] show ?thesis unfolding dom_fun_upd by auto
  qed (rule Cons.IH)
qed simp

lemma settleLoop_settles:
  assumes "resolved_ok raw r" "dom r \<subseteq> dom raw" "finite (dom raw)" "card (dom raw) \<le> card (dom r) + n"
    and order: "\<forall>i. set (order i) = dom raw"
  shows "resolved_ok raw (settleLoop raw order n r) \<and> stable raw (dom raw) (settleLoop raw order n r)"
  using assms(1-4)
proof (induction n arbitrary: r)
  case 0
  then have "dom r = dom raw" by (simp add: card_seteq)
  then have "stable raw (dom raw) r" by (auto simp: stable_def)
  with 0 show ?case by simp
next
  case (Suc n)
  obtain r' p where pass: "resolvePass raw (order n) (r, False) = (r', p)" by fastforce
  note ok = resolvePass_sound [OF Suc.prems(1) pass] and grows = resolvePass_grows [OF pass]
  show ?case
  proof (cases p)
    case False
    then show ?thesis using ok pass resolvePass_stuck [of raw "order n" r False r'] order by simp
  next
    case True
    then have "dom r \<subset> dom r'" using pass resolvePass_progress [of raw "order n" r r'] by simp
    moreover have sub: "dom r' \<subseteq> dom raw" using Suc.prems(2) grows by blast
    ultimately have "card (dom r) < card (dom r')"
      using Suc.prems(3) by (meson finite_subset psubset_card_mono)
    then show ?thesis using Suc.IH [OF ok sub] Suc.prems pass True by simp
  qed
qed

definition any_order :: "(nat \<Rightarrow> string list) \<Rightarrow> go_file list \<Rightarrow> bool" where
  "any_order order files \<longleftrightarrow> (\<forall>n. set (order n) = fst ` set (raw_strings files))"

lemma packageStrings_value:
  assumes "any_order order files"
  shows "packageStrings order files x = Some s \<longleftrightarrow> str_value (map_of (raw_strings files)) (Ident x) s"
proof -
  let ?raw = "map_of (raw_strings files)"
  let ?r = "packageStrings order files"
  have dom: "dom ?raw = fst ` set (raw_strings files)" by (rule dom_map_of_conv_image_fst)
  then have "card (dom ?raw) \<le> length (raw_strings files)"
    by (metis card_length length_map list.set_map)
  then have ok: "resolved_ok ?raw ?r" and st: "stable ?raw (dom ?raw) ?r"
    using settleLoop_settles [of ?raw Map.empty "length (raw_strings files)" order] assms dom
    by (auto simp: resolved_ok_def packageStrings_def any_order_def Let_def finite_dom_map_of)
  show ?thesis
    using evalString_complete [OF ok st, of "Ident x" s] evalString_sound [OF ok, of "Ident x" s] by auto
qed

text \<open>Resolving the package-level strings does not depend on the order in which Go walks the map. In whatever order each
  pass visits the names, the bounded number of passes is enough: a name resolves exactly to the value its declaration denotes
  through literals, parentheses, concatenation and other such names; names that are cyclic or depend on
  something else stay unresolved.\<close>

theorem packageStrings_order_independent:
  assumes "any_order order files"
  shows "packageStrings order files x = Some s \<longleftrightarrow> str_value (map_of (raw_strings files)) (Ident x) s"
  by (rule packageStrings_value [OF assms])

definition quoted :: "string \<Rightarrow> string" where
  "quoted s = [CHR 0x22] @ s @ [CHR 0x22]"

definition ex_consts :: go_file where
  "ex_consts = [Gen CONST_tok [ValueSpec [''q''] [BinaryExpr ''+'' (Ident ''verb'') (BasicLit STRING (quoted '' platform_admins''))],
     ValueSpec [''verb''] [BasicLit STRING (quoted ''DELETE FROM'')], ValueSpec [''loop''] [Ident ''loop'']]]"

lemma ex_consts_names: "fst ` set (raw_strings [ex_consts]) = {''q'', ''verb'', ''loop''}"
proof -
  have "map fst (raw_strings [ex_consts]) = [''q'', ''verb'', ''loop'']" by code_simp
  then show ?thesis by (metis list.set_map list.simps(15) empty_set)
qed

theorem packageStrings_order_independent_witness:
  "str_value (map_of (raw_strings [ex_consts])) (Ident ''q'') ''DELETE FROM platform_admins'' \<and>
   (\<nexists>s. str_value (map_of (raw_strings [ex_consts])) (Ident ''loop'') s)"
proof -
  let ?order = "\<lambda>n :: nat. [''q'', ''loop'', ''verb'']"
  have o: "any_order ?order [ex_consts]" by (auto simp: any_order_def ex_consts_names)
  have "packageStrings ?order [ex_consts] ''q'' = Some ''DELETE FROM platform_admins''" by code_simp
  moreover have "packageStrings ?order [ex_consts] ''loop'' = None" by code_simp
  ultimately show ?thesis
    using packageStrings_order_independent [OF o, of "''q''" "''DELETE FROM platform_admins''"]
      packageStrings_order_independent [OF o, of "''loop''"] by simp
qed

subsection \<open>What a report says\<close>






lemma scanDecls_tables: "f \<in> set (snd (scanDecls ms ws consts ds)) \<Longrightarrow> fd_Table f \<in> tm_table ` set ms"
  by (induction ds) (auto simp: Let_def split: decl.splits option.splits if_splits dest: find_Some_mem)


definition ex_guard :: MutationGuard where
  "ex_guard = \<lparr>gd_Tables = [''app.platform_admins''], gd_WriterTypes = []\<rparr>"

definition ex_fn :: "string \<Rightarrow> type_expr list \<Rightarrow> node list \<Rightarrow> decl" where
  "ex_fn name params body =
    Func \<lparr>fn_Pos = name @ ''.go:1:1'', fn_Recv = None, fn_Name = name, fn_Params = Some params, fn_Body = Some (OtherNode body)\<rparr>"





text \<open>A limit: the scan matches each literal of a body by itself. A statement concatenated inside the function is not a write to
  it, although the same concatenation in a package-level constant is.\<close>

theorem concatenation_in_body_is_missed:
  "ScanDir no_faults (\<lambda>n. []) ex_guard [(''a.go'', Some [ex_fn ''grant'' []
      [BinaryExpr ''+'' (BasicLit STRING (quoted ''INSERT INTO '')) (BasicLit STRING (quoted ''platform_admins VALUES''))]])]
     = Inr \<lparr>rp_Files = 1, rp_Mutators = 0, rp_Findings = []\<rparr> \<and>
   ScanDir no_faults (\<lambda>n. [''q'']) ex_guard [(''a.go'', Some [ex_fn ''grant'' [] [Ident ''q''],
      Gen CONST_tok [ValueSpec [''q'']
        [BinaryExpr ''+'' (BasicLit STRING (quoted ''INSERT INTO '')) (BasicLit STRING (quoted ''platform_admins VALUES''))]]])]
     = Inr \<lparr>rp_Files = 1, rp_Mutators = 1, rp_Findings = [\<lparr>fd_Position = ''grant.go:1:1'', fd_Func = ''grant'', fd_Table = ''app.platform_admins''\<rparr>]\<rparr>"
  by code_simp

subsection \<open>The statements the pattern recognises\<close>

definition after_word :: "char option \<Rightarrow> string \<Rightarrow> char option" where
  "after_word prev w = (if w = [] then prev else Some (last w))"

lemma p_seq_mem: "q \<in> set (f p) \<Longrightarrow> r \<in> set (g q) \<Longrightarrow> r \<in> set (p_seq f g p)"
  by (auto simp: p_seq_def)

lemma p_one_mem: "P c \<Longrightarrow> (Some c, s) \<in> set (p_one P (prev, c # s))"
  by (simp add: p_one_def)

lemma p_seq_one: "P c \<Longrightarrow> r \<in> set (g (Some c, s)) \<Longrightarrow> r \<in> set (p_seq (p_one P) g (prev, c # s))"
  by (simp add: p_seq_def p_one_def)

lemma p_word_mem: "map lower_char w = v \<Longrightarrow> (after_word prev w, s) \<in> set (p_word v (prev, w @ s))"
  by (induction w arbitrary: v prev) (fastforce simp: after_word_def p_one_def)+

lemma p_many_mem: "list_all P w \<Longrightarrow> (after_word prev w, s) \<in> set (p_many P (prev, w @ s))"
proof (induction w arbitrary: prev)
  case Nil
  show ?case by (cases s) (simp_all add: p_many_def after_word_def)
next
  case (Cons c w)
  then show ?case using Cons.IH [of "Some c"] by (auto simp: p_many_def after_word_def split: if_splits)
qed

lemma p_opt_skip: "p \<in> set (p_opt f p)"
  by (simp add: p_opt_def)

lemma p_seq_many: "list_all P w \<Longrightarrow> r \<in> set (g (after_word prev w, s)) \<Longrightarrow> r \<in> set (p_seq (p_many P) g (prev, w @ s))"
  using p_many_mem [of P w prev s] by (auto simp: p_seq_def)

lemma p_seq_skip: "r \<in> set (g p) \<Longrightarrow> r \<in> set (p_seq (p_opt f) g p)"
  by (simp add: p_seq_def p_opt_def)

lemma p_seq_word: "map lower_char w = v \<Longrightarrow> r \<in> set (g (after_word prev w, s)) \<Longrightarrow> r \<in> set (p_seq (p_word v) g (prev, w @ s))"
  using p_word_mem [of w v prev s] by (auto simp: p_seq_def)

lemma p_opt_take: "q \<in> set (f p) \<Longrightarrow> q \<in> set (p_opt f p)"
  by (simp add: p_opt_def)

lemma p_spaces_mem: "re_space c \<Longrightarrow> (Some c, s) \<in> set (p_spaces (prev, c # s))"
  using p_many_mem [of re_space "[]" "Some c" s] by (auto simp: p_spaces_def after_word_def intro: p_seq_mem p_one_mem)

lemma p_seq_spaces: "re_space c \<Longrightarrow> r \<in> set (g (Some c, s)) \<Longrightarrow> r \<in> set (p_seq p_spaces g (prev, c # s))"
  using p_spaces_mem [of c s prev] by (auto simp: p_seq_def)

lemma p_boundary_mem: "re_word_char c \<Longrightarrow> post = [] \<or> \<not> re_word_char (hd post) \<Longrightarrow> (Some c, post) \<in> set (p_boundary (Some c, post))"
  by (cases post) (simp_all add: p_boundary_def)

lemma lower_ident: "ident_first c \<or> ident_rest c \<Longrightarrow> lower_char c = c"
  by (auto simp: lower_char_def ident_first_def ident_rest_def less_eq_char_def)

lemma p_schema_mem:
  assumes "ValidIdentifier schema"
  shows "(Some CHR ''.'', s) \<in> set (p_schema (prev, schema @ CHR ''.'' # s))"
proof -
  obtain c cs where sc: "schema = c # cs" "ident_first c" "list_all ident_rest cs"
    using assms by (cases schema) (auto simp: ValidIdentifier_def)
  then have ok: "list_all (\<lambda>c. ident_rest (lower_char c)) cs" "ident_first (lower_char c)"
    by (auto simp: list_all_iff lower_ident)
  show ?thesis
    unfolding p_schema_def p_quote_def sc(1) append_Cons
    by (intro p_opt_take p_seq_one p_seq_many p_seq_skip p_opt_skip ok refl)
qed

lemma match_from_append: "m (after_word prev pre, s) \<noteq> [] \<Longrightarrow> match_from m prev (pre @ s)"
proof (induction pre arbitrary: prev)
  case Nil
  then show ?case by (cases s) (auto simp: after_word_def)
next
  case (Cons c pre)
  then show ?case using Cons.IH [of "Some c"] by (auto simp: after_word_def split: if_splits)
qed

lemma lower_verbs:
  "map lower_char ''INSERT'' = ''insert''" "map lower_char ''INTO'' = ''into''" "map lower_char ''DELETE'' = ''delete''"
  "map lower_char ''FROM'' = ''from''" "map lower_char ''UPDATE'' = ''update''"
  by code_simp+

lemma p_verb_mem:
  assumes "verb \<in> {''INSERT INTO'', ''DELETE FROM'', ''UPDATE''}"
  shows "\<exists>c. (Some c, s) \<in> set (p_verb (prev, verb @ s))"
proof -
  have sp: "re_space CHR '' ''" by (simp add: re_space_def)
  have two: "(Some (last w2), s) \<in> set (p_seq (p_word v1) (p_seq p_spaces (p_word v2)) (prev, w1 @ CHR '' '' # w2 @ s))"
    if "map lower_char w1 = v1" "map lower_char w2 = v2" "w2 \<noteq> []" for w1 w2 v1 v2
  proof -
    have "(after_word (Some CHR '' '') w2, s) \<in> set (p_word v2 (Some CHR '' '', w2 @ s))" by (rule p_word_mem [OF that(2)])
    then have "(after_word (Some CHR '' '') w2, s) \<in> set (p_seq p_spaces (p_word v2) (after_word prev w1, CHR '' '' # w2 @ s))"
      by (rule p_seq_spaces [OF sp])
    then have "(after_word (Some CHR '' '') w2, s) \<in> set (p_seq (p_word v1) (p_seq p_spaces (p_word v2)) (prev, w1 @ CHR '' '' # w2 @ s))"
      by (rule p_seq_word [OF that(1)])
    then show ?thesis using that(3) by (simp add: after_word_def)
  qed
  have "(Some CHR ''O'', s) \<in> set (p_verb (prev, ''INSERT'' @ CHR '' '' # ''INTO'' @ s))"
    using two [OF lower_verbs(1,2)] unfolding p_verb_def p_alt_def by simp
  moreover have "(Some CHR ''M'', s) \<in> set (p_verb (prev, ''DELETE'' @ CHR '' '' # ''FROM'' @ s))"
    using two [OF lower_verbs(3,4)] unfolding p_verb_def p_alt_def by simp
  moreover have "(Some CHR ''E'', s) \<in> set (p_verb (prev, ''UPDATE'' @ s))"
    using p_word_mem [OF lower_verbs(5), of prev s] unfolding p_verb_def p_alt_def after_word_def
    by (simp del: p_word.simps)
  ultimately show ?thesis using assms by auto
qed

text \<open>The guard sees the writes it is meant to see. A text that contains \<open>INSERT INTO\<close>, \<open>DELETE FROM\<close> or \<open>UPDATE\<close>, a space and the
  protected table's name, qualified by any schema or not, and then no further word character, matches the table's
  pattern, wherever in the text it stands.\<close>

theorem writes_are_recognised:
  assumes "verb \<in> {''INSERT INTO'', ''DELETE FROM'', ''UPDATE''}" "qual = [] \<or> (\<exists>schema. ValidIdentifier schema \<and> qual = schema @ ''.'')"
    and "ValidIdentifier name" "re_word_char (last name)" "post = [] \<or> \<not> re_word_char (hd post)"
  shows "MatchString (write_pattern name) (pre @ verb @ '' '' @ qual @ name @ post)"
proof -
  have nm: "map lower_char name = name" "name \<noteq> []"
    using assms(3) by (cases name; auto simp: ValidIdentifier_def list_all_iff lower_ident map_idI)+
  obtain c where v: "(Some c, '' '' @ qual @ name @ post) \<in> set (p_verb (after_word None pre, verb @ '' '' @ qual @ name @ post))"
    using p_verb_mem [OF assms(1)] by blast
  have "(Some (last name), post) \<in> set (p_seq (p_word name) (p_seq p_quote p_boundary) (p, name @ post))" for p
    using nm p_boundary_mem [OF assms(4,5)]
    by (intro p_seq_word) (simp_all add: after_word_def p_quote_def p_seq_skip)
  moreover have "\<exists>p. (p, name @ post) \<in> set (p_schema (Some CHR '' '', qual @ name @ post))"
  proof (cases "qual = []")
    case True
    then show ?thesis by (intro exI [of _ "Some CHR '' ''"]) (simp add: p_schema_def p_opt_skip)
  next
    case False
    then obtain schema where "ValidIdentifier schema" "qual = schema @ ''.''" using assms(2) by blast
    then show ?thesis using p_schema_mem [of schema "name @ post" "Some CHR '' ''"] by auto
  qed
  ultimately have "(Some (last name), post) \<in> set (p_seq p_schema (p_seq (p_word name) (p_seq p_quote p_boundary)) (Some CHR '' '', qual @ name @ post))"
    by (blast intro: p_seq_mem)
  then have "(Some (last name), post) \<in> set (p_seq p_quote (p_seq p_schema (p_seq (p_word name) (p_seq p_quote p_boundary)))
      (Some CHR '' '', qual @ name @ post))"
    unfolding p_quote_def by (rule p_seq_skip)
  then have "(Some (last name), post) \<in> set (p_seq p_spaces (p_seq p_quote (p_seq p_schema (p_seq (p_word name) (p_seq p_quote p_boundary))))
      (Some c, '' '' @ qual @ name @ post))"
    by (simp add: p_seq_spaces re_space_def)
  then have "(Some (last name), post) \<in> set (write_pattern name (after_word None pre, verb @ '' '' @ qual @ name @ post))"
    unfolding write_pattern_def by (rule p_seq_mem [where f = p_verb, rotated]) (rule v)
  then show ?thesis
    unfolding MatchString_def by (intro match_from_append) (metis empty_iff list.set(1))
qed

theorem writes_are_recognised_witness:
  "MatchString (write_pattern ''platform_admins'') (''WITH x AS ('' @ ''DELETE FROM'' @ '' '' @ ''app.'' @ ''platform_admins'' @ '' WHERE user_id = $1)'')"
proof (rule writes_are_recognised)
  have "ValidIdentifier ''app''" by code_simp
  then show "''app.'' = [] \<or> (\<exists>schema. ValidIdentifier schema \<and> ''app.'' = schema @ ''.'')" by (intro disjI2 exI [of _ "''app''"]) simp
  show "ValidIdentifier ''platform_admins''" "re_word_char (last ''platform_admins'')" by code_simp+
  have "\<not> re_word_char CHR '' ''" by code_simp
  then show "'' WHERE user_id = $1)'' = [] \<or> \<not> re_word_char (hd '' WHERE user_id = $1)'')" by simp
qed simp

end
