(* ===== verification/Schema_Check.thy ===== *)
theory Schema_Check
  imports Prelude "HOL-Library.Product_Lexorder"
begin

text \<open>
  Package \<open>identity\<close>: the migration chain (\<open>db.go\<close>) and the two startup assertions that refuse to serve on a database
  that does not fit (\<open>schema_version.go\<close>, \<open>schema_routing.go\<close>).

  The pool is a record: the number of connections in use and the state of the database, of a type of its own. What
  golang-migrate does to that state is an argument (a record \<open>migrate\<close> with its methods), as are the rows the catalog
  query returns. \<open>io 0\<close>: no connection, \<open>io 1\<close>: the schema cannot be created, \<open>io 2\<close>: no driver, \<open>io 3\<close>: no source,
  \<open>io 4\<close>: no migrator; for the catalog lookups \<open>io 1\<close>: the search path cannot be read, \<open>io 2\<close>: the query fails,
  \<open>io 3\<close>: reading its rows fails.
\<close>

subsection \<open>The migration chain (\<open>db.go\<close>)\<close>

definition identitySchemaName :: string where "identitySchemaName = ''identity''"
definition identityMigrationsTable :: string where "identityMigrationsTable = ''identity_schema_migrations''"

text \<open>The errors of golang-migrate, two of which the code tells apart.\<close>

datatype migrate_error = ErrNoChange | ErrNilVersion | MigrateFailed

datatype migration_error =
    AcquireFailed
  | EnsureSchemaFailed
  | DriverFailed
  | SourceFailed
  | InstanceFailed
  | RunFailed migrate_error
  | RollbackFailed migrate_error
  | InvalidDirection string
  | StepFailed migrate_error
  | VersionFailed migrate_error

record 'd pool =
  in_use :: nat
  db_state :: 'd

record 'd migrate =
  mg_Up :: "'d \<Rightarrow> 'd \<times> migrate_error option"
  mg_Down :: "'d \<Rightarrow> 'd \<times> migrate_error option"
  mg_Steps :: "int \<Rightarrow> 'd \<Rightarrow> 'd \<times> migrate_error option"
  mg_Version :: "'d \<Rightarrow> nat \<times> bool \<times> migrate_error option"

definition acquire :: "'d pool \<Rightarrow> 'd pool" where
  "acquire p = p\<lparr>in_use := in_use p + 1\<rparr>"

definition release :: "'d pool \<Rightarrow> 'd pool" where
  "release p = p\<lparr>in_use := in_use p - 1\<rparr>"

text \<open>
  \<open>newMigrator\<close>: a connection is borrowed, and every failure after that gives it back (\<open>conn.Close\<close>, or \<open>driver.Close\<close>,
  which closes the connection it was built over).
\<close>

definition newMigrator :: "io \<Rightarrow> 'd pool \<Rightarrow> 'd pool \<times> migration_error option" where
  "newMigrator io p =
    (if io 0 then (p, Some AcquireFailed)
     else let p1 = acquire p in
       if io 1 then (release p1, Some EnsureSchemaFailed)
       else if io 2 then (release p1, Some DriverFailed)
       else if io 3 then (release p1, Some SourceFailed)
       else if io 4 then (release p1, Some InstanceFailed)
       else (p1, None))"

definition closeMigrator :: "'d pool \<Rightarrow> 'd pool" where
  "closeMigrator p = release p"

text \<open>A failing method is an error unless it only says that nothing changed.\<close>

definition migrate_outcome :: "(migrate_error \<Rightarrow> migration_error) \<Rightarrow> migrate_error option \<Rightarrow> migration_error option" where
  "migrate_outcome wrap e = (case e of None \<Rightarrow> None | Some x \<Rightarrow> if x = ErrNoChange then None else Some (wrap x))"

definition RunMigrations :: "io \<Rightarrow> 'd migrate \<Rightarrow> 'd pool \<Rightarrow> string \<Rightarrow> 'd pool \<times> migration_error option" where
  "RunMigrations io m p direction =
    (case newMigrator io p of
       (p1, Some e) \<Rightarrow> (p1, Some e)
     | (p1, None) \<Rightarrow>
         let (p2, e) =
           (if direction = ''up'' then
              (case mg_Up m (db_state p1) of (d, e) \<Rightarrow> (p1\<lparr>db_state := d\<rparr>, migrate_outcome RunFailed e))
            else if direction = ''down'' then
              (case mg_Down m (db_state p1) of (d, e) \<Rightarrow> (p1\<lparr>db_state := d\<rparr>, migrate_outcome RollbackFailed e))
            else (p1, Some (InvalidDirection direction)))
         in (closeMigrator p2, e))"

definition RunMigrationSteps :: "io \<Rightarrow> 'd migrate \<Rightarrow> 'd pool \<Rightarrow> int \<Rightarrow> 'd pool \<times> migration_error option" where
  "RunMigrationSteps io m p n =
    (case newMigrator io p of
       (p1, Some e) \<Rightarrow> (p1, Some e)
     | (p1, None) \<Rightarrow>
         (case mg_Steps m n (db_state p1) of (d, e) \<Rightarrow>
            (closeMigrator (p1\<lparr>db_state := d\<rparr>), migrate_outcome StepFailed e)))"

text \<open>A missing version row is version 0, an answer; what \<open>Version\<close> returns beside \<open>ErrNilVersion\<close> is passed on.\<close>

definition migrationVersion :: "io \<Rightarrow> 'd migrate \<Rightarrow> 'd pool \<Rightarrow> 'd pool \<times> (migration_error + nat \<times> bool)" where
  "migrationVersion io m p =
    (case newMigrator io p of
       (p1, Some e) \<Rightarrow> (p1, Inl e)
     | (p1, None) \<Rightarrow>
         (case mg_Version m (db_state p1) of (version, dirty, e) \<Rightarrow>
            (closeMigrator p1,
             case e of None \<Rightarrow> Inr (version, dirty)
             | Some x \<Rightarrow> if x = ErrNilVersion then Inr (version, dirty) else Inl (VersionFailed x))))"

definition GetMigrationVersion :: "io \<Rightarrow> 'd migrate \<Rightarrow> 'd pool \<Rightarrow> 'd pool \<times> (migration_error + nat \<times> bool)" where
  "GetMigrationVersion io m p = migrationVersion io m p"

subsection \<open>The version the statements need (\<open>schema_version.go\<close>)\<close>

definition RequiredSchemaVersion :: nat where "RequiredSchemaVersion = 8"

record SchemaRequirement =
  rq_Table :: string
  rq_Column :: string
  rq_Version :: nat

text \<open>\<open>%06d\<close>.\<close>

definition six_digits :: "nat \<Rightarrow> string" where
  "six_digits n = (let s = Itoa n in replicate (6 - length s) CHR ''0'' @ s)"

definition Requirement_String :: "SchemaRequirement \<Rightarrow> string" where
  "Requirement_String r = rq_Table r @ ''.'' @ rq_Column r @ '' (added by migration '' @ six_digits (rq_Version r) @ '')''"

definition schemaRequirements :: "SchemaRequirement list" where
  "schemaRequirements =
    [\<lparr>rq_Table = ''api_keys'', rq_Column = ''expiry_notification_sent_at'', rq_Version = 3\<rparr>,
     \<lparr>rq_Table = ''oidc_config'', rq_Column = ''created_by'', rq_Version = 3\<rparr>,
     \<lparr>rq_Table = ''oidc_config'', rq_Column = ''extra_config'', rq_Version = 3\<rparr>,
     \<lparr>rq_Table = ''oidc_config'', rq_Column = ''name'', rq_Version = 3\<rparr>,
     \<lparr>rq_Table = ''oidc_config'', rq_Column = ''provider_type'', rq_Version = 3\<rparr>,
     \<lparr>rq_Table = ''oidc_config'', rq_Column = ''updated_by'', rq_Version = 3\<rparr>,
     \<lparr>rq_Table = ''organizations'', rq_Column = ''idp_name'', rq_Version = 3\<rparr>,
     \<lparr>rq_Table = ''organizations'', rq_Column = ''idp_type'', rq_Version = 3\<rparr>,
     \<lparr>rq_Table = ''audit_logs'', rq_Column = ''actor_email'', rq_Version = 7\<rparr>,
     \<lparr>rq_Table = ''notify_dedup_claims'', rq_Column = ''claimed_at'', rq_Version = 8\<rparr>,
     \<lparr>rq_Table = ''notify_dedup_claims'', rq_Column = ''dedup_key'', rq_Version = 8\<rparr>]"

text \<open>A stable sort by version, then table, then column.\<close>

definition SchemaRequirements :: "SchemaRequirement list" where
  "SchemaRequirements = sort_key (\<lambda>r. (rq_Version r, rq_Table r, rq_Column r)) schemaRequirements"

definition UnmetSchemaRequirements :: "nat \<Rightarrow> SchemaRequirement list" where
  "UnmetSchemaRequirements version = filter (\<lambda>r. version < rq_Version r) SchemaRequirements"

datatype version_error =
    VersionNoDatabase
  | VersionUnreadable migration_error
  | DirtyChain nat
  | VersionTooOld nat "string list"

definition checkSchemaVersion :: "nat \<Rightarrow> bool \<Rightarrow> version_error option" where
  "checkSchemaVersion version dirty =
    (if dirty then Some (DirtyChain version)
     else let unmet = UnmetSchemaRequirements version in
       if RequiredSchemaVersion \<le> version \<and> length unmet = 0 then None
       else Some (VersionTooOld version (map Requirement_String unmet)))"

text \<open>The handle may be missing (\<open>None\<close>).\<close>

definition VerifySchemaVersion :: "io \<Rightarrow> 'd migrate \<Rightarrow> 'd pool option \<Rightarrow> 'd pool option \<times> version_error option" where
  "VerifySchemaVersion io m db =
    (case db of
       None \<Rightarrow> (None, Some VersionNoDatabase)
     | Some p \<Rightarrow>
         (case migrationVersion io m p of
            (p1, Inl e) \<Rightarrow> (Some p1, Some (VersionUnreadable e))
          | (p1, Inr (version, dirty)) \<Rightarrow> (Some p1, checkSchemaVersion version dirty)))"

subsection \<open>The tables a connection reaches (\<open>schema_routing.go\<close>)\<close>

definition repositoryTables :: "string list" where
  "repositoryTables =
    [''api_keys'', ''audit_logs'', ''notify_dedup_claims'', ''oidc_config'', ''organization_members'', ''organizations'',
     ''revoked_tokens'', ''role_templates'', ''users'']"

definition RepositoryTables :: "string list" where
  "RepositoryTables = repositoryTables"

record TableRouting =
  rt_Table :: string
  rt_Schema :: string
  rt_Kind :: string

definition Qualified :: "TableRouting \<Rightarrow> string" where
  "Qualified r = (if rt_Schema r = [] then [] else rt_Schema r @ ''.'' @ rt_Table r)"

record Routing =
  rg_SearchPath :: string
  rg_Tables :: "TableRouting list"

datatype routing_problem =
    RoutesNowhere string
  | RoutesElsewhere string string
  | NotATable string string string

datatype routing_error =
    RoutingNoDatabase
  | RoutingNoConnection
  | RoutingNoSearchPath
  | RoutingQueryFailed
  | RoutingRowsFailed
  | RoutingRowCount nat nat
  | NoSchemaNamed
  | WrongRouting string "routing_problem list"

text \<open>
  The catalog query on a connection: the relation its search path finds for a name (\<open>to_regclass\<close>), as schema and kind,
  one row for every name asked for, ordered by name.
\<close>

type_synonym regclass = "string \<rightharpoonup> string \<times> string"

definition resolveRoutingQuery :: "regclass \<Rightarrow> string list \<Rightarrow> TableRouting list" where
  "resolveRoutingQuery reg tables =
    map (\<lambda>name. case reg name of
           None \<Rightarrow> \<lparr>rt_Table = name, rt_Schema = [], rt_Kind = []\<rparr>
         | Some (schema, kind) \<Rightarrow> \<lparr>rt_Table = name, rt_Schema = schema, rt_Kind = kind\<rparr>) (sort tables)"

text \<open>\<open>io 4\<close>: the driver drops the last row without reporting it, which the count catches.\<close>

definition ResolveRouting ::
  "io \<Rightarrow> string \<Rightarrow> regclass \<Rightarrow> 'd pool option \<Rightarrow> string list \<Rightarrow> 'd pool option \<times> (routing_error + Routing)" where
  "ResolveRouting io searchPath reg db tables0 =
    (case db of
       None \<Rightarrow> (None, Inl RoutingNoDatabase)
     | Some p \<Rightarrow>
         let tables = (if length tables0 = 0 then repositoryTables else tables0) in
         if io 0 then (Some p, Inl RoutingNoConnection)
         else let p1 = acquire p in
           (Some (release p1),
            if io 1 then Inl RoutingNoSearchPath
            else if io 2 then Inl RoutingQueryFailed
            else if io 3 then Inl RoutingRowsFailed
            else let rows = resolveRoutingQuery reg tables; got = (if io 4 then butlast rows else rows) in
              if length got \<noteq> length tables then Inl (RoutingRowCount (length tables) (length got))
              else Inr \<lparr>rg_SearchPath = searchPath, rg_Tables = got\<rparr>))"

definition tableKinds :: "(string \<times> string) list" where
  "tableKinds =
    [(''r'', ''ordinary table''), (''p'', ''partitioned table''), (''v'', ''view''), (''m'', ''materialised view''),
     (''f'', ''foreign table'')]"

definition routing_problems :: "string \<Rightarrow> TableRouting \<Rightarrow> routing_problem list" where
  "routing_problems schema r =
    (if rt_Schema r = [] then [RoutesNowhere (rt_Table r)]
     else if rt_Schema r \<noteq> schema then [RoutesElsewhere (rt_Table r) (Qualified r)]
     else case map_of tableKinds (rt_Kind r) of
            None \<Rightarrow> [NotATable (rt_Table r) (Qualified r) (rt_Kind r)]
          | Some _ \<Rightarrow> [])"

definition VerifySchemaRouting ::
  "io \<Rightarrow> string \<Rightarrow> regclass \<Rightarrow> 'd pool option \<Rightarrow> string \<Rightarrow> 'd pool option \<times> routing_error option" where
  "VerifySchemaRouting io searchPath reg db schema0 =
    (let schema = TrimSpace schema0 in
     if schema = [] then (db, Some NoSchemaNamed)
     else case ResolveRouting io searchPath reg db [] of
            (db1, Inl e) \<Rightarrow> (db1, Some e)
          | (db1, Inr routing) \<Rightarrow>
              let problems = concat (map (routing_problems schema) (rg_Tables routing)) in
              (db1, if length problems = 0 then None else Some (WrongRouting (rg_SearchPath routing) problems)))"

subsection \<open>Connections\<close>

lemma release_acquire [simp]: "release (acquire p) = p"
  by (simp add: acquire_def release_def)

lemma release_acquire_state [simp]: "release (acquire p\<lparr>db_state := d\<rparr>) = p\<lparr>db_state := d\<rparr>"
  by (simp add: acquire_def release_def)

lemma newMigrator_disj: "newMigrator io p = (acquire p, None) \<or> (\<exists>e. newMigrator io p = (p, Some e))"
  by (simp add: newMigrator_def Let_def)

lemma newMigrator_cases:
  obtains (failed) e where "newMigrator io p = (p, Some e)"
  | (ok) "newMigrator io p = (acquire p, None)"
  using newMigrator_disj [of io p] by blast

lemma migrationVersion_pool: "fst (migrationVersion io m p) = p"
  by (cases rule: newMigrator_cases [of io p]) (auto simp: migrationVersion_def closeMigrator_def split: prod.splits)

lemma RunMigrations_in_use: "in_use (fst (RunMigrations io m p direction)) = in_use p"
  by (cases rule: newMigrator_cases [of io p])
    (auto simp: RunMigrations_def closeMigrator_def acquire_def release_def split: prod.splits)

lemma RunMigrationSteps_in_use: "in_use (fst (RunMigrationSteps io m p n)) = in_use p"
  by (cases rule: newMigrator_cases [of io p])
    (auto simp: RunMigrationSteps_def closeMigrator_def acquire_def release_def split: prod.splits)

lemma ResolveRouting_pool: "fst (ResolveRouting io sp reg db ts) = db"
  by (simp add: ResolveRouting_def Let_def split: option.splits)

lemma VerifySchemaVersion_pool: "fst (VerifySchemaVersion io m db) = db"
proof (cases db)
  case (Some p)
  then show ?thesis
    using migrationVersion_pool [of io m p]
    by (cases "migrationVersion io m p") (auto simp: VerifySchemaVersion_def split: sum.splits prod.splits)
qed (simp add: VerifySchemaVersion_def)

lemma VerifySchemaRouting_pool: "fst (VerifySchemaRouting io sp reg db schema) = db"
proof -
  have "fst (ResolveRouting io sp reg db []) = db" by (rule ResolveRouting_pool)
  then show ?thesis
    by (cases "ResolveRouting io sp reg db []") (auto simp: VerifySchemaRouting_def Let_def split: sum.splits)
qed

text \<open>Every migration entry point and both startup assertions return the connection they borrow, whichever call on the
  way fails and whatever the migration does, so a probe that calls them repeatedly never drains the pool; the
  assertions leave the database itself alone.\<close>

theorem connections_returned:
  "in_use (fst (RunMigrations io m p direction)) = in_use p \<and>
   in_use (fst (RunMigrationSteps io m p n)) = in_use p \<and>
   fst (GetMigrationVersion io m p) = p \<and>
   fst (VerifySchemaVersion io m (Some p)) = Some p \<and>
   fst (VerifySchemaRouting io sp reg (Some p) schema) = Some p"
  by (simp add: RunMigrations_in_use RunMigrationSteps_in_use GetMigrationVersion_def migrationVersion_pool
      VerifySchemaVersion_pool VerifySchemaRouting_pool)

subsection \<open>The version gate and the migration files\<close>

text \<open>The columns the migration files add and drop (\<open>migrations/*.up.sql\<close>), in the order of the chain.\<close>

datatype column_change = AddColumn string string | DropColumn string string

definition add_columns :: "string \<Rightarrow> string list \<Rightarrow> column_change list" where
  "add_columns t cs = map (AddColumn t) cs"

definition migrations :: "column_change list list" where
  "migrations =
    [add_columns ''organizations''
       [''id'', ''name'', ''display_name'', ''description'', ''is_active'', ''created_at'', ''updated_at'']
     @ add_columns ''users'' [''id'', ''email'', ''name'', ''oidc_sub'', ''is_active'', ''created_at'', ''updated_at'']
     @ add_columns ''role_templates''
       [''id'', ''name'', ''display_name'', ''description'', ''scopes'', ''is_system'', ''created_at'', ''updated_at'']
     @ add_columns ''organization_members''
       [''id'', ''organization_id'', ''user_id'', ''role_template_id'', ''created_at'', ''updated_at'']
     @ add_columns ''api_keys''
       [''id'', ''user_id'', ''organization_id'', ''name'', ''description'', ''key_hash'', ''key_prefix'', ''scopes'',
        ''expires_at'', ''last_used_at'', ''is_active'', ''created_at'', ''updated_at'']
     @ add_columns ''audit_logs''
       [''id'', ''user_id'', ''organization_id'', ''action'', ''resource_type'', ''resource_id'', ''ip_address'', ''metadata'',
        ''created_at'']
     @ add_columns ''oidc_config''
       [''id'', ''issuer_url'', ''client_id'', ''client_secret_encrypted'', ''redirect_url'', ''scopes'', ''is_active'',
        ''created_at'', ''updated_at'']
     @ add_columns ''system_settings'' [''key'', ''value'', ''updated_at'']
     @ add_columns ''revoked_tokens'' [''jti'', ''user_id'', ''expires_at'', ''revoked_at''],
     add_columns ''org_quotas'' [''organization_id'', ''max_members'', ''max_api_keys'', ''created_at'', ''updated_at''],
     add_columns ''organizations'' [''idp_type'', ''idp_name'']
     @ add_columns ''api_keys'' [''expiry_notification_sent_at'']
     @ add_columns ''oidc_config'' [''name'', ''provider_type'', ''extra_config'', ''created_by'', ''updated_by''],
     [DropColumn ''organizations'' ''is_active'', DropColumn ''users'' ''is_active'', DropColumn ''api_keys'' ''is_active''],
     [],
     [],
     add_columns ''audit_logs'' [''actor_email''],
     add_columns ''notify_dedup_claims'' [''dedup_key'', ''claimed_at'']]"

text \<open>\<open>ADD COLUMN IF NOT EXISTS\<close> and \<open>DROP COLUMN IF EXISTS\<close> on the list of columns.\<close>

fun apply_change :: "column_change \<Rightarrow> (string \<times> string) list \<Rightarrow> (string \<times> string) list" where
  "apply_change (AddColumn t c) cols = (if (t, c) \<in> set cols then cols else cols @ [(t, c)])"
| "apply_change (DropColumn t c) cols = filter (\<lambda>tc. tc \<noteq> (t, c)) cols"

definition columns_at :: "nat \<Rightarrow> (string \<times> string) list" where
  "columns_at v = fold (fold apply_change) (take v migrations) []"

definition column_exists :: "nat \<Rightarrow> SchemaRequirement \<Rightarrow> bool" where
  "column_exists v r \<longleftrightarrow> (rq_Table r, rq_Column r) \<in> set (columns_at v)"

lemma fold_fold_concat: "fold (fold f) xss acc = fold f (concat xss) acc"
  by (induction xss arbitrary: acc) simp_all

lemma mem_fold_apply_change:
  "DropColumn t c \<notin> set chs \<Longrightarrow> (t, c) \<in> set (fold apply_change chs cols) \<longleftrightarrow> (t, c) \<in> set cols \<or> AddColumn t c \<in> set chs"
proof (induction chs arbitrary: cols)
  case (Cons ch chs)
  then show ?case by (cases ch) auto
qed simp

text \<open>Each listed column is added by the migration the list names, by no other, and never dropped.\<close>

definition added_once :: "SchemaRequirement \<Rightarrow> bool" where
  "added_once r \<longleftrightarrow> list_all (\<lambda>(i, chs). DropColumn (rq_Table r) (rq_Column r) \<notin> set chs \<and>
     (AddColumn (rq_Table r) (rq_Column r) \<in> set chs \<longleftrightarrow> i = rq_Version r)) (enumerate 1 migrations)"

lemma requirements_added_once: "list_all added_once schemaRequirements"
  by code_simp

lemma requirements_bounded: "list_all (\<lambda>r. 1 \<le> rq_Version r \<and> rq_Version r \<le> 8) schemaRequirements"
  by code_simp

lemma added_once_nth:
  assumes "added_once r" "i < length migrations"
  shows "DropColumn (rq_Table r) (rq_Column r) \<notin> set (migrations ! i)"
    and "AddColumn (rq_Table r) (rq_Column r) \<in> set (migrations ! i) \<longleftrightarrow> Suc i = rq_Version r"
proof -
  have "(Suc i, migrations ! i) \<in> set (enumerate 1 migrations)"
    using assms(2) by (auto simp: in_set_enumerate_eq)
  then show "DropColumn (rq_Table r) (rq_Column r) \<notin> set (migrations ! i)"
    and "AddColumn (rq_Table r) (rq_Column r) \<in> set (migrations ! i) \<longleftrightarrow> Suc i = rq_Version r"
    using assms(1) by (fastforce simp: added_once_def list_all_iff)+
qed

lemma length_migrations: "length migrations = 8"
  by (simp add: migrations_def)

lemma column_exists_iff:
  assumes "r \<in> set schemaRequirements"
  shows "column_exists v r \<longleftrightarrow> rq_Version r \<le> v"
proof -
  have once: "added_once r" and b: "1 \<le> rq_Version r" "rq_Version r \<le> 8"
    using assms requirements_added_once requirements_bounded by (auto simp: list_all_iff)
  have mem: "ch \<in> set (concat (take v migrations)) \<longleftrightarrow> (\<exists>i < length migrations. i < v \<and> ch \<in> set (migrations ! i))" for ch
  proof -
    have "set (take v migrations) = {migrations ! i |i. i < length migrations \<and> i < v}"
      by (auto simp: set_conv_nth) (metis nth_take)
    then show ?thesis by (simp only: set_concat) blast
  qed
  have "column_exists v r \<longleftrightarrow> (\<exists>i < length migrations. i < v \<and> Suc i = rq_Version r)"
    using added_once_nth [OF once] mem
    by (auto simp: column_exists_def columns_at_def fold_fold_concat mem_fold_apply_change)
  also have "\<dots> \<longleftrightarrow> rq_Version r \<le> v"
    using b by (auto simp: length_migrations intro: exI [of _ "rq_Version r - 1"])
  finally show ?thesis .
qed

lemma set_SchemaRequirements: "set SchemaRequirements = set schemaRequirements"
  by (simp add: SchemaRequirements_def)

lemma Unmet_iff: "r \<in> set (UnmetSchemaRequirements v) \<longleftrightarrow> r \<in> set schemaRequirements \<and> \<not> column_exists v r"
  by (auto simp: UnmetSchemaRequirements_def set_SchemaRequirements column_exists_iff)

lemma Unmet_Nil_iff: "UnmetSchemaRequirements v = [] \<longleftrightarrow> RequiredSchemaVersion \<le> v"
proof -
  have "list_ex (\<lambda>r. rq_Version r = 8) schemaRequirements" by code_simp
  then show ?thesis
    using requirements_bounded
    by (auto simp: UnmetSchemaRequirements_def set_SchemaRequirements filter_empty_conv RequiredSchemaVersion_def
        list_all_iff list_ex_iff not_less)
qed

text \<open>C35: the version gate agrees with the migration files. The requirements a database at version \<open>v\<close> does not meet are
  exactly the listed columns that the first \<open>v\<close> migrations do not leave in place; the gate passes exactly on a clean
  chain at \<open>RequiredSchemaVersion\<close> or later, and then every listed column exists; when it refuses for its version, what it
  names is never empty.\<close>

theorem version_gate_matches_migrations:
  "(r \<in> set (UnmetSchemaRequirements v) \<longleftrightarrow> r \<in> set schemaRequirements \<and> \<not> column_exists v r) \<and>
   (checkSchemaVersion v dirty = None \<longleftrightarrow> \<not> dirty \<and> RequiredSchemaVersion \<le> v) \<and>
   (checkSchemaVersion v dirty = None \<longleftrightarrow> \<not> dirty \<and> list_all (column_exists v) schemaRequirements) \<and>
   (\<forall>w missing. checkSchemaVersion v dirty = Some (VersionTooOld w missing) \<longrightarrow>
      w = v \<and> missing = map Requirement_String (UnmetSchemaRequirements v) \<and> missing \<noteq> [])"
proof -
  have "list_all (column_exists v) schemaRequirements \<longleftrightarrow> UnmetSchemaRequirements v = []"
    using Unmet_iff [of _ v] by (auto simp: list_all_iff) (metis list.set_intros(1) neq_Nil_conv)
  then show ?thesis
    by (auto simp: Unmet_iff checkSchemaVersion_def Let_def Unmet_Nil_iff [symmetric] split: if_splits)
qed

theorem version_gate_matches_migrations_witness:
  "map Requirement_String (UnmetSchemaRequirements 7) =
      [''notify_dedup_claims.claimed_at (added by migration 000008)'',
       ''notify_dedup_claims.dedup_key (added by migration 000008)'']"
proof -
  let ?missing = "[''notify_dedup_claims.claimed_at (added by migration 000008)'', ''notify_dedup_claims.dedup_key (added by migration 000008)'']"
  have "checkSchemaVersion 7 False = Some (VersionTooOld 7 ?missing)" by code_simp
  moreover have "\<forall>w missing. checkSchemaVersion 7 False = Some (VersionTooOld w missing) \<longrightarrow>
      w = 7 \<and> missing = map Requirement_String (UnmetSchemaRequirements 7) \<and> missing \<noteq> []"
    using version_gate_matches_migrations [of "hd schemaRequirements" 7 False] by (elim conjE)
  ultimately show ?thesis by (simp only: simp_thms)
qed

text \<open>After a migration up that leaves the chain at its head, as golang-migrate documents, the gate passes.\<close>

theorem migrated_database_passes:
  assumes up: "\<forall>d d' e. mg_Up m d = (d', e) \<and> (e = None \<or> e = Some ErrNoChange) \<longrightarrow> mg_Version m d' = (length migrations, False, None)"
    and run: "RunMigrations io m p ''up'' = (p', None)" and io: "\<forall>n. \<not> io' n"
  shows "VerifySchemaVersion io' m (Some p') = (Some p', None)"
proof -
  obtain d e where u: "mg_Up m (db_state p) = (d, e)" by fastforce
  with run have p': "p' = p\<lparr>db_state := d\<rparr>" and e: "migrate_outcome RunFailed e = None"
    by (cases rule: newMigrator_cases [of io p]; auto simp: RunMigrations_def closeMigrator_def acquire_def release_def)+
  from e have "e = None \<or> e = Some ErrNoChange" by (auto simp: migrate_outcome_def split: option.splits if_splits)
  with up u have "mg_Version m d = (8, False, None)" by (fastforce simp: migrations_def)
  then show ?thesis
    using io by (simp add: VerifySchemaVersion_def migrationVersion_def newMigrator_def Let_def acquire_def release_def
        closeMigrator_def p' checkSchemaVersion_def Unmet_Nil_iff RequiredSchemaVersion_def)
qed

subsection \<open>Routing\<close>

definition routed :: "string \<Rightarrow> regclass \<Rightarrow> string \<Rightarrow> bool" where
  "routed schema reg t \<longleftrightarrow>
    (case reg t of None \<Rightarrow> False | Some (s, kind) \<Rightarrow> s = schema \<and> kind \<in> {''r'', ''p'', ''v'', ''m'', ''f''})"

lemma tableKinds_iff: "map_of tableKinds k = None \<longleftrightarrow> k \<notin> {''r'', ''p'', ''v'', ''m'', ''f''}"
  by (auto simp: tableKinds_def)

lemma routing_problems_Nil:
  assumes "schema \<noteq> []"
  shows "routing_problems schema (case reg t of None \<Rightarrow> \<lparr>rt_Table = t, rt_Schema = [], rt_Kind = []\<rparr>
      | Some (s, kind) \<Rightarrow> \<lparr>rt_Table = t, rt_Schema = s, rt_Kind = kind\<rparr>) = [] \<longleftrightarrow> routed schema reg t"
  using assms by (cases "reg t") (auto simp: routing_problems_def routed_def tableKinds_def)

lemma no_routing_problems:
  "schema \<noteq> [] \<Longrightarrow> concat (map (routing_problems schema) (resolveRoutingQuery reg ts)) = [] \<longleftrightarrow> (\<forall>t \<in> set ts. routed schema reg t)"
  by (simp add: resolveRoutingQuery_def routing_problems_Nil)

lemma length_resolveRoutingQuery [simp]: "length (resolveRoutingQuery reg ts) = length ts"
  by (simp add: resolveRoutingQuery_def)

lemma ResolveRouting_Inr_iff:
  "snd (ResolveRouting io sp reg (Some p) []) = Inr g \<longleftrightarrow>
     (\<forall>n < 5. \<not> io n) \<and> g = \<lparr>rg_SearchPath = sp, rg_Tables = resolveRoutingQuery reg repositoryTables\<rparr>"
proof -
  have "(\<forall>n < 5. \<not> io n) \<longleftrightarrow> \<not> io 0 \<and> \<not> io 1 \<and> \<not> io 2 \<and> \<not> io 3 \<and> \<not> io 4"
    by (simp add: numeral_eq_Suc All_less_Suc conj_ac)
  moreover have "length repositoryTables = 9" by (simp add: repositoryTables_def)
  ultimately show ?thesis by (auto simp: ResolveRouting_def Let_def)
qed

text \<open>The routing assertion passes exactly when a schema is named, every catalog call succeeds and each of the nine tables
  the repositories address resolves, through the connection's search path, to a relation of that schema that is a table,
  partitioned table, view, materialised view or foreign table. A name that resolves elsewhere, to an index or to
  nothing, or a row that goes missing, refuses the start.\<close>

theorem VerifySchemaRouting_iff:
  "snd (VerifySchemaRouting io sp reg (Some p) schema) = None \<longleftrightarrow>
     TrimSpace schema \<noteq> [] \<and> (\<forall>n < 5. \<not> io n) \<and> (\<forall>t \<in> set repositoryTables. routed (TrimSpace schema) reg t)"
proof (cases "ResolveRouting io sp reg (Some p) []")
  case (Pair db1 res)
  show ?thesis
  proof (cases res)
    case (Inl e)
    then have "\<not> (\<forall>n < 5. \<not> io n)"
      using ResolveRouting_Inr_iff [of io sp reg p] Pair by fastforce
    with Pair Inl show ?thesis by (auto simp: VerifySchemaRouting_def Let_def)
  next
    case (Inr g)
    then have "(\<forall>n < 5. \<not> io n)" "g = \<lparr>rg_SearchPath = sp, rg_Tables = resolveRoutingQuery reg repositoryTables\<rparr>"
      using ResolveRouting_Inr_iff [of io sp reg p g] Pair by auto
    with Pair Inr show ?thesis
      using no_routing_problems [of "TrimSpace schema" reg repositoryTables]
      by (auto simp: VerifySchemaRouting_def Let_def)
  qed
qed

theorem VerifySchemaRouting_iff_witness:
  "snd (VerifySchemaRouting no_faults ''identity,public'' (\<lambda>t. Some (''identity'', ''r'')) (Some \<lparr>in_use = 0, db_state = ()\<rparr>)
     ''identity'') = None \<and>
   snd (VerifySchemaRouting no_faults ''public'' (\<lambda>t. if t = ''users'' then Some (''public'', ''r'') else Some (''identity'', ''r''))
     (Some \<lparr>in_use = 0, db_state = ()\<rparr>) ''identity'') \<noteq> None"
proof -
  have t: "TrimSpace ''identity'' = ''identity''" by code_simp
  show ?thesis
    unfolding VerifySchemaRouting_iff t by (simp add: routed_def repositoryTables_def)
qed

end
