(* ===== verification/Net_IP.thy ===== *)
theory Net_IP
  imports Base64
begin

unbundle bit_operations_syntax

text \<open>
  The parts of the standard library's package \<open>net\<close> that decide where a connection goes: addresses as byte
  slices (4 or 16 bytes), their classes, the text of an address and its parser (\<open>net.ParseIP\<close>, which is
  \<open>netip.ParseAddr\<close> without zones), networks (\<open>net.IPNet\<close>, \<open>net.ParseCIDR\<close>) and host and port
  (\<open>net.SplitHostPort\<close>, \<open>net.JoinHostPort\<close>). The lemmas relate printing and parsing.
\<close>

type_synonym ip = "byte list"

subsection \<open>Classes of addresses\<close>

definition v4InV6Prefix :: ip where
  "v4InV6Prefix = [0, 0, 0, 0, 0, 0, 0, 0, 0, 0, 0xFF, 0xFF]"

definition To4 :: "ip \<Rightarrow> ip option" where
  "To4 ip = (if length ip = 4 then Some ip
     else if length ip = 16 \<and> take 12 ip = v4InV6Prefix then Some (drop 12 ip) else None)"

text \<open>The 16-byte form of an address.\<close>

definition To16 :: "ip \<Rightarrow> ip" where
  "To16 ip = (if length ip = 4 then v4InV6Prefix @ ip else ip)"

definition IP_Equal :: "ip \<Rightarrow> ip \<Rightarrow> bool" where
  "IP_Equal a b \<longleftrightarrow> (if length a = length b then a = b
     else (length a = 4 \<or> length a = 16) \<and> (length b = 4 \<or> length b = 16) \<and> To16 a = To16 b)"

definition IPv4zero :: ip where "IPv4zero = v4InV6Prefix @ [0, 0, 0, 0]"
definition IPv4bcast :: ip where "IPv4bcast = v4InV6Prefix @ [255, 255, 255, 255]"
definition IPv6unspecified :: ip where "IPv6unspecified = replicate 16 0"
definition IPv6loopback :: ip where "IPv6loopback = replicate 15 0 @ [1]"

definition IsLoopback :: "ip \<Rightarrow> bool" where
  "IsLoopback ip = (case To4 ip of Some ip4 \<Rightarrow> ip4 ! 0 = 127 | None \<Rightarrow> IP_Equal ip IPv6loopback)"

definition IsUnspecified :: "ip \<Rightarrow> bool" where
  "IsUnspecified ip \<longleftrightarrow> IP_Equal ip IPv4zero \<or> IP_Equal ip IPv6unspecified"

definition IsLinkLocalUnicast :: "ip \<Rightarrow> bool" where
  "IsLinkLocalUnicast ip = (case To4 ip of
       Some ip4 \<Rightarrow> ip4 ! 0 = 169 \<and> ip4 ! 1 = 254
     | None \<Rightarrow> length ip = 16 \<and> ip ! 0 = 0xFE \<and> ip ! 1 AND 0xC0 = 0x80)"

definition IsLinkLocalMulticast :: "ip \<Rightarrow> bool" where
  "IsLinkLocalMulticast ip = (case To4 ip of
       Some ip4 \<Rightarrow> ip4 ! 0 = 224 \<and> ip4 ! 1 = 0 \<and> ip4 ! 2 = 0
     | None \<Rightarrow> length ip = 16 \<and> ip ! 0 = 0xFF \<and> ip ! 1 AND 0x0F = 0x02)"

definition IsMulticast :: "ip \<Rightarrow> bool" where
  "IsMulticast ip = (case To4 ip of
       Some ip4 \<Rightarrow> ip4 ! 0 AND 0xF0 = 0xE0
     | None \<Rightarrow> length ip = 16 \<and> ip ! 0 = 0xFF)"

definition IsPrivate :: "ip \<Rightarrow> bool" where
  "IsPrivate ip = (case To4 ip of
       Some ip4 \<Rightarrow> ip4 ! 0 = 10 \<or> ip4 ! 0 = 172 \<and> ip4 ! 1 AND 0xF0 = 16 \<or> ip4 ! 0 = 192 \<and> ip4 ! 1 = 168
     | None \<Rightarrow> length ip = 16 \<and> ip ! 0 AND 0xFE = 0xFC)"

subsection \<open>Networks\<close>

record IPNet =
  net_IP :: ip
  net_Mask :: "byte list"

fun mask_bytes :: "nat \<Rightarrow> nat \<Rightarrow> byte list" where
  "mask_bytes n 0 = []"
| "mask_bytes n (Suc l) =
     (if 8 \<le> n then 0xFF # mask_bytes (n - 8) l else NOT (drop_bit n 0xFF) # mask_bytes 0 l)"

definition CIDRMask :: "nat \<Rightarrow> nat \<Rightarrow> byte list" where
  "CIDRMask ones bits = mask_bytes ones (bits div 8)"

definition networkNumberAndMask :: "IPNet \<Rightarrow> ip \<times> byte list" where
  "networkNumberAndMask n =
    (let ip = (case To4 (net_IP n) of Some x \<Rightarrow> x | None \<Rightarrow> net_IP n); m = net_Mask n in
     if To4 (net_IP n) = None \<and> length ip \<noteq> 16 then ([], [])
     else if length m = 4 then (if length ip \<noteq> 4 then ([], []) else (ip, m))
     else if length m = 16 then (if length ip = 4 then (ip, drop 12 m) else (ip, m))
     else ([], []))"

definition Contains :: "IPNet \<Rightarrow> ip \<Rightarrow> bool" where
  "Contains n ip =
    (let (nn, m) = networkNumberAndMask n; x = (case To4 ip of Some y \<Rightarrow> y | None \<Rightarrow> ip) in
     length x = length nn \<and> map2 (AND) nn m = map2 (AND) x m)"

subsection \<open>Reading an address\<close>

definition is_digit :: "char \<Rightarrow> bool" where
  "is_digit c \<longleftrightarrow> 48 \<le> (of_char c :: nat) \<and> of_char c \<le> (57 :: nat)"

definition digit_val :: "char \<Rightarrow> nat" where
  "digit_val c = of_char c - 48"

definition dec_val :: "string \<Rightarrow> nat" where
  "dec_val s = foldl (\<lambda>v c. v * 10 + digit_val c) 0 s"

definition v4_field :: "string \<Rightarrow> byte option" where
  "v4_field s = (if s \<noteq> [] \<and> list_all is_digit s \<and> (length s = 1 \<or> hd s \<noteq> CHR ''0'') \<and> dec_val s \<le> 255
     then Some (word_of_nat (dec_val s)) else None)"

fun all_some :: "'a option list \<Rightarrow> 'a list option" where
  "all_some [] = Some []"
| "all_some (None # xs) = None"
| "all_some (Some x # xs) = map_option ((#) x) (all_some xs)"

definition parseIPv4 :: "string \<Rightarrow> ip option" where
  "parseIPv4 s = (let fs = Split (CHR ''.'') s in if length fs = 4 then all_some (map v4_field fs) else None)"

definition hex_val :: "char \<Rightarrow> nat option" where
  "hex_val c = (let n = of_char c in
     if 48 \<le> n \<and> n \<le> 57 then Some (n - 48)
     else if 97 \<le> n \<and> n \<le> 102 then Some (n - 87)
     else if 65 \<le> n \<and> n \<le> 70 then Some (n - 55) else None)"

definition hex_group :: "string \<Rightarrow> nat" where
  "hex_group s = foldl (\<lambda>v c. v * 16 + the (hex_val c)) 0 s"

text \<open>One group of the loop of \<open>parseIPv6\<close>: the digits read, what follows, the bytes read so far and the
  position of the ellipsis. The loop runs at most eight times, once for each pair of bytes.\<close>

fun v6_loop :: "nat \<Rightarrow> string \<Rightarrow> ip \<Rightarrow> nat option \<Rightarrow> (ip \<times> nat option) option" where
  "v6_loop 0 s acc e = (if s = [] then Some (acc, e) else None)"
| "v6_loop (Suc k) s acc e =
    (let ds = takeWhile (\<lambda>c. hex_val c \<noteq> None) s; rest = drop (length ds) s in
     if ds = [] \<or> 4 < length ds then None
     else if rest \<noteq> [] \<and> hd rest = CHR ''.'' then
       (if e = None \<and> length acc \<noteq> 12 \<or> 16 < length acc + 4 then None
        else map_option (\<lambda>q. (acc @ q, e)) (parseIPv4 s))
     else
       (let acc' = acc @ [word_of_nat (hex_group ds div 256), word_of_nat (hex_group ds mod 256)] in
        case rest of [] \<Rightarrow> Some (acc', e)
        | c # cs \<Rightarrow>
          if c \<noteq> CHR '':'' \<or> cs = [] then None
          else if hd cs = CHR '':'' then
            (if e \<noteq> None then None
             else if tl cs = [] then Some (acc', Some (length acc'))
             else v6_loop k (tl cs) acc' (Some (length acc')))
          else v6_loop k cs acc' e))"

definition v6_expand :: "ip \<Rightarrow> nat option \<Rightarrow> ip option" where
  "v6_expand acc e = (if length acc < 16 then
       (case e of None \<Rightarrow> None | Some p \<Rightarrow> Some (take p acc @ replicate (16 - length acc) 0 @ drop p acc))
     else if e \<noteq> None then None else Some acc)"

definition parseIPv6 :: "string \<Rightarrow> ip option" where
  "parseIPv6 s =
    (if take 2 s = ''::'' then
       (if drop 2 s = [] then Some IPv6unspecified
        else case v6_loop 8 (drop 2 s) [] (Some 0) of None \<Rightarrow> None | Some (acc, e) \<Rightarrow> v6_expand acc e)
     else case v6_loop 8 s [] None of None \<Rightarrow> None | Some (acc, e) \<Rightarrow> v6_expand acc e)"

text \<open>The first of a dot, a colon and a percent sign selects the parser. An address with a zone is no \<open>net.IP\<close>.\<close>

definition ParseAddr :: "string \<Rightarrow> ip option" where
  "ParseAddr s = (case dropWhile (\<lambda>c. c \<notin> {CHR ''.'', CHR '':'', CHR ''%''}) s of
       [] \<Rightarrow> None
     | c # _ \<Rightarrow> if c = CHR ''.'' then parseIPv4 s
         else if c = CHR '':'' \<and> CHR ''%'' \<notin> set s then parseIPv6 s else None)"

definition ParseIP :: "string \<Rightarrow> ip option" where
  "ParseIP s = map_option To16 (ParseAddr s)"

definition IP_Mask :: "ip \<Rightarrow> byte list \<Rightarrow> ip" where
  "IP_Mask ip m =
    (let m' = (if length m = 16 \<and> length ip = 4 \<and> take 12 m = replicate 12 0xFF then drop 12 m else m);
         ip' = (if length m' = 4 \<and> length ip = 16 \<and> take 12 ip = v4InV6Prefix then drop 12 ip else ip) in
     if length ip' \<noteq> length m' then [] else map2 (AND) ip' m')"

definition ParseCIDR :: "string \<Rightarrow> IPNet option" where
  "ParseCIDR s =
    (let addr = takeWhile (\<lambda>c. c \<noteq> CHR ''/'') s; rest = dropWhile (\<lambda>c. c \<noteq> CHR ''/'') s in
     case rest of [] \<Rightarrow> None
     | _ # bits_text \<Rightarrow>
       (case ParseAddr addr of None \<Rightarrow> None
        | Some a \<Rightarrow>
          let bits = 8 * length a in
          if bits_text = [] \<or> \<not> list_all is_digit bits_text \<or> bits < dec_val bits_text then None
          else let m = CIDRMask (dec_val bits_text) bits in
            Some \<lparr>net_IP = IP_Mask (To16 a) m, net_Mask = m\<rparr>))"

subsection \<open>Writing an address\<close>

definition hex_digit :: "nat \<Rightarrow> char" where
  "hex_digit n = (if n < 10 then char_of (48 + n) else char_of (87 + n))"

fun hex_text :: "nat \<Rightarrow> string" where
  "hex_text n = (if n < 16 then [hex_digit n] else hex_text (n div 16) @ [hex_digit (n mod 16)])"

declare hex_text.simps [simp del]

fun groups :: "ip \<Rightarrow> nat list" where
  "groups (a # b # r) = (unat a * 256 + unat b) # groups r"
| "groups _ = []"

text \<open>The longest run of zero groups, the first of several, as start and length.\<close>

fun zero_run :: "nat list \<Rightarrow> nat" where
  "zero_run (0 # gs) = Suc (zero_run gs)"
| "zero_run _ = 0"

fun best_run :: "nat \<Rightarrow> nat list \<Rightarrow> nat \<times> nat" where
  "best_run i [] = (i, 0)"
| "best_run i (g # gs) = (let r = zero_run (g # gs); (j, l) = best_run (Suc i) gs in if l \<le> r then (i, r) else (j, l))"

definition v6_text :: "nat list \<Rightarrow> string" where
  "v6_text gs = (let (j, l) = best_run 0 gs in
     if 2 \<le> l then Join '':'' (map hex_text (take j gs)) @ ''::'' @ Join '':'' (map hex_text (drop (j + l) gs))
     else Join '':'' (map hex_text gs))"

definition IP_String :: "ip \<Rightarrow> string" where
  "IP_String ip = (case To4 ip of
       Some ip4 \<Rightarrow> Join ''.'' (map (\<lambda>b. Itoa (unat b)) ip4)
     | None \<Rightarrow> if length ip = 16 then v6_text (groups ip)
         else if ip = [] then ''<nil>''
         else ''?'' @ concat (map (\<lambda>b. [hex_digit (unat b div 16), hex_digit (unat b mod 16)]) ip))"

subsection \<open>Host and port\<close>

text \<open>Everything before the last occurrence of a character, and what follows it.\<close>

definition split_last :: "char \<Rightarrow> string \<Rightarrow> (string \<times> string) option" where
  "split_last c s = (if c \<in> set s
     then (let n = length s - Suc (length (takeWhile (\<lambda>x. x \<noteq> c) (rev s))) in Some (take n s, drop (Suc n) s))
     else None)"

definition SplitHostPort :: "string \<Rightarrow> (string \<times> string) option" where
  "SplitHostPort s = (case split_last (CHR '':'') s of None \<Rightarrow> None
     | Some (front, port) \<Rightarrow>
       if hd s = CHR ''['' then
         (let h = takeWhile (\<lambda>c. c \<noteq> CHR '']'') s in
          if length h < length s \<and> front = h @ '']'' \<and> CHR ''['' \<notin> set (tl s) \<and> CHR '']'' \<notin> set port
          then Some (tl h, port) else None)
       else if CHR '':'' \<in> set front \<or> CHR ''['' \<in> set s \<or> CHR '']'' \<in> set s then None
       else Some (front, port))"

definition JoinHostPort :: "string \<Rightarrow> string \<Rightarrow> string" where
  "JoinHostPort h p = (if CHR '':'' \<in> set h then ''['' @ h @ '']:'' @ p else h @ '':'' @ p)"


subsection \<open>Text of an IPv4 address\<close>

lemma of_char_digit [simp]: "n < 10 \<Longrightarrow> (of_char (digit n) :: nat) = 48 + n"
  by (simp add: of_char_of)

lemma digit_facts:
  "n < 10 \<Longrightarrow> is_digit (digit n)" "n < 10 \<Longrightarrow> digit_val (digit n) = n"
  by (simp_all del: digit.simps add: is_digit_def digit_val_def)

lemma Itoa_digits: "list_all is_digit (Itoa n)"
proof (induction n rule: Itoa.induct)
  case (1 n)
  then show ?case
    by (cases "n < 10") (simp_all del: digit.simps add: Itoa.simps [of n] digit_facts)
qed

lemma dec_val_Itoa [simp]: "dec_val (Itoa n) = n"
proof (induction n rule: Itoa.induct)
  case (1 n)
  then show ?case
    by (cases "n < 10") (simp_all del: digit.simps add: Itoa.simps [of n] dec_val_def digit_facts)
qed

lemma digit_eq_0:
  assumes "n < 10"
  shows "digit n = CHR ''0'' \<longleftrightarrow> n = 0"
proof
  assume "digit n = CHR ''0''"
  then have "(of_char (digit n) :: nat) = of_char (CHR ''0'')" by (rule arg_cong)
  also have "\<dots> = 48" by simp
  finally show "n = 0" using assms by (simp del: digit.simps)
qed (simp add: char_of_def bit_Suc_0_iff)

lemma hd_Itoa: "0 < n \<Longrightarrow> hd (Itoa n) \<noteq> CHR ''0''"
proof (induction n rule: Itoa.induct)
  case (1 n)
  then show ?case
    by (cases "n < 10") (simp_all del: digit.simps add: Itoa.simps [of n] digit_eq_0)
qed

lemma v4_field_Itoa [simp]: "v4_field (Itoa (unat b)) = Some b"
proof -
  have "length (Itoa (unat b)) = 1 \<or> hd (Itoa (unat b)) \<noteq> CHR ''0''"
    using hd_Itoa [of "unat b"] by (cases "unat b = 0") (simp_all add: Itoa.simps [of 0])
  with byte_less [of b] show ?thesis by (simp add: v4_field_def Itoa_digits)
qed

lemma Split_app: "d \<notin> set w \<Longrightarrow> Split d (w @ d # s) = w # Split d s"
  by (induction w) auto

lemma Split_single: "d \<notin> set w \<Longrightarrow> Split d w = [w]"
  by (induction w) auto

lemma Split_Join: "ws \<noteq> [] \<Longrightarrow> (\<And>w. w \<in> set ws \<Longrightarrow> d \<notin> set w) \<Longrightarrow> Split d (Join [d] ws) = ws"
  by (induction "[d]" ws rule: Join.induct) (simp_all add: Split_app Split_single)

lemma all_some_map: "(\<And>x. x \<in> set xs \<Longrightarrow> f x = Some (g x)) \<Longrightarrow> all_some (map f xs) = Some (map g xs)"
  by (induction xs) auto

lemma not_in_Itoa: "\<not> is_digit c \<Longrightarrow> c \<notin> set (Itoa n)"
  using Itoa_digits [of n] by (auto simp: list_all_iff)

lemma parseIPv4_text:
  assumes "length a = 4"
  shows "parseIPv4 (Join ''.'' (map (\<lambda>b. Itoa (unat b)) a)) = Some a"
proof -
  have "Split (CHR ''.'') (Join ''.'' (map (\<lambda>b. Itoa (unat b)) a)) = map (\<lambda>b. Itoa (unat b)) a"
    using assms by (intro Split_Join) (auto simp: not_in_Itoa is_digit_def)
  with assms show ?thesis
    by (simp add: parseIPv4_def all_some_map [where g = "\<lambda>b. b"] comp_def)
qed


lemma ParseAddr_v4_text:
  assumes "length a = 4"
  shows "ParseAddr (Join ''.'' (map (\<lambda>b. Itoa (unat b)) a)) = Some a"
proof -
  obtain b r where b: "a = b # r" using assms by (cases a) auto
  with assms have "r \<noteq> []" by auto
  with b have a: "a = b # r" "r \<noteq> []" by simp_all
  let ?t = "Join ''.'' (map (\<lambda>b. Itoa (unat b)) a)"
  obtain s where s: "?t = Itoa (unat b) @ CHR ''.'' # s" using a by (cases r) auto
  have "dropWhile (\<lambda>c. c \<notin> {CHR ''.'', CHR '':'', CHR ''%''}) ?t = CHR ''.'' # s"
    unfolding s by (subst dropWhile_append2) (auto simp: not_in_Itoa is_digit_def dest: not_in_Itoa [rotated])
  then show ?thesis by (simp add: ParseAddr_def parseIPv4_text [OF assms])
qed

subsection \<open>Text of an IPv6 address\<close>

lemma hex_val_digit: "n < 16 \<Longrightarrow> hex_val (hex_digit n) = Some n"
  by (simp add: hex_val_def hex_digit_def Let_def of_char_of)

lemma hex_val_sep [simp]: "hex_val (CHR '':'') = None" "hex_val (CHR ''.'') = None" "hex_val (CHR ''%'') = None"
  by (simp_all add: hex_val_def)

lemma hex_text_Nil [simp]: "hex_text n \<noteq> []"
  by (cases "n < 16") (simp_all add: hex_text.simps [of n])

lemma hex_text_digits: "c \<in> set (hex_text n) \<Longrightarrow> hex_val c \<noteq> None"
proof (induction n rule: hex_text.induct)
  case (1 n)
  then show ?case
    by (cases "n < 16") (auto simp: hex_text.simps [of n] hex_val_digit)
qed

lemma hex_group_text [simp]: "hex_group (hex_text n) = n"
proof (induction n rule: hex_text.induct)
  case (1 n)
  then show ?case
    by (cases "n < 16") (simp_all add: hex_text.simps [of n] hex_group_def hex_val_digit)
qed

lemma length_hex_text: "n < 16 ^ Suc k \<Longrightarrow> length (hex_text n) \<le> Suc k"
proof (induction k arbitrary: n)
  case 0
  then show ?case by (simp add: hex_text.simps [of n])
next
  case (Suc k)
  show ?case
  proof (cases "n < 16")
    case False
    have "n div 16 < 16 ^ Suc k" using Suc.prems by (simp add: less_mult_imp_div_less mult.commute)
    with Suc.IH False show ?thesis by (simp add: hex_text.simps [of n])
  qed (simp add: hex_text.simps [of n])
qed

definition group_bytes :: "nat list \<Rightarrow> ip" where
  "group_bytes gs = concat (map (\<lambda>g. [word_of_nat (g div 256), word_of_nat (g mod 256)]) gs)"

lemma group_bytes_simps [simp]:
  "group_bytes [] = []"
  "group_bytes (g # gs) = word_of_nat (g div 256) # word_of_nat (g mod 256) # group_bytes gs"
  "group_bytes (gs @ hs) = group_bytes gs @ group_bytes hs"
  by (simp_all add: group_bytes_def)

lemma length_group_bytes [simp]: "length (group_bytes gs) = 2 * length gs"
  by (induction gs) auto

lemma group_bytes_zeros: "group_bytes (replicate l 0) = replicate (2 * l) 0"
  by (induction l) auto

lemma byte_div_mod [simp]: "unat (b :: byte) div 256 = 0" "unat (b :: byte) mod 256 = unat b"
  using byte_less [of b] by simp_all

lemma group_bytes_groups: "even (length a) \<Longrightarrow> group_bytes (groups a) = a"
  by (induction a rule: groups.induct) simp_all

lemma groups_facts: "length (groups a) = length a div 2" "g \<in> set (groups a) \<Longrightarrow> g < 65536"
proof (induction a rule: groups.induct)
  case (1 x y r)
  {
    case 1 then show ?case using "1.IH" by simp
  next
    case 2
    then show ?case using "1.IH"(2) byte_less [of x] byte_less [of y] by auto
  }
qed auto

text \<open>One step of the loop on a printed group.\<close>

lemma takeWhile_hex:
  "rest = [] \<or> hex_val (hd rest) = None \<Longrightarrow> takeWhile (\<lambda>c. hex_val c \<noteq> None) (hex_text g @ rest) = hex_text g"
  by (cases rest) (auto simp: takeWhile_append dest: hex_text_digits intro: takeWhile_eq_all_conv [THEN iffD2])

lemma v6_step:
  assumes "g < 65536" "rest = [] \<or> hd rest = CHR '':''"
  shows "v6_loop (Suc k) (hex_text g @ rest) acc e =
    (let acc' = acc @ group_bytes [g] in
     case rest of [] \<Rightarrow> Some (acc', e)
     | c # cs \<Rightarrow>
       if cs = [] then None
       else if hd cs = CHR '':'' then
         (if e \<noteq> None then None
          else if tl cs = [] then Some (acc', Some (length acc'))
          else v6_loop k (tl cs) acc' (Some (length acc')))
       else v6_loop k cs acc' e)"
proof -
  have tw: "takeWhile (\<lambda>c. hex_val c \<noteq> None) (hex_text g @ rest) = hex_text g"
    using assms(2) by (intro takeWhile_hex) auto
  have len: "\<not> 4 < length (hex_text g)" using length_hex_text [of g 3] assms(1) by simp
  show ?thesis
    unfolding v6_loop.simps tw Let_def using assms(2) len by (cases rest) simp_all
qed

lemma hd_hex_text: "hd (hex_text g) \<noteq> CHR '':''"
  using hex_text_digits [OF list.set_sel(1) [OF hex_text_Nil], of g] by auto

lemma hd_Join_hex: "hd (Join '':'' (map hex_text (g # gs))) \<noteq> CHR '':''" "Join '':'' (map hex_text (g # gs)) \<noteq> []"
  by (cases gs; simp add: hd_hex_text)+

lemma v6_loop_groups:
  "(\<And>g. g \<in> set gs \<Longrightarrow> g < 65536) \<Longrightarrow> gs \<noteq> [] \<Longrightarrow> length gs \<le> k \<Longrightarrow>
     v6_loop k (Join '':'' (map hex_text gs)) acc e = Some (acc @ group_bytes gs, e)"
proof (induction gs arbitrary: k acc)
  case (Cons g gs)
  then obtain k' where k: "k = Suc k'" by (cases k) auto
  show ?case
  proof (cases gs)
    case Nil
    with Cons.prems k show ?thesis using v6_step [of g "[]"] by simp
  next
    case (Cons h hs)
    let ?r = "Join '':'' (map hex_text gs)"
    have "v6_loop k' ?r (acc @ group_bytes [g]) e = Some ((acc @ group_bytes [g]) @ group_bytes gs, e)"
      using Cons.prems Cons.IH [of k'] k Cons \<open>gs = h # hs\<close> Cons.prems by (intro Cons.IH) auto
    then show ?thesis
      using v6_step [of g "CHR '':'' # ?r" k' acc e] Cons.prems k \<open>gs = h # hs\<close> hd_Join_hex [of h hs]
      by (simp add: Let_def)
  qed
qed simp

lemma v6_loop_ellipsis:
  "(\<And>g. g \<in> set gs \<Longrightarrow> g < 65536) \<Longrightarrow> gs \<noteq> [] \<Longrightarrow> length gs \<le> k \<Longrightarrow>
     v6_loop k (Join '':'' (map hex_text gs) @ ''::'' @ r) acc None =
       (let acc' = acc @ group_bytes gs in
        if r = [] then Some (acc', Some (length acc')) else v6_loop (k - length gs) r acc' (Some (length acc')))"
proof (induction gs arbitrary: k acc)
  case (Cons g gs)
  then obtain k' where k: "k = Suc k'" by (cases k) auto
  show ?case
  proof (cases gs)
    case Nil
    with Cons.prems k show ?thesis using v6_step [of g "''::'' @ r" k' acc None] by (simp add: Let_def)
  next
    case (Cons h hs)
    let ?t = "Join '':'' (map hex_text gs) @ ''::'' @ r"
    have "hd ?t \<noteq> CHR '':''" "?t \<noteq> []" using hd_Join_hex [of h hs] \<open>gs = h # hs\<close> by auto
    then show ?thesis
      using v6_step [of g "CHR '':'' # ?t" k' acc None] Cons.IH [of k' "acc @ group_bytes [g]"]
        Cons.prems k \<open>gs = h # hs\<close>
      by (simp add: Let_def)
  qed
qed simp


lemma zero_run_facts: "zero_run gs \<le> length gs \<and> take (zero_run gs) gs = replicate (zero_run gs) 0"
  by (induction gs rule: zero_run.induct) auto

lemma best_run_facts:
  "best_run i gs = (j, l) \<Longrightarrow> i \<le> j \<and> j - i + l \<le> length gs \<and> take l (drop (j - i) gs) = replicate l 0"
proof (induction i gs arbitrary: j l rule: best_run.induct)
  case (2 i g gs)
  obtain j' l' where r: "best_run (Suc i) gs = (j', l')" by force
  show ?case
  proof (cases "l' \<le> zero_run (g # gs)")
    case True
    with "2.prems" r show ?thesis using zero_run_facts [of "g # gs"] by (simp add: Let_def)
  next
    case False
    with "2.prems" r have "j = j'" "l = l'" by (simp_all add: Let_def)
    with "2.IH" [OF refl r] r show ?thesis
      by (auto simp: Suc_diff_le Suc_le_eq drop_Cons' diff_Suc split: nat.splits)
  qed
qed simp

lemma ParseAddr_v6:
  assumes "\<And>c. c \<in> set s \<Longrightarrow> c = CHR '':'' \<or> hex_val c \<noteq> None" "CHR '':'' \<in> set s"
  shows "ParseAddr s = parseIPv6 s"
proof -
  let ?P = "\<lambda>c. c \<notin> {CHR ''.'', CHR '':'', CHR ''%''}"
  have "CHR ''%'' \<notin> set s" "CHR ''.'' \<notin> set s" using assms(1) [of "CHR ''%''"] assms(1) [of "CHR ''.''"] by auto
  moreover obtain c r where d: "dropWhile ?P s = c # r" using assms(2) by (cases "dropWhile ?P s") (auto simp: dropWhile_eq_Nil_conv)
  moreover have "\<not> ?P c" using d by (metis (no_types, lifting) hd_dropWhile list.distinct(1) list.sel(1))
  moreover have "c \<in> set s" using d set_dropWhileD [of c ?P s] by simp
  ultimately show ?thesis by (auto simp: ParseAddr_def)
qed

lemma set_Join: "c \<in> set (Join sep ws) \<Longrightarrow> c \<in> set sep \<or> (\<exists>w \<in> set ws. c \<in> set w)"
  by (induction sep ws rule: Join.induct) auto

lemma set_Join_hex: "c \<in> set (Join '':'' (map hex_text gs)) \<Longrightarrow> c = CHR '':'' \<or> hex_val c \<noteq> None"
  by (drule set_Join) (auto dest: hex_text_digits)

lemma not_ellipsis_start: "hd s \<noteq> CHR '':'' \<Longrightarrow> take 2 s \<noteq> ''::''"
  by (cases s) auto

lemma run_bytes:
  assumes "best_run 0 gs = (j, l)"
  shows "group_bytes gs = group_bytes (take j gs) @ replicate (2 * l) 0 @ group_bytes (drop (j + l) gs)"
proof -
  have "gs = take j gs @ replicate l 0 @ drop (j + l) gs"
    using best_run_facts [OF assms] by (metis append_take_drop_id diff_zero drop_drop add.commute)
  then have "group_bytes gs = group_bytes (take j gs @ replicate l 0 @ drop (j + l) gs)" by (rule arg_cong)
  then show ?thesis by (simp only: group_bytes_simps group_bytes_zeros)
qed

lemma Join_hex_Nil_iff: "Join '':'' (map hex_text gs) = [] \<longleftrightarrow> gs = []"
  using hd_Join_hex(2) by (cases gs) auto

text \<open>The three shapes of the text: no ellipsis, an ellipsis in front, an ellipsis after the first groups.\<close>

lemma parse_plain:
  assumes "length gs = 8" "\<And>g. g \<in> set gs \<Longrightarrow> g < 65536"
  shows "parseIPv6 (Join '':'' (map hex_text gs)) = Some (group_bytes gs)"
proof -
  have "take 2 (Join '':'' (map hex_text gs)) \<noteq> ''::''"
    using assms(1) hd_Join_hex(1) by (intro not_ellipsis_start) (cases gs; auto)
  moreover have "v6_loop 8 (Join '':'' (map hex_text gs)) [] None = Some (group_bytes gs, None)"
    using assms v6_loop_groups [of gs 8 "[]" None] by force
  ultimately show ?thesis using assms(1) by (simp add: parseIPv6_def v6_expand_def)
qed

lemma parse_leading_run:
  assumes "length gs = 8" "\<And>g. g \<in> set gs \<Longrightarrow> g < 65536" "best_run 0 gs = (0, l)" "2 \<le> l"
  shows "parseIPv6 (''::'' @ Join '':'' (map hex_text (drop l gs))) = Some (group_bytes gs)"
proof -
  have l: "l \<le> 8" using best_run_facts [OF assms(3)] assms(1) by simp
  have b: "group_bytes gs = replicate (2 * l) 0 @ group_bytes (drop l gs)" using run_bytes [OF assms(3)] by simp
  show ?thesis
  proof (cases "drop l gs = []")
    case True
    then have "l = 8" using l assms(1) by simp
    then show ?thesis unfolding b using True by (simp add: parseIPv6_def IPv6unspecified_def)
  next
    case False
    have "\<And>g. g \<in> set (drop l gs) \<Longrightarrow> g < 65536" using assms(2) in_set_dropD by metis
    then have "v6_loop 8 (Join '':'' (map hex_text (drop l gs))) [] (Some 0) = Some (group_bytes (drop l gs), Some 0)"
      using False v6_loop_groups [of "drop l gs" 8 "[]" "Some 0"] assms(1) by simp
    moreover have "Join '':'' (map hex_text (drop l gs)) \<noteq> []" using False by (simp add: Join_hex_Nil_iff)
    ultimately show ?thesis unfolding b using False assms(1,4) l by (simp add: parseIPv6_def v6_expand_def)
  qed
qed

lemma loop_inner_run:
  assumes "length gs = 8" "\<And>g. g \<in> set gs \<Longrightarrow> g < 65536" "best_run 0 gs = (j, l)" "2 \<le> l" "j \<noteq> 0"
  shows "v6_loop 8 (Join '':'' (map hex_text (take j gs)) @ ''::'' @ Join '':'' (map hex_text (drop (j + l) gs))) [] None
    = Some (group_bytes (take j gs) @ group_bytes (drop (j + l) gs), Some (2 * j))"
proof -
  let ?r = "Join '':'' (map hex_text (drop (j + l) gs))"
  note f = best_run_facts [OF assms(3)]
  have small: "\<And>g. g \<in> set (take j gs) \<Longrightarrow> g < 65536" "\<And>g. g \<in> set (drop (j + l) gs) \<Longrightarrow> g < 65536"
    using assms(2) in_set_takeD in_set_dropD by metis+
  have ne: "take j gs \<noteq> []" and len: "length (take j gs) = j" using assms(1,5) f by auto
  show ?thesis
  proof (cases "drop (j + l) gs = []")
    case True
    then show ?thesis
      using v6_loop_ellipsis [of "take j gs" 8 ?r "[]"] small(1) ne len f assms(1) by (simp add: Let_def)
  next
    case False
    have "v6_loop (8 - j) ?r (group_bytes (take j gs)) (Some (2 * j))
        = Some (group_bytes (take j gs) @ group_bytes (drop (j + l) gs), Some (2 * j))"
      using small(2) False assms(1,4) by (intro v6_loop_groups) auto
    with False show ?thesis
      using v6_loop_ellipsis [of "take j gs" 8 ?r "[]"] small(1) ne len f assms(1) Join_hex_Nil_iff by (simp add: Let_def)
  qed
qed

lemma parse_inner_run:
  assumes "length gs = 8" "\<And>g. g \<in> set gs \<Longrightarrow> g < 65536" "best_run 0 gs = (j, l)" "2 \<le> l" "j \<noteq> 0"
  shows "parseIPv6 (Join '':'' (map hex_text (take j gs)) @ ''::'' @ Join '':'' (map hex_text (drop (j + l) gs))) = Some (group_bytes gs)"
    (is "parseIPv6 ?t = _")
proof -
  note f = best_run_facts [OF assms(3)]
  have "take j gs \<noteq> []" using assms(1,5) by auto
  then have "take 2 ?t \<noteq> ''::''"
    using hd_Join_hex by (intro not_ellipsis_start) (cases "take j gs"; auto)
  moreover have "2 * j + 2 * (8 - (j + l)) < 16" "16 - (2 * j + 2 * (8 - (j + l))) = 2 * l" "length (take j gs) = j"
    using f assms(1,4) by auto
  ultimately show ?thesis
    using loop_inner_run [OF assms] run_bytes [OF assms(3)] assms(1) by (simp add: parseIPv6_def v6_expand_def)
qed

lemma parseIPv6_text:
  assumes "length gs = 8" "\<And>g. g \<in> set gs \<Longrightarrow> g < 65536"
  shows "parseIPv6 (v6_text gs) = Some (group_bytes gs)"
proof -
  obtain j l where jl: "best_run 0 gs = (j, l)" by force
  consider "\<not> 2 \<le> l" | "2 \<le> l" "j = 0" | "2 \<le> l" "j \<noteq> 0" by blast
  then show ?thesis
  proof cases
    case 1
    then show ?thesis using parse_plain [OF assms] by (simp add: v6_text_def jl)
  next
    case 2
    then show ?thesis using parse_leading_run [OF assms, of l] jl by (simp add: v6_text_def)
  next
    case 3
    then show ?thesis using parse_inner_run [OF assms jl] by (simp add: v6_text_def jl)
  qed
qed

lemma colon_Join: "2 \<le> length ws \<Longrightarrow> CHR '':'' \<in> set (Join '':'' ws)"
  by (induction "'':''" ws rule: Join.induct) auto

theorem ParseIP_String:
  assumes "length a = 4 \<or> length a = 16"
  shows "ParseIP (IP_String a) = Some (To16 a)"
proof (cases "To4 a")
  case (Some b)
  then have "length b = 4" using assms by (auto simp: To4_def split: if_splits)
  moreover have "To16 b = To16 a"
  proof (cases "length a = 4")
    case False
    with Some have "length a = 16" "take 12 a = v4InV6Prefix" "b = drop 12 a" by (auto simp: To4_def split: if_splits)
    then show ?thesis using append_take_drop_id [of 12 a] by (simp add: To16_def)
  qed (use Some in \<open>simp add: To4_def\<close>)
  ultimately show ?thesis using Some by (simp add: ParseIP_def IP_String_def ParseAddr_v4_text)
next
  case None
  with assms have len: "length a = 16" by (auto simp: To4_def)
  let ?gs = "groups a"
  have gs: "length ?gs = 8" "\<And>g. g \<in> set ?gs \<Longrightarrow> g < 65536" using groups_facts len by auto
  have t: "IP_String a = v6_text ?gs" using None len by (simp add: IP_String_def)
  have "\<And>c. c \<in> set (v6_text ?gs) \<Longrightarrow> c = CHR '':'' \<or> hex_val c \<noteq> None"
    by (auto simp: v6_text_def Let_def split: prod.splits if_splits dest: set_Join_hex)
  moreover have "CHR '':'' \<in> set (v6_text ?gs)"
    using colon_Join [of "map hex_text ?gs"] gs(1) by (cases "best_run 0 ?gs") (simp add: v6_text_def)
  ultimately show ?thesis
    using t len by (simp add: ParseIP_def ParseAddr_v6 parseIPv6_text [OF gs] group_bytes_groups To16_def)
qed


subsection \<open>Host and port read back\<close>

lemma split_last_append: "c \<notin> set t \<Longrightarrow> split_last c (s @ c # t) = Some (s, t)"
  by (simp add: split_last_def takeWhile_append takeWhile_eq_all_conv [THEN iffD2])

theorem SplitHostPort_JoinHostPort:
  assumes "CHR ''['' \<notin> set h \<union> set p" "CHR '']'' \<notin> set h \<union> set p" "CHR '':'' \<notin> set p"
  shows "SplitHostPort (JoinHostPort h p) = Some (h, p)"
proof (cases "CHR '':'' \<in> set h")
  case True
  have "takeWhile (\<lambda>c. c \<noteq> CHR '']'') (h @ CHR '']'' # CHR '':'' # p) = h"
    using assms(2) by (simp add: takeWhile_append takeWhile_eq_all_conv [THEN iffD2])
  with True assms show ?thesis
    using split_last_append [of "CHR '':''" p "''['' @ h @ '']''"] by (simp add: SplitHostPort_def JoinHostPort_def Let_def)
next
  case False
  with assms show ?thesis
    using split_last_append [of "CHR '':''" p h] by (cases h) (auto simp: SplitHostPort_def JoinHostPort_def)
qed

lemma IP_String_plain:
  assumes "length a = 4 \<or> length a = 16"
  shows "CHR ''['' \<notin> set (IP_String a)" "CHR '']'' \<notin> set (IP_String a)"
proof -
  have "c \<notin> set (IP_String a)" if c: "hex_val c = None" "c \<noteq> CHR ''.''" "c \<noteq> CHR '':''" "\<not> is_digit c" for c
  proof (cases "To4 a")
    case None
    with assms have "length a = 16" by (auto simp: To4_def)
    with None c show ?thesis
      by (auto simp: IP_String_def v6_text_def Let_def split: prod.splits if_splits dest: set_Join_hex)
  next
    case (Some b)
    with c show ?thesis
      using not_in_Itoa [OF c(4)] set_Join [of c "''.''" "map (\<lambda>b. Itoa (unat b)) b"] by (auto simp: IP_String_def)
  qed
  then show "CHR ''['' \<notin> set (IP_String a)" "CHR '']'' \<notin> set (IP_String a)"
    by (simp_all add: hex_val_def is_digit_def)
qed

lemma length_all_some: "all_some xs = Some ys \<Longrightarrow> length ys = length xs"
  by (induction xs arbitrary: ys rule: all_some.induct) auto

lemma length_parseIPv4: "parseIPv4 s = Some a \<Longrightarrow> length a = 4"
  by (auto simp: parseIPv4_def Let_def dest: length_all_some split: if_splits)

lemma v6_loop_bounds:
  "v6_loop k s acc e = Some (acc', e') \<Longrightarrow> length acc + 2 * k \<le> 16 \<Longrightarrow> (\<And>p. e = Some p \<Longrightarrow> p \<le> length acc) \<Longrightarrow>
     length acc' \<le> 16 \<and> (\<forall>p. e' = Some p \<longrightarrow> p \<le> length acc')"
proof (induction k arbitrary: s acc e)
  case (Suc k)
  then show ?case
    by (fastforce simp: Let_def dest: length_parseIPv4 split: if_splits list.splits)
qed (auto split: if_splits)

lemma length_v6_expand:
  "v6_expand acc e = Some a \<Longrightarrow> length acc \<le> 16 \<Longrightarrow> (\<And>p. e = Some p \<Longrightarrow> p \<le> length acc) \<Longrightarrow> length a = 16"
  by (auto simp: v6_expand_def split: if_splits option.splits)

lemma length_ParseIP: "ParseIP s = Some a \<Longrightarrow> length a = 16"
proof -
  have "length b = 16" if "v6_loop 8 t [] e = Some (acc, e')" "v6_expand acc e' = Some b" "e = None \<or> e = Some 0" for t e acc e' b
    using v6_loop_bounds [OF that(1)] that(3) length_v6_expand [OF that(2)] by auto
  then have "length b = 16" if "parseIPv6 s = Some b" for b
    using that by (auto simp: parseIPv6_def IPv6unspecified_def split: if_splits option.splits)
  then show "ParseIP s = Some a \<Longrightarrow> length a = 16"
    by (auto simp: ParseIP_def ParseAddr_def To16_def v4InV6Prefix_def dest: length_parseIPv4 split: list.splits if_splits)
qed

end
