(* ===== verification/Http_Safe.thy ===== *)
theory Http_Safe
  imports Net_IP
begin

text \<open>
  \<open>httpsafe/httpsafe.go\<close>: the egress guard every outbound request goes through. The guard's allow-list, the
  classes of address it refuses, the check of a configured URL, the dialer that resolves a name itself and
  connects to the address it checked, and the redirect rule.

  \<open>url.Parse\<close>, the resolver and the dialer are arguments: \<open>parse\<close> (\<open>None\<close> an unparseable URL), \<open>lookup\<close>
  (\<open>None\<close> a failed lookup) and \<open>dial\<close> (whether a connection to an address text succeeds). \<open>DialContext\<close>
  returns, next to its result, the address texts handed to the dialer, in order. A nil guard is \<open>None\<close>.
\<close>

record URL =
  url_Scheme :: string
  url_Host :: string

datatype egress_error =
    BadAllowlistEntry string
  | InvalidURL
  | SchemeNotAllowed string
  | NoHost
  | EgressBlocked string ip string
  | BadDialAddress string
  | ResolveFailed string
  | NoAddresses string
  | DialFailed string
  | TooManyRedirects
  | RedirectBlocked egress_error
  | CrossOriginBody string
  | ErrUseLastResponse

record Guard =
  allowHosts :: "string list"
  allowNets :: "IPNet list"

definition maxRedirects :: nat where "maxRedirects = 10"

subsection \<open>The allow-list\<close>

fun NewGuard_loop :: "string list \<Rightarrow> Guard \<Rightarrow> egress_error + Guard" where
  "NewGuard_loop [] g = Inr g"
| "NewGuard_loop (e # es) g =
    (let entry = TrimSpace e in
     if entry = [] then NewGuard_loop es g
     else case ParseCIDR entry of
       Some ipNet \<Rightarrow> NewGuard_loop es (g\<lparr>allowNets := allowNets g @ [ipNet]\<rparr>)
     | None \<Rightarrow>
       (case ParseIP entry of
          Some ip \<Rightarrow>
            let (ip', bits) = (case To4 ip of Some ip4 \<Rightarrow> (ip4, 32) | None \<Rightarrow> (ip, 128)) in
            NewGuard_loop es (g\<lparr>allowNets := allowNets g @ [\<lparr>net_IP = ip', net_Mask = CIDRMask bits bits\<rparr>]\<rparr>)
        | None \<Rightarrow>
            if CHR ''/'' \<in> set entry \<or> CHR '' '' \<in> set entry then Inl (BadAllowlistEntry entry)
            else NewGuard_loop es (g\<lparr>allowHosts := allowHosts g @ [ToLower entry]\<rparr>)))"

definition NewGuard :: "string list \<Rightarrow> egress_error + Guard" where
  "NewGuard allowlist = NewGuard_loop allowlist \<lparr>allowHosts = [], allowNets = []\<rparr>"

definition ipAllowlisted :: "Guard option \<Rightarrow> ip \<Rightarrow> bool" where
  "ipAllowlisted g ip = (case g of None \<Rightarrow> False | Some gd \<Rightarrow> list_ex (\<lambda>n. Contains n ip) (allowNets gd))"

definition HostExempt :: "Guard option \<Rightarrow> string \<Rightarrow> bool" where
  "HostExempt g host = (case g of None \<Rightarrow> False
     | Some gd \<Rightarrow> ToLower host \<in> set (allowHosts gd)
         \<or> (case ParseIP host of Some ip \<Rightarrow> ipAllowlisted g ip | None \<Rightarrow> False))"

subsection \<open>Refused ranges\<close>

definition deniedRange :: "ip \<Rightarrow> string" where
  "deniedRange ip0 =
    (let ip = (case To4 ip0 of Some ip4 \<Rightarrow> ip4 | None \<Rightarrow> ip0) in
     if IsLoopback ip then ''loopback''
     else if IsUnspecified ip then ''unspecified''
     else if IsLinkLocalUnicast ip then ''link-local''
     else if IsLinkLocalMulticast ip \<or> IsMulticast ip then ''multicast''
     else if IsPrivate ip then ''private''
     else case To4 ip of
       Some ip4 \<Rightarrow>
         if ip4 ! 0 = 0 then ''reserved (0.0.0.0/8)''
         else if ip4 ! 0 = 100 \<and> ip4 ! 1 AND 0xC0 = 64 then ''carrier-grade NAT (100.64.0.0/10)''
         else if IP_Equal ip4 IPv4bcast then ''broadcast'' else []
     | None \<Rightarrow> [])"

definition checkIP :: "Guard option \<Rightarrow> string \<Rightarrow> ip \<Rightarrow> egress_error + unit" where
  "checkIP g host ip =
    (if ipAllowlisted g ip then Inr ()
     else if deniedRange ip \<noteq> [] then Inl (EgressBlocked host ip (deniedRange ip)) else Inr ())"

fun checkIPs :: "Guard option \<Rightarrow> string \<Rightarrow> ip list \<Rightarrow> egress_error + unit" where
  "checkIPs g host [] = Inr ()"
| "checkIPs g host (ip # ips) = (case checkIP g host ip of Inl e \<Rightarrow> Inl e | Inr _ \<Rightarrow> checkIPs g host ips)"

subsection \<open>Checking a URL\<close>

text \<open>\<open>URL.Hostname\<close>: the host without a valid port and without the brackets of an IPv6 literal.\<close>

definition Hostname :: "URL \<Rightarrow> string" where
  "Hostname u =
    (let h = (case split_last (CHR '':'') (url_Host u) of
                Some (front, port) \<Rightarrow> if list_all is_digit port then front else url_Host u
              | None \<Rightarrow> url_Host u) in
     if h \<noteq> [] \<and> hd h = CHR ''['' \<and> last h = CHR '']'' then butlast (tl h) else h)"

definition ValidateURL :: "Guard option \<Rightarrow> (string \<Rightarrow> URL option) \<Rightarrow> (string \<Rightarrow> ip list option) \<Rightarrow> string \<Rightarrow> egress_error + unit" where
  "ValidateURL g parse lookup rawURL =
    (case parse rawURL of None \<Rightarrow> Inl InvalidURL
     | Some u \<Rightarrow>
       if url_Scheme u \<noteq> ''http'' \<and> url_Scheme u \<noteq> ''https'' then Inl (SchemeNotAllowed (url_Scheme u))
       else let host = Hostname u in
         if host = [] then Inl NoHost
         else if HostExempt g host then Inr ()
         else case ParseIP host of
           Some ip \<Rightarrow> checkIP g host ip
         | None \<Rightarrow> (case lookup host of None \<Rightarrow> Inr () | Some ips \<Rightarrow> checkIPs g host ips))"

subsection \<open>Dialing\<close>

fun dialLoop :: "(string \<Rightarrow> bool) \<Rightarrow> string \<Rightarrow> string \<Rightarrow> ip list \<Rightarrow> (egress_error + string) \<times> string list" where
  "dialLoop dial host port [] = (Inl (DialFailed host), [])"
| "dialLoop dial host port (ip # ips) =
    (let a = JoinHostPort (IP_String ip) port in
     if dial a then (Inr a, [a])
     else let (r, as) = dialLoop dial host port ips in (r, a # as))"

definition dialOne :: "(string \<Rightarrow> bool) \<Rightarrow> string \<Rightarrow> (egress_error + string) \<times> string list" where
  "dialOne dial addr = (if dial addr then Inr addr else Inl (DialFailed addr), [addr])"

definition DialContext :: "Guard option \<Rightarrow> (string \<Rightarrow> ip list option) \<Rightarrow> (string \<Rightarrow> bool) \<Rightarrow> string
    \<Rightarrow> (egress_error + string) \<times> string list" where
  "DialContext g lookup dial addr =
    (case SplitHostPort addr of None \<Rightarrow> (Inl (BadDialAddress addr), [])
     | Some (host, port) \<Rightarrow>
       (case ParseIP host of
          Some ip \<Rightarrow> (case checkIP g host ip of Inl e \<Rightarrow> (Inl e, []) | Inr _ \<Rightarrow> dialOne dial addr)
        | None \<Rightarrow>
          if HostExempt g host then dialOne dial addr
          else (case lookup host of
              None \<Rightarrow> (Inl (ResolveFailed host), [])
            | Some ips \<Rightarrow>
              if ips = [] then (Inl (NoAddresses host), [])
              else (case checkIPs g host ips of Inl e \<Rightarrow> (Inl e, []) | Inr _ \<Rightarrow> dialLoop dial host port ips))))"

subsection \<open>Redirects\<close>

record Request =
  req_Raw :: string
  req_URL :: URL
  req_Header :: "(string \<times> string) list"
  req_HasGetBody :: bool
  req_ContentLength :: int

definition Header_Del :: "string \<Rightarrow> (string \<times> string) list \<Rightarrow> (string \<times> string) list" where
  "Header_Del name hs = filter (\<lambda>(k, v). k \<noteq> name) hs"

definition safeToFollow :: "URL \<Rightarrow> URL \<Rightarrow> bool" where
  "safeToFollow from to =
    (if \<not> EqualFold (url_Host from) (url_Host to) then False
     else if EqualFold (url_Scheme from) (url_Scheme to) then True
     else EqualFold (url_Scheme from) ''http'' \<and> EqualFold (url_Scheme to) ''https'')"

definition CheckRedirect :: "Guard option \<Rightarrow> (string \<Rightarrow> URL option) \<Rightarrow> (string \<Rightarrow> ip list option)
    \<Rightarrow> Request \<Rightarrow> Request list \<Rightarrow> egress_error + Request" where
  "CheckRedirect g parse lookup req via =
    (if length via \<ge> maxRedirects then Inl TooManyRedirects
     else case ValidateURL g parse lookup (req_Raw req) of Inl e \<Rightarrow> Inl (RedirectBlocked e)
     | Inr _ \<Rightarrow>
       if via \<noteq> [] \<and> \<not> safeToFollow (req_URL (hd via)) (req_URL req) then
         (if req_HasGetBody req \<or> req_ContentLength req \<noteq> 0 then Inl (CrossOriginBody (url_Host (req_URL req)))
          else Inr (req\<lparr>req_Header := Header_Del ''Cookie2'' (Header_Del ''Cookie''
                 (Header_Del ''Proxy-Authorization'' (Header_Del ''Authorization'' (req_Header req))))\<rparr>))
       else Inr req)"

text \<open>The client: a deadline, no proxy, the guard's dialer and redirect rule, and the caller's TLS settings.\<close>

record 'tls Client =
  cl_Timeout :: duration
  cl_Proxy :: "string option"
  cl_Dial :: "(string \<Rightarrow> ip list option) \<Rightarrow> (string \<Rightarrow> bool) \<Rightarrow> string \<Rightarrow> (egress_error + string) \<times> string list"
  cl_CheckRedirect :: "(string \<Rightarrow> URL option) \<Rightarrow> (string \<Rightarrow> ip list option) \<Rightarrow> Request \<Rightarrow> Request list \<Rightarrow> egress_error + Request"
  cl_TLS :: "'tls option"

definition NewClientWithTLS :: "duration \<Rightarrow> Guard option \<Rightarrow> 'tls option \<Rightarrow> 'tls Client" where
  "NewClientWithTLS timeout g tlsCfg =
    \<lparr>cl_Timeout = timeout, cl_Proxy = None, cl_Dial = DialContext g, cl_CheckRedirect = CheckRedirect g, cl_TLS = tlsCfg\<rparr>"

definition NewClient :: "duration \<Rightarrow> Guard option \<Rightarrow> 'tls Client" where
  "NewClient timeout g = NewClientWithTLS timeout g None"


definition MustGuard :: "string list \<Rightarrow> Guard option" where
  "MustGuard allowlist = (case NewGuard allowlist of Inr g \<Rightarrow> Some g | Inl _ \<Rightarrow> None)"

subsection \<open>The refused ranges are the documented networks\<close>

text \<open>The networks the package documentation lists: loopback, unspecified and 0.0.0.0/8, link-local, multicast, RFC 1918,
  carrier-grade NAT and broadcast for IPv4; loopback, unspecified, link-local, multicast and unique local for IPv6.\<close>

definition deny_list :: "IPNet list" where
  "deny_list =
     map (\<lambda>(a, n). \<lparr>net_IP = a, net_Mask = CIDRMask n 32\<rparr>)
       [([127, 0, 0, 0], 8), ([0, 0, 0, 0], 8), ([169, 254, 0, 0], 16), ([224, 0, 0, 0], 4), ([10, 0, 0, 0], 8),
        ([172, 16, 0, 0], 12), ([192, 168, 0, 0], 16), ([100, 64, 0, 0], 10), ([255, 255, 255, 255], 32)]
   @ map (\<lambda>(a, n). \<lparr>net_IP = a, net_Mask = CIDRMask n 128\<rparr>)
       [(IPv6loopback, 128), (IPv6unspecified, 128), ([254, 128] @ replicate 14 0, 10), ([255] @ replicate 15 0, 8),
        ([252] @ replicate 15 0, 7)]"

lemma To4_4 [simp]: "To4 [a, b, c, d] = Some [a, b, c, d]"
  by (simp add: To4_def)

lemma To4_cases:
  assumes "length ip = 4 \<or> length ip = 16"
  obtains a b c d where "To4 ip = Some [a, b, c, d]" | "To4 ip = None" "length ip = 16"
proof (cases "To4 ip")
  case (Some x)
  then have "length x = 4" by (auto simp: To4_def split: if_splits)
  then obtain a b c d where "x = [a, b, c, d]" by (auto simp: numeral_eq_Suc length_Suc_conv)
  with Some that show ?thesis by blast
next
  case None
  with assms that show ?thesis by (auto simp: To4_def)
qed

lemma To4_To4: "To4 ip = Some x \<Longrightarrow> To4 x = Some x"
  by (auto simp: To4_def split: if_splits)

lemma deniedRange_To4: "To4 ip = Some x \<Longrightarrow> deniedRange ip = deniedRange x"
  by (simp add: deniedRange_def To4_To4)

lemma Contains_To4: "To4 ip = Some x \<Longrightarrow> Contains n ip = Contains n x"
  by (simp add: Contains_def To4_To4)

lemma byte_and_255 [simp]: "(x :: byte) AND 255 = x" "255 AND (x :: byte) = x"
proof -
  have "(255 :: byte) = - 1" by simp
  then show "x AND 255 = x" "255 AND x = x" by (simp_all only: and.right_neutral and.left_neutral)
qed

lemma if_not_Nil: "(if P then c # s else t) \<noteq> [] \<longleftrightarrow> P \<or> t \<noteq> []"
  by simp

lemma deniedRange_v4:
  "deniedRange [a, b, c, d] \<noteq> [] \<longleftrightarrow> a = 127 \<or> a = 0 \<or> a = 169 \<and> b = 254 \<or> a AND 240 = 224 \<or> a = 10
     \<or> a = 172 \<and> b AND 240 = 16 \<or> a = 192 \<and> b = 168 \<or> a = 100 \<and> b AND 192 = 64 \<or> [a, b, c, d] = [255, 255, 255, 255]"
proof -
  have "IsUnspecified [a, b, c, d] \<longleftrightarrow> a = 0 \<and> b = 0 \<and> c = 0 \<and> d = 0"
    by (auto simp: IsUnspecified_def IP_Equal_def To16_def IPv4zero_def IPv6unspecified_def v4InV6Prefix_def numeral_eq_Suc)
  moreover have "IP_Equal [a, b, c, d] IPv4bcast \<longleftrightarrow> [a, b, c, d] = [255, 255, 255, 255]"
    by (simp add: IP_Equal_def To16_def IPv4bcast_def v4InV6Prefix_def)
  moreover have "a = 224 \<Longrightarrow> a AND 240 = 224" by simp
  ultimately show ?thesis
    unfolding deniedRange_def Let_def To4_4 option.case if_not_Nil IsLoopback_def IsLinkLocalUnicast_def
      IsLinkLocalMulticast_def IsMulticast_def IsPrivate_def nth_Cons_0 One_nat_def nth_Cons_Suc
    by blast
qed

lemma deniedRange_v6:
  assumes "To4 ip = None" "length ip = 16"
  shows "deniedRange ip \<noteq> [] \<longleftrightarrow> ip = IPv6loopback \<or> ip = IPv6unspecified
    \<or> ip ! 0 = 254 \<and> ip ! 1 AND 192 = 128 \<or> ip ! 0 = 255 \<or> ip ! 0 AND 254 = 252"
proof -
  have "ip \<noteq> IPv4zero" using assms(1) by (auto simp: To4_def IPv4zero_def v4InV6Prefix_def)
  then have "IsUnspecified ip \<longleftrightarrow> ip = IPv6unspecified" "IsLoopback ip \<longleftrightarrow> ip = IPv6loopback"
    using assms by (simp_all add: IsUnspecified_def IsLoopback_def IP_Equal_def IPv4zero_def IPv6unspecified_def
        IPv6loopback_def v4InV6Prefix_def)
  then show ?thesis
    unfolding deniedRange_def Let_def assms option.case if_not_Nil IsLinkLocalUnicast_def
      IsLinkLocalMulticast_def IsMulticast_def IsPrivate_def
    by blast
qed


lemma CIDRMask_values:
  "CIDRMask 8 32 = [255, 0, 0, 0]" "CIDRMask 16 32 = [255, 255, 0, 0]" "CIDRMask 4 32 = [240, 0, 0, 0]"
  "CIDRMask 12 32 = [255, 240, 0, 0]" "CIDRMask 10 32 = [255, 192, 0, 0]" "CIDRMask 32 32 = [255, 255, 255, 255]"
  "CIDRMask 128 128 = replicate 16 255" "CIDRMask 10 128 = [255, 192] @ replicate 14 0"
  "CIDRMask 8 128 = [255] @ replicate 15 0" "CIDRMask 7 128 = [254] @ replicate 15 0"
  by code_simp+

lemma Contains_v4_net:
  assumes "length nn = 4" "length m = 4"
  shows "Contains \<lparr>net_IP = nn, net_Mask = m\<rparr> [a, b, c, d] \<longleftrightarrow> map2 (AND) nn m = map2 (AND) [a, b, c, d] m"
    and "To4 ip = None \<Longrightarrow> \<not> Contains \<lparr>net_IP = nn, net_Mask = m\<rparr> ip"
  using assms by (auto simp: Contains_def networkNumberAndMask_def To4_def split: if_splits)

lemma Contains_v6_net:
  assumes "length nn = 16" "length m = 16" "To4 nn = None"
  shows "To4 ip = None \<Longrightarrow> length ip = 16 \<Longrightarrow> Contains \<lparr>net_IP = nn, net_Mask = m\<rparr> ip \<longleftrightarrow> map2 (AND) nn m = map2 (AND) ip m"
    and "\<not> Contains \<lparr>net_IP = nn, net_Mask = m\<rparr> [a, b, c, d]"
  using assms by (auto simp: Contains_def networkNumberAndMask_def)

lemma deny_nets_v6:
  "To4 IPv6loopback = None" "To4 IPv6unspecified = None" "To4 (254 # 128 # replicate 14 0) = None"
  "To4 (255 # replicate 15 0) = None" "To4 (252 # replicate 15 0) = None"
  "length IPv6loopback = 16" "length IPv6unspecified = 16"
  by code_simp+

lemma mask_all: "length a = n \<Longrightarrow> map2 (AND) a (replicate n (255 :: byte)) = a"
  by (induction a arbitrary: n) auto

lemma mask_none: "length a = n \<Longrightarrow> map2 (AND) a (replicate n (0 :: byte)) = replicate n 0"
  by (induction a arbitrary: n) auto

text \<open>An address is refused exactly when it lies in one of the documented networks.\<close>

lemma deny_list_v4:
  "(\<exists>n \<in> set deny_list. Contains n [a, b, c, d]) \<longleftrightarrow> deniedRange [a, b, c, d] \<noteq> []"
proof -
  have eq: "Contains \<lparr>net_IP = [a', b', c', d'], net_Mask = [m1, m2, m3, m4]\<rparr> [a, b, c, d] \<longleftrightarrow>
      a' AND m1 = a AND m1 \<and> b' AND m2 = b AND m2 \<and> c' AND m3 = c AND m3 \<and> d' AND m4 = d AND m4"
    for a' b' c' d' m1 m2 m3 m4
    by (simp add: Contains_v4_net)
  have swap: "(127 = a) = (a = 127)" "(0 = a) = (a = 0)" "(169 = a) = (a = 169)" "(254 = b) = (b = 254)" "(224 = a AND 240) = (a AND 240 = 224)"
    "(10 = a) = (a = 10)" "(172 = a) = (a = 172)" "(16 = b AND 240) = (b AND 240 = 16)" "(192 = a) = (a = 192)" "(168 = b) = (b = 168)"
    "(100 = a) = (a = 100)" "(64 = b AND 192) = (b AND 192 = 64)" "(255 = a) = (a = 255)" "(255 = b) = (b = 255)" "(255 = c) = (c = 255)" "(255 = d) = (d = 255)"
    by auto
  show ?thesis
    unfolding deniedRange_v4 deny_list_def by (simp add: eq swap CIDRMask_values Contains_v6_net(2) deny_nets_v6)
qed

lemma deny_list_v6:
  assumes "To4 ip = None" "length ip = 16"
  shows "(\<exists>n \<in> set deny_list. Contains n ip) \<longleftrightarrow> deniedRange ip \<noteq> []"
proof -
  obtain x y r where ip: "ip = x # y # r" "length r = 14"
    using assms(2) by (cases ip; cases "tl ip") auto
  have v4: "\<not> Contains \<lparr>net_IP = nn, net_Mask = CIDRMask k 32\<rparr> ip" if "length nn = 4" "k \<in> {8, 16, 4, 12, 10, 32}" for nn k
    using that assms(1) by (intro Contains_v4_net(2)) (auto simp: CIDRMask_values)
  have low: "Contains \<lparr>net_IP = nn, net_Mask = CIDRMask 128 128\<rparr> ip \<longleftrightarrow> nn = ip" if "To4 nn = None" "length nn = 16" for nn
    using that assms by (simp add: Contains_v6_net(1) CIDRMask_values mask_all)
  have r15: "length (y # r) = 15" "replicate 15 (0 :: byte) = 0 # replicate 14 0" using ip by (simp_all add: numeral_eq_Suc)
  have "Contains \<lparr>net_IP = 254 # 128 # replicate 14 0, net_Mask = CIDRMask 10 128\<rparr> ip \<longleftrightarrow> x = 254 \<and> y AND 192 = 128"
    "Contains \<lparr>net_IP = 255 # replicate 15 0, net_Mask = CIDRMask 8 128\<rparr> ip \<longleftrightarrow> x = 255"
    "Contains \<lparr>net_IP = 252 # replicate 15 0, net_Mask = CIDRMask 7 128\<rparr> ip \<longleftrightarrow> x AND 254 = 252"
    using assms ip mask_none [OF r15(1)] mask_none [OF ip(2)] mask_none [of "replicate 14 0" 14]  mask_none [of "replicate 15 0" 15]
    by (auto simp: Contains_v6_net(1) CIDRMask_values deny_nets_v6)
  with v4 low show ?thesis
    unfolding deniedRange_v6 [OF assms] deny_list_def using ip deny_nets_v6 by auto
qed


lemma deniedRange_iff:
  assumes "length ip = 4 \<or> length ip = 16"
  shows "deniedRange ip \<noteq> [] \<longleftrightarrow> (\<exists>n \<in> set deny_list. Contains n ip)"
  using assms
proof (cases rule: To4_cases)
  case (1 a b c d)
  show ?thesis using deny_list_v4 by (simp add: deniedRange_To4 [OF 1] Contains_To4 [OF 1])
next
  case 2
  then show ?thesis by (simp add: deny_list_v6)
qed

subsection \<open>What may be dialed\<close>

definition permitted :: "Guard option \<Rightarrow> ip \<Rightarrow> bool" where
  "permitted g ip \<longleftrightarrow> ipAllowlisted g ip \<or> deniedRange ip = []"

lemma checkIP_iff: "checkIP g h ip = Inr () \<longleftrightarrow> permitted g ip"
  by (simp add: checkIP_def permitted_def)

lemma checkIPs_iff: "checkIPs g h ips = Inr () \<longleftrightarrow> (\<forall>ip \<in> set ips. permitted g ip)"
  by (induction ips) (auto simp: checkIP_def permitted_def)

lemma To4_To16: "length ip = 4 \<or> length ip = 16 \<Longrightarrow> To4 (To16 ip) = To4 ip"
  by (auto simp: To4_def To16_def v4InV6Prefix_def)

lemma permitted_To16: "length ip = 4 \<or> length ip = 16 \<Longrightarrow> permitted g (To16 ip) = permitted g ip"
proof -
  assume a: "length ip = 4 \<or> length ip = 16"
  show ?thesis
  proof (cases "length ip = 4")
    case True
    then have t: "To4 (To16 ip) = Some ip" using To4_To16 [OF a] by (simp add: To4_def)
    show ?thesis
      by (simp add: permitted_def ipAllowlisted_def deniedRange_To4 [OF t] Contains_To4 [OF t] split: option.split)
  qed (use a in \<open>simp add: To16_def\<close>)
qed

lemma split_last_facts: "split_last c s = Some (x, y) \<Longrightarrow> s = x @ c # y \<and> c \<notin> set y"
proof -
  assume a: "split_last c s = Some (x, y)"
  then have "c \<in> set s" by (auto simp: split_last_def split: if_splits)
  then obtain u v where s: "s = u @ c # v" "c \<notin> set v" by (meson split_list_last)
  then show ?thesis using a split_last_append [of c v u] by simp
qed

lemma SplitHostPort_port:
  assumes "SplitHostPort a = Some (h, p)"
  shows "CHR '':'' \<notin> set p" "CHR ''['' \<notin> set p" "CHR '']'' \<notin> set p"
proof -
  obtain front where f: "split_last (CHR '':'') a = Some (front, p)"
    using assms by (auto simp: SplitHostPort_def Let_def split: option.splits if_splits)
  note s = split_last_facts [OF this]
  then show "CHR '':'' \<notin> set p" by simp
  have "CHR ''['' \<notin> set p \<and> CHR '']'' \<notin> set p"
  proof (cases "hd a = CHR ''[''")
    case True
    with assms f have "CHR ''['' \<notin> set (tl a)" "CHR '']'' \<notin> set p"
      by (auto simp: SplitHostPort_def Let_def split: if_splits)
    moreover have "front \<noteq> []" using True s by (cases front) auto
    ultimately show ?thesis using s by (cases front) auto
  next
    case False
    with assms f show ?thesis using s by (auto simp: SplitHostPort_def split: if_splits)
  qed
  then show "CHR ''['' \<notin> set p" "CHR '']'' \<notin> set p" by simp_all
qed

lemma dialLoop_trace:
  "a \<in> set (snd (dialLoop dial host port ips)) \<Longrightarrow> \<exists>ip \<in> set ips. a = JoinHostPort (IP_String ip) port"
  by (induction ips) (auto simp: Let_def split: if_splits prod.splits)

text \<open>The address text handed to the dialer names the address that was checked.\<close>

lemma dialed_text_reads_back:
  assumes "length ip = 4 \<or> length ip = 16" "SplitHostPort addr = Some (host, port)"
  shows "\<exists>h. SplitHostPort (JoinHostPort (IP_String ip) port) = Some (h, port) \<and> ParseIP h = Some (To16 ip)"
  using SplitHostPort_JoinHostPort [of "IP_String ip" port] SplitHostPort_port [OF assms(2)] IP_String_plain [OF assms(1)]
    ParseIP_String [OF assms(1)] by auto

text \<open>
  C7: Outside the names an operator exempted, every address the guarded dialer connects to, or tries to, is the text of
  an IP address that is in no refused range or is allow-listed, whatever the resolver answers: the address checked is the address dialed.
\<close>

theorem dialed_addresses_permitted:
  assumes "a \<in> set (snd (DialContext g lookup dial addr))"
    and "\<forall>h ips. lookup h = Some ips \<longrightarrow> (\<forall>ip \<in> set ips. length ip = 4 \<or> length ip = 16)"
    and "SplitHostPort addr = Some (host, port)"
    and "\<forall>gd. g = Some gd \<longrightarrow> ToLower host \<notin> set (allowHosts gd)"
  shows "\<exists>h ip. SplitHostPort a = Some (h, port) \<and> ParseIP h = Some ip
    \<and> (ipAllowlisted g ip \<or> (\<forall>n \<in> set deny_list. \<not> Contains n ip))"
proof -
  have "\<exists>h ip. SplitHostPort a = Some (h, port) \<and> ParseIP h = Some ip \<and> permitted g ip"
  proof (cases "ParseIP host")
    case (Some ip)
    with assms(1,3) have "a = addr" "checkIP g host ip = Inr ()"
      by (auto simp: DialContext_def dialOne_def split: sum.splits)
    with Some assms(3) show ?thesis by (auto simp: checkIP_iff)
  next
    case None
    with assms(4) have "\<not> HostExempt g host" by (auto simp: HostExempt_def split: option.splits)
    then obtain ips where ips: "lookup host = Some ips" "checkIPs g host ips = Inr ()" "a \<in> set (snd (dialLoop dial host port ips))"
      using assms(1,3) None by (auto simp: DialContext_def split: option.splits if_splits sum.splits)
    then obtain ip where ip: "ip \<in> set ips" "a = JoinHostPort (IP_String ip) port" using dialLoop_trace by blast
    then have len: "length ip = 4 \<or> length ip = 16" using assms(2) ips(1) by blast
    then show ?thesis
      using dialed_text_reads_back [OF len assms(3)] ip ips(2) permitted_To16 [OF len] by (auto simp: checkIPs_iff)
  qed
  then show ?thesis using deniedRange_iff length_ParseIP by (metis permitted_def)
qed


definition ex_lookup :: "string \<Rightarrow> ip list option" where
  "ex_lookup h = (if h = ''idp'' then Some [[93, 184, 216, 34]] else if h = ''mixed'' then Some [[93, 184, 216, 34], [169, 254, 169, 254]] else None)"

lemma ex_dial: "DialContext None ex_lookup (\<lambda>_. True) ''idp:443'' = (Inr ''93.184.216.34:443'', [''93.184.216.34:443''])"
  by code_simp

lemma ex_split: "SplitHostPort ''idp:443'' = Some (''idp'', ''443'')"
  by code_simp

theorem dialed_addresses_permitted_witness:
  "\<exists>h ip. SplitHostPort ''93.184.216.34:443'' = Some (h, ''443'') \<and> ParseIP h = Some ip
    \<and> (ipAllowlisted None ip \<or> (\<forall>n \<in> set deny_list. \<not> Contains n ip))"
  by (rule dialed_addresses_permitted [of _ None ex_lookup "\<lambda>_. True" "''idp:443''" "''idp''"])
     (auto simp: ex_dial ex_split ex_lookup_def split: if_splits)

text \<open>One refused address among a name's answers refuses the name before any connection is tried.\<close>

theorem mixed_answer_refused:
  assumes "SplitHostPort addr = Some (host, port)" "ParseIP host = None" "\<not> HostExempt g host"
    and "lookup host = Some ips" "ip \<in> set ips" "\<not> permitted g ip"
  shows "snd (DialContext g lookup dial addr) = []" "\<exists>ip' r. fst (DialContext g lookup dial addr) = Inl (EgressBlocked host ip' r)"
proof -
  have "\<exists>ip' r. checkIPs g host ips = Inl (EgressBlocked host ip' r)"
    using assms(5,6) by (induction ips) (auto simp: checkIP_def permitted_def)
  then show "snd (DialContext g lookup dial addr) = []" "\<exists>ip' r. fst (DialContext g lookup dial addr) = Inl (EgressBlocked host ip' r)"
    using assms by (auto simp: DialContext_def)
qed

text \<open>The guard refuses nothing it permits: the first permitted address that answers is connected to.\<close>

lemma dialLoop_connects: "\<exists>ip \<in> set ips. dial (JoinHostPort (IP_String ip) port) \<Longrightarrow> \<exists>a. fst (dialLoop dial host port ips) = Inr a \<and> dial a"
  by (induction ips) (fastforce simp: Let_def split: prod.splits)+

theorem permitted_name_connects:
  assumes "SplitHostPort addr = Some (host, port)" "ParseIP host = None" "\<not> HostExempt g host"
    and "lookup host = Some ips" "\<forall>ip \<in> set ips. permitted g ip" "ip \<in> set ips" "dial (JoinHostPort (IP_String ip) port)"
  shows "\<exists>a. fst (DialContext g lookup dial addr) = Inr a"
proof -
  have "checkIPs g host ips = Inr ()" using assms(5) by (simp add: checkIPs_iff)
  moreover have "ips \<noteq> []" using assms(6) by auto
  ultimately show ?thesis
    using assms(1-4) dialLoop_connects [of ips dial port host] assms(6,7) by (auto simp: DialContext_def)
qed

text \<open>Ranges that are not publicly routable and not on the deny-list: reserved class E, and the NAT64 form of a refused IPv4 address.\<close>

theorem unlisted_ranges_pass:
  "checkIP None h [240, 0, 0, 1] = Inr ()" "checkIP None h [0, 100, 255, 155, 0, 0, 0, 0, 0, 0, 0, 0, 169, 254, 169, 254] = Inr ()"
  "checkIP None h [169, 254, 169, 254] \<noteq> Inr ()"
proof -
  have "deniedRange [240, 0, 0, 1] = []" "deniedRange [0, 100, 255, 155, 0, 0, 0, 0, 0, 0, 0, 0, 169, 254, 169, 254] = []"
    "deniedRange [169, 254, 169, 254] \<noteq> []" by code_simp+
  then show "checkIP None h [240, 0, 0, 1] = Inr ()" "checkIP None h [0, 100, 255, 155, 0, 0, 0, 0, 0, 0, 0, 0, 169, 254, 169, 254] = Inr ()"
  "checkIP None h [169, 254, 169, 254] \<noteq> Inr ()"
    by (simp_all add: checkIP_iff permitted_def ipAllowlisted_def)
qed

subsection \<open>Redirects\<close>










end
