(* ===== verification/Suite.thy ===== *)
theory Suite
  imports Http_Safe
begin

text \<open>
  Package \<open>suite\<close>: the manifest two applications publish (\<open>manifest.go\<close>), the client that polls a sibling's manifest (\<open>discovery.go\<close>)
  and the canonical form of a host (\<open>host.go\<close>). URL parsing, IDNA mapping, name resolution, decoding of a JSON manifest and the answer of the
  network to the poll are arguments. \<open>clone\<close> copies a slice and a map, so that no memory is shared; on values it is the identity, field by
  field.
\<close>

record IdentityInfo =
  id_Issuer :: string
  id_SharedStore :: bool
  id_Schema :: string

record Manifest =
  m_SchemaVersion :: string
  m_App :: string
  m_Version :: string
  m_BuildDate :: string
  m_PublicURL :: string
  m_Identity :: IdentityInfo
  m_Capabilities :: "string list option"
  m_Links :: "(string \<times> string) list option"

definition clone :: "Manifest option \<Rightarrow> Manifest option" where
  "clone m = (case m of None \<Rightarrow> None
     | Some m \<Rightarrow> Some (m\<lparr>m_Capabilities := (case m_Capabilities m of None \<Rightarrow> m_Capabilities m | Some cs \<Rightarrow> Some ([] @ cs)),
         m_Links := (case m_Links m of None \<Rightarrow> m_Links m | Some ls \<Rightarrow> Some (map (\<lambda>(k, v). (k, v)) ls))\<rparr>))"

definition SchemaVersionV1 :: string where "SchemaVersionV1 = ''suite/v1''"

definition Major :: "string \<Rightarrow> string" where
  "Major schemaVersion =
    (case split_last CHR ''/'' schemaVersion of None \<Rightarrow> schemaVersion
     | Some (_, major) \<Rightarrow> takeWhile (\<lambda>c. c \<noteq> CHR ''.'') major)"

definition NegotiateCompat :: "Manifest \<Rightarrow> Manifest \<Rightarrow> bool \<times> string" where
  "NegotiateCompat self sibling =
    (if m_App sibling = [] then (False, ''sibling manifest has empty app id'')
     else if m_App sibling = m_App self then (False, ''sibling app equals self (pointing at self?)'')
     else let selfMajor = Major (m_SchemaVersion self); siblingMajor = Major (m_SchemaVersion sibling) in
       if selfMajor = [] then (False, ''schema version missing on self'')
       else if siblingMajor = [] then (False, ''sibling manifest has empty schema version'')
       else if siblingMajor \<noteq> selfMajor
       then (False, ''schema major mismatch: '' @ m_SchemaVersion sibling @ '' vs '' @ m_SchemaVersion self)
       else (True, []))"

datatype suite_error =
    NoPublicURL
  | NotReachable string egress_error
  | NotActive string
  | InsecureSiblingURL string
  | BadRequest
  | Transport
  | Status nat
  | Undecodable

definition Resolve :: "(string \<Rightarrow> URL option) \<Rightarrow> (string \<Rightarrow> ip list option) \<Rightarrow> Guard option \<Rightarrow> string \<Rightarrow> suite_error + string" where
  "Resolve parse lookup g u =
    (let raw = TrimRight CHR ''/'' (TrimSpace u) in
     if raw = [] then Inl NoPublicURL
     else case ValidateURL g parse lookup raw of Inl e \<Rightarrow> Inl (NotReachable raw e) | Inr _ \<Rightarrow> Inr raw)"

definition Display :: "string \<Rightarrow> string" where
  "Display u = u"

subsection \<open>Discovery\<close>

datatype SiblingState = StateUnknown | StateActive | StateDegraded | StateUnreachable

fun state_text :: "SiblingState \<Rightarrow> string" where
  "state_text StateUnknown = ''unknown''"
| "state_text StateActive = ''active''"
| "state_text StateDegraded = ''degraded''"
| "state_text StateUnreachable = ''unreachable''"

definition ManifestPath :: string where "ManifestPath = ''/api/v1/suite/manifest''"
definition defaultPollInterval :: duration where "defaultPollInterval = 60 * second"
definition defaultGraceWindow :: duration where "defaultGraceWindow = 5 * minute"
definition pollTimeout :: duration where "pollTimeout = 2 * second"
definition maxManifestBytes :: nat where "maxManifestBytes = 2 ^ 20"

record DiscoveryClient =
  dc_siblingURL :: string
  dc_self :: Manifest
  dc_pollInterval :: duration
  dc_graceWindow :: duration
  dc_httpClient :: "unit Client"
  dc_guard :: "Guard option"
  dc_state :: SiblingState
  dc_lastGood :: "Manifest option"
  dc_lastOKAt :: time

definition newDiscoveryClient :: "string \<Rightarrow> Manifest \<Rightarrow> duration \<Rightarrow> Guard option \<Rightarrow> DiscoveryClient" where
  "newDiscoveryClient siblingURL self pollInterval g =
    \<lparr>dc_siblingURL = siblingURL, dc_self = the (clone (Some self)),
     dc_pollInterval = (if pollInterval \<le> 0 then defaultPollInterval else pollInterval), dc_graceWindow = defaultGraceWindow,
     dc_httpClient = (NewClient pollTimeout g)\<lparr>cl_CheckRedirect := (\<lambda>_ _ _ _. Inl ErrUseLastResponse)\<rparr>,
     dc_guard = g, dc_state = StateUnknown, dc_lastGood = None, dc_lastOKAt = 0\<rparr>"

definition NewDiscoveryClient :: "string \<Rightarrow> Manifest \<Rightarrow> duration \<Rightarrow> Guard option \<Rightarrow> suite_error + DiscoveryClient" where
  "NewDiscoveryClient siblingURL self pollInterval g =
    (let normalized = TrimRight CHR ''/'' siblingURL in
     if HasPrefix (ToLower normalized) ''http://'' then Inl (InsecureSiblingURL normalized)
     else Inr (newDiscoveryClient normalized self pollInterval g))"

definition NewInsecureDiscoveryClient :: "string \<Rightarrow> Manifest \<Rightarrow> duration \<Rightarrow> Guard option \<Rightarrow> DiscoveryClient" where
  "NewInsecureDiscoveryClient siblingURL self pollInterval g =
    newDiscoveryClient (TrimRight CHR ''/'' siblingURL) self pollInterval g"

definition Snapshot :: "DiscoveryClient \<Rightarrow> SiblingState \<times> Manifest option" where
  "Snapshot d = (dc_state d, clone (dc_lastGood d))"

definition SiblingPublicURL :: "(string \<Rightarrow> URL option) \<Rightarrow> (string \<Rightarrow> ip list option) \<Rightarrow> DiscoveryClient \<Rightarrow> suite_error + string" where
  "SiblingPublicURL parse lookup d =
    (case Snapshot d of (state, m) \<Rightarrow>
       if state \<noteq> StateActive \<or> m = None then Inl (NotActive (state_text state))
       else Resolve parse lookup (dc_guard d) (m_PublicURL (the m)))"

definition GuardedClient :: "DiscoveryClient \<Rightarrow> duration \<Rightarrow> unit Client" where
  "GuardedClient d timeout = NewClient timeout (dc_guard d)"

text \<open>What the poll meets: the request cannot be built, the exchange fails, or a status and a body.\<close>

datatype answer = NoRequest | NoResponse | Response nat string

definition fetch :: "(string \<Rightarrow> Manifest option) \<Rightarrow> (string \<Rightarrow> answer) \<Rightarrow> DiscoveryClient \<Rightarrow> suite_error + Manifest" where
  "fetch unmarshal net d =
    (case net (dc_siblingURL d @ ManifestPath) of
       NoRequest \<Rightarrow> Inl BadRequest
     | NoResponse \<Rightarrow> Inl Transport
     | Response status body \<Rightarrow>
         if status \<noteq> 200 then Inl (Status status)
         else case unmarshal (take maxManifestBytes body) of None \<Rightarrow> Inl Undecodable | Some m \<Rightarrow> Inr m)"

definition pollOnce :: "(string \<Rightarrow> Manifest option) \<Rightarrow> (string \<Rightarrow> answer) \<Rightarrow> time \<Rightarrow> DiscoveryClient \<Rightarrow> DiscoveryClient" where
  "pollOnce unmarshal net now d =
    (case fetch unmarshal net d of
       Inl e \<Rightarrow> if \<not> is_zero (dc_lastOKAt d) \<and> now - dc_lastOKAt d \<le> dc_graceWindow d
               then d\<lparr>dc_state := StateDegraded\<rparr> else d\<lparr>dc_state := StateUnreachable\<rparr>
     | Inr m \<Rightarrow> if \<not> fst (NegotiateCompat (dc_self d) m) then d\<lparr>dc_state := StateUnreachable\<rparr>
               else d\<lparr>dc_lastGood := Some m, dc_lastOKAt := now, dc_state := StateActive\<rparr>)"

text \<open>A tick of the loop: a poll that returns, or one that panics inside \<open>fetch\<close>, before the lock is taken.\<close>

datatype tick = Polled "string \<Rightarrow> answer" time | Panicked

fun safePollOnce :: "(string \<Rightarrow> Manifest option) \<Rightarrow> tick \<Rightarrow> DiscoveryClient \<Rightarrow> DiscoveryClient" where
  "safePollOnce unmarshal (Polled net now) d = pollOnce unmarshal net now d"
| "safePollOnce unmarshal Panicked d = d"

definition run_ticks :: "(string \<Rightarrow> Manifest option) \<Rightarrow> tick list \<Rightarrow> DiscoveryClient \<Rightarrow> DiscoveryClient" where
  "run_ticks unmarshal ticks d = fold (safePollOnce unmarshal) ticks d"

subsection \<open>Hosts\<close>

definition Atoi :: "string \<Rightarrow> int option" where
  "Atoi s =
    (let (neg, ds) = (if s \<noteq> [] \<and> hd s = CHR ''-'' then (True, tl s) else if s \<noteq> [] \<and> hd s = CHR ''+'' then (False, tl s) else (False, s)) in
     if ds = [] \<or> \<not> list_all is_digit ds then None
     else let n = (if neg then - int (dec_val ds) else int (dec_val ds)) in
       if - (2 ^ 63) \<le> n \<and> n < 2 ^ 63 then Some n else None)"

definition Itoa_int :: "int \<Rightarrow> string" where
  "Itoa_int n = (if n < 0 then CHR ''-'' # Itoa (nat (- n)) else Itoa (nat n))"

fun contains_scheme :: "string \<Rightarrow> bool" where
  "contains_scheme [] = False"
| "contains_scheme (c # s) = (HasPrefix (c # s) ''://'' \<or> contains_scheme s)"

definition stripScheme :: "(string \<Rightarrow> URL option) \<Rightarrow> string \<Rightarrow> string" where
  "stripScheme parse raw =
    (if \<not> contains_scheme raw then raw
     else case parse raw of Some u \<Rightarrow> if url_Host u \<noteq> [] then url_Host u else raw | None \<Rightarrow> raw)"

definition bareIPv6WithZone :: "string \<Rightarrow> string option" where
  "bareIPv6WithZone raw =
    (if CHR ''%'' \<notin> set raw then None
     else let a = takeWhile (\<lambda>c. c \<noteq> CHR ''%'') raw in
       if ParseIP a = None \<or> CHR '':'' \<notin> set a then None else Some raw)"

definition splitHostPort :: "(string \<Rightarrow> URL option) \<Rightarrow> string \<Rightarrow> (string \<times> string) option" where
  "splitHostPort parse raw =
    (if CHR '':'' \<notin> set raw then Some (raw, [])
     else case SplitHostPort raw of
       Some hp \<Rightarrow> Some hp
     | None \<Rightarrow>
       (case bareIPv6WithZone raw of
          Some zoned \<Rightarrow> Some (zoned, [])
        | None \<Rightarrow>
          (case parse (''//'' @ raw) of
             None \<Rightarrow> None
           | Some u \<Rightarrow> if url_Host u = [] then None
                       else case SplitHostPort (url_Host u) of Some hp \<Rightarrow> Some hp | None \<Rightarrow> Some (url_Host u, []))))"

definition TrimPrefix :: "string \<Rightarrow> string \<Rightarrow> string" where
  "TrimPrefix s p = (if HasPrefix s p then drop (length p) s else s)"

definition TrimSuffix :: "string \<Rightarrow> string \<Rightarrow> string" where
  "TrimSuffix s p = (if HasPrefix (rev s) (rev p) then take (length s - length p) s else s)"

definition foldHost :: "(string \<Rightarrow> string option) \<Rightarrow> string \<Rightarrow> string" where
  "foldHost toASCII host =
    (let host1 = TrimSuffix (TrimPrefix host ''['') '']'';
         host2 = ToLower (TrimSuffix host1 ''.'') in
     case toASCII host2 of Some ascii \<Rightarrow> if ascii \<noteq> [] then ascii else host2 | None \<Rightarrow> host2)"

definition canonicalPort :: "string \<Rightarrow> string" where
  "canonicalPort port =
    (if port = [] then []
     else case Atoi port of None \<Rightarrow> port
     | Some n \<Rightarrow> if n = 80 \<or> n = 443 then [] else Itoa_int n)"

definition CanonicalHost :: "(string \<Rightarrow> URL option) \<Rightarrow> (string \<Rightarrow> string option) \<Rightarrow> string \<Rightarrow> string" where
  "CanonicalHost parse toASCII raw0 =
    (let raw = TrimSpace raw0 in
     if raw = [] then []
     else if CHR ''@'' \<in> set raw then []
     else case splitHostPort parse (stripScheme parse raw) of
       None \<Rightarrow> []
     | Some (host, port) \<Rightarrow>
       let host' = foldHost toASCII host; port' = canonicalPort port in
       if port' = [] then host' else JoinHostPort host' port')"

subsection \<open>Negotiation\<close>

lemma split_last_None: "c \<notin> set s \<Longrightarrow> split_last c s = None"
  by (simp add: split_last_def)

text \<open>Compatibility does not depend on who asks, and not on the minor version: only the major token counts.\<close>

theorem NegotiateCompat_symmetric:
  assumes "m_App a \<noteq> []" "m_App b \<noteq> []"
  shows "fst (NegotiateCompat a b) = fst (NegotiateCompat b a)"
  using assms by (auto simp: NegotiateCompat_def Let_def)

theorem Major_ignores_minor:
  assumes "CHR ''/'' \<notin> set v" "CHR ''/'' \<notin> set rest" "CHR ''.'' \<notin> set v"
  shows "Major (p @ ''/'' @ v) = v \<and> Major (p @ ''/'' @ v @ ''.'' @ rest) = v"
  using assms split_last_append [of "CHR ''/''" v p] split_last_append [of "CHR ''/''" "v @ ''.'' @ rest" p]
  by (simp add: Major_def takeWhile_append takeWhile_eq_all_conv [THEN iffD2])

subsection \<open>The state of the sibling\<close>

text \<open>What each tick found, and the view that the list of findings gives: a specification that keeps no state.\<close>

datatype finding = Good Manifest time | Incompatible | Failed_at time | Nothing

fun finding_of :: "(string \<Rightarrow> Manifest option) \<Rightarrow> DiscoveryClient \<Rightarrow> tick \<Rightarrow> finding" where
  "finding_of unmarshal d (Polled net now) =
    (case fetch unmarshal net d of Inl _ \<Rightarrow> Failed_at now
     | Inr m \<Rightarrow> if fst (NegotiateCompat (dc_self d) m) then Good m now else Incompatible)"
| "finding_of unmarshal d Panicked = Nothing"

fun good_of :: "finding \<Rightarrow> (Manifest \<times> time) option" where
  "good_of (Good m t) = Some (m, t)"
| "good_of _ = None"

definition last_good :: "finding list \<Rightarrow> (Manifest \<times> time) option" where
  "last_good fs = (if List.map_filter good_of fs = [] then None else Some (last (List.map_filter good_of fs)))"

definition view :: "duration \<Rightarrow> finding list \<Rightarrow> SiblingState" where
  "view grace fs =
    (if filter (\<lambda>f. f \<noteq> Nothing) fs = [] then StateUnknown
     else (case last (filter (\<lambda>f. f \<noteq> Nothing) fs) of
         Good m t \<Rightarrow> StateActive
       | Failed_at now \<Rightarrow> (case last_good fs of Some (m, t) \<Rightarrow> if now - t \<le> grace then StateDegraded else StateUnreachable | None \<Rightarrow> StateUnreachable)
       | _ \<Rightarrow> StateUnreachable))"

lemma last_good_snoc: "last_good (fs @ [f]) = (case good_of f of None \<Rightarrow> last_good fs | Some g \<Rightarrow> Some g)"
proof -
  have "List.map_filter good_of (fs @ [f]) = List.map_filter good_of fs @ (case good_of f of None \<Rightarrow> [] | Some g \<Rightarrow> [g])"
    by (simp add: map_filter_def split: option.split)
  then show ?thesis by (simp add: last_good_def split: option.split)
qed

lemma view_snoc:
  "view grace (fs @ [f]) = (case f of
      Nothing \<Rightarrow> view grace fs
    | Good m t \<Rightarrow> StateActive
    | Incompatible \<Rightarrow> StateUnreachable
    | Failed_at now \<Rightarrow> (case last_good fs of Some (m, t) \<Rightarrow> if now - t \<le> grace then StateDegraded else StateUnreachable | None \<Rightarrow> StateUnreachable))"
proof (cases "f = Nothing")
  case True
  then have same: "last_good (fs @ [f]) = last_good fs" "filter (\<lambda>f. f \<noteq> Nothing) (fs @ [f]) = filter (\<lambda>f. f \<noteq> Nothing) fs"
    by (simp_all add: last_good_snoc)
  show ?thesis unfolding view_def same by (simp add: True)
next
  case False
  then have "view grace (fs @ [f]) = (case f of
         Good m t \<Rightarrow> StateActive
       | Failed_at now \<Rightarrow> (case last_good (fs @ [f]) of Some (m, t) \<Rightarrow> if now - t \<le> grace then StateDegraded else StateUnreachable | None \<Rightarrow> StateUnreachable)
       | _ \<Rightarrow> StateUnreachable)"
    by (simp add: view_def)
  with False show ?thesis by (cases f) (simp_all add: last_good_snoc)
qed

lemma poll_fixed [simp]:
  "dc_siblingURL (safePollOnce unmarshal k d) = dc_siblingURL d" "dc_self (safePollOnce unmarshal k d) = dc_self d"
  "dc_graceWindow (safePollOnce unmarshal k d) = dc_graceWindow d" "dc_guard (safePollOnce unmarshal k d) = dc_guard d"
  "dc_httpClient (safePollOnce unmarshal k d) = dc_httpClient d"
  by (cases k; simp add: pollOnce_def split: sum.split)+

lemma run_ticks_fixed [simp]:
  "dc_siblingURL (run_ticks unmarshal ks d) = dc_siblingURL d" "dc_self (run_ticks unmarshal ks d) = dc_self d"
  "dc_graceWindow (run_ticks unmarshal ks d) = dc_graceWindow d" "dc_guard (run_ticks unmarshal ks d) = dc_guard d"
  "dc_httpClient (run_ticks unmarshal ks d) = dc_httpClient d"
  by (induction ks arbitrary: d) (simp_all add: run_ticks_def)

lemma finding_of_fixed:
  "dc_siblingURL d' = dc_siblingURL d \<Longrightarrow> dc_self d' = dc_self d \<Longrightarrow> finding_of unmarshal d' = finding_of unmarshal d"
proof
  fix k
  assume same: "dc_siblingURL d' = dc_siblingURL d" "dc_self d' = dc_self d"
  have f: "fetch unmarshal net d' = fetch unmarshal net d" for net unfolding fetch_def same ..
  show "finding_of unmarshal d' k = finding_of unmarshal d k" by (cases k) (simp_all only: finding_of.simps f same)
qed

lemma run_ticks_snoc: "run_ticks unmarshal (ks @ [k]) d = safePollOnce unmarshal k (run_ticks unmarshal ks d)"
  by (simp add: run_ticks_def)

lemma tick_effect:
  assumes "dc_lastOKAt d = 0 \<longleftrightarrow> lg = None" "\<forall>m t. lg = Some (m, t) \<longrightarrow> dc_lastOKAt d = t \<and> dc_lastGood d = Some m"
  shows "dc_state (safePollOnce unmarshal k d) = (case finding_of unmarshal d k of
      Nothing \<Rightarrow> dc_state d
    | Good m t \<Rightarrow> StateActive
    | Incompatible \<Rightarrow> StateUnreachable
    | Failed_at now \<Rightarrow> (case lg of Some (m, t) \<Rightarrow> if now - t \<le> dc_graceWindow d then StateDegraded else StateUnreachable | None \<Rightarrow> StateUnreachable))"
    and "dc_lastOKAt (safePollOnce unmarshal k d) = (case good_of (finding_of unmarshal d k) of None \<Rightarrow> dc_lastOKAt d | Some (m, t) \<Rightarrow> t)"
    and "dc_lastGood (safePollOnce unmarshal k d) = (case good_of (finding_of unmarshal d k) of None \<Rightarrow> dc_lastGood d | Some (m, t) \<Rightarrow> Some m)"
  using assms by (cases k; cases lg; auto simp: pollOnce_def is_zero_def split: sum.split)+

definition clock_ok :: "tick list \<Rightarrow> bool" where
  "clock_ok ks \<longleftrightarrow> list_all (\<lambda>k. case k of Polled net now \<Rightarrow> now \<noteq> 0 | Panicked \<Rightarrow> True) ks"

lemma good_time:
  "clock_ok ks \<Longrightarrow> last_good (map (finding_of unmarshal d) ks) = Some (m, t) \<Longrightarrow> t \<noteq> 0"
proof (induction ks rule: rev_induct)
  case (snoc k ks)
  then show ?case
    by (cases k) (auto simp: last_good_snoc clock_ok_def split: sum.splits if_splits)
qed (simp add: last_good_def map_filter_simps)

lemma discovery_history:
  assumes "clock_ok ks" "dc_state d = StateUnknown" "dc_lastGood d = None" "dc_lastOKAt d = 0"
  shows "dc_state (run_ticks unmarshal ks d) = view (dc_graceWindow d) (map (finding_of unmarshal d) ks)
    \<and> dc_lastGood (run_ticks unmarshal ks d) = map_option fst (last_good (map (finding_of unmarshal d) ks))
    \<and> dc_lastOKAt (run_ticks unmarshal ks d) = (case last_good (map (finding_of unmarshal d) ks) of None \<Rightarrow> 0 | Some (m, t) \<Rightarrow> t)"
  using assms(1)
proof (induction ks rule: rev_induct)
  case Nil
  then show ?case using assms(2-4) by (simp add: run_ticks_def view_def last_good_def map_filter_simps)
next
  case (snoc k ks)
  let ?d = "run_ticks unmarshal ks d"
  let ?lg = "last_good (map (finding_of unmarshal d) ks)"
  have ok: "clock_ok ks" using snoc.prems by (simp add: clock_ok_def)
  note IH = snoc.IH [OF ok]
  have same: "finding_of unmarshal ?d k = finding_of unmarshal d k" using finding_of_fixed [of ?d d unmarshal] by simp
  have lg: "dc_lastOKAt ?d = 0 \<longleftrightarrow> ?lg = None" "\<forall>m t. ?lg = Some (m, t) \<longrightarrow> dc_lastOKAt ?d = t \<and> dc_lastGood ?d = Some m"
    using IH good_time [OF ok, of unmarshal d] by (auto split: option.splits)
  note E = tick_effect [where d = ?d and lg = ?lg and unmarshal = unmarshal and k = k, OF lg]
  show ?case
    unfolding run_ticks_snoc E same map_append list.map view_snoc last_good_snoc using IH
    by (cases "finding_of unmarshal d k") (simp_all split: option.split)
qed

text \<open>
  C32: the sibling's state is a function of what the polls found. After any sequence of ticks, polls that panic included, the client is unknown
  until a poll returned; active exactly when the last poll returned a compatible manifest; degraded when it failed within the grace
  window of the last good poll; unreachable otherwise, and at once on an incompatible manifest. The manifest kept is that of the last good poll.
\<close>

theorem discovery_state_is_history:
  assumes "clock_ok ks" "d = newDiscoveryClient url self iv g"
  shows "dc_state (run_ticks unmarshal ks d) = view defaultGraceWindow (map (finding_of unmarshal d) ks)
    \<and> dc_lastGood (run_ticks unmarshal ks d) = map_option fst (last_good (map (finding_of unmarshal d) ks))"
  using discovery_history [OF assms(1), of d unmarshal] by (simp add: assms(2) newDiscoveryClient_def)

text \<open>
  A URL to fetch from the sibling is handed out only while the sibling is active and the egress policy accepts the URL. When \<open>SiblingPublicURL\<close>
  returns a text after any sequence of ticks, the last poll that returned found a compatible manifest, the text is what that manifest
  names, trimmed and not empty, and \<open>ValidateURL\<close> of the client's own guard accepts it; the client polls no plaintext URL and follows no redirect.
\<close>

theorem SiblingPublicURL_is_checked:
  assumes "clock_ok ks" "NewDiscoveryClient siblingURL self iv g = Inr d"
    and "SiblingPublicURL parse lookup (run_ticks unmarshal ks d) = Inr u"
  shows "view defaultGraceWindow (map (finding_of unmarshal d) ks) = StateActive
    \<and> (\<exists>m t. last_good (map (finding_of unmarshal d) ks) = Some (m, t) \<and> u = TrimRight CHR ''/'' (TrimSpace (m_PublicURL m)))
    \<and> u \<noteq> [] \<and> ValidateURL g parse lookup u = Inr ()
    \<and> \<not> HasPrefix (ToLower (dc_siblingURL d)) ''http://''
    \<and> cl_CheckRedirect (dc_httpClient (run_ticks unmarshal ks d)) parse lookup req via = Inl ErrUseLastResponse"
proof -
  have d: "d = newDiscoveryClient (TrimRight CHR ''/'' siblingURL) self iv g"
    "\<not> HasPrefix (ToLower (dc_siblingURL d)) ''http://''"
    using assms(2) by (auto simp: NewDiscoveryClient_def Let_def newDiscoveryClient_def split: if_splits)
  let ?e = "run_ticks unmarshal ks d"
  have hist: "dc_state ?e = view defaultGraceWindow (map (finding_of unmarshal d) ks)"
    "dc_lastGood ?e = map_option fst (last_good (map (finding_of unmarshal d) ks))"
    using discovery_history [OF assms(1), of d unmarshal] by (simp_all add: d(1) newDiscoveryClient_def)
  have c: "clone x = x" for x by (cases x) (auto simp: clone_def split: option.split)
  have act: "dc_state ?e = StateActive" "dc_lastGood ?e \<noteq> None"
    and res: "Resolve parse lookup g (m_PublicURL (the (dc_lastGood ?e))) = Inr u"
    using assms(3) by (auto simp: SiblingPublicURL_def Snapshot_def c d(1) newDiscoveryClient_def split: if_splits)
  then obtain m where m: "dc_lastGood ?e = Some m" by blast
  with hist(2) obtain t where "last_good (map (finding_of unmarshal d) ks) = Some (m, t)"
    by (cases "last_good (map (finding_of unmarshal d) ks)") auto
  moreover have "u = TrimRight CHR ''/'' (TrimSpace (m_PublicURL m))" "u \<noteq> []" "ValidateURL g parse lookup u = Inr ()"
    using res m by (auto simp: Resolve_def Let_def split: if_splits sum.splits)
  moreover have "cl_CheckRedirect (dc_httpClient ?e) parse lookup req via = Inl ErrUseLastResponse"
    by (simp add: d(1) newDiscoveryClient_def)
  ultimately show ?thesis using hist(1) act(1) d(2) by auto
qed

subsection \<open>Canonical hosts\<close>

lemma is_digit_no_sign: "list_all is_digit s \<Longrightarrow> s \<noteq> [] \<Longrightarrow> hd s \<noteq> CHR ''-'' \<and> hd s \<noteq> CHR ''+''"
  by (cases s) (auto simp: is_digit_def)

lemma Atoi_Itoa_int: "- (2 ^ 63) \<le> n \<Longrightarrow> n < 2 ^ 63 \<Longrightarrow> Atoi (Itoa_int n) = Some n"
  using is_digit_no_sign [of "Itoa (nat n)"]
  by (auto simp: Atoi_def Itoa_int_def Let_def Itoa_digits)

lemma Atoi_range: "Atoi s = Some n \<Longrightarrow> - (2 ^ 63) \<le> n \<and> n < 2 ^ 63"
  by (auto simp: Atoi_def Let_def split: if_splits prod.splits)

lemma Itoa_int_not_Nil [simp]: "Itoa_int n \<noteq> []"
  by (simp add: Itoa_int_def)

theorem canonicalPort_idempotent: "canonicalPort (canonicalPort p) = canonicalPort p"
proof (cases "Atoi p")
  case None
  then show ?thesis by (simp add: canonicalPort_def)
next
  case (Some n)
  then show ?thesis using Atoi_range [OF Some] Atoi_Itoa_int [of n] by (simp add: canonicalPort_def)
qed

text \<open>A plain host: lower case already, no character that has a meaning in an authority, and left alone by the IDNA mapping.\<close>

definition plain_char :: "char \<Rightarrow> bool" where
  "plain_char c \<longleftrightarrow> \<not> is_space c \<and> c \<notin> {CHR '':'', CHR ''@'', CHR ''['', CHR '']'', CHR ''/'', CHR ''%''}"

definition plain_host :: "(string \<Rightarrow> string option) \<Rightarrow> string \<Rightarrow> bool" where
  "plain_host toASCII h \<longleftrightarrow> h \<noteq> [] \<and> list_all plain_char h \<and> last h \<noteq> CHR ''.'' \<and> ToLower h = h \<and> toASCII h \<in> {None, Some h}"

text \<open>The spellings of the host that the function is there to fold: any case, a trailing dot or none.\<close>

definition spelling_of :: "string \<Rightarrow> string \<Rightarrow> bool" where
  "spelling_of h v \<longleftrightarrow> (\<exists>w. ToLower w = h \<and> (v = w \<or> v = w @ ''.''))"

lemma lower_char_plain: "plain_char (lower_char c) \<Longrightarrow> plain_char c"
  by (auto simp: plain_char_def lower_char_def is_space_def split: if_splits)

lemma spelling_plain:
  assumes "plain_host toASCII h" "spelling_of h v"
  shows "v \<noteq> []" "list_all plain_char v" "foldHost toASCII v = h"
proof -
  obtain w where w: "ToLower w = h" "v = w \<or> v = w @ ''.''" using assms(2) by (auto simp: spelling_of_def)
  have ne: "w \<noteq> []" using w(1) assms(1) by (auto simp: plain_host_def ToLower_def)
  have pw: "list_all plain_char w"
    using w(1) assms(1) lower_char_plain by (auto simp: plain_host_def ToLower_def list_all_iff)
  have dot: "plain_char CHR ''.''" by (simp add: plain_char_def is_space_def)
  show "v \<noteq> []" "list_all plain_char v" using ne pw dot w(2) by auto
  have l: "last w \<noteq> CHR ''.''"
    using assms(1) w(1) ne by (auto simp: plain_host_def ToLower_def last_map lower_char_def)
  have br: "hd v \<noteq> CHR ''[''" "last v \<noteq> CHR '']''"
    using \<open>list_all plain_char v\<close> \<open>v \<noteq> []\<close> by (auto simp: list_all_iff plain_char_def)
  have p1: "TrimPrefix v ''['' = v" using br(1) \<open>v \<noteq> []\<close> by (cases v) (auto simp: TrimPrefix_def HasPrefix_def)
  have suf: "TrimSuffix x [c] = (if x \<noteq> [] \<and> last x = c then butlast x else x)" for x c
    by (cases x rule: rev_cases) (auto simp: TrimSuffix_def HasPrefix_def)
  have "TrimSuffix v ''.'' = w" using w(2) l ne by (auto simp: suf)
  then show "foldHost toASCII v = h"
    using assms(1) w(1) br(2) by (auto simp: foldHost_def p1 suf plain_host_def Let_def)
qed

lemma plain_no_special:
  assumes "list_all plain_char v"
  shows "CHR '':'' \<notin> set v" "CHR ''@'' \<notin> set v" "CHR ''['' \<notin> set v" "CHR '']'' \<notin> set v" "CHR ''/'' \<notin> set v"
  using assms by (auto simp: list_all_iff plain_char_def)

lemma TrimSpace_plain: "s \<noteq> [] \<Longrightarrow> \<not> is_space (hd s) \<Longrightarrow> \<not> is_space (last s) \<Longrightarrow> TrimSpace s = s"
  by (simp add: TrimSpace_def dropWhile_eq_self_iff [THEN iffD2] hd_rev)

lemma HasPrefix_set: "HasPrefix s p \<Longrightarrow> set p \<subseteq> set s"
  by (metis HasPrefix_def set_take_subset)

lemma contains_scheme_slash: "contains_scheme s \<Longrightarrow> CHR ''/'' \<in> set s"
  by (induction s) (auto dest: HasPrefix_set)

text \<open>
  Spellings of one host compare equal. For a plain host \<open>h\<close>, every spelling in any case, with or without a trailing dot, alone or with a default port (80 or 443,
  leading zeros included), or inside a URL whose authority it is, has the canonical form \<open>h\<close>; with another port the canonical form is \<open>h\<close> and
  that port without leading zeros; and a text with userinfo has none.
\<close>

theorem CanonicalHost_folds:
  assumes "plain_host toASCII h" "spelling_of h v" "list_all is_digit p" "p \<noteq> []" "int (dec_val p) < 2 ^ 63"
  shows "CanonicalHost parse toASCII v = h
    \<and> CanonicalHost parse toASCII (v @ '':'' @ p) = (if dec_val p = 80 \<or> dec_val p = 443 then h else h @ '':'' @ Itoa (dec_val p))
    \<and> (\<forall>raw u. parse raw = Some u \<and> url_Host u = v \<and> contains_scheme raw \<and> CHR ''@'' \<notin> set raw \<and> TrimSpace raw = raw \<longrightarrow>
         CanonicalHost parse toASCII raw = h)
    \<and> (\<forall>raw. CHR ''@'' \<in> set (TrimSpace raw) \<longrightarrow> CanonicalHost parse toASCII raw = [])"
proof (intro conjI allI impI)
  note v = spelling_plain [OF assms(1,2)]
  note no = plain_no_special [OF v(2)]
  have digit_char: "c \<notin> {CHR '':'', CHR ''@'', CHR ''['', CHR '']'', CHR ''/''} \<and> \<not> is_space c" if "c \<in> set p" for c
    using that assms(3) by (auto simp: list_all_iff is_digit_def is_space_def)
  have edge: "\<not> is_space (hd v)" "\<not> is_space (last v)" "\<not> is_space (last p)"
    using v(1,2) digit_char assms(4) by (auto simp: list_all_iff plain_char_def)
  have hcol: "CHR '':'' \<notin> set h" using assms(1) by (auto simp: plain_host_def list_all_iff plain_char_def)
  have bare: "splitHostPort parse v = Some (v, [])" using no(1) by (simp add: splitHostPort_def)
  have plain: "stripScheme parse v = v" using no(5) contains_scheme_slash by (auto simp: stripScheme_def)
  show "CanonicalHost parse toASCII v = h"
    using v no(2) by (simp add: CanonicalHost_def Let_def TrimSpace_plain edge plain bare canonicalPort_def)
  have "CHR ''/'' \<notin> set (v @ '':'' @ p)" using no(5) digit_char by auto
  then have "\<not> contains_scheme (v @ '':'' @ p)" using contains_scheme_slash by blast
  then have strip: "stripScheme parse (v @ '':'' @ p) = v @ '':'' @ p" by (simp only: stripScheme_def not_False_eq_True if_True)
  have split: "SplitHostPort (v @ '':'' @ p) = Some (v, p)"
    using SplitHostPort_JoinHostPort [of v p] no digit_char by (auto simp: JoinHostPort_def)
  have port: "canonicalPort p = (if dec_val p = 80 \<or> dec_val p = 443 then [] else Itoa (dec_val p))"
    using is_digit_no_sign [OF assms(3,4)] assms(3-5) by (simp add: canonicalPort_def Atoi_def Itoa_int_def)
  show "CanonicalHost parse toASCII (v @ '':'' @ p) = (if dec_val p = 80 \<or> dec_val p = 443 then h else h @ '':'' @ Itoa (dec_val p))"
  proof -
    define vp where "vp = v @ '':'' @ p"
    have "vp \<noteq> []" "CHR ''@'' \<notin> set vp" "TrimSpace vp = vp"
      using v(1) no(2) digit_char edge assms(4) by (auto simp: vp_def intro!: TrimSpace_plain)
    moreover have "stripScheme parse vp = vp" using strip by (simp only: vp_def)
    moreover have "splitHostPort parse vp = Some (v, p)"
      using split by (simp only: splitHostPort_def vp_def) simp
    ultimately have "CanonicalHost parse toASCII vp = (let port' = canonicalPort p in if port' = [] then h else JoinHostPort h port')"
      by (simp add: CanonicalHost_def v(3))
    then show ?thesis using hcol by (simp add: vp_def port JoinHostPort_def)
  qed
  show "CanonicalHost parse toASCII raw = h"
    if "parse raw = Some u \<and> url_Host u = v \<and> contains_scheme raw \<and> CHR ''@'' \<notin> set raw \<and> TrimSpace raw = raw" for raw u
    using that v by (auto simp: CanonicalHost_def Let_def stripScheme_def bare canonicalPort_def)
  show "CanonicalHost parse toASCII raw = []" if "CHR ''@'' \<in> set (TrimSpace raw)" for raw
    using that by (auto simp: CanonicalHost_def Let_def)
qed

subsection \<open>Examples\<close>

definition ex_manifest :: "string \<Rightarrow> Manifest" where
  "ex_manifest app = \<lparr>m_SchemaVersion = ''suite/v1'', m_App = app, m_Version = ''1'', m_BuildDate = [], m_PublicURL = ''https://s/'',
     m_Identity = \<lparr>id_Issuer = ''i'', id_SharedStore = False, id_Schema = []\<rparr>, m_Capabilities = None, m_Links = None\<rparr>"

definition ex_client :: DiscoveryClient where
  "ex_client = newDiscoveryClient ''https://sib'' (ex_manifest ''a'') 0 None"

definition ex_unmarshal :: "string \<Rightarrow> Manifest option" where
  "ex_unmarshal s = (if s = ''m'' then Some (ex_manifest ''b'') else None)"

definition ex_up :: "string \<Rightarrow> answer" where
  "ex_up u = (if u = ''https://sib/api/v1/suite/manifest'' then Response 200 ''m'' else NoResponse)"

definition ex_down :: "string \<Rightarrow> answer" where
  "ex_down u = NoResponse"

lemma ex_findings:
  "finding_of ex_unmarshal ex_client (Polled ex_up t) = Good (ex_manifest ''b'') t"
  "finding_of ex_unmarshal ex_client (Polled ex_down t) = Failed_at t"
proof -
  have "fetch ex_unmarshal ex_up ex_client = Inr (ex_manifest ''b'')"
    by (simp add: fetch_def ex_up_def ex_client_def newDiscoveryClient_def ManifestPath_def ex_unmarshal_def maxManifestBytes_def)
  moreover have "fst (NegotiateCompat (dc_self ex_client) (ex_manifest ''b''))" by code_simp
  ultimately show "finding_of ex_unmarshal ex_client (Polled ex_up t) = Good (ex_manifest ''b'') t" by simp
  show "finding_of ex_unmarshal ex_client (Polled ex_down t) = Failed_at t" by (simp add: fetch_def ex_down_def)
qed

theorem discovery_state_is_history_witness:
  "dc_state (run_ticks ex_unmarshal [Polled ex_up 5, Panicked, Polled ex_down 9] ex_client) = StateDegraded"
  using discovery_state_is_history [of "[Polled ex_up 5, Panicked, Polled ex_down 9]" ex_client "''https://sib''" "ex_manifest ''a''" 0 None ex_unmarshal]
  by (simp add: ex_client_def [symmetric] ex_findings clock_ok_def view_def last_good_def map_filter_simps defaultGraceWindow_def minute_def second_def
      del: finding_of.simps(1))

definition ex_parse :: "string \<Rightarrow> URL option" where
  "ex_parse s = (if s = ''https://s'' then Some \<lparr>url_Scheme = ''https'', url_Host = ''s''\<rparr> else None)"

theorem SiblingPublicURL_is_checked_witness:
  "ValidateURL None ex_parse (\<lambda>_. None) ''https://s'' = Inr ()"
proof -
  have new: "NewDiscoveryClient ''https://sib'' (ex_manifest ''a'') 0 None = Inr ex_client"
    by (simp add: NewDiscoveryClient_def Let_def TrimRight_def HasPrefix_def ToLower_def lower_char_def ex_client_def)
  have poll: "run_ticks ex_unmarshal [Polled ex_up 5] ex_client
      = ex_client\<lparr>dc_lastGood := Some (ex_manifest ''b''), dc_lastOKAt := 5, dc_state := StateActive\<rparr>"
    using ex_findings(1) [of 5] by (simp add: run_ticks_def pollOnce_def split: sum.splits if_splits)
  have val: "ValidateURL None ex_parse (\<lambda>_. None) ''https://s'' = Inr ()" by code_simp
  have "SiblingPublicURL ex_parse (\<lambda>_. None) (run_ticks ex_unmarshal [Polled ex_up 5] ex_client) = Inr ''https://s''"
    unfolding poll using val
    by (simp add: SiblingPublicURL_def Snapshot_def clone_def Resolve_def ex_manifest_def TrimRight_def TrimSpace_def is_space_def ex_client_def newDiscoveryClient_def)
  then show ?thesis
    using SiblingPublicURL_is_checked [OF _ new, of "[Polled ex_up 5]" ex_parse "\<lambda>_. None" ex_unmarshal "''https://s''"] by (simp add: clock_ok_def)
qed

theorem CanonicalHost_folds_witness:
  "CanonicalHost (\<lambda>_. None) (\<lambda>_. None) ''Ab.io.:0443'' = ''ab.io''"
proof -
  have h: "plain_host (\<lambda>_. None) ''ab.io''" by code_simp
  have sp: "spelling_of ''ab.io'' ''Ab.io.''" unfolding spelling_of_def by (rule exI [of _ "''Ab.io''"]) code_simp
  have p: "list_all is_digit ''0443''" "int (dec_val ''0443'') < 2 ^ 63" "dec_val ''0443'' = 443" by code_simp+
  show ?thesis using CanonicalHost_folds [OF h sp p(1) _ p(2), of "\<lambda>_. None"] p(3) by simp
qed

end
