(* ===== verification/App_Creds.thy ===== *)
theory App_Creds
  imports Http_Safe
begin

text \<open>
  Package \<open>appcreds\<close>: access tokens for integrations without a user. The credential types and their cache keys, the exchanges
  (\<open>entra.go\<close>, \<open>federated.go\<close>, \<open>managedidentity.go\<close>, \<open>certificate.go\<close>, \<open>githubapp.go\<close>), the in-memory cache and the minter that reads through
  it (\<open>cache.go\<close>). The hash (SHA-256 in hexadecimal) is the argument \<open>H\<close>. What the outside answers is a record \<open>mint_env\<close>: the Azure SDK's credentials and
  certificate parser, PEM and key parsing, signing, the network, JSON decoding and the clock.
\<close>

definition AzureDevOpsResourceID :: string where "AzureDevOpsResourceID = ''499b84ac-1321-427f-aa17-267ca6975798''"
definition DefaultEntraLoginBaseURL :: string where "DefaultEntraLoginBaseURL = ''https://login.microsoftonline.com''"
definition DefaultGitHubAPIBaseURL :: string where "DefaultGitHubAPIBaseURL = ''https://api.github.com''"
definition defaultHTTPTimeout :: duration where "defaultHTTPTimeout = 30 * second"
definition DefaultRefreshMargin :: duration where "DefaultRefreshMargin = 60 * second"
definition maxTokenResponseBytes :: nat where "maxTokenResponseBytes = 8192"
definition appJWTLifetime :: duration where "appJWTLifetime = 9 * minute"
definition appJWTBackdate :: duration where "appJWTBackdate = 60 * second"

record Token =
  tok_AccessToken :: string
  tok_ExpiresAt :: time

definition Expired :: "Token \<Rightarrow> time \<Rightarrow> duration \<Rightarrow> bool" where
  "Expired t now margin =
    (if tok_AccessToken t = [] then True
     else if is_zero (tok_ExpiresAt t) then True
     else \<not> (tok_ExpiresAt t > now + margin))"

subsection \<open>Credentials\<close>

record EntraCreds =
  en_TenantID :: string
  en_ClientID :: string
  en_ClientSecret :: string

record CertificateCreds =
  ce_TenantID :: string
  ce_ClientID :: string
  ce_CertificatePEM :: string

record GitHubAppCreds =
  gh_AppID :: string
  gh_InstallationID :: string
  gh_PrivateKeyPEM :: string

datatype Creds =
    Entra EntraCreds
  | Certificate CertificateCreds
  | GitHubApp GitHubAppCreds
  | Federated string
  | ManagedIdentity string

datatype creds_error =
    ErrInvalidCreds "string list"
  | BadKey string
  | NoCredential
  | ExchangeFailed
  | EmptyToken
  | BadRequest
  | RequestFailed
  | BadStatus nat string
  | NotJSON
  | NoToken
  | SignFailed
  | ErrNoMinter

definition missing_fields :: "(string \<times> string) list \<Rightarrow> string list" where
  "missing_fields fs = map fst (filter (\<lambda>(name, v). TrimSpace v = []) fs)"

definition require_fields :: "(string \<times> string) list \<Rightarrow> creds_error option" where
  "require_fields fs = (let missing = missing_fields fs in if length missing > 0 then Some (ErrInvalidCreds missing) else None)"

definition EntraCreds_Validate :: "EntraCreds \<Rightarrow> creds_error option" where
  "EntraCreds_Validate c = require_fields [(''tenant_id'', en_TenantID c), (''client_id'', en_ClientID c), (''client_secret'', en_ClientSecret c)]"

definition CertificateCreds_Validate :: "CertificateCreds \<Rightarrow> creds_error option" where
  "CertificateCreds_Validate c = require_fields [(''tenant_id'', ce_TenantID c), (''client_id'', ce_ClientID c), (''certificate'', ce_CertificatePEM c)]"

definition GitHubAppCreds_Validate :: "GitHubAppCreds \<Rightarrow> creds_error option" where
  "GitHubAppCreds_Validate c = require_fields [(''app_id'', gh_AppID c), (''installation_id'', gh_InstallationID c), (''private_key'', gh_PrivateKeyPEM c)]"

definition FederatedCreds_Validate :: "string \<Rightarrow> creds_error option" where
  "FederatedCreds_Validate clientID = (if TrimSpace clientID = [] then Some (ErrInvalidCreds [''client_id'']) else None)"

definition ManagedIdentityCreds_Validate :: "string \<Rightarrow> creds_error option" where
  "ManagedIdentityCreds_Validate clientID = (if TrimSpace clientID = [] then Some (ErrInvalidCreds [''client_id'']) else None)"

fun Validate :: "Creds \<Rightarrow> creds_error option" where
  "Validate (Entra c) = EntraCreds_Validate c"
| "Validate (Certificate c) = CertificateCreds_Validate c"
| "Validate (GitHubApp c) = GitHubAppCreds_Validate c"
| "Validate (Federated i) = FederatedCreds_Validate i"
| "Validate (ManagedIdentity i) = ManagedIdentityCreds_Validate i"

abbreviation (input) NUL :: char where "NUL \<equiv> CHR 0x00"

fun fingerprint_parts :: "Creds \<Rightarrow> string list" where
  "fingerprint_parts (Entra c) = [''entra_client_secret'', en_TenantID c, en_ClientID c, en_ClientSecret c]"
| "fingerprint_parts (Certificate c) = [''entra_certificate'', ce_TenantID c, ce_ClientID c, ce_CertificatePEM c]"
| "fingerprint_parts (GitHubApp c) = [''github_app'', gh_AppID c, gh_InstallationID c, gh_PrivateKeyPEM c]"
| "fingerprint_parts (Federated i) = [''entra_federated'', i]"
| "fingerprint_parts (ManagedIdentity i) = [''entra_managed_identity'', i]"

definition Fingerprint :: "(string \<Rightarrow> string) \<Rightarrow> Creds \<Rightarrow> string" where
  "Fingerprint H c = H (Join [NUL] (fingerprint_parts c))"

subsection \<open>The minter\<close>

datatype 'k parsed_key = RSAKey 'k | OtherKey

record ('cert, 'k) mint_env =
  me_now :: time
  me_federated :: "string \<Rightarrow> (string \<times> time) option option"
  me_managed :: "string \<Rightarrow> (string \<times> time) option option"
  me_certificate :: "string \<Rightarrow> string \<Rightarrow> string \<Rightarrow> 'cert list \<Rightarrow> 'k \<Rightarrow> (string \<times> time) option option"
  me_parseCerts :: "string \<Rightarrow> ('cert list \<times> 'k option) option"
  me_pem :: "string \<Rightarrow> string option"
  me_pkcs1 :: "string \<Rightarrow> 'k option"
  me_pkcs8 :: "string \<Rightarrow> 'k parsed_key option"
  me_sign :: "'k \<Rightarrow> string \<Rightarrow> byte list option"
  me_claims :: "int \<Rightarrow> int \<Rightarrow> string \<Rightarrow> string"
  me_urlOK :: "string \<Rightarrow> bool"
  me_http :: "unit Client \<Rightarrow> string \<Rightarrow> (string \<times> string) list \<Rightarrow> (nat \<times> string) option"
  me_entraJSON :: "string \<Rightarrow> (string \<times> int) option"
  me_githubJSON :: "string \<Rightarrow> (string \<times> string) option"
  me_RFC3339 :: "string \<Rightarrow> time option"

record Minter =
  mi_httpClient :: "unit Client"
  mi_entraLoginBaseURL :: string
  mi_githubAPIBaseURL :: string

text \<open>The options that set a field; a nil argument leaves it. Clock and factories are fields of the environment.\<close>

datatype Option =
    WithHTTPClient "unit Client option"
  | WithEgressGuard "Guard option"
  | WithEntraLoginBaseURL string
  | WithGitHubAPIBaseURL string

fun apply_option :: "Option \<Rightarrow> Minter \<Rightarrow> Minter" where
  "apply_option (WithHTTPClient c) m = (case c of Some c \<Rightarrow> m\<lparr>mi_httpClient := c\<rparr> | None \<Rightarrow> m)"
| "apply_option (WithEgressGuard g) m = (case g of Some g \<Rightarrow> m\<lparr>mi_httpClient := NewClient defaultHTTPTimeout (Some g)\<rparr> | None \<Rightarrow> m)"
| "apply_option (WithEntraLoginBaseURL u) m = (if u \<noteq> [] then m\<lparr>mi_entraLoginBaseURL := u\<rparr> else m)"
| "apply_option (WithGitHubAPIBaseURL u) m = (if u \<noteq> [] then m\<lparr>mi_githubAPIBaseURL := u\<rparr> else m)"

definition strictGuard :: "Guard option" where
  "strictGuard = MustGuard []"

definition New_Minter :: "Option list \<Rightarrow> Minter" where
  "New_Minter opts = fold apply_option opts
     \<lparr>mi_httpClient = NewClient defaultHTTPTimeout strictGuard, mi_entraLoginBaseURL = DefaultEntraLoginBaseURL,
      mi_githubAPIBaseURL = DefaultGitHubAPIBaseURL\<rparr>"

text \<open>\<open>url.PathEscape\<close>, and the three replacements of \<open>urlPathSegment\<close>.\<close>

definition upper_hex :: "nat \<Rightarrow> char" where
  "upper_hex n = ''0123456789ABCDEF'' ! n"

definition path_safe :: "char \<Rightarrow> bool" where
  "path_safe c \<longleftrightarrow> (let n = of_char c :: nat in
     (48 \<le> n \<and> n \<le> 57) \<or> (65 \<le> n \<and> n \<le> 90) \<or> (97 \<le> n \<and> n \<le> 122)) \<or> c \<in> set ''-_.~$&+=:@''"

definition PathEscape :: "string \<Rightarrow> string" where
  "PathEscape s = concat (map (\<lambda>c. if path_safe c then [c] else [CHR ''%'', upper_hex (of_char c div 16), upper_hex (of_char c mod 16)]) s)"

definition urlPathSegment :: "string \<Rightarrow> string" where
  "urlPathSegment s = concat (map (\<lambda>c. if c = CHR ''/'' then ''%2F'' else if c = CHR ''?'' then ''%3F'' else if c = CHR ''#'' then ''%23'' else [c]) s)"

text \<open>An exchange returns the token or an error, and the requests it made: URL and fields.\<close>

type_synonym request = "string \<times> (string \<times> string) list"

definition MintEntra :: "('cert, 'k) mint_env \<Rightarrow> Minter \<Rightarrow> EntraCreds \<Rightarrow> (creds_error + Token) \<times> request list" where
  "MintEntra env m creds =
    (case EntraCreds_Validate creds of Some e \<Rightarrow> (Inl e, [])
     | None \<Rightarrow>
       let form = [(''grant_type'', ''client_credentials''), (''client_id'', en_ClientID creds), (''client_secret'', en_ClientSecret creds),
                   (''scope'', AzureDevOpsResourceID @ ''/.default'')];
           endpoint = TrimRight CHR ''/'' (mi_entraLoginBaseURL m) @ ''/'' @ PathEscape (en_TenantID creds) @ ''/oauth2/v2.0/token'' in
       if \<not> me_urlOK env endpoint then (Inl BadRequest, [])
       else (case me_http env (mi_httpClient m) endpoint form of
          None \<Rightarrow> (Inl RequestFailed, [(endpoint, form)])
        | Some (status, full) \<Rightarrow>
          let body = take maxTokenResponseBytes full in
          (if status \<noteq> 200 then Inl (BadStatus status (TrimSpace body))
           else case me_entraJSON env body of
             None \<Rightarrow> Inl NotJSON
           | Some (accessToken, expiresIn) \<Rightarrow>
             if accessToken = [] then Inl NoToken
             else let ttl0 = wrap64 (expiresIn * second); ttl = (if ttl0 \<le> 0 then hour else ttl0) in
               Inr \<lparr>tok_AccessToken = accessToken, tok_ExpiresAt = me_now env + ttl\<rparr>, [(endpoint, form)])))"

definition sdk_token :: "(string \<times> time) option option \<Rightarrow> creds_error + Token" where
  "sdk_token r = (case r of None \<Rightarrow> Inl NoCredential | Some None \<Rightarrow> Inl ExchangeFailed
     | Some (Some (t, e)) \<Rightarrow> if t = [] then Inl EmptyToken else Inr \<lparr>tok_AccessToken = t, tok_ExpiresAt = e\<rparr>)"

definition MintFederated :: "('cert, 'k) mint_env \<Rightarrow> string \<Rightarrow> creds_error + Token" where
  "MintFederated env clientID = (case FederatedCreds_Validate clientID of Some e \<Rightarrow> Inl e
     | None \<Rightarrow> sdk_token (me_federated env (TrimSpace clientID)))"

definition MintManagedIdentity :: "('cert, 'k) mint_env \<Rightarrow> string \<Rightarrow> creds_error + Token" where
  "MintManagedIdentity env clientID = (case ManagedIdentityCreds_Validate clientID of Some e \<Rightarrow> Inl e
     | None \<Rightarrow> sdk_token (me_managed env (TrimSpace clientID)))"

definition ParseCertificateBundle :: "('cert, 'k) mint_env \<Rightarrow> string \<Rightarrow> string + 'cert list \<times> 'k" where
  "ParseCertificateBundle env bundlePEM =
    (if TrimSpace bundlePEM = [] then Inl ''appcreds: certificate bundle is empty''
     else case me_parseCerts env bundlePEM of
       None \<Rightarrow> Inl ''appcreds: certificate bundle could not be parsed''
     | Some (certs, key) \<Rightarrow>
       if length certs = 0 then Inl ''appcreds: certificate bundle contains no certificate''
       else case key of None \<Rightarrow> Inl ''appcreds: certificate bundle contains no private key'' | Some k \<Rightarrow> Inr (certs, k))"

definition ValidCertificateBundle :: "('cert, 'k) mint_env \<Rightarrow> string \<Rightarrow> string option" where
  "ValidCertificateBundle env bundlePEM = (case ParseCertificateBundle env bundlePEM of Inl e \<Rightarrow> Some e | Inr _ \<Rightarrow> None)"

definition MintCertificate :: "('cert, 'k) mint_env \<Rightarrow> Minter \<Rightarrow> CertificateCreds \<Rightarrow> creds_error + Token" where
  "MintCertificate env m creds =
    (case CertificateCreds_Validate creds of Some e \<Rightarrow> Inl e
     | None \<Rightarrow>
       (case ParseCertificateBundle env (ce_CertificatePEM creds) of
          Inl e \<Rightarrow> Inl (BadKey e)
        | Inr (certs, key) \<Rightarrow>
            sdk_token (me_certificate env (mi_entraLoginBaseURL m) (TrimSpace (ce_TenantID creds)) (TrimSpace (ce_ClientID creds)) certs key)))"

definition parseRSAPrivateKey :: "('cert, 'k) mint_env \<Rightarrow> string \<Rightarrow> string + 'k" where
  "parseRSAPrivateKey env pemStr =
    (case me_pem env pemStr of
       None \<Rightarrow> Inl ''private key is not valid PEM''
     | Some block \<Rightarrow>
       (case me_pkcs1 env block of
          Some key \<Rightarrow> Inr key
        | None \<Rightarrow> (case me_pkcs8 env block of
            None \<Rightarrow> Inl ''private key is not a supported RSA key (PKCS#1 or PKCS#8)''
          | Some (RSAKey key) \<Rightarrow> Inr key
          | Some OtherKey \<Rightarrow> Inl ''private key is not RSA'')))"

definition ValidRSAPrivateKey :: "('cert, 'k) mint_env \<Rightarrow> string \<Rightarrow> bool" where
  "ValidRSAPrivateKey env pemStr = (case parseRSAPrivateKey env pemStr of Inl _ \<Rightarrow> False | Inr _ \<Rightarrow> True)"

definition b64url :: "byte list \<Rightarrow> string" where
  "b64url = EncodeToString"

definition Unix :: "time \<Rightarrow> int" where
  "Unix t = t div second"

definition signAppJWT :: "('cert, 'k) mint_env \<Rightarrow> string \<Rightarrow> 'k \<Rightarrow> time \<Rightarrow> creds_error + string" where
  "signAppJWT env appID key now =
    (let header = ''{'' @ [CHR 0x22] @ ''alg'' @ [CHR 0x22] @ '':'' @ [CHR 0x22] @ ''RS256'' @ [CHR 0x22] @ '','' @ [CHR 0x22] @ ''typ'' @ [CHR 0x22]
           @ '':'' @ [CHR 0x22] @ ''JWT'' @ [CHR 0x22] @ ''}'';
         claims = me_claims env (Unix (now - appJWTBackdate)) (Unix (now + appJWTLifetime)) appID;
         signingInput = b64url (bytes_of header) @ ''.'' @ b64url (bytes_of claims) in
     case me_sign env key signingInput of None \<Rightarrow> Inl SignFailed | Some sig \<Rightarrow> Inr (signingInput @ ''.'' @ b64url sig))"

definition MintGitHubApp :: "('cert, 'k) mint_env \<Rightarrow> Minter \<Rightarrow> GitHubAppCreds \<Rightarrow> (creds_error + Token) \<times> request list" where
  "MintGitHubApp env m creds =
    (case GitHubAppCreds_Validate creds of Some e \<Rightarrow> (Inl e, [])
     | None \<Rightarrow>
       (case parseRSAPrivateKey env (gh_PrivateKeyPEM creds) of
          Inl e \<Rightarrow> (Inl (BadKey e), [])
        | Inr key \<Rightarrow>
          (case signAppJWT env (gh_AppID creds) key (me_now env) of
             Inl e \<Rightarrow> (Inl e, [])
           | Inr appJWT \<Rightarrow>
             let endpoint = TrimRight CHR ''/'' (mi_githubAPIBaseURL m) @ ''/app/installations/'' @ urlPathSegment (gh_InstallationID creds) @ ''/access_tokens'';
                 headers = [(''Authorization'', ''Bearer '' @ appJWT), (''Accept'', ''application/vnd.github+json''), (''X-GitHub-Api-Version'', ''2022-11-28'')] in
             if \<not> me_urlOK env endpoint then (Inl BadRequest, [])
             else (case me_http env (mi_httpClient m) endpoint headers of
                None \<Rightarrow> (Inl RequestFailed, [(endpoint, headers)])
              | Some (status, full) \<Rightarrow>
                let body = take maxTokenResponseBytes full in
                (if status \<noteq> 201 then Inl (BadStatus status (TrimSpace body))
                 else case me_githubJSON env body of
                   None \<Rightarrow> Inl NotJSON
                 | Some (token, expires) \<Rightarrow>
                   if token = [] then Inl NoToken
                   else Inr \<lparr>tok_AccessToken = token, tok_ExpiresAt = (case me_RFC3339 env expires of Some e \<Rightarrow> e | None \<Rightarrow> me_now env + hour)\<rparr>,
                 [(endpoint, headers)])))))"

subsection \<open>The cache\<close>

record Cache =
  ca_entries :: "string \<rightharpoonup> Token"
  ca_margin :: duration

definition NewCache :: "duration \<Rightarrow> Cache" where
  "NewCache margin = \<lparr>ca_entries = Map.empty, ca_margin = margin\<rparr>"

definition refreshMargin :: "Cache \<Rightarrow> duration" where
  "refreshMargin c = (if ca_margin c = 0 then DefaultRefreshMargin else if ca_margin c < 0 then 0 else ca_margin c)"

definition Cache_Get :: "(string \<Rightarrow> string) \<Rightarrow> time \<Rightarrow> Creds option \<Rightarrow> Cache \<Rightarrow> Token option \<times> Cache" where
  "Cache_Get H now creds c =
    (case creds of None \<Rightarrow> (None, c)
     | Some cr \<Rightarrow>
       let key = Fingerprint H cr in
       (case ca_entries c key of
          None \<Rightarrow> (None, c)
        | Some tok \<Rightarrow> if Expired tok now (refreshMargin c) then (None, c\<lparr>ca_entries := (ca_entries c)(key := None)\<rparr>)
                      else (Some tok, c)))"

definition Cache_Put :: "(string \<Rightarrow> string) \<Rightarrow> Creds option \<Rightarrow> Token \<Rightarrow> Cache \<Rightarrow> Cache" where
  "Cache_Put H creds tok c =
    (case creds of None \<Rightarrow> c
     | Some cr \<Rightarrow> if tok_AccessToken tok = [] then c else c\<lparr>ca_entries := (ca_entries c)(Fingerprint H cr \<mapsto> tok)\<rparr>)"

definition EvictKey :: "string \<Rightarrow> Cache \<Rightarrow> Cache" where
  "EvictKey key c = (if key = [] then c else c\<lparr>ca_entries := (ca_entries c)(key := None)\<rparr>)"

definition Evict :: "(string \<Rightarrow> string) \<Rightarrow> Creds option \<Rightarrow> Cache \<Rightarrow> Cache" where
  "Evict H creds c = (case creds of None \<Rightarrow> c | Some cr \<Rightarrow> EvictKey (Fingerprint H cr) c)"

definition Cache_Reset :: "Cache \<Rightarrow> Cache" where
  "Cache_Reset c = c\<lparr>ca_entries := Map.empty\<rparr>"

definition Cache_Len :: "Cache \<Rightarrow> nat" where
  "Cache_Len c = card (dom (ca_entries c))"

text \<open>The read-through path: the minter (if any), the cache (if any), what minting would give and request.\<close>

definition cached_mint :: "(string \<Rightarrow> string) \<Rightarrow> time \<Rightarrow> bool \<Rightarrow> Cache option \<Rightarrow> Creds \<Rightarrow> (creds_error + Token) \<times> request list
    \<Rightarrow> (creds_error + Token) \<times> request list \<times> Cache option" where
  "cached_mint H now haveMinter cache creds minted =
    (if \<not> haveMinter then (Inl ErrNoMinter, [], cache)
     else case Validate creds of
       Some e \<Rightarrow> (Inl e, [], cache)
     | None \<Rightarrow>
       (case (case cache of None \<Rightarrow> (None, None) | Some c \<Rightarrow> map_prod id Some (Cache_Get H now (Some creds) c)) of
          (Some tok, cache') \<Rightarrow> (Inr tok, [], cache')
        | (None, cache') \<Rightarrow>
          (case minted of
             (Inl e, reqs) \<Rightarrow> (Inl e, reqs, cache')
           | (Inr tok, reqs) \<Rightarrow> (Inr tok, reqs, map_option (Cache_Put H (Some creds) tok) cache'))))"

definition CachedMinter_Entra :: "(string \<Rightarrow> string) \<Rightarrow> ('cert, 'k) mint_env \<Rightarrow> Minter option \<Rightarrow> Cache option \<Rightarrow> EntraCreds
    \<Rightarrow> (creds_error + Token) \<times> request list \<times> Cache option" where
  "CachedMinter_Entra H env m cache creds =
     cached_mint H (me_now env) (m \<noteq> None) cache (Entra creds) (MintEntra env (the m) creds)"

definition CachedMinter_Federated :: "(string \<Rightarrow> string) \<Rightarrow> ('cert, 'k) mint_env \<Rightarrow> Minter option \<Rightarrow> Cache option \<Rightarrow> string
    \<Rightarrow> (creds_error + Token) \<times> request list \<times> Cache option" where
  "CachedMinter_Federated H env m cache clientID =
     cached_mint H (me_now env) (m \<noteq> None) cache (Federated clientID) (MintFederated env clientID, [])"

definition CachedMinter_GitHubApp :: "(string \<Rightarrow> string) \<Rightarrow> ('cert, 'k) mint_env \<Rightarrow> Minter option \<Rightarrow> Cache option \<Rightarrow> GitHubAppCreds
    \<Rightarrow> (creds_error + Token) \<times> request list \<times> Cache option" where
  "CachedMinter_GitHubApp H env m cache creds =
     cached_mint H (me_now env) (m \<noteq> None) cache (GitHubApp creds) (MintGitHubApp env (the m) creds)"

subsection \<open>Cache keys\<close>

definition no_nul :: "Creds \<Rightarrow> bool" where
  "no_nul c \<longleftrightarrow> list_all (\<lambda>p. NUL \<notin> set p) (fingerprint_parts c)"

lemma parts_not_Nil [simp]: "fingerprint_parts c \<noteq> []"
  by (cases c) auto

lemma fingerprint_parts_inj: "fingerprint_parts c = fingerprint_parts c' \<Longrightarrow> c = c'"
  by (cases c; cases c'; simp; rule EntraCreds.equality CertificateCreds.equality GitHubAppCreds.equality; simp)

lemma Join_NUL_inj:
  assumes "no_nul c" "no_nul c'" "Join [NUL] (fingerprint_parts c) = Join [NUL] (fingerprint_parts c')"
  shows "c = c'"
proof -
  have "Split NUL (Join [NUL] (fingerprint_parts x)) = fingerprint_parts x" if "no_nul x" for x
    using that by (intro Split_Join) (auto simp: no_nul_def list_all_iff)
  then show ?thesis using assms fingerprint_parts_inj by metis
qed

text \<open>
  No two credentials share a cache key. When the hash does not collide, two credentials of any of the five types, whose fields have no
  NUL byte, have the same fingerprint exactly when they are the same credential: changing any field, moving a character from one field to the next or
  changing the type changes the key.
\<close>

theorem Fingerprint_injective:
  assumes "inj H" "no_nul c" "no_nul c'"
  shows "Fingerprint H c = Fingerprint H c' \<longleftrightarrow> c = c'"
  using assms Join_NUL_inj [OF assms(2,3)] by (auto simp: Fingerprint_def dest: injD)

text \<open>The separator is not escaped, so with a NUL byte inside a field two different credentials do share a key.\<close>

theorem NUL_in_field_collides:
  "Fingerprint H (Entra \<lparr>en_TenantID = ''t'', en_ClientID = ''a'' @ [NUL] @ ''b'', en_ClientSecret = ''c''\<rparr>)
   = Fingerprint H (Entra \<lparr>en_TenantID = ''t'', en_ClientID = ''a'', en_ClientSecret = ''b'' @ [NUL] @ ''c''\<rparr>)"
  by (simp add: Fingerprint_def)

subsection \<open>The cache is a map from credentials\<close>

datatype cache_op =
    OpGet time "Creds option"
  | OpPut "Creds option" Token
  | OpEvict "Creds option"
  | OpReset

fun run_op :: "(string \<Rightarrow> string) \<Rightarrow> cache_op \<Rightarrow> Cache \<Rightarrow> Cache" where
  "run_op H (OpGet now cr) c = snd (Cache_Get H now cr c)"
| "run_op H (OpPut cr tok) c = Cache_Put H cr tok c"
| "run_op H (OpEvict cr) c = Evict H cr c"
| "run_op H OpReset c = Cache_Reset c"

text \<open>The specification: one slot per credential.\<close>

fun spec_op :: "duration \<Rightarrow> cache_op \<Rightarrow> (Creds \<rightharpoonup> Token) \<Rightarrow> (Creds \<rightharpoonup> Token)" where
  "spec_op margin (OpGet now cr) m = (case cr of Some c \<Rightarrow> (case m c of Some tok \<Rightarrow> if Expired tok now margin then m(c := None) else m | None \<Rightarrow> m) | None \<Rightarrow> m)"
| "spec_op margin (OpPut cr tok) m = (case cr of Some c \<Rightarrow> if tok_AccessToken tok = [] then m else m(c \<mapsto> tok) | None \<Rightarrow> m)"
| "spec_op margin (OpEvict cr) m = (case cr of Some c \<Rightarrow> m(c := None) | None \<Rightarrow> m)"
| "spec_op margin OpReset m = Map.empty"

fun op_creds :: "cache_op \<Rightarrow> Creds option" where
  "op_creds (OpGet now cr) = cr"
| "op_creds (OpPut cr tok) = cr"
| "op_creds (OpEvict cr) = cr"
| "op_creds OpReset = None"

definition refines :: "(string \<Rightarrow> string) \<Rightarrow> Cache \<Rightarrow> (Creds \<rightharpoonup> Token) \<Rightarrow> bool" where
  "refines H c m \<longleftrightarrow> (\<forall>cr. no_nul cr \<longrightarrow> ca_entries c (Fingerprint H cr) = m cr)"

lemma run_op_margin [simp]: "ca_margin (run_op H x c) = ca_margin c"
  by (cases x) (auto simp: Cache_Get_def Cache_Put_def Evict_def EvictKey_def Cache_Reset_def Let_def split: option.splits)

lemma fold_run_op_margin [simp]: "refreshMargin (fold (run_op H) xs c) = refreshMargin c"
  by (induction xs arbitrary: c) (simp_all add: refreshMargin_def)

lemma refines_op:
  assumes "inj H" "\<And>s. H s \<noteq> []" "refines H c m" "\<And>cr. op_creds x = Some cr \<Longrightarrow> no_nul cr"
  shows "refines H (run_op H x c) (spec_op (refreshMargin c) x m)"
proof -
  have fp: "Fingerprint H cr = Fingerprint H cr' \<longleftrightarrow> cr = cr'" if "no_nul cr" "no_nul cr'" for cr cr'
    using assms(1) Join_NUL_inj that by (auto simp: Fingerprint_def dest: injD)
  have ne: "Fingerprint H cr \<noteq> []" for cr using assms(2) by (simp add: Fingerprint_def)
  show ?thesis
  proof (cases x)
    case (OpGet now cr)
    then show ?thesis using assms(3,4) fp
      by (cases cr) (auto simp: refines_def Cache_Get_def Let_def split: option.splits)
  next
    case (OpPut cr tok)
    then show ?thesis using assms(3,4) fp by (cases cr) (auto simp: refines_def Cache_Put_def)
  next
    case (OpEvict cr)
    then show ?thesis using assms(3,4) fp ne by (cases cr) (auto simp: refines_def Evict_def EvictKey_def)
  qed (simp add: refines_def Cache_Reset_def)
qed

lemma refines_ops:
  assumes "inj H" "\<And>s. H s \<noteq> []" "refines H c m" "\<forall>x \<in> set xs. \<forall>cr. op_creds x = Some cr \<longrightarrow> no_nul cr"
  shows "refines H (fold (run_op H) xs c) (fold (spec_op (refreshMargin c)) xs m)"
  using assms(3,4)
proof (induction xs arbitrary: c m)
  case (Cons x xs)
  have "refines H (run_op H x c) (spec_op (refreshMargin c) x m)" using assms(1,2) Cons.prems by (intro refines_op) auto
  moreover have "refreshMargin (run_op H x c) = refreshMargin c" by (simp add: refreshMargin_def)
  ultimately show ?case using Cons.IH [of "run_op H x c" "spec_op (refreshMargin c) x m"] Cons.prems(2) by simp
qed simp

text \<open>
  C26: the cache behaves as a map with one slot per credential. After any sequence of reads, writes, evictions and resets, a read for a credential
  returns the token last stored for that very credential and not dropped since, if it is not within the margin of its expiry, and nothing
  otherwise: a rotated credential never sees the token of the old one.
\<close>

theorem cache_refines_credential_map:
  assumes "inj H" "\<forall>s. H s \<noteq> []" "\<forall>x \<in> set xs. \<forall>cr. op_creds x = Some cr \<longrightarrow> no_nul cr" "no_nul cr"
    and "margin = refreshMargin (NewCache mg)" "m = fold (spec_op margin) xs Map.empty" "c = fold (run_op H) xs (NewCache mg)"
  shows "fst (Cache_Get H now (Some cr) c) = (case m cr of Some tok \<Rightarrow> if Expired tok now margin then None else Some tok | None \<Rightarrow> None)"
proof -
  have "refines H (NewCache mg) Map.empty" by (simp add: refines_def NewCache_def)
  then have "refines H c m" using refines_ops [OF assms(1) _ _ assms(3)] assms(2,5,6,7) by simp
  then have "ca_entries c (Fingerprint H cr) = m cr" using assms(4) by (simp add: refines_def)
  moreover have "refreshMargin c = margin" using assms(5,7) by simp
  ultimately show ?thesis by (auto simp: Cache_Get_def Let_def split: option.splits)
qed

subsection \<open>Minting\<close>

text \<open>
  The read-through path serves no stale token and asks no one when it need not. Credentials that lack a field cost no request and leave the cache
  alone; a token from the cache is not within the margin of its expiry and costs no request; otherwise the outcome is that of the exchange, and a token it
  gives is what the next read finds, as long as it is fresh.
\<close>

theorem cached_mint_correct:
  assumes "cached_mint H now True (Some c) creds minted = (r, reqs, cache')"
  shows "(\<forall>e. Validate creds = Some e \<longrightarrow> r = Inl e \<and> reqs = [] \<and> cache' = Some c)
    \<and> (\<forall>tok. Validate creds = None \<and> fst (Cache_Get H now (Some creds) c) = Some tok \<longrightarrow>
         r = Inr tok \<and> reqs = [] \<and> \<not> Expired tok now (refreshMargin c))
    \<and> (Validate creds = None \<and> fst (Cache_Get H now (Some creds) c) = None \<longrightarrow> r = fst minted \<and> reqs = snd minted
         \<and> (\<forall>tok later. r = Inr tok \<and> \<not> Expired tok later (refreshMargin c) \<longrightarrow>
              fst (Cache_Get H later (Some creds) (the cache')) = Some tok))"
proof (intro conjI allI impI)
  show "r = Inl e" "reqs = []" "cache' = Some c" if "Validate creds = Some e" for e
    using assms that by (simp_all add: cached_mint_def)
  show "r = Inr tok" "reqs = []" "\<not> Expired tok now (refreshMargin c)"
    if "Validate creds = None \<and> fst (Cache_Get H now (Some creds) c) = Some tok" for tok
    using assms that by (auto simp: cached_mint_def Cache_Get_def Let_def split: option.splits if_splits)
  assume miss: "Validate creds = None \<and> fst (Cache_Get H now (Some creds) c) = None"
  obtain c1 where c1: "Cache_Get H now (Some creds) c = (None, c1)" using miss by (cases "Cache_Get H now (Some creds) c") auto
  have mg: "refreshMargin c1 = refreshMargin c"
    using c1 by (auto simp: Cache_Get_def Let_def refreshMargin_def split: option.splits if_splits)
  have run: "r = fst minted \<and> reqs = snd minted \<and> (\<forall>tok. r = Inr tok \<longrightarrow> cache' = Some (Cache_Put H (Some creds) tok c1))"
    using assms miss c1 by (cases minted; cases "fst minted") (auto simp: cached_mint_def)
  then show "r = fst minted" "reqs = snd minted" by auto
  show "fst (Cache_Get H later (Some creds) (the cache')) = Some tok"
    if "r = Inr tok \<and> \<not> Expired tok later (refreshMargin c)" for tok later
    using run that mg by (auto simp: Cache_Get_def Cache_Put_def Let_def Expired_def refreshMargin_def split: if_splits)
qed

definition segment_break :: "char \<Rightarrow> bool" where
  "segment_break c \<longleftrightarrow> c = CHR ''/'' \<or> c = CHR ''?'' \<or> c = CHR ''#''"

lemma hex_no_break: "n < 16 \<Longrightarrow> \<not> segment_break (upper_hex n)"
proof -
  assume "n < 16"
  then have "upper_hex n \<in> set ''0123456789ABCDEF''" unfolding upper_hex_def by (intro nth_mem) simp
  then show ?thesis by (auto simp: segment_break_def)
qed

lemma char_code: "(of_char c :: nat) div 16 < 16"
proof -
  have "(of_char c :: nat) < 256" by (cases c) (simp add: of_char_def)
  then show ?thesis by (intro less_mult_imp_div_less) simp
qed

lemma path_safe_no_break: "path_safe c \<Longrightarrow> \<not> segment_break c"
  by (auto simp: path_safe_def segment_break_def Let_def)

lemma PathEscape_one_segment: "list_all (\<lambda>c. \<not> segment_break c) (PathEscape s)"
proof (induction s)
  case (Cons c s)
  have "\<not> segment_break CHR ''%''" by (simp add: segment_break_def)
  with Cons show ?case using hex_no_break [OF char_code] hex_no_break [of "of_char c mod 16"] path_safe_no_break [of c]
    by (simp add: PathEscape_def)
qed (simp add: PathEscape_def)

lemma urlPathSegment_one_segment: "list_all (\<lambda>c. \<not> segment_break c) (urlPathSegment s)"
  by (induction s) (simp_all add: urlPathSegment_def segment_break_def)

text \<open>
  A secret goes to the configured endpoint and to no other path. Every request of the Entra and GitHub exchanges is for the configured base, one segment
  that holds no slash, question mark or hash whatever the stored tenant or installation id is, and the fixed rest of the path; a token minted by
  the Entra exchange expires in the future, whatever the response claims.
\<close>

theorem secrets_stay_on_endpoint:
  "(\<forall>u f. (u, f) \<in> set (snd (MintEntra env m en)) \<longrightarrow>
      (\<exists>seg. u = TrimRight CHR ''/'' (mi_entraLoginBaseURL m) @ ''/'' @ seg @ ''/oauth2/v2.0/token'' \<and> list_all (\<lambda>c. \<not> segment_break c) seg))
   \<and> (\<forall>u f. (u, f) \<in> set (snd (MintGitHubApp env m gh)) \<longrightarrow>
      (\<exists>seg. u = TrimRight CHR ''/'' (mi_githubAPIBaseURL m) @ ''/app/installations/'' @ seg @ ''/access_tokens'' \<and> list_all (\<lambda>c. \<not> segment_break c) seg))
   \<and> (\<forall>tok. fst (MintEntra env m en) = Inr tok \<longrightarrow> me_now env < tok_ExpiresAt tok \<and> tok_AccessToken tok \<noteq> [])"
proof (intro conjI allI impI)
  fix u f
  assume "(u, f) \<in> set (snd (MintEntra env m en))"
  then have "u = TrimRight CHR ''/'' (mi_entraLoginBaseURL m) @ ''/'' @ PathEscape (en_TenantID en) @ ''/oauth2/v2.0/token''"
    by (auto simp: MintEntra_def Let_def split: option.splits if_splits)
  then show "\<exists>seg. u = TrimRight CHR ''/'' (mi_entraLoginBaseURL m) @ ''/'' @ seg @ ''/oauth2/v2.0/token'' \<and> list_all (\<lambda>c. \<not> segment_break c) seg"
    using PathEscape_one_segment by blast
next
  fix u f
  assume "(u, f) \<in> set (snd (MintGitHubApp env m gh))"
  then have "u = TrimRight CHR ''/'' (mi_githubAPIBaseURL m) @ ''/app/installations/'' @ urlPathSegment (gh_InstallationID gh) @ ''/access_tokens''"
    by (auto simp: MintGitHubApp_def Let_def split: option.splits sum.splits if_splits)
  then show "\<exists>seg. u = TrimRight CHR ''/'' (mi_githubAPIBaseURL m) @ ''/app/installations/'' @ seg @ ''/access_tokens'' \<and> list_all (\<lambda>c. \<not> segment_break c) seg"
    using urlPathSegment_one_segment by blast
next
  fix tok
  assume "fst (MintEntra env m en) = Inr tok"
  then show "me_now env < tok_ExpiresAt tok" "tok_AccessToken tok \<noteq> []"
    by (auto simp: MintEntra_def Let_def hour_def minute_def second_def split: option.splits if_splits)
qed

text \<open>The window of the signed assertion: issued a minute in the past, and ten minutes long, the most the service accepts.\<close>

theorem app_jwt_window:
  "Unix (now + appJWTLifetime) - Unix (now - appJWTBackdate) = 600 \<and> Unix (now - appJWTBackdate) = Unix now - 60"
proof -
  have "Unix (now + appJWTLifetime) = Unix now + 540" "Unix (now - appJWTBackdate) = Unix now - 60"
    using div_mult_self1 [of second now 540] div_mult_self1 [of second now "- 60"]
    by (simp_all add: Unix_def appJWTLifetime_def appJWTBackdate_def minute_def second_def)
  then show ?thesis by simp
qed

subsection \<open>Examples\<close>

text \<open>A hash without collisions (it hides nothing) and two credentials that differ in the secret.\<close>

definition ex_hash :: "string \<Rightarrow> string" where
  "ex_hash s = ''h'' @ s"

lemma ex_hash_inj: "inj ex_hash" "\<forall>s. ex_hash s \<noteq> []"
  by (auto simp: ex_hash_def inj_def)

definition ex_creds :: "string \<Rightarrow> Creds" where
  "ex_creds secret = Entra \<lparr>en_TenantID = ''t'', en_ClientID = ''c'', en_ClientSecret = secret\<rparr>"

lemma ex_creds_facts: "no_nul (ex_creds ''old'')" "no_nul (ex_creds ''new'')" "ex_creds ''old'' \<noteq> ex_creds ''new''" "Validate (ex_creds ''old'') = None"
  by code_simp+

definition cx_token :: Token where
  "cx_token = \<lparr>tok_AccessToken = ''T'', tok_ExpiresAt = 1000 * second\<rparr>"

theorem Fingerprint_injective_witness:
  "Fingerprint ex_hash (ex_creds ''old'') \<noteq> Fingerprint ex_hash (ex_creds ''new'')"
  using Fingerprint_injective [OF ex_hash_inj(1) ex_creds_facts(1,2)] ex_creds_facts(3) by simp

theorem cache_refines_credential_map_witness:
  "fst (Cache_Get ex_hash 5 (Some (ex_creds ''old'')) (fold (run_op ex_hash) [OpPut (Some (ex_creds ''old'')) cx_token] (NewCache 0))) = Some cx_token
   \<and> fst (Cache_Get ex_hash 5 (Some (ex_creds ''new'')) (fold (run_op ex_hash) [OpPut (Some (ex_creds ''old'')) cx_token] (NewCache 0))) = None"
proof -
  let ?xs = "[OpPut (Some (ex_creds ''old'')) cx_token]"
  have ops: "\<forall>x \<in> set ?xs. \<forall>cr. op_creds x = Some cr \<longrightarrow> no_nul cr" using ex_creds_facts(1) by simp
  note R = cache_refines_credential_map [OF ex_hash_inj ops _ refl refl refl, where mg = 0 and now = 5]
  have "\<not> Expired cx_token 5 (refreshMargin (NewCache 0))" by code_simp
  moreover have "tok_AccessToken cx_token \<noteq> []" by (simp add: cx_token_def)
  ultimately show ?thesis using R [OF ex_creds_facts(1)] R [OF ex_creds_facts(2)] ex_creds_facts(3) by simp
qed

theorem cached_mint_correct_witness:
  "(case cached_mint ex_hash 5 True (Some (NewCache 0)) (ex_creds ''old'') (Inr cx_token, []) of
      (r, reqs, cache') \<Rightarrow> r = Inr cx_token \<and> fst (Cache_Get ex_hash 6 (Some (ex_creds ''old'')) (the cache')) = Some cx_token)"
proof -
  obtain r reqs cache' where run: "cached_mint ex_hash 5 True (Some (NewCache 0)) (ex_creds ''old'') (Inr cx_token, []) = (r, reqs, cache')"
    by (metis prod_cases3)
  have "fst (Cache_Get ex_hash 5 (Some (ex_creds ''old'')) (NewCache 0)) = None" by (simp add: Cache_Get_def NewCache_def)
  moreover have "\<not> Expired cx_token 6 (refreshMargin (NewCache 0))" by code_simp
  ultimately show ?thesis using cached_mint_correct [OF run] ex_creds_facts(4) run by simp
qed

definition ex_mint_env :: "(unit, unit) mint_env" where
  "ex_mint_env = \<lparr>me_now = 1, me_federated = \<lambda>_. None, me_managed = \<lambda>_. None, me_certificate = \<lambda>_ _ _ _ _. None, me_parseCerts = \<lambda>_. None,
     me_pem = \<lambda>_. None, me_pkcs1 = \<lambda>_. None, me_pkcs8 = \<lambda>_. None, me_sign = \<lambda>_ _. None, me_claims = \<lambda>_ _ _. [], me_urlOK = \<lambda>_. True,
     me_http = \<lambda>_ _ _. Some (200, ''b''), me_entraJSON = \<lambda>_. Some (''T'', 0), me_githubJSON = \<lambda>_. None, me_RFC3339 = \<lambda>_. None\<rparr>"

definition ex_entra :: EntraCreds where
  "ex_entra = \<lparr>en_TenantID = ''a/b'', en_ClientID = ''c'', en_ClientSecret = ''s''\<rparr>"

theorem secrets_stay_on_endpoint_witness:
  "\<exists>seg f. snd (MintEntra ex_mint_env (New_Minter []) ex_entra)
      = [(TrimRight CHR ''/'' (mi_entraLoginBaseURL (New_Minter [])) @ ''/'' @ seg @ ''/oauth2/v2.0/token'', f)]
    \<and> list_all (\<lambda>c. \<not> segment_break c) seg"
proof -
  have "EntraCreds_Validate ex_entra = None" by code_simp
  then obtain u f where one: "snd (MintEntra ex_mint_env (New_Minter []) ex_entra) = [(u, f)]"
    by (simp add: MintEntra_def Let_def ex_mint_env_def)
  then show ?thesis using secrets_stay_on_endpoint [of ex_mint_env "New_Minter []" ex_entra "\<lparr>gh_AppID = [], gh_InstallationID = [], gh_PrivateKeyPEM = []\<rparr>"] by auto
qed

end
