(* ===== verification/Oidc.thy ===== *)
theory Oidc
  imports Http_Safe Memory_Store
begin

text \<open>
  Package \<open>auth/oidc\<close>: the OpenID Connect provider (\<open>provider.go\<close>) and the login session kept in a state store (\<open>session.go\<close>). The libraries \<open>go-oidc\<close> and
  \<open>oauth2\<close> are the record \<open>idp\<close>: discovery, the exchange of a code, the verification of an ID token for a client, and the building of
  the authorization URL. The JSON encoding of a session envelope is an argument with its round trip as a hypothesis. A caller's client on the context
  is the flag \<open>callerClient\<close>.

  The claims of an ID token are a JSON object, in document order (\<open>None\<close>: they do not parse). Decoding into a map keeps the last entry of a key;
  decoding into a struct matches keys without regard to case, leaves a field alone on null and fails on a value of another type.
\<close>

datatype jv = JvString string | JvBool bool | JvNull | JvNumber | JvArray "jv list" | JvObject

record IDToken =
  it_Nonce :: string
  it_Audience :: "string list"
  it_Claims :: "(string \<times> jv) list option"

record discoveryDocument =
  dd_AuthorizationEndpoint :: string
  dd_TokenEndpoint :: string
  dd_JWKSURI :: string
  dd_EndSessionEndpoint :: string

record oidc_provider =
  op_doc :: "discoveryDocument option"
  op_AuthURL :: string
  op_TokenURL :: string
  op_JWKSURL :: string

record oauth2_Config =
  oc_ClientID :: string
  oc_ClientSecret :: string
  oc_RedirectURL :: string
  oc_AuthURL :: string
  oc_TokenURL :: string
  oc_Scopes :: "string list"

record oauth2_Token =
  ot_AccessToken :: string
  ot_idToken :: "string option"

record 'tls idp =
  idp_discover :: "'tls Client \<Rightarrow> string \<Rightarrow> oidc_provider option"
  idp_exchange :: "'tls Client option \<Rightarrow> oauth2_Config \<Rightarrow> string \<Rightarrow> string \<Rightarrow> oauth2_Token option"
  idp_verify :: "string \<Rightarrow> string \<Rightarrow> IDToken option"
  idp_authCodeURL :: "oauth2_Config \<Rightarrow> string \<Rightarrow> string \<Rightarrow> string \<Rightarrow> string"

text \<open>What \<open>go-oidc\<close> documents: the endpoints of a provider are those of its discovery document, and a verified token names the client in its audience.\<close>

definition idp_documented :: "'tls idp \<Rightarrow> bool" where
  "idp_documented I \<longleftrightarrow>
     (\<forall>c iss p doc. idp_discover I c iss = Some p \<and> op_doc p = Some doc \<longrightarrow>
        op_AuthURL p = dd_AuthorizationEndpoint doc \<and> op_TokenURL p = dd_TokenEndpoint doc \<and> op_JWKSURL p = dd_JWKSURI doc)
   \<and> (\<forall>cid raw t. idp_verify I cid raw = Some t \<longrightarrow> cid \<in> set (it_Audience t))"

record 'tls oidc_Config =
  cf_IssuerURL :: string
  cf_ClientID :: string
  cf_ClientSecret :: string
  cf_RedirectURL :: string
  cf_Scopes :: "string list"
  cf_AllowInsecureIssuer :: bool
  cf_EgressGuard :: "Guard option"
  cf_TLSClientConfig :: "'tls option"

record 'tls Provider =
  pr_verifier :: "string option"
  pr_config :: "oauth2_Config option"
  pr_httpClient :: "'tls Client option"
  pr_endSessionEndpoint :: string

datatype oidc_error =
    Required string
  | NotHTTPS string string
  | ErrCallerClientOnContext
  | DiscoveryFailed
  | UnreadableDocument
  | NoEndpoint string
  | EndpointRefused string egress_error
  | NoRandomness
  | NoVerifier
  | NoCodeVerifier
  | NoNonce
  | CodeExchangeFailed
  | NoIDToken
  | VerifyFailed
  | NonceMismatch
  | UnreadableClaims
  | AzpNotString
  | AzpOther
  | AzpMissing nat
  | NoSub
  | NoEmailIdentifier
  | NilManager
  | StateFailed oauth_error
  | BadEnvelope

definition oidcHTTPTimeout :: duration where "oidcHTTPTimeout = 15 * second"

definition newGuardedClient :: "'tls oidc_Config \<Rightarrow> 'tls Client" where
  "newGuardedClient cfg = NewClientWithTLS oidcHTTPTimeout (cf_EgressGuard cfg) (cf_TLSClientConfig cfg)"

subsection \<open>Construction\<close>

definition isHTTPSURL :: "(string \<Rightarrow> URL option) \<Rightarrow> string \<Rightarrow> bool" where
  "isHTTPSURL parse rawURL = (case parse rawURL of None \<Rightarrow> False | Some u \<Rightarrow> EqualFold (url_Scheme u) ''https'')"

definition checkDiscoveredScheme :: "(string \<Rightarrow> URL option) \<Rightarrow> 'tls oidc_Config \<Rightarrow> string \<Rightarrow> string \<Rightarrow> oidc_error option" where
  "checkDiscoveredScheme parse cfg name raw =
    (if cf_AllowInsecureIssuer cfg \<or> isHTTPSURL parse raw then None else Some (NotHTTPS name raw))"

fun checkDialed :: "(string \<Rightarrow> URL option) \<Rightarrow> (string \<Rightarrow> ip list option) \<Rightarrow> 'tls oidc_Config \<Rightarrow> (string \<times> string) list \<Rightarrow> oidc_error option" where
  "checkDialed parse lookup cfg [] = None"
| "checkDialed parse lookup cfg ((name, raw) # eps) =
    (if raw = [] then Some (NoEndpoint name)
     else case checkDiscoveredScheme parse cfg name raw of
       Some e \<Rightarrow> Some e
     | None \<Rightarrow> (case ValidateURL (cf_EgressGuard cfg) parse lookup raw of
         Inl e \<Rightarrow> Some (EndpointRefused name e)
       | Inr _ \<Rightarrow> checkDialed parse lookup cfg eps))"

fun checkTargets :: "(string \<Rightarrow> URL option) \<Rightarrow> 'tls oidc_Config \<Rightarrow> (string \<times> string) list \<Rightarrow> oidc_error option" where
  "checkTargets parse cfg [] = None"
| "checkTargets parse cfg ((name, raw) # eps) =
    (if raw = [] then checkTargets parse cfg eps
     else case checkDiscoveredScheme parse cfg name raw of Some e \<Rightarrow> Some e | None \<Rightarrow> checkTargets parse cfg eps)"

definition validateDiscoveredEndpoints :: "(string \<Rightarrow> URL option) \<Rightarrow> (string \<Rightarrow> ip list option) \<Rightarrow> 'tls oidc_Config \<Rightarrow> oidc_provider
    \<Rightarrow> oidc_error + string" where
  "validateDiscoveredEndpoints parse lookup cfg provider =
    (case op_doc provider of
       None \<Rightarrow> Inl UnreadableDocument
     | Some doc \<Rightarrow>
       (case checkDialed parse lookup cfg [(''token_endpoint'', dd_TokenEndpoint doc), (''jwks_uri'', dd_JWKSURI doc)] of
          Some e \<Rightarrow> Inl e
        | None \<Rightarrow>
          (case checkTargets parse cfg [(''authorization_endpoint'', dd_AuthorizationEndpoint doc), (''end_session_endpoint'', dd_EndSessionEndpoint doc)] of
             Some e \<Rightarrow> Inl e
           | None \<Rightarrow> Inr (dd_EndSessionEndpoint doc))))"

definition NewProviderWithContext :: "'tls idp \<Rightarrow> (string \<Rightarrow> URL option) \<Rightarrow> (string \<Rightarrow> ip list option) \<Rightarrow> bool \<Rightarrow> 'tls oidc_Config
    \<Rightarrow> oidc_error + 'tls Provider" where
  "NewProviderWithContext I parse lookup callerClient cfg =
    (if cf_IssuerURL cfg = [] then Inl (Required ''OIDC issuer URL'')
     else if cf_ClientID cfg = [] then Inl (Required ''OIDC client ID'')
     else if cf_ClientSecret cfg = [] then Inl (Required ''OIDC client secret'')
     else if \<not> cf_AllowInsecureIssuer cfg \<and> \<not> isHTTPSURL parse (cf_IssuerURL cfg) then Inl (NotHTTPS ''issuer'' (cf_IssuerURL cfg))
     else if \<not> cf_AllowInsecureIssuer cfg \<and> cf_RedirectURL cfg \<noteq> [] \<and> \<not> isHTTPSURL parse (cf_RedirectURL cfg)
     then Inl (NotHTTPS ''redirect'' (cf_RedirectURL cfg))
     else if callerClient then Inl ErrCallerClientOnContext
     else let httpClient = newGuardedClient cfg in
       (case idp_discover I httpClient (cf_IssuerURL cfg) of
          None \<Rightarrow> Inl DiscoveryFailed
        | Some provider \<Rightarrow>
          (case validateDiscoveredEndpoints parse lookup cfg provider of
             Inl e \<Rightarrow> Inl e
           | Inr endSession \<Rightarrow>
               Inr \<lparr>pr_verifier = Some (cf_ClientID cfg),
                    pr_config = Some \<lparr>oc_ClientID = cf_ClientID cfg, oc_ClientSecret = cf_ClientSecret cfg, oc_RedirectURL = cf_RedirectURL cfg,
                      oc_AuthURL = op_AuthURL provider, oc_TokenURL = op_TokenURL provider, oc_Scopes = cf_Scopes cfg\<rparr>,
                    pr_httpClient = Some httpClient, pr_endSessionEndpoint = endSession\<rparr>)))"

definition NewProvider :: "'tls idp \<Rightarrow> (string \<Rightarrow> URL option) \<Rightarrow> (string \<Rightarrow> ip list option) \<Rightarrow> 'tls oidc_Config \<Rightarrow> oidc_error + 'tls Provider" where
  "NewProvider I parse lookup cfg = NewProviderWithContext I parse lookup False cfg"

definition NewProviderForConfig :: "oauth2_Config option \<Rightarrow> 'tls Provider" where
  "NewProviderForConfig cfg =
    (case cfg of None \<Rightarrow> \<lparr>pr_verifier = None, pr_config = None, pr_httpClient = None, pr_endSessionEndpoint = []\<rparr>
     | Some c \<Rightarrow> \<lparr>pr_verifier = None, pr_config = Some (c\<lparr>oc_Scopes := [] @ oc_Scopes c\<rparr>), pr_httpClient = None, pr_endSessionEndpoint = []\<rparr>)"

definition GetEndSessionEndpoint :: "'tls Provider \<Rightarrow> string" where
  "GetEndSessionEndpoint p = pr_endSessionEndpoint p"

subsection \<open>A login\<close>

record CallbackSession =
  cs_Payload :: "byte list"
  cs_Nonce :: string
  cs_CodeVerifier :: string

record sessionEnvelope =
  se_Nonce :: string
  se_CodeVerifier :: string
  se_Payload :: "byte list"

definition randomNonce :: "byte list option \<Rightarrow> oidc_error + string" where
  "randomNonce rnd = (case rnd of None \<Rightarrow> Inl NoRandomness | Some b \<Rightarrow> Inr (EncodeToString b))"

definition BeginAuth :: "'tls idp \<Rightarrow> byte list option \<Rightarrow> string \<Rightarrow> oauth2_Config \<Rightarrow> string \<Rightarrow> oidc_error + string \<times> CallbackSession" where
  "BeginAuth I rnd verifier config state =
    (case randomNonce rnd of Inl e \<Rightarrow> Inl e
     | Inr nonce \<Rightarrow> Inr (idp_authCodeURL I config state nonce verifier, \<lparr>cs_Payload = [], cs_Nonce = nonce, cs_CodeVerifier = verifier\<rparr>))"

text \<open>\<open>rnd\<close> and \<open>verifier\<close> are this login's random nonce bytes and PKCE verifier, \<open>rndState\<close> the bytes of the state.\<close>

definition BeginAuthSession :: "'tls idp \<Rightarrow> (sessionEnvelope \<Rightarrow> byte list) \<Rightarrow> byte list option \<Rightarrow> string \<Rightarrow> io \<Rightarrow> byte list \<Rightarrow> time \<Rightarrow> oauth2_Config
    \<Rightarrow> string \<Rightarrow> byte list \<Rightarrow> duration \<Rightarrow> MemoryStore option \<Rightarrow> (oidc_error + string \<times> string) \<times> MemoryStore option" where
  "BeginAuthSession I enc rnd verifier io rndState now config purpose payload ttl states =
    (case states of None \<Rightarrow> (Inl NilManager, None)
     | Some s \<Rightarrow>
       (case randomNonce rnd of
          Inl e \<Rightarrow> (Inl e, Some s)
        | Inr nonce \<Rightarrow>
          (case Issue PutIfAbsent io rndState now purpose (enc \<lparr>se_Nonce = nonce, se_CodeVerifier = verifier, se_Payload = payload\<rparr>) ttl s of
             (Inl e, s') \<Rightarrow> (Inl (StateFailed e), Some s')
           | (Inr state, s') \<Rightarrow> (Inr (idp_authCodeURL I config state nonce verifier, state), Some s'))))"

definition CompleteAuthSession :: "(byte list \<Rightarrow> sessionEnvelope option) \<Rightarrow> time \<Rightarrow> string \<Rightarrow> string \<Rightarrow> MemoryStore option
    \<Rightarrow> (oidc_error + CallbackSession) \<times> MemoryStore option" where
  "CompleteAuthSession dec now purpose state states =
    (case states of None \<Rightarrow> (Inl NilManager, None)
     | Some s \<Rightarrow>
       (case Consume Take now purpose state s of
          (Inl e, s') \<Rightarrow> (Inl (StateFailed e), Some s')
        | (Inr entry, s') \<Rightarrow>
          (case dec entry of
             None \<Rightarrow> (Inl BadEnvelope, Some s')
           | Some env \<Rightarrow> (Inr \<lparr>cs_Payload = se_Payload env, cs_Nonce = se_Nonce env, cs_CodeVerifier = se_CodeVerifier env\<rparr>, Some s'))))"

subsection \<open>Claims\<close>

definition map_claim :: "(string \<times> jv) list \<Rightarrow> string \<Rightarrow> jv option" where
  "map_claim claims name = map_of (rev claims) name"

fun struct_field :: "string \<Rightarrow> (string \<times> jv) list \<Rightarrow> string \<Rightarrow> string option" where
  "struct_field name [] v = Some v"
| "struct_field name ((k, x) # cs) v =
    (if \<not> EqualFold k name then struct_field name cs v
     else case x of JvString s \<Rightarrow> struct_field name cs s | JvNull \<Rightarrow> struct_field name cs v | _ \<Rightarrow> None)"

definition checkAuthorizedPartyClaims :: "(string \<times> jv) list \<Rightarrow> string list \<Rightarrow> string \<Rightarrow> oidc_error option" where
  "checkAuthorizedPartyClaims claims audience clientID =
    (case map_claim claims ''azp'' of
       Some raw \<Rightarrow>
         (case (case raw of JvString s \<Rightarrow> Some s | JvNull \<Rightarrow> Some [] | _ \<Rightarrow> None) of
            None \<Rightarrow> Some AzpNotString
          | Some azp \<Rightarrow> if azp \<noteq> clientID then Some AzpOther else None)
     | None \<Rightarrow> if length audience > 1 then Some (AzpMissing (length audience)) else None)"

definition checkAuthorizedParty :: "IDToken \<Rightarrow> string \<Rightarrow> oidc_error option" where
  "checkAuthorizedParty t clientID =
    (case it_Claims t of None \<Rightarrow> Some UnreadableClaims | Some claims \<Rightarrow> checkAuthorizedPartyClaims claims (it_Audience t) clientID)"

definition ExchangeAndVerify :: "'tls idp \<Rightarrow> 'tls Provider \<Rightarrow> string \<Rightarrow> CallbackSession \<Rightarrow> oidc_error + oauth2_Token \<times> IDToken" where
  "ExchangeAndVerify I p code session =
    (case pr_verifier p of None \<Rightarrow> Inl NoVerifier
     | Some clientID \<Rightarrow>
       if cs_CodeVerifier session = [] then Inl NoCodeVerifier
       else if cs_Nonce session = [] then Inl NoNonce
       else (case idp_exchange I (pr_httpClient p) (the (pr_config p)) code (cs_CodeVerifier session) of
          None \<Rightarrow> Inl CodeExchangeFailed
        | Some token \<Rightarrow>
          (case ot_idToken token of
             None \<Rightarrow> Inl NoIDToken
           | Some rawIDToken \<Rightarrow>
             if rawIDToken = [] then Inl NoIDToken
             else (case idp_verify I clientID rawIDToken of
               None \<Rightarrow> Inl VerifyFailed
             | Some idToken \<Rightarrow>
               if it_Nonce idToken \<noteq> cs_Nonce session then Inl NonceMismatch
               else (case checkAuthorizedParty idToken (oc_ClientID (the (pr_config p))) of
                 Some e \<Rightarrow> Inl e
               | None \<Rightarrow> Inr (token, idToken))))))"

definition ExtractGroups :: "IDToken \<Rightarrow> string \<Rightarrow> string list option" where
  "ExtractGroups t claimName =
    (if claimName = [] then None
     else case it_Claims t of None \<Rightarrow> None
     | Some claims \<Rightarrow>
       (case map_claim claims claimName of
          Some (JvArray vs) \<Rightarrow> Some (concat (map (\<lambda>v. case v of JvString s \<Rightarrow> if s \<noteq> [] then [s] else [] | _ \<Rightarrow> []) vs))
        | _ \<Rightarrow> None))"

definition boolClaim :: "IDToken \<Rightarrow> string \<Rightarrow> bool" where
  "boolClaim t name =
    (case it_Claims t of None \<Rightarrow> False
     | Some claims \<Rightarrow>
       (case map_claim claims name of
          Some (JvBool b) \<Rightarrow> b
        | Some JvNull \<Rightarrow> False
        | Some (JvString s) \<Rightarrow> EqualFold s ''true''
        | _ \<Rightarrow> False))"

text \<open>Subject, email, name, and whether the email is verified.\<close>

definition ExtractUserInfo :: "IDToken \<Rightarrow> oidc_error + string \<times> string \<times> string \<times> bool" where
  "ExtractUserInfo t =
    (case it_Claims t of None \<Rightarrow> Inl UnreadableClaims
     | Some cs \<Rightarrow>
       (case (struct_field ''sub'' cs [], struct_field ''email'' cs [], struct_field ''name'' cs [], struct_field ''preferred_username'' cs [],
              struct_field ''upn'' cs [], struct_field ''unique_name'' cs []) of
          (Some sub, Some email, Some name, Some preferred, Some upn, Some unique) \<Rightarrow>
            if sub = [] then Inl NoSub
            else let verified = (email \<noteq> [] \<and> boolClaim t ''email_verified'');
                     resolved = (if email \<noteq> [] then email else if preferred \<noteq> [] then preferred else if upn \<noteq> [] then upn else unique) in
              if resolved = [] then Inl NoEmailIdentifier
              else Inr (sub, resolved, if name = [] then resolved else name, verified)
        | _ \<Rightarrow> Inl UnreadableClaims))"

subsection \<open>The endpoints\<close>




subsection \<open>The bindings of a login\<close>

text \<open>
  C6: no login completes without both of its bindings. When \<open>ExchangeAndVerify\<close> returns tokens, the session had a PKCE verifier and a nonce; the code was exchanged
  with that verifier through the provider's own client; the ID token was verified, names this client in its audience, carries exactly the
  session's nonce, and is issued to this client: its authorized party, if named, is this client, and if none is named there is no other audience.
\<close>

theorem login_requires_bindings:
  assumes "idp_documented I" "pr_verifier p = Some (oc_ClientID (the (pr_config p)))" "ExchangeAndVerify I p code session = Inr (token, idToken)"
  shows "cs_CodeVerifier session \<noteq> [] \<and> cs_Nonce session \<noteq> []
    \<and> idp_exchange I (pr_httpClient p) (the (pr_config p)) code (cs_CodeVerifier session) = Some token
    \<and> (\<exists>raw. ot_idToken token = Some raw \<and> idp_verify I (oc_ClientID (the (pr_config p))) raw = Some idToken)
    \<and> it_Nonce idToken = cs_Nonce session \<and> oc_ClientID (the (pr_config p)) \<in> set (it_Audience idToken)
    \<and> (\<exists>claims. it_Claims idToken = Some claims
         \<and> (case map_claim claims ''azp'' of
              Some v \<Rightarrow> v = JvString (oc_ClientID (the (pr_config p))) \<or> (v = JvNull \<and> oc_ClientID (the (pr_config p)) = [])
            | None \<Rightarrow> it_Audience idToken = [oc_ClientID (the (pr_config p))]))"
proof -
  let ?id = "oc_ClientID (the (pr_config p))"
  obtain raw where bind: "cs_CodeVerifier session \<noteq> []" "cs_Nonce session \<noteq> []"
    and ex: "idp_exchange I (pr_httpClient p) (the (pr_config p)) code (cs_CodeVerifier session) = Some token" "ot_idToken token = Some raw"
    and ver: "idp_verify I ?id raw = Some idToken" "it_Nonce idToken = cs_Nonce session" "checkAuthorizedParty idToken ?id = None"
    using assms(2,3) by (auto simp: ExchangeAndVerify_def split: option.splits if_splits)
  have aud: "?id \<in> set (it_Audience idToken)" using assms(1) ver(1) unfolding idp_documented_def by blast
  have one: "it_Audience idToken = [?id]" if "length (it_Audience idToken) \<le> 1"
    using that aud by (cases "it_Audience idToken") auto
  obtain claims where cl: "it_Claims idToken = Some claims" "checkAuthorizedPartyClaims claims (it_Audience idToken) ?id = None"
    using ver(3) by (auto simp: checkAuthorizedParty_def split: option.splits)
  have "case map_claim claims ''azp'' of Some v \<Rightarrow> v = JvString ?id \<or> (v = JvNull \<and> ?id = []) | None \<Rightarrow> it_Audience idToken = [?id]"
    using cl(2) one unfolding checkAuthorizedPartyClaims_def by (auto split: option.splits jv.splits if_splits)
  then show ?thesis using bind ex ver(1,2) aud cl(1) by blast
qed

lemma CompleteAuthSession_eq:
  "fst (CompleteAuthSession dec now purpose state (Some s)) =
     (case fst (Consume Take now purpose state s) of Inl e \<Rightarrow> Inl (StateFailed e)
      | Inr x \<Rightarrow> (case dec x of None \<Rightarrow> Inl BadEnvelope
          | Some env \<Rightarrow> Inr \<lparr>cs_Payload = se_Payload env, cs_Nonce = se_Nonce env, cs_CodeVerifier = se_CodeVerifier env\<rparr>))"
  "snd (CompleteAuthSession dec now purpose state (Some s)) = Some (snd (Consume Take now purpose state s))"
  by (simp_all add: CompleteAuthSession_def split: prod.split sum.split option.split)

text \<open>
  A login session comes back once, unchanged, and only for its purpose. What \<open>BeginAuthSession\<close> stored (this login's nonce, which its authorization URL carries, its PKCE verifier and
  the caller's payload) is what \<open>CompleteAuthSession\<close> returns for the state, within the lifetime and for the purpose it was begun for; whatever the
  answer, the state is spent: presenting it again, for any purpose, fails.
\<close>

theorem login_session_single_use:
  assumes "mem_invar s" "\<forall>e. dec (enc e) = Some e"
    and "BeginAuthSession I enc (Some rnd) verifier io rndState now config purpose payload ttl (Some s) = (Inr (url, state), Some s')"
    and "now' \<le> now + ttl" "purpose' \<noteq> []"
  shows "url = idp_authCodeURL I config state (EncodeToString rnd) verifier
    \<and> fst (CompleteAuthSession dec now' purpose state (Some s'))
        = Inr \<lparr>cs_Payload = payload, cs_Nonce = EncodeToString rnd, cs_CodeVerifier = verifier\<rparr>
    \<and> (purpose' \<noteq> purpose \<longrightarrow> fst (CompleteAuthSession dec now' purpose' state (Some s')) = Inl (StateFailed StPurposeMismatch))
    \<and> fst (CompleteAuthSession dec now'' purpose state (snd (CompleteAuthSession dec now' purpose' state (Some s')))) = Inl (StateFailed StNotFound)"
proof -
  let ?env = "\<lparr>se_Nonce = EncodeToString rnd, se_CodeVerifier = verifier, se_Payload = payload\<rparr>"
  have url: "url = idp_authCodeURL I config state (EncodeToString rnd) verifier"
    and iss: "Issue PutIfAbsent io rndState now purpose (enc ?env) ttl s = (Inr state, s')"
    using assms(3) by (auto simp: BeginAuthSession_def randomNonce_def split: prod.splits sum.splits)
  have con: "fst (Consume Take now' purpose state s') = Inr (enc ?env)" using mem.issue_consume [OF assms(1) iss assms(4)] by simp
  have pne: "purpose \<noteq> []" and st: "state = EncodeToString rndState" and inv: "mem_invar s'"
    using mem.op_invar [OF assms(1), of "IssueOp io rndState now purpose (enc ?env) ttl"] iss
    by (auto simp: Issue_def newState_def Let_def split: if_splits prod.splits sum.splits)
  have wrong: "purpose' \<noteq> purpose \<longrightarrow> fst (Consume Take now' purpose' state s') = Inl StPurposeMismatch"
    using con assms(5) pne by (auto simp: Consume_def split: prod.splits sum.splits option.splits if_splits)
  have again: "fst (Consume Take now'' purpose state (snd (Consume Take now' purpose' state s'))) = Inl StNotFound"
    using mem.consume_once [OF inv assms(5) pne, of state "[]"] by simp
  show ?thesis using url con wrong again assms(2) by (simp add: CompleteAuthSession_eq)
qed

subsection \<open>The user\<close>

text \<open>
  An email counts as verified only on the provider's word about that very email. When user data are extracted, subject, email and name are not empty; if
  the email is reported verified it is the value of the \<open>email\<close> claim and the token says \<open>email_verified\<close>; an email taken from the user-name
  claims is never reported verified.
\<close>

theorem verified_email_is_asserted:
  assumes "ExtractUserInfo t = Inr (sub, email, name, verified)"
  shows "sub \<noteq> [] \<and> email \<noteq> [] \<and> name \<noteq> []
    \<and> (\<exists>claims. it_Claims t = Some claims \<and> struct_field ''sub'' claims [] = Some sub
        \<and> (verified \<longrightarrow> struct_field ''email'' claims [] = Some email \<and> boolClaim t ''email_verified'')
        \<and> (struct_field ''email'' claims [] = Some [] \<longrightarrow> \<not> verified))"
  using assms unfolding ExtractUserInfo_def Let_def
  by (auto split: option.splits if_splits)

theorem ExtractGroups_only_strings:
  assumes "ExtractGroups t name = Some gs"
  shows "\<exists>claims vs. it_Claims t = Some claims \<and> map_claim claims name = Some (JvArray vs) \<and> (\<forall>g. g \<in> set gs \<longleftrightarrow> g \<noteq> [] \<and> JvString g \<in> set vs)"
proof -
  obtain claims vs where c: "it_Claims t = Some claims" "map_claim claims name = Some (JvArray vs)"
    and gs: "gs = concat (map (\<lambda>v. case v of JvString s \<Rightarrow> if s \<noteq> [] then [s] else [] | _ \<Rightarrow> []) vs)"
    using assms by (auto simp: ExtractGroups_def split: if_splits option.splits jv.splits)
  have "g \<in> set gs \<longleftrightarrow> g \<noteq> [] \<and> JvString g \<in> set vs" for g
    unfolding gs by (induction vs) (auto split: jv.splits)
  with c show ?thesis by blast
qed

text \<open>An array without a string gives an empty list, not nil.\<close>

theorem ExtractGroups_of_numbers:
  "ExtractGroups \<lparr>it_Nonce = [], it_Audience = [], it_Claims = Some [(''groups'', JvArray [JvNumber])]\<rparr> ''groups'' = Some []"
  by code_simp

subsection \<open>Examples\<close>

definition ex_doc :: discoveryDocument where
  "ex_doc = \<lparr>dd_AuthorizationEndpoint = ''https://i/a'', dd_TokenEndpoint = ''https://i/t'', dd_JWKSURI = ''https://i/k'', dd_EndSessionEndpoint = []\<rparr>"

definition ex_idtoken :: IDToken where
  "ex_idtoken = \<lparr>it_Nonce = ''n'', it_Audience = [''app''], it_Claims = Some [(''sub'', JvString ''s''), (''email'', JvString ''a@x''), (''email_verified'', JvBool True)]\<rparr>"

definition ex_idp :: "unit idp" where
  "ex_idp = \<lparr>idp_discover = \<lambda>_ _. Some \<lparr>op_doc = Some ex_doc, op_AuthURL = ''https://i/a'', op_TokenURL = ''https://i/t'', op_JWKSURL = ''https://i/k''\<rparr>,
     idp_exchange = \<lambda>_ _ _ _. Some \<lparr>ot_AccessToken = ''a'', ot_idToken = Some ''raw''\<rparr>,
     idp_verify = \<lambda>cid _. if cid = ''app'' then Some ex_idtoken else None, idp_authCodeURL = \<lambda>_ st n _. st @ ''&'' @ n\<rparr>"

lemma ex_idp_documented: "idp_documented ex_idp"
  by (auto simp: idp_documented_def ex_idp_def ex_doc_def ex_idtoken_def split: if_splits)

definition ex_oidc_parse :: "string \<Rightarrow> URL option" where
  "ex_oidc_parse s = (if HasPrefix s ''https://i'' then Some \<lparr>url_Scheme = ''https'', url_Host = ''i''\<rparr> else None)"

definition ex_oidc_cfg :: "unit oidc_Config" where
  "ex_oidc_cfg = \<lparr>cf_IssuerURL = ''https://i'', cf_ClientID = ''app'', cf_ClientSecret = ''s'', cf_RedirectURL = [], cf_Scopes = [],
     cf_AllowInsecureIssuer = False, cf_EgressGuard = None, cf_TLSClientConfig = None\<rparr>"

lemma ex_provider:
  "\<exists>p. NewProviderWithContext ex_idp ex_oidc_parse (\<lambda>_. None) False ex_oidc_cfg = Inr p \<and> pr_verifier p = Some ''app''
     \<and> oc_ClientID (the (pr_config p)) = ''app''"
proof -
  have ok: "ValidateURL None ex_oidc_parse (\<lambda>_. None) ''https://i/t'' = Inr ()" "ValidateURL None ex_oidc_parse (\<lambda>_. None) ''https://i/k'' = Inr ()"
    and s: "isHTTPSURL ex_oidc_parse ''https://i''" "isHTTPSURL ex_oidc_parse ''https://i/t''" "isHTTPSURL ex_oidc_parse ''https://i/k''" "isHTTPSURL ex_oidc_parse ''https://i/a''"
    by code_simp+
  show ?thesis
    using ok s by (simp add: NewProviderWithContext_def Let_def ex_oidc_cfg_def ex_idp_def validateDiscoveredEndpoints_def ex_doc_def checkDiscoveredScheme_def)
qed


theorem login_requires_bindings_witness:
  "\<exists>p token. ExchangeAndVerify ex_idp p ''code'' \<lparr>cs_Payload = [], cs_Nonce = ''n'', cs_CodeVerifier = ''v''\<rparr> = Inr (token, ex_idtoken)
     \<and> it_Audience ex_idtoken = [oc_ClientID (the (pr_config p))]"
proof -
  obtain p :: "unit Provider" where p: "pr_verifier p = Some ''app''" "oc_ClientID (the (pr_config p)) = ''app''" using ex_provider by blast
  have "checkAuthorizedParty ex_idtoken ''app'' = None" by code_simp
  then have run: "ExchangeAndVerify ex_idp p ''code'' \<lparr>cs_Payload = [], cs_Nonce = ''n'', cs_CodeVerifier = ''v''\<rparr>
      = Inr (\<lparr>ot_AccessToken = ''a'', ot_idToken = Some ''raw''\<rparr>, ex_idtoken)"
    using p by (simp add: ExchangeAndVerify_def ex_idp_def) (simp add: ex_idtoken_def)
  have azp: "map_claim [(''sub'', JvString ''s''), (''email'', JvString ''a@x''), (''email_verified'', JvBool True)] ''azp'' = None" by code_simp
  have "it_Audience ex_idtoken = [oc_ClientID (the (pr_config p))]"
    using login_requires_bindings [OF ex_idp_documented _ run] p azp by (simp add: ex_idtoken_def)
  with run show ?thesis by blast
qed

text \<open>A codec for envelopes that reads back: each text after its length, in unary.\<close>

definition put_text :: "string \<Rightarrow> byte list \<Rightarrow> byte list" where
  "put_text s rest = replicate (length s) 1 @ 0 # bytes_of s @ rest"

definition get_text :: "byte list \<Rightarrow> string \<times> byte list" where
  "get_text bs = (let n = length (takeWhile (\<lambda>b. b = 1) bs); r = drop (Suc n) bs in (string_of (take n r), drop n r))"

definition ex_enc :: "sessionEnvelope \<Rightarrow> byte list" where
  "ex_enc e = put_text (se_Nonce e) (put_text (se_CodeVerifier e) (se_Payload e))"

definition ex_dec :: "byte list \<Rightarrow> sessionEnvelope option" where
  "ex_dec bs = (let (n, r) = get_text bs; (v, p) = get_text r in Some \<lparr>se_Nonce = n, se_CodeVerifier = v, se_Payload = p\<rparr>)"

lemma get_put: "get_text (put_text s rest) = (s, rest)"
proof -
  have l: "length (bytes_of s) = length s" by (simp add: bytes_of_def)
  have "takeWhile (\<lambda>b. b = 1) (put_text s rest) = replicate (length s) 1" by (simp add: put_text_def takeWhile_append)
  then show ?thesis by (simp add: get_text_def put_text_def l)
qed

lemma ex_codec: "\<forall>e. ex_dec (ex_enc e) = Some e"
  by (simp add: ex_dec_def ex_enc_def get_put)

definition ex_begun :: "(oidc_error + string \<times> string) \<times> MemoryStore option" where
  "ex_begun = BeginAuthSession ex_idp ex_enc (Some [7]) ''v'' no_faults [1, 2] 3
     \<lparr>oc_ClientID = [], oc_ClientSecret = [], oc_RedirectURL = [], oc_AuthURL = [], oc_TokenURL = [], oc_Scopes = []\<rparr> ''login'' [9] 10 (Some (NewMemoryStore 0))"

lemma ex_begun_eq: "\<exists>url s'. ex_begun = (Inr (url, EncodeToString [1, 2]), Some s')"
proof -
  let ?e = "ex_enc \<lparr>se_Nonce = EncodeToString [7], se_CodeVerifier = ''v'', se_Payload = [9]\<rparr>"
  have "fst (Issue PutIfAbsent no_faults [1, 2] 3 ''login'' ?e 10 (NewMemoryStore 0)) = Inr (EncodeToString [1, 2])"
    using Issue_then_Consume [OF NewMemoryStore_invar, of "''login''" 10 8 3 0 "[1, 2]" ?e] by (simp add: mem_look_def NewMemoryStore_def)
  then obtain s' where "Issue PutIfAbsent no_faults [1, 2] 3 ''login'' ?e 10 (NewMemoryStore 0) = (Inr (EncodeToString [1, 2]), s')"
    by (cases "Issue PutIfAbsent no_faults [1, 2] 3 ''login'' ?e 10 (NewMemoryStore 0)") simp
  then show ?thesis by (simp add: ex_begun_def BeginAuthSession_def randomNonce_def)
qed

theorem login_session_single_use_witness:
  "fst (CompleteAuthSession ex_dec 4 ''login'' (EncodeToString [1, 2]) (snd ex_begun)) = Inr \<lparr>cs_Payload = [9], cs_Nonce = EncodeToString [7], cs_CodeVerifier = ''v''\<rparr>
   \<and> fst (CompleteAuthSession ex_dec 5 ''login'' (EncodeToString [1, 2]) (snd (CompleteAuthSession ex_dec 4 ''login'' (EncodeToString [1, 2]) (snd ex_begun)))) = Inl (StateFailed StNotFound)"
proof -
  obtain url s' where b: "ex_begun = (Inr (url, EncodeToString [1, 2]), Some s')" using ex_begun_eq by blast
  show ?thesis
    using login_session_single_use [OF NewMemoryStore_invar ex_codec b [unfolded ex_begun_def], of 4 "''login''" 5] by (simp add: b)
qed

theorem verified_email_is_asserted_witness:
  "ExtractUserInfo ex_idtoken = Inr (''s'', ''a@x'', ''a@x'', True) \<and> boolClaim ex_idtoken ''email_verified''"
proof -
  have run: "ExtractUserInfo ex_idtoken = Inr (''s'', ''a@x'', ''a@x'', True)" by code_simp
  show ?thesis using verified_email_is_asserted [OF run] run by blast
qed

end
