(* ===== verification/Notify_Schema.thy ===== *)
theory Notify_Schema
  imports Prelude
begin

text \<open>
  Package \<open>notify\<close>, file \<open>schema.go\<close> and the column check of \<open>channel_scope.go\<close>: the startup assertions that the table of
  notification channels, which the application creates, has the shape the repository's statements need. The rows of the
  catalog query (namespace, column, formatted type, not null) are an argument, in column order; \<open>io 0\<close>: no connection,
  \<open>io 1\<close>: reading the search path fails, \<open>io 2\<close>: the query fails, \<open>io 3\<close>: reading its rows fails.
\<close>

definition ChannelTable :: string where "ChannelTable = ''notification_channels''"

record columnRequirement =
  req_types :: "string list"
  req_notNull :: bool

record catalog_column =
  col_nspname :: string
  col_attname :: string
  col_type :: string
  col_notNull :: bool

definition text_types :: "string list" where
  "text_types = [''text'', ''character varying'', ''character'']"

definition channelColumnRequirements :: "(string \<times> columnRequirement) list" where
  "channelColumnRequirements =
    [(''id'', \<lparr>req_types = ''uuid'' # text_types, req_notNull = True\<rparr>),
     (''name'', \<lparr>req_types = text_types, req_notNull = True\<rparr>),
     (''type'', \<lparr>req_types = text_types, req_notNull = True\<rparr>),
     (''encrypted_target'', \<lparr>req_types = text_types, req_notNull = True\<rparr>),
     (''events'', \<lparr>req_types = [''jsonb''], req_notNull = True\<rparr>),
     (''enabled'', \<lparr>req_types = [''boolean''], req_notNull = True\<rparr>),
     (''last_status'', \<lparr>req_types = text_types, req_notNull = False\<rparr>),
     (''last_error'', \<lparr>req_types = text_types, req_notNull = False\<rparr>),
     (''last_sent_at'', \<lparr>req_types = [''timestamp with time zone''], req_notNull = False\<rparr>),
     (''created_at'', \<lparr>req_types = [''timestamp with time zone''], req_notNull = True\<rparr>),
     (''updated_at'', \<lparr>req_types = [''timestamp with time zone''], req_notNull = True\<rparr>)]"

definition channelOrganizationRequirement :: columnRequirement where
  "channelOrganizationRequirement = \<lparr>req_types = ''uuid'' # text_types, req_notNull = False\<rparr>"

datatype column_problem =
    Missing string
  | WrongType string string "string list"
  | Nullable string

datatype channel_table_error =
    NoDatabase
  | NoConnection
  | NoSearchPath
  | NoDefinition
  | ResolvesToNothing
  | Mismatch "column_problem list"
  | NoOrganizationColumn string
  | OrganizationColumnType string

definition sortedRequirementNames :: "string list" where
  "sortedRequirementNames = sort (map fst channelColumnRequirements)"

definition typeSatisfies :: "string \<Rightarrow> string list \<Rightarrow> bool" where
  "typeSatisfies dataType accepted =
    (let base = (if CHR ''('' \<in> set dataType then TrimSpace (takeWhile (\<lambda>c. c \<noteq> CHR ''('') dataType) else dataType)
     in list_ex (\<lambda>want. base = want) accepted)"

text \<open>The loop over the rows: the namespace of the last one, and the last row of each column name.\<close>

fun readColumns :: "catalog_column list \<Rightarrow> string \<times> (string \<rightharpoonup> catalog_column) \<Rightarrow> string \<times> (string \<rightharpoonup> catalog_column)" where
  "readColumns [] acc = acc"
| "readColumns (r # rs) (schema, actual) = readColumns rs (col_nspname r, actual(col_attname r \<mapsto> r))"

definition column_problems :: "(string \<rightharpoonup> catalog_column) \<Rightarrow> string \<Rightarrow> columnRequirement \<Rightarrow> column_problem list" where
  "column_problems actual name req =
    (case actual name of
       None \<Rightarrow> [Missing name]
     | Some got \<Rightarrow> (if \<not> typeSatisfies (col_type got) (req_types req) then [WrongType name (col_type got) (req_types req)] else [])
         @ (if req_notNull req \<and> \<not> col_notNull got then [Nullable name] else []))"

definition VerifyChannelTable :: "io \<Rightarrow> bool \<Rightarrow> catalog_column list \<Rightarrow> string \<times> channel_table_error option" where
  "VerifyChannelTable io dbNil rows =
    (if dbNil then ([], Some NoDatabase)
     else if io 0 then ([], Some NoConnection)
     else if io 1 then ([], Some NoSearchPath)
     else if io 2 then ([], Some NoDefinition)
     else if io 3 then ([], Some NoDefinition)
     else let (schema, actual) = readColumns rows ([], Map.empty) in
       if schema = [] then ([], Some ResolvesToNothing)
       else let qualified = schema @ ''.'' @ ChannelTable;
                problems = concat (map (\<lambda>name. case map_of channelColumnRequirements name of
                    None \<Rightarrow> [] | Some req \<Rightarrow> column_problems actual name req) sortedRequirementNames) in
         if problems = [] then (qualified, None) else (qualified, Some (Mismatch problems)))"

definition VerifyChannelOrganizationColumn :: "io \<Rightarrow> bool \<Rightarrow> catalog_column list \<Rightarrow> channel_table_error option" where
  "VerifyChannelOrganizationColumn io dbNil rows =
    (if dbNil then Some NoDatabase
     else if io 0 then Some NoConnection
     else if io 2 then Some NoDefinition
     else if io 3 then Some NoDefinition
     else let (schema, actual) = readColumns rows ([], Map.empty) in
       if schema = [] then Some ResolvesToNothing
       else case actual ''organization_id'' of
         None \<Rightarrow> Some (NoOrganizationColumn (schema @ ''.'' @ ChannelTable))
       | Some got \<Rightarrow> if typeSatisfies (col_type got) (req_types channelOrganizationRequirement) then None
                     else Some (OrganizationColumnType (col_type got)))"

subsection \<open>What passing means\<close>

definition column_fits :: "columnRequirement \<Rightarrow> catalog_column \<Rightarrow> bool" where
  "column_fits req c \<longleftrightarrow> typeSatisfies (col_type c) (req_types req) \<and> (req_notNull req \<longrightarrow> col_notNull c)"

lemma readColumns_actual:
  "snd (readColumns rows (s, m)) = m ++ map_of (rev (map (\<lambda>r. (col_attname r, r)) rows))"
  by (induction rows arbitrary: s m) (simp_all add: map_add_assoc map_add_def fun_eq_iff split: option.splits)

lemma readColumns_schema: "fst (readColumns rows (s, m)) = (if rows = [] then s else col_nspname (last rows))"
  by (induction rows arbitrary: s m) simp_all

lemma map_of_distinct_rows:
  assumes "distinct (map col_attname rows)"
  shows "map_of (rev (map (\<lambda>r. (col_attname r, r)) rows)) n = Some c \<longleftrightarrow> c \<in> set rows \<and> col_attname c = n"
  using assms by (subst map_of_eq_Some_iff) (auto simp: rev_map [symmetric] comp_def)

lemma requirement_names: "set sortedRequirementNames = fst ` set channelColumnRequirements"
  by (simp add: sortedRequirementNames_def)

lemma requirements_distinct: "distinct (map fst channelColumnRequirements)"
  by code_simp

lemma column_problems_Nil: "column_problems actual name req = [] \<longleftrightarrow> (\<exists>c. actual name = Some c \<and> column_fits req c)"
  by (auto simp: column_problems_def column_fits_def split: option.splits)

lemma no_problems:
  "concat (map (\<lambda>name. case map_of channelColumnRequirements name of None \<Rightarrow> [] | Some req \<Rightarrow> column_problems actual name req) sortedRequirementNames) = []
   \<longleftrightarrow> (\<forall>(name, req) \<in> set channelColumnRequirements. \<exists>c. actual name = Some c \<and> column_fits req c)"
proof -
  have "(\<forall>name \<in> fst ` set channelColumnRequirements.
          (case map_of channelColumnRequirements name of None \<Rightarrow> [] | Some req \<Rightarrow> column_problems actual name req) = [])
    \<longleftrightarrow> (\<forall>(name, req) \<in> set channelColumnRequirements. column_problems actual name req = [])"
    using requirements_distinct by (auto split: option.splits dest: map_of_SomeD)
  then show ?thesis by (simp add: requirement_names column_problems_Nil)
qed

text \<open>
  The startup check passes exactly on a table with the shape the statements need. When the catalog can be read and its
  column names are distinct, \<open>VerifyChannelTable\<close> reports no error if and only if the name resolves and every required column
  is there with an accepted type, a length modifier aside, and not nullable where it is scanned into a plain value; it then
  returns the qualified name it resolved to.
\<close>

theorem VerifyChannelTable_iff:
  assumes "\<not> io 0" "\<not> io 1" "\<not> io 2" "\<not> io 3" "distinct (map col_attname rows)" "\<forall>r\<in>set rows. col_nspname r = ns" "ns \<noteq> []"
  shows "(snd (VerifyChannelTable io False rows) = None \<longleftrightarrow>
            rows \<noteq> [] \<and> (\<forall>(name, req) \<in> set channelColumnRequirements. \<exists>c\<in>set rows. col_attname c = name \<and> column_fits req c))
         \<and> (rows \<noteq> [] \<longrightarrow> fst (VerifyChannelTable io False rows) = ns @ ''.notification_channels'')"
proof (cases "rows = []")
  case True
  then show ?thesis using assms by (simp add: VerifyChannelTable_def)
next
  case False
  obtain schema actual where rc: "readColumns rows ([], Map.empty) = (schema, actual)" by (cases "readColumns rows ([], Map.empty)")
  have s: "schema = ns" using readColumns_schema [of rows "[]" Map.empty] rc False assms(6) by (simp add: rc)
  have a: "actual n = Some c \<longleftrightarrow> c \<in> set rows \<and> col_attname c = n" for n c
    using readColumns_actual [of rows "[]" Map.empty] rc map_of_distinct_rows [OF assms(5)] by simp
  show ?thesis
    using assms(1-4,7) False
    by (simp add: VerifyChannelTable_def rc s no_problems a ChannelTable_def Let_def Bex_def conj_assoc del: concat_eq_Nil_conv)
qed

text \<open>The columns of \<open>ChannelTableDDL\<close>, as the catalog formats their types.\<close>

definition ddl_columns :: "(string \<times> string \<times> bool) list" where
  "ddl_columns =
    [(''id'', ''uuid'', True), (''name'', ''text'', True), (''type'', ''text'', True), (''encrypted_target'', ''text'', True),
     (''events'', ''jsonb'', True), (''enabled'', ''boolean'', True), (''last_status'', ''text'', False), (''last_error'', ''text'', False),
     (''last_sent_at'', ''timestamp with time zone'', False), (''created_at'', ''timestamp with time zone'', True),
     (''updated_at'', ''timestamp with time zone'', True)]"

definition ChannelTableDDL :: "string \<Rightarrow> catalog_column list" where
  "ChannelTableDDL ns = map (\<lambda>(n, ty, nn). \<lparr>col_nspname = ns, col_attname = n, col_type = ty, col_notNull = nn\<rparr>) ddl_columns"

theorem VerifyChannelTable_iff_witness:
  "distinct (map col_attname (ChannelTableDDL ''public''))
   \<and> VerifyChannelTable (\<lambda>_. False) False (ChannelTableDDL ''public'') = (''public.notification_channels'', None)"
proof -
  have d: "distinct (map col_attname (ChannelTableDDL ''public''))"
    and n: "\<forall>r\<in>set (ChannelTableDDL ''public''). col_nspname r = ''public''"
    and ne: "ChannelTableDDL ''public'' \<noteq> []"
    and fits: "\<forall>(name, req) \<in> set channelColumnRequirements. \<exists>c\<in>set (ChannelTableDDL ''public''). col_attname c = name \<and> column_fits req c"
    by code_simp+
  show ?thesis
    using VerifyChannelTable_iff [of "\<lambda>_. False" "ChannelTableDDL ''public''" "''public''"] d n ne fits
    by (auto simp: prod_eq_iff)
qed

text \<open>The canonical definition has no owner column, so the second check, which only a partitioning application runs, fails on it
  and passes once the column is added; and the drift the file's comment reports (a byte array target) is caught.\<close>

theorem organization_column_check:
  "VerifyChannelOrganizationColumn (\<lambda>_. False) False (ChannelTableDDL ''public'') = Some (NoOrganizationColumn ''public.notification_channels'')
   \<and> VerifyChannelOrganizationColumn (\<lambda>_. False) False
       (ChannelTableDDL ''public'' @ [\<lparr>col_nspname = ''public'', col_attname = ''organization_id'', col_type = ''character varying(36)'', col_notNull = False\<rparr>]) = None"
  by code_simp

theorem drifted_target_caught:
  "VerifyChannelTable (\<lambda>_. False) False
     (map (\<lambda>c. if col_attname c = ''encrypted_target'' then c\<lparr>col_type := ''bytea''\<rparr> else c) (ChannelTableDDL ''public''))
   = (''public.notification_channels'', Some (Mismatch [WrongType ''encrypted_target'' ''bytea'' text_types]))"
  by code_simp

end
