(* ===== verification/Notify_Channels.thy ===== *)
theory Notify_Channels
  imports Org_Scope Store_DB
begin

text \<open>
  Package \<open>notify\<close>, files \<open>models.go\<close>, \<open>channel_owner.go\<close>, \<open>channel_scope.go\<close> and \<open>channel_repository.go\<close>: the admin-configured
  destinations of notifications, in a table the application owns. The table may or may not have an owner column
  (\<open>ct_hasOrg\<close>), with a column default \<open>ct_defaultOrg\<close>; a statement that names the column where there is none is refused. \<open>io 0\<close>: the
  statement fails; \<open>io 1\<close>: reading its rows or its row count fails.

  A JSONB document of column \<open>events\<close> is an array of strings, the scalar null, or something else.
\<close>

datatype events_json = EArray "string list" | ENull | EOther

record ChannelRow =
  ch_ID :: string
  ch_Name :: string
  ch_Type :: string
  ch_EncryptedTarget :: string
  ch_Events :: events_json
  ch_Enabled :: bool
  ch_LastStatus :: "string option"
  ch_LastError :: "string option"
  ch_LastSentAt :: "time option"
  ch_CreatedAt :: time
  ch_UpdatedAt :: time
  ch_OrganizationID :: "string option"

record NotificationChannel =
  nc_ID :: string
  nc_Name :: string
  nc_Type :: string
  nc_EncryptedTarget :: string
  nc_HasTarget :: bool
  nc_Events :: "string list option"
  nc_Enabled :: bool
  nc_LastStatus :: "string option"
  nc_LastError :: "string option"
  nc_LastSentAt :: "time option"
  nc_CreatedAt :: time
  nc_UpdatedAt :: time

record channel_table =
  ct_rows :: "ChannelRow list"
  ct_hasOrg :: bool
  ct_defaultOrg :: "string option"

definition TargetContext :: "string \<Rightarrow> string" where
  "TargetContext channelID = ''identity/notify:notification_channel:'' @ channelID @ '':encrypted_target''"

subsection \<open>Options\<close>

text \<open>A nil option is \<open>None\<close>.\<close>

record channelFilter =
  cf_scoped :: bool
  cf_scope :: OrgScope

definition WithOrgScope :: "OrgScope \<Rightarrow> channelFilter \<Rightarrow> channelFilter" where
  "WithOrgScope scope f = f\<lparr>cf_scoped := True, cf_scope := scope\<rparr>"

type_synonym ChannelQueryOption = "(channelFilter \<Rightarrow> channelFilter) option"

definition newChannelFilter :: "ChannelQueryOption list \<Rightarrow> channelFilter" where
  "newChannelFilter opts =
     foldl (\<lambda>f opt. case opt of None \<Rightarrow> f | Some g \<Rightarrow> g f) \<lparr>cf_scoped = False, cf_scope = OrgScope_zero\<rparr> opts"

definition ChannelOrganizationColumn :: string where
  "ChannelOrganizationColumn = ''organization_id''"

text \<open>A statement without a \<open>WHERE\<close> clause is \<open>None\<close>.\<close>

definition splice :: "channelFilter \<Rightarrow> sql_pred option \<Rightarrow> sqlval list \<Rightarrow> sql_pred option \<times> sqlval list" where
  "splice f query args =
    (if \<not> cf_scoped f then (query, args)
     else let (clause, scopeArgs) = OrgScope_SQL (cf_scope f) ChannelOrganizationColumn (length args + 1) in
       (Some (case query of None \<Rightarrow> clause | Some q \<Rightarrow> P_and q clause), args @ scopeArgs))"

record channelWrite =
  cw_organizationID :: string
  cw_haveOrg :: bool

definition WithOwningOrganization :: "string \<Rightarrow> channelWrite \<Rightarrow> channelWrite" where
  "WithOwningOrganization organizationID w = w\<lparr>cw_organizationID := TrimSpace organizationID, cw_haveOrg := True\<rparr>"

datatype notify_error = ErrEmptyOwningOrganization | Store store_error

definition newChannelWrite :: "(channelWrite \<Rightarrow> channelWrite) option list \<Rightarrow> notify_error + channelWrite" where
  "newChannelWrite opts =
    (let w = foldl (\<lambda>w opt. case opt of None \<Rightarrow> w | Some g \<Rightarrow> g w) \<lparr>cw_organizationID = [], cw_haveOrg = False\<rparr> opts in
     if cw_haveOrg w \<and> cw_organizationID w = [] then Inl ErrEmptyOwningOrganization else Inr w)"

definition write_columns :: "channelWrite \<Rightarrow> (string \<times> string) list" where
  "write_columns w = (if cw_haveOrg w then [(ChannelOrganizationColumn, cw_organizationID w)] else [])"

subsection \<open>Rows\<close>

definition scanChannel :: "ChannelRow \<Rightarrow> notify_error + NotificationChannel" where
  "scanChannel r =
    (case (case ch_Events r of EArray es \<Rightarrow> Some es | ENull \<Rightarrow> Some [] | EOther \<Rightarrow> None) of
       None \<Rightarrow> Inl (Store (Failed ''json: cannot unmarshal events''))
     | Some es \<Rightarrow> Inr \<lparr>nc_ID = ch_ID r, nc_Name = ch_Name r, nc_Type = ch_Type r, nc_EncryptedTarget = ch_EncryptedTarget r,
         nc_HasTarget = (ch_EncryptedTarget r \<noteq> []), nc_Events = Some es, nc_Enabled = ch_Enabled r,
         nc_LastStatus = ch_LastStatus r, nc_LastError = ch_LastError r, nc_LastSentAt = ch_LastSentAt r,
         nc_CreatedAt = ch_CreatedAt r, nc_UpdatedAt = ch_UpdatedAt r\<rparr>)"

fun scanChannels :: "ChannelRow list \<Rightarrow> notify_error + NotificationChannel list" where
  "scanChannels [] = Inr []"
| "scanChannels (r # rs) = (case scanChannel r of Inl e \<Rightarrow> Inl e
     | Inr c \<Rightarrow> (case scanChannels rs of Inl e \<Rightarrow> Inl e | Inr cs \<Rightarrow> Inr (c # cs)))"

definition redact :: "NotificationChannel \<Rightarrow> NotificationChannel" where
  "redact c = c\<lparr>nc_EncryptedTarget := []\<rparr>"

definition marshalEvents :: "string list option \<Rightarrow> events_json" where
  "marshalEvents events = EArray (case events of None \<Rightarrow> [] | Some es \<Rightarrow> es)"

definition channel_cols :: "ChannelRow \<Rightarrow> row" where
  "channel_cols r c = (if c = ''id'' then VText (ch_ID r)
     else if c = ''organization_id'' then owner_val (ch_OrganizationID r) else VNull)"

interpretation channels: scoped_table channel_cols ChannelOrganizationColumn ch_OrganizationID
  by unfold_locales (simp add: channel_cols_def ChannelOrganizationColumn_def)

text \<open>Whether a filtered statement can run on the table, and the rows it selects.\<close>

definition filter_ok :: "channelFilter \<Rightarrow> channel_table \<Rightarrow> bool" where
  "filter_ok f t \<longleftrightarrow> cf_scoped f \<longrightarrow> ct_hasOrg t"

definition where_holds :: "sql_pred option \<times> sqlval list \<Rightarrow> ChannelRow \<Rightarrow> bool" where
  "where_holds wa r = (case fst wa of None \<Rightarrow> True | Some q \<Rightarrow> holds [] (snd wa) (channel_cols r) q)"

definition by_id :: "channelFilter \<Rightarrow> string \<Rightarrow> sqlval list \<Rightarrow> ChannelRow \<Rightarrow> bool" where
  "by_id f i args = where_holds (splice f (Some (P_eq ''id'' 1)) (VText i # args))"

definition requireChannelRow :: "bool \<Rightarrow> nat \<Rightarrow> notify_error + unit" where
  "requireChannelRow rowsAffectedFails n =
    (if rowsAffectedFails then Inl (Store (Failed ''failed to read rows affected for notification channel by id''))
     else if n = 0 then Inl (Store (ErrNotFound ''notification channel by id''))
     else Inr ())"

definition driver_error :: notify_error where
  "driver_error = Store (Failed ''driver'')"

subsection \<open>The repository\<close>

definition insert_owner :: "channelWrite \<Rightarrow> channel_table \<Rightarrow> string option" where
  "insert_owner w t = (case write_columns w of [] \<Rightarrow> if ct_hasOrg t then ct_defaultOrg t else None | (_, v) # _ \<Rightarrow> Some v)"

definition Channel_Create :: "io \<Rightarrow> string \<Rightarrow> time \<Rightarrow> NotificationChannel \<Rightarrow> (channelWrite \<Rightarrow> channelWrite) option list
    \<Rightarrow> channel_table \<Rightarrow> (notify_error + NotificationChannel) \<times> channel_table" where
  "Channel_Create io newID dbnow ch opts t =
    (case newChannelWrite opts of Inl e \<Rightarrow> (Inl e, t)
     | Inr w \<Rightarrow>
       if io 0 \<or> (write_columns w \<noteq> [] \<and> \<not> ct_hasOrg t) \<or> newID \<in> ch_ID ` set (ct_rows t) then (Inl driver_error, t)
       else let r = \<lparr>ch_ID = newID, ch_Name = nc_Name ch, ch_Type = nc_Type ch, ch_EncryptedTarget = nc_EncryptedTarget ch,
                ch_Events = marshalEvents (nc_Events ch), ch_Enabled = nc_Enabled ch, ch_LastStatus = None, ch_LastError = None,
                ch_LastSentAt = None, ch_CreatedAt = dbnow, ch_UpdatedAt = dbnow, ch_OrganizationID = insert_owner w t\<rparr>;
              t' = t\<lparr>ct_rows := ct_rows t @ [r]\<rparr> in
         (case scanChannel r of Inl e \<Rightarrow> (Inl e, t') | Inr saved \<Rightarrow> (Inr (redact saved), t')))"

definition Channel_List :: "io \<Rightarrow> ChannelQueryOption list \<Rightarrow> channel_table \<Rightarrow> notify_error + NotificationChannel list" where
  "Channel_List io opts t =
    (let f = newChannelFilter opts in
     if io 0 \<or> \<not> filter_ok f t then Inl driver_error
     else case scanChannels (order_desc ch_CreatedAt (filter (where_holds (splice f None [])) (ct_rows t))) of
       Inl e \<Rightarrow> Inl e
     | Inr cs \<Rightarrow> if io 1 then Inl driver_error else Inr (map redact cs))"

definition Channel_GetByID :: "io \<Rightarrow> string \<Rightarrow> ChannelQueryOption list \<Rightarrow> channel_table \<Rightarrow> notify_error + NotificationChannel" where
  "Channel_GetByID io i opts t =
    (let f = newChannelFilter opts in
     if io 0 \<or> \<not> filter_ok f t then Inl driver_error
     else case filter (by_id f i []) (ct_rows t) of
       [] \<Rightarrow> Inl (Store (ErrNotFound ''notification channel by id''))
     | r # _ \<Rightarrow> scanChannel r)"

definition Channel_Update :: "io \<Rightarrow> time \<Rightarrow> string \<Rightarrow> string \<Rightarrow> string \<Rightarrow> string list option \<Rightarrow> bool \<Rightarrow> string \<Rightarrow> ChannelQueryOption list
    \<Rightarrow> channel_table \<Rightarrow> (notify_error + NotificationChannel) \<times> channel_table" where
  "Channel_Update io dbnow i name typ events enabled encryptedTarget opts t =
    (let f = newChannelFilter opts;
         sel = by_id f i [VText name, VText typ, VNull, VBool enabled, VText encryptedTarget];
         upd = (\<lambda>r. r\<lparr>ch_Name := name, ch_Type := typ, ch_Events := marshalEvents events, ch_Enabled := enabled,
                 ch_EncryptedTarget := (if encryptedTarget \<noteq> [] then encryptedTarget else ch_EncryptedTarget r), ch_UpdatedAt := dbnow\<rparr>) in
     if io 0 \<or> \<not> filter_ok f t then (Inl driver_error, t)
     else let t' = t\<lparr>ct_rows := map (\<lambda>r. if sel r then upd r else r) (ct_rows t)\<rparr> in
       (case filter sel (ct_rows t) of
          [] \<Rightarrow> (Inl (Store (ErrNotFound ''notification channel by id'')), t')
        | r # _ \<Rightarrow> (case scanChannel (upd r) of Inl e \<Rightarrow> (Inl e, t') | Inr ch \<Rightarrow> (Inr (redact ch), t'))))"

definition Channel_Delete :: "io \<Rightarrow> string \<Rightarrow> ChannelQueryOption list \<Rightarrow> channel_table \<Rightarrow> (notify_error + unit) \<times> channel_table" where
  "Channel_Delete io i opts t =
    (let f = newChannelFilter opts; sel = by_id f i [] in
     if io 0 \<or> \<not> filter_ok f t then (Inl driver_error, t)
     else (requireChannelRow (io 1) (length (filter sel (ct_rows t))), t\<lparr>ct_rows := filter (\<lambda>r. \<not> sel r) (ct_rows t)\<rparr>))"

text \<open>\<open>jsonb_array_length\<close> of anything but an array fails the statement.\<close>

definition subscribed :: "string \<Rightarrow> ChannelRow \<Rightarrow> bool" where
  "subscribed eventType r = (case ch_Events r of EArray es \<Rightarrow> es = [] \<or> eventType \<in> set es | _ \<Rightarrow> False)"

definition not_array :: "ChannelRow \<Rightarrow> bool" where
  "not_array r = (case ch_Events r of EArray es \<Rightarrow> False | _ \<Rightarrow> True)"

definition ListEnabledForEvent :: "io \<Rightarrow> string \<Rightarrow> ChannelQueryOption list \<Rightarrow> channel_table \<Rightarrow> notify_error + NotificationChannel list" where
  "ListEnabledForEvent io eventType opts t =
    (let f = newChannelFilter opts in
     if io 0 \<or> \<not> filter_ok f t \<or> list_ex (\<lambda>r. ch_Enabled r \<and> not_array r) (ct_rows t) then Inl driver_error
     else case scanChannels (filter (\<lambda>r. ch_Enabled r \<and> subscribed eventType r \<and> where_holds (splice f (Some P_true) [VText eventType]) r) (ct_rows t)) of
       Inl e \<Rightarrow> Inl e
     | Inr cs \<Rightarrow> if io 1 then Inl driver_error else Inr cs)"

definition RecordDelivery :: "io \<Rightarrow> time \<Rightarrow> string \<Rightarrow> string \<Rightarrow> string \<Rightarrow> time \<Rightarrow> ChannelQueryOption list
    \<Rightarrow> channel_table \<Rightarrow> (notify_error + unit) \<times> channel_table" where
  "RecordDelivery io dbnow i status errMsg sentAt opts t =
    (let f = newChannelFilter opts; sel = by_id f i [VText status, VText errMsg, VTime sentAt] in
     if io 0 \<or> \<not> filter_ok f t then (Inl driver_error, t)
     else (requireChannelRow (io 1) (length (filter sel (ct_rows t))),
           t\<lparr>ct_rows := map (\<lambda>r. if sel r then r\<lparr>ch_LastStatus := Some status, ch_LastError := (if errMsg = [] then None else Some errMsg),
               ch_LastSentAt := Some sentAt, ch_UpdatedAt := dbnow\<rparr> else r) (ct_rows t)\<rparr>))"

subsection \<open>What a filtered statement selects\<close>

definition in_scope :: "ChannelQueryOption list \<Rightarrow> ChannelRow \<Rightarrow> bool" where
  "in_scope opts r \<longleftrightarrow>
     (cf_scoped (newChannelFilter opts) \<longrightarrow> permits (cf_scope (newChannelFilter opts)) (ch_OrganizationID r))"

lemma splice_and:
  "splice f (Some q) args =
     (if cf_scoped f then map_prod Some id (andScope q (cf_scope f) ChannelOrganizationColumn args) else (Some q, args))"
  by (simp add: splice_def andScope_def Let_def split_beta)

lemma where_splice:
  assumes "max_param q \<le> length args"
  shows "where_holds (splice f (Some q) args) r \<longleftrightarrow>
    holds [] args (channel_cols r) q \<and> (cf_scoped f \<longrightarrow> permits (cf_scope f) (ch_OrganizationID r))"
  using channels.selected_iff [OF assms, of "[]" "cf_scope f" r]
  by (simp add: splice_and where_holds_def selected_def)

lemma where_splice_none:
  "where_holds (splice f None []) r \<longleftrightarrow> (cf_scoped f \<longrightarrow> permits (cf_scope f) (ch_OrganizationID r))"
  using OrgScope_SQL_holds [of 1 "[]" "[]" "cf_scope f" ChannelOrganizationColumn "channel_cols r"] channels.owner_column [of r]
  by (auto simp: splice_def where_holds_def permits_def Let_def split_beta split: option.splits)

lemma by_id_iff: "by_id (newChannelFilter opts) i args r \<longleftrightarrow> ch_ID r = i \<and> in_scope opts r"
  by (auto simp: by_id_def where_splice in_scope_def channel_cols_def param_def)

lemma update_keeps_others:
  "(\<And>r. P r \<Longrightarrow> Q r) \<Longrightarrow> (\<And>r. Q (u r) = Q r) \<Longrightarrow>
     filter (\<lambda>r. \<not> Q r) (map (\<lambda>r. if P r then u r else r) rows) = filter (\<lambda>r. \<not> Q r) rows"
  by (induction rows) auto

lemma if_keeps: "(\<not> b \<Longrightarrow> F ys = F xs) \<Longrightarrow> F (if b then xs else ys) = F xs"
  by simp

lemma delete_keeps_others:
  "(\<And>r. P r \<Longrightarrow> Q r) \<Longrightarrow> filter (\<lambda>r. \<not> Q r) (filter (\<lambda>r. \<not> P r) rows) = filter (\<lambda>r. \<not> Q r) rows"
  by (induction rows) auto

lemma in_scope_owner: "ch_OrganizationID r = ch_OrganizationID r' \<Longrightarrow> in_scope opts r = in_scope opts r'"
  by (simp add: in_scope_def)

lemma Channel_Update_rows:
  "ct_rows (snd (Channel_Update io now i nm ty es en tg opts t)) =
    (if io 0 \<or> \<not> filter_ok (newChannelFilter opts) t then ct_rows t
     else map (\<lambda>r. if ch_ID r = i \<and> in_scope opts r
       then r\<lparr>ch_Name := nm, ch_Type := ty, ch_Events := marshalEvents es, ch_Enabled := en,
              ch_EncryptedTarget := (if tg \<noteq> [] then tg else ch_EncryptedTarget r), ch_UpdatedAt := now\<rparr> else r) (ct_rows t))"
  by (simp add: Channel_Update_def Let_def by_id_iff split: list.splits sum.splits)

lemma RecordDelivery_rows:
  "ct_rows (snd (RecordDelivery io now i st err at opts t)) =
    (if io 0 \<or> \<not> filter_ok (newChannelFilter opts) t then ct_rows t
     else map (\<lambda>r. if ch_ID r = i \<and> in_scope opts r
       then r\<lparr>ch_LastStatus := Some st, ch_LastError := (if err = [] then None else Some err), ch_LastSentAt := Some at, ch_UpdatedAt := now\<rparr>
       else r) (ct_rows t))"
  by (simp add: RecordDelivery_def Let_def by_id_iff)

lemma Channel_Delete_rows:
  "ct_rows (snd (Channel_Delete io i opts t)) =
    (if io 0 \<or> \<not> filter_ok (newChannelFilter opts) t then ct_rows t
     else filter (\<lambda>r. \<not> (ch_ID r = i \<and> in_scope opts r)) (ct_rows t))"
  by (simp add: Channel_Delete_def Let_def by_id_iff)

lemma scanChannel_fields:
  "scanChannel r = Inr c \<Longrightarrow> nc_ID c = ch_ID r \<and> nc_EncryptedTarget c = ch_EncryptedTarget r
     \<and> nc_HasTarget c = (ch_EncryptedTarget r \<noteq> []) \<and> nc_Enabled c = ch_Enabled r \<and> nc_Type c = ch_Type r"
  by (auto simp: scanChannel_def split: option.splits)

lemma scanChannels_in:
  "scanChannels rs = Inr cs \<Longrightarrow> c \<in> set cs \<Longrightarrow> \<exists>r\<in>set rs. scanChannel r = Inr c"
  by (induction rs arbitrary: cs) (auto split: sum.splits)

lemma scanChannels_map:
  "(\<And>r. r \<in> set rs \<Longrightarrow> scanChannel r = Inr (f r)) \<Longrightarrow> scanChannels rs = Inr (map f rs)"
  by (induction rs) auto


text \<open>
  C18: the tenant filter holds on every statement of the channel repository. Whatever the options, \<open>List\<close>, \<open>GetByID\<close> and
  \<open>ListEnabledForEvent\<close> return only channels of rows inside the scope, \<open>Update\<close>, \<open>Delete\<close> and \<open>RecordDelivery\<close> leave every row
  outside it exactly as it was, and \<open>Delete\<close> of another tenant's channel is answered as not found.
\<close>

theorem channels_stay_in_scope:
  "(\<forall>cs. Channel_List io opts t = Inr cs \<longrightarrow> (\<forall>c\<in>set cs. \<exists>r\<in>set (ct_rows t). nc_ID c = ch_ID r \<and> in_scope opts r))
   \<and> (\<forall>cs. ListEnabledForEvent io ev opts t = Inr cs \<longrightarrow> (\<forall>c\<in>set cs. \<exists>r\<in>set (ct_rows t). nc_ID c = ch_ID r \<and> in_scope opts r))
   \<and> (\<forall>c. Channel_GetByID io i opts t = Inr c \<longrightarrow> (\<exists>r\<in>set (ct_rows t). nc_ID c = i \<and> ch_ID r = i \<and> in_scope opts r))
   \<and> filter (\<lambda>r. \<not> in_scope opts r) (ct_rows (snd (Channel_Update io now i nm ty es en tg opts t))) = filter (\<lambda>r. \<not> in_scope opts r) (ct_rows t)
   \<and> filter (\<lambda>r. \<not> in_scope opts r) (ct_rows (snd (Channel_Delete io i opts t))) = filter (\<lambda>r. \<not> in_scope opts r) (ct_rows t)
   \<and> filter (\<lambda>r. \<not> in_scope opts r) (ct_rows (snd (RecordDelivery io now i st err at opts t))) = filter (\<lambda>r. \<not> in_scope opts r) (ct_rows t)
   \<and> (\<not> io 0 \<and> \<not> io 1 \<and> filter_ok (newChannelFilter opts) t \<and> (\<forall>r\<in>set (ct_rows t). ch_ID r = i \<longrightarrow> \<not> in_scope opts r)
        \<longrightarrow> fst (Channel_Delete io i opts t) = Inl (Store (ErrNotFound ''notification channel by id'')))"
proof (intro conjI)
  show "\<forall>cs. Channel_List io opts t = Inr cs \<longrightarrow> (\<forall>c\<in>set cs. \<exists>r\<in>set (ct_rows t). nc_ID c = ch_ID r \<and> in_scope opts r)"
    by (fastforce simp: Channel_List_def Let_def redact_def where_splice_none in_scope_def
        split: if_splits sum.splits dest: scanChannels_in scanChannel_fields)
  show "\<forall>cs. ListEnabledForEvent io ev opts t = Inr cs \<longrightarrow> (\<forall>c\<in>set cs. \<exists>r\<in>set (ct_rows t). nc_ID c = ch_ID r \<and> in_scope opts r)"
    by (fastforce simp: ListEnabledForEvent_def Let_def where_splice in_scope_def
        split: if_splits sum.splits dest: scanChannels_in scanChannel_fields)
  show "\<forall>c. Channel_GetByID io i opts t = Inr c \<longrightarrow> (\<exists>r\<in>set (ct_rows t). nc_ID c = i \<and> ch_ID r = i \<and> in_scope opts r)"
    by (auto simp: Channel_GetByID_def Let_def by_id_iff filter_eq_Cons_iff
        split: if_splits sum.splits list.splits dest!: scanChannel_fields) fastforce?
  show "filter (\<lambda>r. \<not> in_scope opts r) (ct_rows (snd (Channel_Update io now i nm ty es en tg opts t))) = filter (\<lambda>r. \<not> in_scope opts r) (ct_rows t)"
    unfolding Channel_Update_rows by (rule if_keeps, rule update_keeps_others, blast, rule in_scope_owner, simp)
  show "filter (\<lambda>r. \<not> in_scope opts r) (ct_rows (snd (Channel_Delete io i opts t))) = filter (\<lambda>r. \<not> in_scope opts r) (ct_rows t)"
    unfolding Channel_Delete_rows using delete_keeps_others [of "\<lambda>r. ch_ID r = i \<and> in_scope opts r" "in_scope opts"] by simp
  show "filter (\<lambda>r. \<not> in_scope opts r) (ct_rows (snd (RecordDelivery io now i st err at opts t))) = filter (\<lambda>r. \<not> in_scope opts r) (ct_rows t)"
    unfolding RecordDelivery_rows by (rule if_keeps, rule update_keeps_others, blast, rule in_scope_owner, simp)
  show "\<not> io 0 \<and> \<not> io 1 \<and> filter_ok (newChannelFilter opts) t \<and> (\<forall>r\<in>set (ct_rows t). ch_ID r = i \<longrightarrow> \<not> in_scope opts r)
      \<longrightarrow> fst (Channel_Delete io i opts t) = Inl (Store (ErrNotFound ''notification channel by id''))"
    by (auto simp: Channel_Delete_def Let_def by_id_iff requireChannelRow_def)
qed


definition demo_scope :: "ChannelQueryOption list" where
  "demo_scope = [None, Some (WithOrgScope (OrgScopeOrganizations [''o1'']))]"

definition demo_channel :: "string \<Rightarrow> string option \<Rightarrow> ChannelRow" where
  "demo_channel i ow = \<lparr>ch_ID = i, ch_Name = i, ch_Type = ''slack'', ch_EncryptedTarget = ''sealed'', ch_Events = EArray [], ch_Enabled = True,
     ch_LastStatus = None, ch_LastError = None, ch_LastSentAt = None, ch_CreatedAt = 1, ch_UpdatedAt = 1, ch_OrganizationID = ow\<rparr>"

definition demo_channels :: channel_table where
  "demo_channels = \<lparr>ct_rows = [demo_channel ''c1'' (Some ''o1''), demo_channel ''c2'' (Some ''o2''), demo_channel ''c3'' None],
     ct_hasOrg = True, ct_defaultOrg = None\<rparr>"

theorem channels_stay_in_scope_witness:
  "fst (Channel_Delete (\<lambda>_. False) ''c2'' demo_scope demo_channels) = Inl (Store (ErrNotFound ''notification channel by id''))
   \<and> map_sum id (map nc_ID) (Channel_List (\<lambda>_. False) demo_scope demo_channels) = Inr [''c1'']"
proof -
  have not_here: "\<forall>r\<in>set (ct_rows demo_channels). ch_ID r = ''c2'' \<longrightarrow> \<not> in_scope demo_scope r"
    and fok: "filter_ok (newChannelFilter demo_scope) demo_channels"
    by code_simp+
  have "map_sum id (map nc_ID) (Channel_List (\<lambda>_. False) demo_scope demo_channels) = Inr [''c1'']" by code_simp
  then show ?thesis
    using channels_stay_in_scope [of "\<lambda>_. False" demo_scope demo_channels "[]" "''c2''" 0 "[]" "[]" None True "[]" "[]" "[]" 0] not_here fok
    by blast
qed

subsection \<open>The events column\<close>

text \<open>Every row's \<open>events\<close> is an array: what the statement of \<open>ListEnabledForEvent\<close> needs of every enabled row.\<close>

definition events_arrays :: "channel_table \<Rightarrow> bool" where
  "events_arrays t \<longleftrightarrow> list_all (\<lambda>r. \<not> not_array r) (ct_rows t)"

lemma not_array_marshal [simp]: "ch_Events r = marshalEvents es \<Longrightarrow> \<not> not_array r"
  by (simp add: not_array_def marshalEvents_def)

lemma not_array_cong: "ch_Events r = ch_Events r' \<Longrightarrow> not_array r = not_array r'"
  by (simp add: not_array_def)

lemma Channel_Create_rows:
  "ct_rows (snd (Channel_Create io newID now ch opts t)) = ct_rows t
   \<or> (\<exists>r. ct_rows (snd (Channel_Create io newID now ch opts t)) = ct_rows t @ [r] \<and> ch_Events r = marshalEvents (nc_Events ch)
        \<and> ch_ID r = newID \<and> newID \<notin> ch_ID ` set (ct_rows t))"
  by (auto simp: Channel_Create_def Let_def split: sum.splits)

definition channel_of :: "ChannelRow \<Rightarrow> NotificationChannel" where
  "channel_of r = \<lparr>nc_ID = ch_ID r, nc_Name = ch_Name r, nc_Type = ch_Type r, nc_EncryptedTarget = ch_EncryptedTarget r,
     nc_HasTarget = (ch_EncryptedTarget r \<noteq> []), nc_Events = (case ch_Events r of EArray es \<Rightarrow> Some es | _ \<Rightarrow> Some []), nc_Enabled = ch_Enabled r,
     nc_LastStatus = ch_LastStatus r, nc_LastError = ch_LastError r, nc_LastSentAt = ch_LastSentAt r,
     nc_CreatedAt = ch_CreatedAt r, nc_UpdatedAt = ch_UpdatedAt r\<rparr>"

lemma scanChannel_array: "\<not> not_array r \<Longrightarrow> scanChannel r = Inr (channel_of r)"
  by (simp add: not_array_def scanChannel_def channel_of_def split: events_json.splits)

lemma fanout_list:
  assumes "events_arrays t" "\<not> io 0" "\<not> io 1" "filter_ok (newChannelFilter opts) t"
  shows "ListEnabledForEvent io ev opts t = Inr (map channel_of (filter (\<lambda>r. ch_Enabled r \<and> subscribed ev r \<and> in_scope opts r) (ct_rows t)))"
proof -
  have arr: "\<And>r. r \<in> set (ct_rows t) \<Longrightarrow> \<not> not_array r" using assms(1) by (auto simp: events_arrays_def list_all_iff)
  then have "\<not> list_ex (\<lambda>r. ch_Enabled r \<and> not_array r) (ct_rows t)" by (auto simp: list_ex_iff)
  then show ?thesis
    using assms scanChannels_map [of "filter (\<lambda>r. ch_Enabled r \<and> subscribed ev r \<and> in_scope opts r) (ct_rows t)" channel_of] arr scanChannel_array
    by (simp add: ListEnabledForEvent_def Let_def where_splice in_scope_def)
qed

text \<open>
  Events are always stored as an array, and so an alert reaches exactly the channels that asked for it. Every write of the
  repository keeps the invariant (a nil event list is stored as the empty array, never as null), and on a table with the
  invariant \<open>ListEnabledForEvent\<close>, when the database answers, returns exactly the enabled channels inside the scope that
  subscribe to the event or to everything: no row can fail the statement for the others.
\<close>

theorem events_invariant_and_fanout:
  assumes "events_arrays t"
  shows "events_arrays (snd (Channel_Create io newID now ch wopts t))
   \<and> events_arrays (snd (Channel_Update io now i nm ty es en tg opts t))
   \<and> events_arrays (snd (Channel_Delete io i opts t))
   \<and> events_arrays (snd (RecordDelivery io now i st err at opts t))
   \<and> (\<not> io 0 \<and> \<not> io 1 \<and> filter_ok (newChannelFilter opts) t \<longrightarrow>
        ListEnabledForEvent io ev opts t = Inr (map channel_of (filter (\<lambda>r. ch_Enabled r \<and> subscribed ev r \<and> in_scope opts r) (ct_rows t))))"
proof (intro conjI impI)
  have arr: "\<And>r. r \<in> set (ct_rows t) \<Longrightarrow> \<not> not_array r" using assms by (auto simp: events_arrays_def list_all_iff)
  show "events_arrays (snd (Channel_Create io newID now ch wopts t))"
    using Channel_Create_rows [of io newID now ch wopts t] arr by (auto simp: events_arrays_def list_all_iff)
  show "events_arrays (snd (Channel_Update io now i nm ty es en tg opts t))"
    unfolding events_arrays_def Channel_Update_rows using arr by (auto simp: list_all_iff)
  show "events_arrays (snd (Channel_Delete io i opts t))"
    unfolding events_arrays_def Channel_Delete_rows using arr by (auto simp: list_all_iff)
  show "events_arrays (snd (RecordDelivery io now i st err at opts t))"
    unfolding events_arrays_def RecordDelivery_rows using arr by (auto simp: list_all_iff not_array_def)
  assume ok: "\<not> io 0 \<and> \<not> io 1 \<and> filter_ok (newChannelFilter opts) t"
  then show "ListEnabledForEvent io ev opts t = Inr (map channel_of (filter (\<lambda>r. ch_Enabled r \<and> subscribed ev r \<and> in_scope opts r) (ct_rows t)))"
    using fanout_list [OF assms] by blast
qed

theorem events_invariant_and_fanout_witness:
  "events_arrays demo_channels
   \<and> ListEnabledForEvent (\<lambda>_. False) ''drift'' demo_scope demo_channels
     = Inr (map channel_of (filter (\<lambda>r. ch_Enabled r \<and> subscribed ''drift'' r \<and> in_scope demo_scope r) (ct_rows demo_channels)))
   \<and> length (filter (\<lambda>r. ch_Enabled r \<and> subscribed ''drift'' r \<and> in_scope demo_scope r) (ct_rows demo_channels)) = 1"
proof -
  have e: "events_arrays demo_channels" and fok: "filter_ok (newChannelFilter demo_scope) demo_channels"
    and l: "length (filter (\<lambda>r. ch_Enabled r \<and> subscribed ''drift'' r \<and> in_scope demo_scope r) (ct_rows demo_channels)) = 1"
    by code_simp+
  show ?thesis
    using events_invariant_and_fanout [OF e, of "\<lambda>_. False" "[]" 0 "channel_of (demo_channel [] None)" "[]" "[]" "[]" "[]" None True "[]" demo_scope "[]" "[]" 0 "''drift''"]
      e fok l by blast
qed

subsection \<open>Secrets\<close>

text \<open>
  What an administrator is shown never carries a target, only whether there is one; an update that names no target keeps the
  one stored; and naming a blank owner is refused before any row is written.
\<close>

theorem targets_not_exposed:
  "(Channel_List io opts t = Inr cs \<longrightarrow> (\<forall>c\<in>set cs. nc_EncryptedTarget c = [] \<and> (\<exists>r\<in>set (ct_rows t). ch_ID r = nc_ID c \<and> nc_HasTarget c = (ch_EncryptedTarget r \<noteq> []))))
   \<and> (fst (Channel_Create io newID now ch wopts t) = Inr c \<longrightarrow> nc_EncryptedTarget c = [] \<and> nc_HasTarget c = (nc_EncryptedTarget ch \<noteq> []))
   \<and> (fst (Channel_Update io now i nm ty es en tg opts t) = Inr c \<longrightarrow> nc_EncryptedTarget c = [])"
proof (intro conjI)
  show "Channel_List io opts t = Inr cs \<longrightarrow> (\<forall>c\<in>set cs. nc_EncryptedTarget c = [] \<and> (\<exists>r\<in>set (ct_rows t). ch_ID r = nc_ID c \<and> nc_HasTarget c = (ch_EncryptedTarget r \<noteq> [])))"
    by (fastforce simp: Channel_List_def Let_def redact_def split: if_splits sum.splits dest: scanChannels_in scanChannel_fields)
  show "fst (Channel_Create io newID now ch wopts t) = Inr c \<longrightarrow> nc_EncryptedTarget c = [] \<and> nc_HasTarget c = (nc_EncryptedTarget ch \<noteq> [])"
    by (auto simp: Channel_Create_def Let_def redact_def split: if_splits sum.splits dest!: scanChannel_fields)
  show "fst (Channel_Update io now i nm ty es en tg opts t) = Inr c \<longrightarrow> nc_EncryptedTarget c = []"
    by (auto simp: Channel_Update_def Let_def redact_def split: if_splits sum.splits list.splits)
qed

theorem blank_owner_refused:
  assumes "TrimSpace org = []"
  shows "Channel_Create io newID now ch [Some (WithOwningOrganization org)] t = (Inl ErrEmptyOwningOrganization, t)"
  using assms by (simp add: Channel_Create_def newChannelWrite_def WithOwningOrganization_def)

end
