(* ===== verification/Notify_Message.thy ===== *)
theory Notify_Message
  imports Net_IP
begin

text \<open>
  Package \<open>notify\<close>, the message functions of \<open>notifier.go\<close>: \<open>sanitizeHeader\<close>, \<open>BuildMessage\<close> and \<open>ParseRecipients\<close>. Whether
  \<open>net/mail\<close> accepts an address is the argument \<open>validAddress\<close>.
\<close>

abbreviation (input) CR :: char where "CR \<equiv> CHR 0x0D"
abbreviation (input) LF :: char where "LF \<equiv> CHR 0x0A"

definition crlf :: string where "crlf = [CR, LF]"

definition sanitizeHeader :: "string \<Rightarrow> string" where
  "sanitizeHeader s = filter (\<lambda>c. c \<noteq> CR \<and> c \<noteq> LF) s"

definition BuildMessage :: "string \<Rightarrow> string list \<Rightarrow> string \<Rightarrow> string \<Rightarrow> string" where
  "BuildMessage sender to subject body =
    (let recipients = map sanitizeHeader to;
         headers = ''From: '' @ sanitizeHeader sender @ crlf @ ''To: '' @ Join '', '' recipients @ crlf
                   @ ''Subject: '' @ sanitizeHeader subject @ crlf @ ''Content-Type: text/plain; charset=utf-8'' @ crlf @ crlf
     in headers @ body @ crlf)"

datatype recipient_error = InvalidAddress string | NoRecipients

fun recipientLoop :: "(string \<Rightarrow> bool) \<Rightarrow> string list \<Rightarrow> string list \<Rightarrow> recipient_error + string list" where
  "recipientLoop validAddress [] out = Inr out"
| "recipientLoop validAddress (p # parts) out =
    (let addr = TrimSpace p in
     if addr = [] then recipientLoop validAddress parts out
     else if \<not> validAddress addr then Inl (InvalidAddress addr)
     else recipientLoop validAddress parts (out @ [addr]))"

definition ParseRecipients :: "(string \<Rightarrow> bool) \<Rightarrow> string \<Rightarrow> recipient_error + string list" where
  "ParseRecipients validAddress lst =
    (case recipientLoop validAddress (Split CHR '','' lst) [] of
       Inl e \<Rightarrow> Inl e
     | Inr out \<Rightarrow> if length out = 0 then Inl NoRecipients else Inr out)"

subsection \<open>Lines\<close>

lemma sanitized [simp]: "CR \<notin> set (sanitizeHeader s)" "LF \<notin> set (sanitizeHeader s)"
  by (simp_all add: sanitizeHeader_def)

lemma sanitizeHeader_id: "CR \<notin> set s \<Longrightarrow> LF \<notin> set s \<Longrightarrow> sanitizeHeader s = s"
  by (auto simp: sanitizeHeader_def intro: filter_all_id)

lemma Split_line: "LF \<notin> set w \<Longrightarrow> Split LF (w @ crlf @ rest) = (w @ [CR]) # Split LF rest"
  using Split_app [of LF "w @ [CR]" rest] by (simp add: crlf_def)

lemma Split_header:
  assumes "LF \<notin> set a" "LF \<notin> set b" "LF \<notin> set c" "LF \<notin> set e"
  shows "Split LF (a @ crlf @ b @ crlf @ c @ crlf @ e @ crlf @ [] @ crlf @ rest) = [a @ [CR], b @ [CR], c @ [CR], e @ [CR], [CR]] @ Split LF rest"
  using assms by (simp add: Split_line Split_line [of "[]", simplified])

lemma Join_no_break: "c \<noteq> CHR '','' \<Longrightarrow> c \<noteq> CHR '' '' \<Longrightarrow> (\<And>w. w \<in> set ws \<Longrightarrow> c \<notin> set w) \<Longrightarrow> c \<notin> set (Join '', '' ws)"
  by (auto dest: set_Join)

text \<open>
  No field can inject a header. Whatever the sender, recipients, subject and body, the lines of the message are exactly one From, one
  To, one Subject and one Content-Type line, the blank line that ends the header block, and then the body's own lines: the
  three values carry no carriage return or line feed of their own, and what they say is the input with those removed.
\<close>

theorem BuildMessage_lines:
  "Split LF (BuildMessage sender to subject body) =
     [''From: '' @ sanitizeHeader sender @ [CR], ''To: '' @ Join '', '' (map sanitizeHeader to) @ [CR],
      ''Subject: '' @ sanitizeHeader subject @ [CR], ''Content-Type: text/plain; charset=utf-8'' @ [CR], [CR]]
     @ Split LF (body @ crlf)
   \<and> CR \<notin> set (sanitizeHeader sender @ Join '', '' (map sanitizeHeader to) @ sanitizeHeader subject)
   \<and> LF \<notin> set (sanitizeHeader sender @ Join '', '' (map sanitizeHeader to) @ sanitizeHeader subject)"
proof -
  have to: "CR \<notin> set (Join '', '' (map sanitizeHeader to))" "LF \<notin> set (Join '', '' (map sanitizeHeader to))"
    by (rule Join_no_break; auto)+
  have "Split LF (BuildMessage sender to subject body) =
      Split LF ((''From: '' @ sanitizeHeader sender) @ crlf @ (''To: '' @ Join '', '' (map sanitizeHeader to)) @ crlf
        @ (''Subject: '' @ sanitizeHeader subject) @ crlf @ ''Content-Type: text/plain; charset=utf-8'' @ crlf @ [] @ crlf @ (body @ crlf))"
    by (simp add: BuildMessage_def Let_def)
  also have "\<dots> = [''From: '' @ sanitizeHeader sender @ [CR], ''To: '' @ Join '', '' (map sanitizeHeader to) @ [CR],
      ''Subject: '' @ sanitizeHeader subject @ [CR], ''Content-Type: text/plain; charset=utf-8'' @ [CR], [CR]]
     @ Split LF (body @ crlf)"
    using Split_header [of "''From: '' @ sanitizeHeader sender" "''To: '' @ Join '', '' (map sanitizeHeader to)"
      "''Subject: '' @ sanitizeHeader subject" "''Content-Type: text/plain; charset=utf-8''" "body @ crlf"] to by simp
  finally show ?thesis using to by simp
qed

subsection \<open>Recipients\<close>

lemma recipientLoop_Inr:
  "recipientLoop va parts out = Inr res \<longleftrightarrow>
     res = out @ filter (\<lambda>a. a \<noteq> []) (map TrimSpace parts) \<and> (\<forall>a \<in> set (map TrimSpace parts). a \<noteq> [] \<longrightarrow> va a)"
  by (induction va parts out rule: recipientLoop.induct) (auto simp: Let_def)

lemma ParseRecipients_Inr:
  "ParseRecipients va lst = Inr res \<longleftrightarrow>
     res = filter (\<lambda>a. a \<noteq> []) (map TrimSpace (Split CHR '','' lst)) \<and> res \<noteq> [] \<and> (\<forall>a \<in> set res. va a)"
  using recipientLoop_Inr [of va "Split CHR '','' lst" "[]"]
  by (cases "recipientLoop va (Split CHR '','' lst) []") (auto simp: ParseRecipients_def)

text \<open>
  Recipient lists round trip. Joining accepted, trimmed, comma-free addresses and parsing them again gives the same list, in order;
  and whatever the text, a parsed list is not empty and holds only accepted, trimmed, comma-free addresses.
\<close>

theorem recipients_round_trip:
  "(rs \<noteq> [] \<and> (\<forall>a \<in> set rs. a \<noteq> [] \<and> TrimSpace a = a \<and> CHR '','' \<notin> set a \<and> va a) \<longrightarrow> ParseRecipients va (Join '','' rs) = Inr rs)
   \<and> (\<forall>res. ParseRecipients va lst = Inr res \<longrightarrow>
        res \<noteq> [] \<and> (\<forall>a \<in> set res. a \<noteq> [] \<and> TrimSpace a = a \<and> CHR '','' \<notin> set a \<and> va a))"
proof (intro conjI impI allI)
  assume rs: "rs \<noteq> [] \<and> (\<forall>a \<in> set rs. a \<noteq> [] \<and> TrimSpace a = a \<and> CHR '','' \<notin> set a \<and> va a)"
  then have "Split CHR '','' (Join '','' rs) = rs" by (intro Split_Join) auto
  moreover have "map TrimSpace rs = rs" using rs by (intro map_idI) auto
  moreover have "filter (\<lambda>a. a \<noteq> []) rs = rs" using rs by (intro filter_all_id) auto
  ultimately show "ParseRecipients va (Join '','' rs) = Inr rs" using rs by (simp add: ParseRecipients_Inr)
next
  fix res
  assume r: "ParseRecipients va lst = Inr res"
  then show "res \<noteq> []" unfolding ParseRecipients_Inr by blast
  have "set (TrimSpace s) \<subseteq> set s" for s
    unfolding TrimSpace_def by (auto dest!: set_dropWhileD)
  then show "\<forall>a \<in> set res. a \<noteq> [] \<and> TrimSpace a = a \<and> CHR '','' \<notin> set a \<and> va a"
    using r Split_no_sep [of _ "CHR '',''" lst] by (auto simp: ParseRecipients_Inr)
qed

theorem recipients_round_trip_witness:
  "ParseRecipients (\<lambda>a. CHR ''@'' \<in> set a) (Join '','' [''a@x.io'', ''b@x.io'']) = Inr [''a@x.io'', ''b@x.io'']"
  using recipients_round_trip [of "[''a@x.io'', ''b@x.io'']" "\<lambda>a. CHR ''@'' \<in> set a" "[]"] by (simp add: TrimSpace_def is_space_def)

end
