(* ===== verification/Token_Cipher.thy ===== *)
theory Token_Cipher
  imports Base64
begin

text \<open>
  \<open>crypto/tokencipher.go\<close>: secrets sealed with AES-256-GCM before they are stored, with an optional previous key
  for rotation and an optional context bound as additional authenticated data.

  The sealing primitive is an argument: \<open>aead_Seal k n p a\<close> and \<open>aead_Open k n c a\<close> for key, nonce, plaintext or ciphertext
  and additional data. Its documented behaviour is \<open>authenticated\<close>: what was sealed opens to the plaintext under the
  same key, nonce and data, and nothing else opens. Random bytes are an argument, \<open>None\<close> a failed
  read. Key derivation (PBKDF2) is an argument. A nil \<open>additionalData\<close> is the empty list.
\<close>

datatype cipher_error =
    ErrKeyLengthInvalid
  | ErrCiphertextCorrupted
  | ErrDecryptionFailed
  | ErrSaltTooShort
  | ErrIterationsTooLow int
  | ErrBlockCipher
  | ErrRandom

record aead =
  aead_Seal :: "byte list \<Rightarrow> byte list \<Rightarrow> byte list \<Rightarrow> byte list \<Rightarrow> byte list"
  aead_Open :: "byte list \<Rightarrow> byte list \<Rightarrow> byte list \<Rightarrow> byte list \<Rightarrow> byte list option"

definition authenticated :: "aead \<Rightarrow> bool" where
  "authenticated A \<longleftrightarrow>
     (\<forall>k n p a. aead_Open A k n (aead_Seal A k n p a) a = Some p)
   \<and> (\<forall>k n c a p. length k = 32 \<longrightarrow> aead_Open A k n c a = Some p \<longrightarrow> c = aead_Seal A k n p a)
   \<and> (\<forall>k k' n p p' a a'. length k = 32 \<longrightarrow> length k' = 32 \<longrightarrow> aead_Seal A k n p a = aead_Seal A k' n p' a'
        \<longrightarrow> k = k' \<and> p = p' \<and> a = a')"

record TokenCipher =
  masterKey :: "byte list"
  previousKey :: "byte list option"

definition MinPBKDF2Iterations :: int where "MinPBKDF2Iterations = 600000"
definition DefaultPBKDF2Iterations :: int where "DefaultPBKDF2Iterations = 600000"
definition nonceSize :: nat where "nonceSize = 12"

subsection \<open>Construction\<close>

definition NewTokenCipher :: "byte list \<Rightarrow> cipher_error + TokenCipher" where
  "NewTokenCipher key = (if length key \<noteq> 32 then Inl ErrKeyLengthInvalid else Inr \<lparr>masterKey = key, previousKey = None\<rparr>)"

definition NewTokenCipherWithPrevious :: "byte list \<Rightarrow> byte list \<Rightarrow> cipher_error + TokenCipher" where
  "NewTokenCipherWithPrevious currentKey prevKey =
    (if length currentKey \<noteq> 32 then Inl ErrKeyLengthInvalid
     else if length prevKey \<noteq> 0 \<and> length prevKey \<noteq> 32 then Inl ErrKeyLengthInvalid
     else Inr \<lparr>masterKey = currentKey, previousKey = (if length prevKey = 32 then Some prevKey else None)\<rparr>)"

definition DeriveTokenCipher :: "(string \<Rightarrow> byte list \<Rightarrow> int \<Rightarrow> byte list) \<Rightarrow> string \<Rightarrow> byte list \<Rightarrow> int \<Rightarrow> cipher_error + TokenCipher" where
  "DeriveTokenCipher pbkdf2 passphrase salt iterations0 =
    (if length salt < 16 then Inl ErrSaltTooShort
     else let iterations = (if iterations0 \<le> 0 then DefaultPBKDF2Iterations else iterations0) in
       if iterations < MinPBKDF2Iterations then Inl (ErrIterationsTooLow iterations)
       else NewTokenCipher (pbkdf2 passphrase salt iterations))"

definition GenerateKey :: "(nat \<Rightarrow> byte list option) \<Rightarrow> cipher_error + byte list" where
  "GenerateKey rand = (case rand 32 of None \<Rightarrow> Inl ErrRandom | Some k \<Rightarrow> Inr k)"

definition GenerateSalt :: "(nat \<Rightarrow> byte list option) \<Rightarrow> nat \<Rightarrow> cipher_error + byte list" where
  "GenerateSalt rand len = (case rand (if len < 16 then 16 else len) of None \<Rightarrow> Inl ErrRandom | Some s \<Rightarrow> Inr s)"

subsection \<open>Sealing\<close>

text \<open>\<open>aes.NewCipher\<close> accepts keys of 16, 24 and 32 bytes.\<close>

definition aes_key :: "byte list \<Rightarrow> bool" where
  "aes_key k \<longleftrightarrow> length k \<in> {16, 24, 32}"

definition seal :: "aead \<Rightarrow> byte list option \<Rightarrow> TokenCipher \<Rightarrow> string \<Rightarrow> byte list \<Rightarrow> cipher_error + string" where
  "seal A nonce tc plaintext additionalData =
    (if \<not> aes_key (masterKey tc) then Inl ErrBlockCipher
     else case nonce of None \<Rightarrow> Inl ErrRandom
     | Some n \<Rightarrow> Inr (URLEncode (n @ aead_Seal A (masterKey tc) n (bytes_of plaintext) additionalData)))"

definition Seal :: "aead \<Rightarrow> byte list option \<Rightarrow> TokenCipher \<Rightarrow> string \<Rightarrow> cipher_error + string" where
  "Seal A nonce tc plaintext = (if plaintext = [] then Inr [] else seal A nonce tc plaintext [])"

definition SealWithContext :: "aead \<Rightarrow> byte list option \<Rightarrow> TokenCipher \<Rightarrow> string \<Rightarrow> byte list \<Rightarrow> cipher_error + string" where
  "SealWithContext A nonce tc plaintext ctx = seal A nonce tc plaintext ctx"

subsection \<open>Opening\<close>

definition decryptWithKey :: "aead \<Rightarrow> byte list \<Rightarrow> byte list \<Rightarrow> byte list \<Rightarrow> cipher_error + string" where
  "decryptWithKey A key ciphertext additionalData =
    (if \<not> aes_key key then Inl ErrBlockCipher
     else if length ciphertext < nonceSize then Inl ErrCiphertextCorrupted
     else case aead_Open A key (take nonceSize ciphertext) (drop nonceSize ciphertext) additionalData of
       None \<Rightarrow> Inl ErrDecryptionFailed
     | Some p \<Rightarrow> Inr (string_of p))"

definition open_token :: "aead \<Rightarrow> TokenCipher \<Rightarrow> string \<Rightarrow> byte list \<Rightarrow> cipher_error + string" where
  "open_token A tc encodedCiphertext additionalData =
    (case DecodeString encodedCiphertext of None \<Rightarrow> Inl ErrCiphertextCorrupted
     | Some ciphertext \<Rightarrow>
       (case decryptWithKey A (masterKey tc) ciphertext additionalData of
          Inr p \<Rightarrow> Inr p
        | Inl e \<Rightarrow>
          (case previousKey tc of
             Some pk \<Rightarrow>
               if e = ErrDecryptionFailed then
                 (case decryptWithKey A pk ciphertext additionalData of Inr p \<Rightarrow> Inr p | Inl _ \<Rightarrow> Inl e)
               else Inl e
           | None \<Rightarrow> Inl e)))"

definition Open :: "aead \<Rightarrow> TokenCipher \<Rightarrow> string \<Rightarrow> cipher_error + string" where
  "Open A tc c = (if c = [] then Inr [] else open_token A tc c [])"

definition OpenWithContext :: "aead \<Rightarrow> TokenCipher \<Rightarrow> string \<Rightarrow> byte list \<Rightarrow> cipher_error + string" where
  "OpenWithContext A tc c ctx = (if c = [] then Inl ErrCiphertextCorrupted else open_token A tc c ctx)"

definition OpenWithContextOrLegacy :: "aead \<Rightarrow> TokenCipher \<Rightarrow> string \<Rightarrow> byte list \<Rightarrow> cipher_error + (string \<times> bool)" where
  "OpenWithContextOrLegacy A tc c ctx =
    (if c = [] then Inr ([], False)
     else case open_token A tc c ctx of
       Inr p \<Rightarrow> Inr (p, True)
     | Inl _ \<Rightarrow> (case open_token A tc c [] of Inl e \<Rightarrow> Inl e | Inr p \<Rightarrow> Inr (p, False)))"

definition ReSealWithContext :: "aead \<Rightarrow> byte list option \<Rightarrow> TokenCipher \<Rightarrow> string \<Rightarrow> byte list \<Rightarrow> cipher_error + string" where
  "ReSealWithContext A nonce tc c ctx =
    (case Open A tc c of Inl e \<Rightarrow> Inl e | Inr p \<Rightarrow> SealWithContext A nonce tc p ctx)"

subsection \<open>What opens\<close>

definition cipher_keys :: "TokenCipher \<Rightarrow> byte list list" where
  "cipher_keys tc = masterKey tc # (case previousKey tc of None \<Rightarrow> [] | Some k \<Rightarrow> [k])"

definition cipher_ok :: "TokenCipher \<Rightarrow> bool" where
  "cipher_ok tc \<longleftrightarrow> (\<forall>k \<in> set (cipher_keys tc). length k = 32)"

lemma constructors_ok:
  "NewTokenCipher k = Inr tc \<Longrightarrow> cipher_ok tc" "NewTokenCipherWithPrevious k p = Inr tc \<Longrightarrow> cipher_ok tc"
  "DeriveTokenCipher pbkdf2 pass salt it = Inr tc \<Longrightarrow> cipher_ok tc"
  by (auto simp: NewTokenCipher_def NewTokenCipherWithPrevious_def DeriveTokenCipher_def Let_def cipher_ok_def cipher_keys_def
      split: if_splits)

text \<open>The bytes behind a sealed text: written with a key, a nonce and additional data.\<close>

definition sealed_text :: "aead \<Rightarrow> byte list \<Rightarrow> byte list \<Rightarrow> string \<Rightarrow> byte list \<Rightarrow> string" where
  "sealed_text A k n p a = URLEncode (n @ aead_Seal A k n (bytes_of p) a)"

lemma seal_eq: "length (masterKey tc) = 32 \<Longrightarrow> seal A (Some n) tc p a = Inr (sealed_text A (masterKey tc) n p a)"
  by (simp add: seal_def aes_key_def sealed_text_def)

lemma authenticatedD:
  assumes "authenticated A"
  shows "aead_Open A k n (aead_Seal A k n p a) a = Some p"
    and "length k = 32 \<Longrightarrow> aead_Open A k n c a = Some p \<Longrightarrow> c = aead_Seal A k n p a"
    and "length k = 32 \<Longrightarrow> length k' = 32 \<Longrightarrow> aead_Seal A k n p a = aead_Seal A k' n p' a' \<Longrightarrow> k = k' \<and> p = p' \<and> a = a'"
  using assms unfolding authenticated_def by blast+

lemma decrypt_sealed:
  assumes "authenticated A" "length n = 12" "length k = 32" "length k' = 32"
  shows "decryptWithKey A k' (n @ aead_Seal A k n (bytes_of p) a) a' = (if k' = k \<and> a' = a then Inr p else Inl ErrDecryptionFailed)"
proof (cases "aead_Open A k' n (aead_Seal A k n (bytes_of p) a) a'")
  case None
  then have "\<not> (k' = k \<and> a' = a)" using authenticatedD(1) [OF assms(1)] by auto
  with None assms show ?thesis by (auto simp: decryptWithKey_def aes_key_def nonceSize_def)
next
  case (Some q)
  then have "aead_Seal A k n (bytes_of p) a = aead_Seal A k' n q a'" by (rule authenticatedD(2) [OF assms(1,4)])
  then have "k = k' \<and> bytes_of p = q \<and> a = a'" by (rule authenticatedD(3) [OF assms(1,3,4)])
  with Some assms show ?thesis by (auto simp: decryptWithKey_def aes_key_def nonceSize_def)
qed

lemma open_sealed:
  assumes "authenticated A" "length n = 12" "length k = 32" "cipher_ok tc"
  shows "open_token A tc (sealed_text A k n p a) a' = (if k \<in> set (cipher_keys tc) \<and> a' = a then Inr p else Inl ErrDecryptionFailed)"
proof -
  have "length (masterKey tc) = 32" "\<And>pk. previousKey tc = Some pk \<Longrightarrow> length pk = 32"
    using assms(4) by (simp_all add: cipher_ok_def cipher_keys_def)
  then show ?thesis
    using decrypt_sealed [OF assms(1-3)]
    by (auto simp: open_token_def sealed_text_def DecodeString_URLEncode cipher_keys_def split: option.split)
qed

lemma sealed_not_Nil: "length n = 12 \<Longrightarrow> sealed_text A k n p a \<noteq> []"
  by (auto simp: sealed_text_def)


subsection \<open>Rotation, binding and migration\<close>

text \<open>
  C33: A secret sealed before a key rotation opens under the rotated cipher that names the old key as previous, with the context
  it was sealed for; after a second rotation that drops the old key it opens no more.
\<close>

theorem rotation_keeps_secrets:
  assumes "authenticated A" "NewTokenCipher k1 = Inr tc1" "length n = 12"
    and "SealWithContext A (Some n) tc1 p ctx = Inr s" "NewTokenCipherWithPrevious k2 k1 = Inr tc2"
  shows "OpenWithContext A tc1 s ctx = Inr p \<and> OpenWithContext A tc2 s ctx = Inr p
    \<and> (\<forall>k3 tc3. NewTokenCipherWithPrevious k3 k2 = Inr tc3 \<and> k1 \<noteq> k2 \<and> k1 \<noteq> k3 \<longrightarrow> OpenWithContext A tc3 s ctx = Inl ErrDecryptionFailed)"
proof -
  have k1: "length k1 = 32" "masterKey tc1 = k1" using assms(2) by (auto simp: NewTokenCipher_def split: if_splits)
  have s: "s = sealed_text A k1 n p ctx" using assms(4) k1 by (simp add: SealWithContext_def seal_eq)
  have opens: "OpenWithContext A tc s ctx = (if k1 \<in> set (cipher_keys tc) then Inr p else Inl ErrDecryptionFailed)" if "cipher_ok tc" for tc
    using open_sealed [OF assms(1,3) k1(1) that] sealed_not_Nil [OF assms(3)] by (simp add: s OpenWithContext_def)
  have "k1 \<in> set (cipher_keys tc1)" "k1 \<in> set (cipher_keys tc2)"
    using assms(2,5) k1 by (auto simp: NewTokenCipher_def NewTokenCipherWithPrevious_def cipher_keys_def split: if_splits)
  moreover have "OpenWithContext A tc3 s ctx = Inl ErrDecryptionFailed"
    if t: "NewTokenCipherWithPrevious k3 k2 = Inr tc3" "k1 \<noteq> k2" "k1 \<noteq> k3" for k3 tc3
  proof -
    have "k1 \<notin> set (cipher_keys tc3)"
      using t by (auto simp: NewTokenCipherWithPrevious_def cipher_keys_def split: if_splits)
    then show ?thesis using opens [OF constructors_ok(2) [OF t(1)]] by simp
  qed
  ultimately show ?thesis
    using opens [OF constructors_ok(1) [OF assms(2)]] opens [OF constructors_ok(2) [OF assms(5)]] by auto
qed

text \<open>
  C17: A secret sealed for one place opens only there: for a non-empty context, the reader that also accepts the old unbound form returns it exactly
  when given the same context, reports it as bound, and the unbound reader refuses it. Moving a sealed value to another row is refused.
\<close>

theorem sealed_value_bound_to_context:
  assumes "authenticated A" "cipher_ok tc" "length n = 12" "SealWithContext A (Some n) tc p ctx = Inr s" "ctx \<noteq> []"
  shows "OpenWithContextOrLegacy A tc s ctx' = (if ctx' = ctx then Inr (p, True) else Inl ErrDecryptionFailed)
    \<and> Open A tc s = Inl ErrDecryptionFailed"
proof -
  have k: "length (masterKey tc) = 32" using assms(2) by (simp add: cipher_ok_def cipher_keys_def)
  have s: "s = sealed_text A (masterKey tc) n p ctx" using assms(4) k by (simp add: SealWithContext_def seal_eq)
  show ?thesis
    using open_sealed [OF assms(1,3) k assms(2)] sealed_not_Nil [OF assms(3)] assms(5)
    by (auto simp: s OpenWithContextOrLegacy_def Open_def cipher_keys_def)
qed

text \<open>Nothing opens that was not sealed under one of the cipher's keys for the same additional data.\<close>

theorem open_only_sealed:
  assumes "authenticated A" "cipher_ok tc" "open_token A tc s a = Inr p"
  shows "\<exists>k \<in> set (cipher_keys tc). \<exists>n q. length n = 12 \<and> DecodeString s = Some (n @ aead_Seal A k n q a) \<and> p = string_of q"
proof -
  obtain c k where c: "DecodeString s = Some c" and k: "k \<in> set (cipher_keys tc)" and d: "decryptWithKey A k c a = Inr p"
    using assms(3) by (auto simp: open_token_def cipher_keys_def split: option.splits sum.splits if_splits)
  then obtain q where q: "aead_Open A k (take 12 c) (drop 12 c) a = Some q" "12 \<le> length c" "p = string_of q"
    by (auto simp: decryptWithKey_def nonceSize_def split: if_splits option.splits)
  have "length k = 32" using assms(2) k by (simp add: cipher_ok_def)
  then have "drop 12 c = aead_Seal A k (take 12 c) q a" using authenticatedD(2) [OF assms(1)] q(1) by blast
  then have "c = take 12 c @ aead_Seal A k (take 12 c) q a" by (metis append_take_drop_id)
  with c k q show ?thesis by (metis length_take min.absorb2)
qed

text \<open>
  Converting an unbound value to a bound one loses nothing and can be repeated: the migrating reader returns the same secret before and
  after, only the flag changes; the converted value opens for its context, and converting it again is refused instead of sealing it twice.
\<close>

theorem ReSeal_migrates:
  assumes "authenticated A" "cipher_ok tc" "length n = 12" "length n' = 12" "Seal A (Some n) tc p = Inr c" "p \<noteq> []" "ctx \<noteq> []"
  shows "OpenWithContextOrLegacy A tc c ctx = Inr (p, False)
    \<and> (\<exists>c'. ReSealWithContext A (Some n') tc c ctx = Inr c' \<and> OpenWithContext A tc c' ctx = Inr p
        \<and> OpenWithContextOrLegacy A tc c' ctx = Inr (p, True) \<and> ReSealWithContext A nonce tc c' ctx = Inl ErrDecryptionFailed)"
proof -
  have k: "length (masterKey tc) = 32" using assms(2) by (simp add: cipher_ok_def cipher_keys_def)
  have c: "c = sealed_text A (masterKey tc) n p []" using assms(5,6) k by (simp add: Seal_def seal_eq)
  have master: "masterKey tc \<in> set (cipher_keys tc)" by (simp add: cipher_keys_def)
  have op: "Open A tc c = Inr p" "OpenWithContextOrLegacy A tc c ctx = Inr (p, False)"
    using open_sealed [OF assms(1,3) k assms(2)] sealed_not_Nil [OF assms(3)] master assms(7)
    by (simp_all add: c Open_def OpenWithContextOrLegacy_def)
  let ?c = "sealed_text A (masterKey tc) n' p ctx"
  have "ReSealWithContext A (Some n') tc c ctx = Inr ?c" by (simp add: ReSealWithContext_def op SealWithContext_def seal_eq k)
  moreover have "OpenWithContext A tc ?c ctx = Inr p" "OpenWithContextOrLegacy A tc ?c ctx = Inr (p, True)"
    "ReSealWithContext A nonce tc ?c ctx = Inl ErrDecryptionFailed"
    using open_sealed [OF assms(1,4) k assms(2)] sealed_not_Nil [OF assms(4)] master assms(7)
    by (simp_all add: OpenWithContext_def OpenWithContextOrLegacy_def ReSealWithContext_def Open_def)
  ultimately show ?thesis using op(2) by blast
qed

text \<open>Two corners. An empty context binds nothing: what it seals is an unbound value, which the unbound reader opens. An unset value
  (the empty text) converts to a sealed, non-empty one.\<close>

theorem empty_context_is_unbound:
  assumes "authenticated A" "cipher_ok tc" "length n = 12" "SealWithContext A (Some n) tc p [] = Inr s"
  shows "Open A tc s = Inr p"
proof -
  have k: "length (masterKey tc) = 32" using assms(2) by (simp add: cipher_ok_def cipher_keys_def)
  then have "s = sealed_text A (masterKey tc) n p []" using assms(4) by (simp add: SealWithContext_def seal_eq)
  then show ?thesis
    using open_sealed [OF assms(1,3) k assms(2)] sealed_not_Nil [OF assms(3)] by (simp add: Open_def cipher_keys_def)
qed

theorem ReSeal_of_unset:
  assumes "cipher_ok tc" "length n = 12"
  shows "\<exists>c'. ReSealWithContext A (Some n) tc [] ctx = Inr c' \<and> c' \<noteq> []"
  using assms sealed_not_Nil [OF assms(2)]
  by (simp add: ReSealWithContext_def Open_def SealWithContext_def seal_eq cipher_ok_def cipher_keys_def)

theorem Derive_work_factor:
  assumes "DeriveTokenCipher pbkdf2 pass salt it = Inr tc"
  shows "16 \<le> length salt \<and> (\<exists>i \<ge> 600000. masterKey tc = pbkdf2 pass salt i \<and> (i = it \<or> it \<le> 0 \<and> i = 600000))"
  using assms by (auto simp: DeriveTokenCipher_def NewTokenCipher_def Let_def MinPBKDF2Iterations_def DefaultPBKDF2Iterations_def split: if_splits)

subsection \<open>An instance of the primitive\<close>

text \<open>A sealing that spells out key and additional data meets the documented behaviour (and keeps nothing secret).\<close>

definition clear_head :: "byte list \<Rightarrow> byte list \<Rightarrow> byte list" where
  "clear_head k a = k @ replicate (length a) 1 @ [0] @ a"

definition clear_aead :: aead where
  "clear_aead = \<lparr>aead_Seal = \<lambda>k n p a. clear_head k a @ p,
     aead_Open = \<lambda>k n c a. if take (length (clear_head k a)) c = clear_head k a then Some (drop (length (clear_head k a)) c) else None\<rparr>"

lemma unary_prefix: "replicate m (1 :: byte) @ 0 # x = replicate m' 1 @ 0 # x' \<Longrightarrow> m = m' \<and> x = x'"
proof (induction m arbitrary: m')
  case 0
  then show ?case by (cases m') auto
next
  case (Suc m)
  then show ?case by (cases m') auto
qed

lemma clear_aead_authenticated: "authenticated clear_aead"
  unfolding authenticated_def
proof (intro conjI allI impI)
  fix k n p a show "aead_Open clear_aead k n (aead_Seal clear_aead k n p a) a = Some p" by (simp add: clear_aead_def)
next
  fix k n c a p assume "aead_Open clear_aead k n c a = Some p"
  then have "take (length (clear_head k a)) c = clear_head k a" "p = drop (length (clear_head k a)) c"
    by (simp_all add: clear_aead_def split: if_splits)
  then have "clear_head k a @ p = c" using append_take_drop_id by metis
  then show "c = aead_Seal clear_aead k n p a" by (simp add: clear_aead_def)
next
  fix k k' :: "byte list" and n p p' a a'
  assume "length k = 32" "length k' = 32" "aead_Seal clear_aead k n p a = aead_Seal clear_aead k' n p' a'"
  then have *: "k = k'" "replicate (length a) 1 @ 0 # a @ p = replicate (length a') 1 @ 0 # a' @ p'"
    by (simp_all add: clear_aead_def clear_head_def)
  from unary_prefix [OF *(2)] have "length a = length a'" "a @ p = a' @ p'" by simp_all
  then show "k = k'" "p = p'" "a = a'" using * by simp_all
qed

definition ex_cipher :: "byte \<Rightarrow> TokenCipher" where
  "ex_cipher b = \<lparr>masterKey = replicate 32 b, previousKey = None\<rparr>"

lemma ex_cipher_ok: "cipher_ok (ex_cipher b)" "NewTokenCipher (replicate 32 b) = Inr (ex_cipher b)"
  by (simp_all add: cipher_ok_def cipher_keys_def ex_cipher_def NewTokenCipher_def)

lemma ex_seal: "SealWithContext clear_aead (Some (replicate 12 7)) (ex_cipher b) p ctx = Inr (sealed_text clear_aead (replicate 32 b) (replicate 12 7) p ctx)"
  by (simp add: SealWithContext_def seal_eq ex_cipher_def)

theorem rotation_keeps_secrets_witness:
  "OpenWithContext clear_aead \<lparr>masterKey = replicate 32 2, previousKey = Some (replicate 32 1)\<rparr>
     (sealed_text clear_aead (replicate 32 1) (replicate 12 7) ''secret'' [3]) [3] = Inr ''secret''"
  using rotation_keeps_secrets [OF clear_aead_authenticated ex_cipher_ok(2) _ ex_seal, of "replicate 32 2" 1
      "\<lparr>masterKey = replicate 32 2, previousKey = Some (replicate 32 1)\<rparr>" "''secret''" "[3]"]
  by (simp add: NewTokenCipherWithPrevious_def)

theorem sealed_value_bound_to_context_witness:
  "OpenWithContextOrLegacy clear_aead (ex_cipher 1) (sealed_text clear_aead (replicate 32 1) (replicate 12 7) ''secret'' [3]) [4]
     = Inl ErrDecryptionFailed"
  using sealed_value_bound_to_context [OF clear_aead_authenticated ex_cipher_ok(1) _ ex_seal, of "[3]" 1 "''secret''" "[4]"]
  by simp

theorem ReSeal_migrates_witness:
  "OpenWithContextOrLegacy clear_aead (ex_cipher 1) (sealed_text clear_aead (replicate 32 1) (replicate 12 7) ''secret'' []) [3] = Inr (''secret'', False)"
proof -
  have "Seal clear_aead (Some (replicate 12 7)) (ex_cipher 1) ''secret'' = Inr (sealed_text clear_aead (replicate 32 1) (replicate 12 7) ''secret'' [])"
    using ex_seal [of 1 "''secret''" "[]"] by (simp add: Seal_def SealWithContext_def)
  from ReSeal_migrates [OF clear_aead_authenticated ex_cipher_ok(1) _ _ this, of "replicate 12 8" "[3]"] show ?thesis by simp
qed

end
