(* ===== verification/Mailer.thy ===== *)
theory Mailer
  imports Prelude
begin

text \<open>
  \<open>mailer/mailer.go\<close>: sending one message through an SMTP relay. The relay's behaviour is an argument, one outcome per step of
  the conversation; the model returns the outcome and the conversation as a list of events. An event that puts data on the wire
  says whether the connection was encrypted at that point. \<open>net/smtp\<close> is modelled as far as it is used: \<open>PlainAuth\<close> refuses an
  unencrypted connection to a host that is not local, and a command line with a line break is refused before it is sent.
\<close>

type_synonym TLSMode = int

definition TLSRequired :: TLSMode where "TLSRequired = 0"
definition TLSDisabled :: TLSMode where "TLSDisabled = 1"

record mail_Config =
  cfg_Host :: string
  cfg_Port :: nat
  cfg_From :: string
  cfg_Username :: string
  cfg_Password :: string
  cfg_TLSMode :: TLSMode

datatype mail_error =
    UndefinedTLSMode TLSMode
  | PlaintextCredentials string
  | DialRelay
  | Handshake
  | StartTLSFailed
  | AuthFailed
  | MailFromFailed
  | RcptFailed string
  | DataFailed
  | WriteFailed
  | FinalizeFailed
  | QuitFailed

datatype smtp_event =
    Dial bool string
  | SetDeadline time
  | StartTLS string
  | Auth bool string string
  | MailFrom bool string
  | RcptTo bool string
  | Data bool string
  | Quit bool

text \<open>The outcomes of a relay: connecting over TLS and over TCP, the greeting, the upgrade, each command, each recipient.\<close>

record relay =
  r_tlsDial :: bool
  r_tcpDial :: bool
  r_greeting :: bool
  r_startTLS :: bool
  r_auth :: bool
  r_mail :: bool
  r_rcpt :: "string \<Rightarrow> bool"
  r_data :: bool
  r_write :: bool
  r_close :: bool
  r_quit :: bool

type_synonym mail_result = "mail_error option \<times> smtp_event list"

subsection \<open>Modes\<close>

definition TLSMode_valid :: "TLSMode \<Rightarrow> bool" where
  "TLSMode_valid m \<longleftrightarrow> m = TLSRequired \<or> m = TLSDisabled"

definition TLSModeForUseTLS :: "bool \<Rightarrow> TLSMode" where
  "TLSModeForUseTLS useTLS = (if useTLS then TLSRequired else TLSDisabled)"

definition defaultSendTimeout :: duration where "defaultSendTimeout = 2 * minute"

definition sendTimeout :: "int \<Rightarrow> duration" where
  "sendTimeout override = (if override > 0 then override else defaultSendTimeout)"

text \<open>\<open>smtp.PlainAuth\<close> for user, password and host.\<close>

record plain_auth =
  pa_user :: string
  pa_pass :: string
  pa_host :: string

definition authFor :: "mail_Config \<Rightarrow> plain_auth option" where
  "authFor cfg = (if cfg_Username cfg = [] then None
     else Some \<lparr>pa_user = cfg_Username cfg, pa_pass = cfg_Password cfg, pa_host = cfg_Host cfg\<rparr>)"

definition isLocalRelay :: "string \<Rightarrow> bool" where
  "isLocalRelay host \<longleftrightarrow> host = ''localhost'' \<or> host = ''127.0.0.1'' \<or> host = ''::1''"

subsection \<open>The conversation\<close>

definition one_line :: "string \<Rightarrow> bool" where
  "one_line s \<longleftrightarrow> CHR 0x0A \<notin> set s \<and> CHR 0x0D \<notin> set s"

fun rcpts :: "relay \<Rightarrow> bool \<Rightarrow> string list \<Rightarrow> mail_result" where
  "rcpts r enc [] = (None, [])"
| "rcpts r enc (t # ts) =
    (if \<not> one_line t then (Some (RcptFailed t), [])
     else if \<not> r_rcpt r t then (Some (RcptFailed t), [RcptTo enc t])
     else let (e, ev) = rcpts r enc ts in (e, RcptTo enc t # ev))"

definition send_body :: "relay \<Rightarrow> bool \<Rightarrow> string \<Rightarrow> mail_result" where
  "send_body r enc msg =
    (if \<not> r_data r then (Some DataFailed, [])
     else if \<not> r_write r then (Some WriteFailed, [Data enc msg])
     else if \<not> r_close r then (Some FinalizeFailed, [Data enc msg])
     else (if r_quit r then None else Some QuitFailed, [Data enc msg, Quit enc]))"

definition send_envelope :: "relay \<Rightarrow> bool \<Rightarrow> string \<Rightarrow> string list \<Rightarrow> string \<Rightarrow> mail_result" where
  "send_envelope r enc sender to msg =
    (if \<not> one_line sender then (Some MailFromFailed, [])
     else if \<not> r_mail r then (Some MailFromFailed, [MailFrom enc sender])
     else case rcpts r enc to of
       (Some e, ev) \<Rightarrow> (Some e, MailFrom enc sender # ev)
     | (None, ev) \<Rightarrow> let (e, ev') = send_body r enc msg in (e, MailFrom enc sender # ev @ ev'))"

definition finish :: "relay \<Rightarrow> bool \<Rightarrow> string \<Rightarrow> plain_auth option \<Rightarrow> string \<Rightarrow> string list \<Rightarrow> string \<Rightarrow> mail_result" where
  "finish r enc host auth sender to msg =
    (case auth of None \<Rightarrow> send_envelope r enc sender to msg
     | Some a \<Rightarrow>
       if \<not> enc \<and> \<not> isLocalRelay host then (Some AuthFailed, [])
       else if pa_host a \<noteq> host then (Some AuthFailed, [])
       else if \<not> r_auth r then (Some AuthFailed, [Auth enc (pa_user a) (pa_pass a)])
       else let (e, ev) = send_envelope r enc sender to msg in (e, Auth enc (pa_user a) (pa_pass a) # ev))"

definition after :: "smtp_event list \<Rightarrow> mail_result \<Rightarrow> mail_result" where
  "after ev r = (fst r, ev @ snd r)"

definition sendPlain :: "relay \<Rightarrow> time \<Rightarrow> string \<Rightarrow> string \<Rightarrow> plain_auth option \<Rightarrow> string \<Rightarrow> string list \<Rightarrow> string \<Rightarrow> mail_result" where
  "sendPlain r deadline addr host auth sender to msg =
    (if \<not> r_tcpDial r then (Some DialRelay, [Dial False addr])
     else if \<not> r_greeting r then (Some Handshake, [Dial False addr, SetDeadline deadline])
     else after [Dial False addr, SetDeadline deadline] (finish r False host auth sender to msg))"

definition sendStartTLS :: "relay \<Rightarrow> time \<Rightarrow> string \<Rightarrow> string \<Rightarrow> plain_auth option \<Rightarrow> string \<Rightarrow> string list \<Rightarrow> string \<Rightarrow> mail_result" where
  "sendStartTLS r deadline addr host auth sender to msg =
    (if \<not> r_tcpDial r then (Some DialRelay, [Dial False addr])
     else if \<not> r_greeting r then (Some Handshake, [Dial False addr, SetDeadline deadline])
     else if \<not> r_startTLS r then (Some StartTLSFailed, [Dial False addr, SetDeadline deadline, StartTLS host])
     else after [Dial False addr, SetDeadline deadline, StartTLS host] (finish r True host auth sender to msg))"

definition sendTLS :: "relay \<Rightarrow> time \<Rightarrow> string \<Rightarrow> string \<Rightarrow> plain_auth option \<Rightarrow> string \<Rightarrow> string list \<Rightarrow> string \<Rightarrow> mail_result" where
  "sendTLS r deadline addr host auth sender to msg =
    (if \<not> r_tlsDial r then after [Dial True addr] (sendStartTLS r deadline addr host auth sender to msg)
     else if \<not> r_greeting r then (Some Handshake, [Dial True addr, SetDeadline deadline])
     else after [Dial True addr, SetDeadline deadline] (finish r True host auth sender to msg))"

text \<open>\<open>Send\<close>: the caller's deadline, or one of its own.\<close>

definition Send :: "relay \<Rightarrow> int \<Rightarrow> time \<Rightarrow> time option \<Rightarrow> mail_Config \<Rightarrow> string list \<Rightarrow> string \<Rightarrow> mail_result" where
  "Send r override now ctxDeadline cfg to msg =
    (if \<not> TLSMode_valid (cfg_TLSMode cfg) then (Some (UndefinedTLSMode (cfg_TLSMode cfg)), [])
     else if cfg_TLSMode cfg = TLSDisabled \<and> cfg_Username cfg \<noteq> [] \<and> \<not> isLocalRelay (cfg_Host cfg)
     then (Some (PlaintextCredentials (cfg_Host cfg)), [])
     else
       let deadline = (case ctxDeadline of Some d \<Rightarrow> d | None \<Rightarrow> now + sendTimeout override);
           addr = (if CHR '':'' \<in> set (cfg_Host cfg) then ''['' @ cfg_Host cfg @ '']:'' @ Itoa (cfg_Port cfg)
                   else cfg_Host cfg @ '':'' @ Itoa (cfg_Port cfg));
           auth = authFor cfg in
       if cfg_TLSMode cfg = TLSDisabled then sendPlain r deadline addr (cfg_Host cfg) auth (cfg_From cfg) to msg
       else sendTLS r deadline addr (cfg_Host cfg) auth (cfg_From cfg) to msg)"

subsection \<open>What reaches the wire\<close>

fun encrypted :: "smtp_event \<Rightarrow> bool" where
  "encrypted (Auth e u p) = e"
| "encrypted (MailFrom e f) = e"
| "encrypted (RcptTo e t) = e"
| "encrypted (Data e m) = e"
| "encrypted _ = True"

fun is_auth :: "smtp_event \<Rightarrow> bool" where
  "is_auth (Auth e u p) = True"
| "is_auth _ = False"

lemma rcpts_events: "ev \<in> set (snd (rcpts r enc ts)) \<Longrightarrow> \<exists>t \<in> set ts. ev = RcptTo enc t"
  by (induction ts) (auto simp: Let_def split: if_splits prod.splits)

lemma rcpts_success: "rcpts r enc ts = (None, ev) \<Longrightarrow> ev = map (RcptTo enc) ts \<and> list_all (r_rcpt r) ts"
  by (induction ts arbitrary: ev) (auto split: if_splits prod.splits)

lemma send_body_events: "ev \<in> set (snd (send_body r enc msg)) \<Longrightarrow> ev = Data enc msg \<or> ev = Quit enc"
  by (auto simp: send_body_def split: if_splits)

lemma send_envelope_events:
  "ev \<in> set (snd (send_envelope r enc sender to msg)) \<Longrightarrow>
     ev = MailFrom enc sender \<or> (\<exists>t \<in> set to. ev = RcptTo enc t) \<or> ev = Data enc msg \<or> ev = Quit enc"
  using rcpts_events [of ev r enc to] send_body_events [of ev r enc msg]
  by (auto simp: send_envelope_def Let_def split: if_splits prod.splits option.splits)

lemma finish_events:
  "ev \<in> set (snd (finish r enc host auth sender to msg)) \<Longrightarrow>
     (\<exists>a. auth = Some a \<and> ev = Auth enc (pa_user a) (pa_pass a) \<and> (enc \<or> isLocalRelay host))
     \<or> ev = MailFrom enc sender \<or> (\<exists>t \<in> set to. ev = RcptTo enc t) \<or> ev = Data enc msg \<or> ev = Quit enc"
  using send_envelope_events [of ev r enc sender to msg]
  by (auto simp: finish_def Let_def split: if_splits prod.splits option.splits)

lemma finish_encrypted: "list_all encrypted (snd (finish r True host auth sender to msg))"
  unfolding list_all_iff using finish_events [of _ r True host auth sender to msg] by fastforce

text \<open>
  C27: With the default mode nothing but the connection attempt, the greeting and the upgrade request happens on an unencrypted connection, whatever
  the relay does: no password, sender, recipient or message. In every mode a password goes unencrypted only to a relay on the same machine.
\<close>

theorem mail_is_encrypted:
  assumes "Send r ov now ctx cfg to msg = (res, evs)"
  shows "(cfg_TLSMode cfg = TLSRequired \<longrightarrow> list_all encrypted evs)
    \<and> (\<forall>u p. Auth False u p \<in> set evs \<longrightarrow> cfg_TLSMode cfg = TLSDisabled \<and> isLocalRelay (cfg_Host cfg))"
proof (cases "cfg_TLSMode cfg = TLSDisabled")
  case True
  have "TLSDisabled \<noteq> TLSRequired" by (simp add: TLSDisabled_def TLSRequired_def)
  with True assms show ?thesis
    using finish_events [of _ r False "cfg_Host cfg" "authFor cfg" "cfg_From cfg" to msg]
    by (fastforce simp: Send_def sendPlain_def after_def Let_def authFor_def split: if_splits)
next
  case False
  then have "list_all encrypted evs"
    using assms finish_encrypted
    by (auto simp: Send_def Let_def sendTLS_def sendStartTLS_def after_def split: if_splits)
  then show ?thesis by (auto simp: list_all_iff)
qed

text \<open>
  CX: A send that reports success handed the message to the relay after the relay accepted the sender and every recipient, in that order,
  on a connection with a deadline.
\<close>

definition delivered :: "bool \<Rightarrow> mail_Config \<Rightarrow> string list \<Rightarrow> string \<Rightarrow> smtp_event list \<Rightarrow> bool" where
  "delivered enc cfg to msg evs \<longleftrightarrow>
     (\<exists>pre d. SetDeadline d \<in> set pre \<and> evs = pre @ MailFrom enc (cfg_From cfg) # map (RcptTo enc) to @ [Data enc msg, Quit enc])"

lemma finish_success:
  assumes "finish r enc host auth sender to msg = (None, ev)"
  shows "\<exists>pre. ev = pre @ MailFrom enc sender # map (RcptTo enc) to @ [Data enc msg, Quit enc] \<and> list_all (r_rcpt r) to"
proof -
  have "e = MailFrom enc sender # map (RcptTo enc) to @ [Data enc msg, Quit enc] \<and> list_all (r_rcpt r) to"
    if "send_envelope r enc sender to msg = (None, e)" for e
    using that by (auto simp: send_envelope_def send_body_def Let_def dest: rcpts_success split: if_splits prod.splits option.splits)
  with assms show ?thesis
    by (fastforce simp: finish_def Let_def split: if_splits prod.splits option.splits)
qed

theorem mail_success_delivers:
  assumes "Send r ov now ctx cfg to msg = (None, evs)"
  shows "list_all (r_rcpt r) to \<and> delivered (cfg_TLSMode cfg \<noteq> TLSDisabled) cfg to msg evs"
proof -
  let ?F = "finish r (cfg_TLSMode cfg \<noteq> TLSDisabled) (cfg_Host cfg) (authFor cfg) (cfg_From cfg) to msg"
  have "\<exists>pre d. SetDeadline d \<in> set pre \<and> after pre ?F = (None, evs)"
  proof (cases "cfg_TLSMode cfg = TLSDisabled")
    case True
    with assms obtain d addr where "after [Dial False addr, SetDeadline d] ?F = (None, evs)"
      by (auto simp: Send_def sendPlain_def Let_def split: if_splits)
    then show ?thesis by (intro exI [of _ "[Dial False addr, SetDeadline d]"] exI [of _ d]) simp
  next
    case False
    with assms obtain d addr where "sendTLS r d addr (cfg_Host cfg) (authFor cfg) (cfg_From cfg) to msg = (None, evs)"
      by (auto simp: Send_def Let_def split: if_splits)
    with False consider "after [Dial True addr, SetDeadline d] ?F = (None, evs)"
      | "after [Dial True addr, Dial False addr, SetDeadline d, StartTLS (cfg_Host cfg)] ?F = (None, evs)"
      by (auto simp: sendTLS_def sendStartTLS_def after_def split: if_splits)
    then show ?thesis
    proof cases
      case 1
      then show ?thesis by (intro exI [of _ "[Dial True addr, SetDeadline d]"] exI [of _ d]) simp
    next
      case 2
      then show ?thesis
        by (intro exI [of _ "[Dial True addr, Dial False addr, SetDeadline d, StartTLS (cfg_Host cfg)]"] exI [of _ d]) simp
    qed
  qed
  then obtain pre d ev where ev: "evs = pre @ ev" "SetDeadline d \<in> set pre" and f: "?F = (None, ev)"
    by (cases ?F) (auto simp: after_def)
  from finish_success [OF f] obtain pre' where
    "ev = pre' @ MailFrom (cfg_TLSMode cfg \<noteq> TLSDisabled) (cfg_From cfg) # map (RcptTo (cfg_TLSMode cfg \<noteq> TLSDisabled)) to
       @ [Data (cfg_TLSMode cfg \<noteq> TLSDisabled) msg, Quit (cfg_TLSMode cfg \<noteq> TLSDisabled)]" "list_all (r_rcpt r) to"
    by blast
  then show ?thesis
    using ev unfolding delivered_def by (intro conjI exI [of _ "pre @ pre'"] exI [of _ d]) simp_all
qed

definition mx_relay :: relay where
  "mx_relay = \<lparr>r_tlsDial = False, r_tcpDial = True, r_greeting = True, r_startTLS = True, r_auth = True, r_mail = True,
     r_rcpt = \<lambda>_. True, r_data = True, r_write = True, r_close = True, r_quit = True\<rparr>"

definition ex_mail :: mail_Config where
  "ex_mail = \<lparr>cfg_Host = ''relay'', cfg_Port = 7, cfg_From = ''f'', cfg_Username = ''u'', cfg_Password = ''p'', cfg_TLSMode = TLSRequired\<rparr>"

definition ex_mail_events :: "smtp_event list" where
  "ex_mail_events = [Dial True ''relay:7'', Dial False ''relay:7'', SetDeadline 9, StartTLS ''relay'', Auth True ''u'' ''p'',
     MailFrom True ''f'', RcptTo True ''a'', Data True ''m'', Quit True]"

lemma ex_mail_send: "Send mx_relay 0 0 (Some 9) ex_mail [''a''] ''m'' = (None, ex_mail_events)"
  by code_simp

theorem mail_is_encrypted_witness: "list_all encrypted ex_mail_events"
  using mail_is_encrypted [OF ex_mail_send] by (simp add: ex_mail_def)

theorem mail_success_delivers_witness: "delivered True ex_mail [''a''] ''m'' ex_mail_events"
  using mail_success_delivers [OF ex_mail_send] by (simp add: ex_mail_def TLSDisabled_def TLSRequired_def)

end
