(* ===== verification/Notifier.thy ===== *)
theory Notifier
  imports Notify_Channels Notify_Message Notify_Dedup Token_Cipher Mailer Http_Safe
begin

text \<open>
  Package \<open>notify\<close>, file \<open>notifier.go\<close>: an event is claimed, fanned out to the channels subscribed to it, each target is opened
  with the token cipher and posted to or mailed, and the outcome is recorded on the channel.

  What the surroundings answer during a call is a record \<open>net_env\<close>: whether a URL parses (\<open>None\<close>: it does), what the HTTP client
  meets (\<open>Inl\<close>: the transport error inside the \<open>url.Error\<close> that \<open>Do\<close> returns; \<open>Inr\<close>: a status), the mail relay, which
  addresses parse, the cipher primitive, the clocks, which database statements fail, and the texts of mail errors. A nil notifier
  or cipher is \<open>None\<close>. Marshalling of the payloads cannot fail: they are maps of strings and booleans.
\<close>

record Event =
  ev_Type :: string
  ev_Title :: string
  ev_Message :: string
  ev_DedupKey :: string
  ev_DedupTTL :: duration

definition defaultDedupTTL :: duration where "defaultDedupTTL = hour"

datatype json = JStr string | JBool bool | JArr "json list" | JObj "(string \<times> json) list"

datatype go_error = UrlError string string "go_error option" | OtherError string

datatype deliver_error =
    NoTarget
  | NoCipher
  | DecryptTarget cipher_error
  | BuildRequest go_error
  | SendFailed go_error
  | BadStatus nat
  | Recipients recipient_error
  | NoRelay
  | MailFailed mail_error
  | NotAvailable
  | Lookup notify_error

datatype outgoing = Post string json | Mail "smtp_event list"

record net_env =
  ne_parse :: "string \<Rightarrow> string option"
  ne_do :: "unit Client \<Rightarrow> string \<Rightarrow> json \<Rightarrow> go_error + nat"
  ne_relay :: relay
  ne_deadline :: "time option"
  ne_address :: "string \<Rightarrow> bool"
  ne_aead :: aead
  ne_now :: time
  ne_dbnow :: time
  ne_claimIO :: io
  ne_listIO :: io
  ne_getIO :: io
  ne_recordIO :: "string \<Rightarrow> io"
  ne_mailText :: "mail_error \<Rightarrow> string"

record Notifier =
  n_repo :: bool
  n_smtp :: mail_Config
  n_tokenCipher :: "TokenCipher option"
  n_client :: "unit Client"
  n_Source :: string
  n_TestMessage :: string
  n_dedupRepo :: "NotifyDedupRepository option"

definition empty_smtp :: mail_Config where
  "empty_smtp = \<lparr>cfg_Host = [], cfg_Port = 0, cfg_From = [], cfg_Username = [], cfg_Password = [], cfg_TLSMode = TLSRequired\<rparr>"

definition NewNotifier :: "bool \<Rightarrow> mail_Config option \<Rightarrow> TokenCipher option \<Rightarrow> Guard option \<Rightarrow> string \<Rightarrow> string \<Rightarrow> Notifier" where
  "NewNotifier repo smtp tokenCipher guard source testMessage =
    \<lparr>n_repo = repo, n_smtp = (case smtp of None \<Rightarrow> empty_smtp | Some c \<Rightarrow> c), n_tokenCipher = tokenCipher,
     n_client = NewClient (10 * second) guard, n_Source = source, n_TestMessage = testMessage,
     n_dedupRepo = (if repo then Some NewNotifyDedupRepository else None)\<rparr>"

subsection \<open>Texts\<close>

text \<open>\<open>%q\<close>: quotes and backslashes escaped, control bytes spelled out, the rest kept.\<close>

definition escape_digit :: "nat \<Rightarrow> char" where
  "escape_digit n = ''0123456789abcdef'' ! n"

definition is_control :: "char \<Rightarrow> bool" where
  "is_control c \<longleftrightarrow> of_char c < (32 :: nat) \<or> of_char c = (127 :: nat)"

definition quote_char :: "char \<Rightarrow> string" where
  "quote_char c =
    (if c = CHR 0x22 \<or> c = CHR 0x5C then [CHR 0x5C, c]
     else if c = LF then [CHR 0x5C, CHR ''n''] else if c = CR then [CHR 0x5C, CHR ''r''] else if c = CHR 0x09 then [CHR 0x5C, CHR ''t'']
     else if c = CHR 0x07 then [CHR 0x5C, CHR ''a''] else if c = CHR 0x08 then [CHR 0x5C, CHR ''b'']
     else if c = CHR 0x0C then [CHR 0x5C, CHR ''f''] else if c = CHR 0x0B then [CHR 0x5C, CHR ''v'']
     else if is_control c then [CHR 0x5C, CHR ''x'', escape_digit (of_char c div 16), escape_digit (of_char c mod 16)]
     else [c])"

definition Quote :: "string \<Rightarrow> string" where
  "Quote s = [CHR 0x22] @ concat (map quote_char s) @ [CHR 0x22]"

fun go_text :: "go_error \<Rightarrow> string" where
  "go_text (UrlError oper url None) = oper @ '' '' @ Quote url @ '': ''"
| "go_text (UrlError oper url (Some e)) = oper @ '' '' @ Quote url @ '': '' @ go_text e"
| "go_text (OtherError s) = s"

fun cipher_text :: "cipher_error \<Rightarrow> string" where
  "cipher_text ErrKeyLengthInvalid = ''crypto: key must be exactly 32 bytes for AES-256''"
| "cipher_text ErrCiphertextCorrupted = ''crypto: ciphertext is corrupted or tampered''"
| "cipher_text ErrDecryptionFailed = ''crypto: decryption operation failed''"
| "cipher_text ErrSaltTooShort = ''crypto: salt must be at least 16 bytes''"
| "cipher_text (ErrIterationsTooLow _) = ''crypto: PBKDF2 iterations below the minimum work factor''"
| "cipher_text ErrBlockCipher = ''crypto/aes: invalid key size''"
| "cipher_text ErrRandom = ''crypto/rand''"

fun recipient_text :: "recipient_error \<Rightarrow> string" where
  "recipient_text (InvalidAddress a) = ''invalid email address '' @ Quote a"
| "recipient_text NoRecipients = ''at least one recipient email is required''"

fun deliver_text :: "net_env \<Rightarrow> deliver_error \<Rightarrow> string" where
  "deliver_text env NoTarget = ''channel has no target configured''"
| "deliver_text env NoCipher = ''notifications: encryption key not configured''"
| "deliver_text env (DecryptTarget e) = ''decrypt channel target: '' @ cipher_text e"
| "deliver_text env (BuildRequest e) = ''build request: '' @ go_text e"
| "deliver_text env (SendFailed e) = ''send: '' @ go_text e"
| "deliver_text env (BadStatus n) = ''destination returned status '' @ Itoa n"
| "deliver_text env (Recipients e) = recipient_text e"
| "deliver_text env NoRelay = ''smtp relay is not configured''"
| "deliver_text env (MailFailed e) = ne_mailText env e"
| "deliver_text env NotAvailable = ''notifications are not available''"
| "deliver_text env (Lookup e) = ''notification channel by id''"

subsection \<open>One delivery\<close>

fun redactURLError :: "go_error \<Rightarrow> go_error" where
  "redactURLError (UrlError oper url (Some e)) = e"
| "redactURLError e = e"

definition teamsPayload :: "string \<Rightarrow> string \<Rightarrow> json" where
  "teamsPayload title message =
    JObj [(''type'', JStr ''message''),
      (''attachments'', JArr [JObj
        [(''contentType'', JStr ''application/vnd.microsoft.card.adaptive''),
         (''content'', JObj
           [(''$schema'', JStr ''http://adaptivecards.io/schemas/adaptive-card.json''),
            (''type'', JStr ''AdaptiveCard''),
            (''version'', JStr ''1.4''),
            (''body'', JArr
              [JObj [(''type'', JStr ''TextBlock''), (''text'', JStr title), (''weight'', JStr ''Bolder''), (''size'', JStr ''Medium''), (''wrap'', JBool True)],
               JObj [(''type'', JStr ''TextBlock''), (''text'', JStr message), (''wrap'', JBool True)]])])]])]"

definition payload :: "Notifier \<Rightarrow> string \<Rightarrow> string \<Rightarrow> string \<Rightarrow> json" where
  "payload n channelType title message =
    (if channelType = ''slack'' then JObj [(''text'', JStr (title @ [LF] @ message))]
     else if channelType = ''teams'' then teamsPayload title message
     else JObj [(''title'', JStr title), (''message'', JStr message), (''source'', JStr (n_Source n))])"

definition send :: "net_env \<Rightarrow> Notifier \<Rightarrow> string \<Rightarrow> string \<Rightarrow> string \<Rightarrow> string \<Rightarrow> deliver_error option \<times> outgoing list" where
  "send env n channelType url title message =
    (let body = payload n channelType title message in
     case ne_parse env url of
       Some reason \<Rightarrow> (Some (BuildRequest (UrlError ''parse'' url (Some (OtherError reason)))), [])
     | None \<Rightarrow>
       (case ne_do env (n_client n) url body of
          Inl inner \<Rightarrow> (Some (SendFailed (redactURLError (UrlError ''Post'' url (Some inner)))), [Post url body])
        | Inr status \<Rightarrow> (if status < 200 \<or> 300 \<le> status then Some (BadStatus status) else None, [Post url body])))"

definition sendEmail :: "net_env \<Rightarrow> Notifier \<Rightarrow> string \<Rightarrow> string \<Rightarrow> string \<Rightarrow> deliver_error option \<times> outgoing list" where
  "sendEmail env n recipients subject body =
    (case ParseRecipients (ne_address env) recipients of
       Inl e \<Rightarrow> (Some (Recipients e), [])
     | Inr to \<Rightarrow>
       let cfg = n_smtp n in
       if cfg_Host cfg = [] then (Some NoRelay, [])
       else let msg = BuildMessage (cfg_From cfg) to subject body in
         (case Send (ne_relay env) 0 (ne_now env) (ne_deadline env) cfg to msg of
            (None, wire) \<Rightarrow> (None, [Mail wire])
          | (Some e, wire) \<Rightarrow> (Some (MailFailed e), [Mail wire])))"

definition decryptTarget :: "net_env \<Rightarrow> Notifier \<Rightarrow> NotificationChannel \<Rightarrow> deliver_error + string" where
  "decryptTarget env n ch =
    (if nc_EncryptedTarget ch = [] then Inl NoTarget
     else case n_tokenCipher n of
       None \<Rightarrow> Inl NoCipher
     | Some tc \<Rightarrow>
       (case OpenWithContextOrLegacy (ne_aead env) tc (nc_EncryptedTarget ch) (bytes_of (TargetContext (nc_ID ch))) of
          Inl e \<Rightarrow> Inl (DecryptTarget e)
        | Inr (pt, _) \<Rightarrow> Inr pt))"

definition record_outcome :: "net_env \<Rightarrow> Notifier \<Rightarrow> string \<Rightarrow> deliver_error option \<Rightarrow> ChannelQueryOption list \<Rightarrow> channel_table \<Rightarrow> channel_table" where
  "record_outcome env n channelID sendErr opts t =
    (if \<not> n_repo n then t
     else let (status, msg) = (case sendErr of None \<Rightarrow> (''sent'', []) | Some e \<Rightarrow> (''failed'', deliver_text env e)) in
       snd (RecordDelivery (ne_recordIO env channelID) (ne_dbnow env) channelID status msg (ne_now env) opts t))"

definition deliver :: "net_env \<Rightarrow> Notifier \<Rightarrow> NotificationChannel \<Rightarrow> string \<Rightarrow> string \<Rightarrow> ChannelQueryOption list \<Rightarrow> channel_table
    \<Rightarrow> deliver_error option \<times> outgoing list \<times> channel_table" where
  "deliver env n ch title message opts t =
    (case decryptTarget env n ch of
       Inl e \<Rightarrow> (Some e, [], record_outcome env n (nc_ID ch) (Some e) opts t)
     | Inr target \<Rightarrow>
       let (sendErr, sent) = (if nc_Type ch = ''email'' then sendEmail env n target title message
                              else send env n (nc_Type ch) target title message) in
       (case sendErr of
          Some e \<Rightarrow> (Some e, sent, record_outcome env n (nc_ID ch) (Some e) opts t)
        | None \<Rightarrow> (None, sent, record_outcome env n (nc_ID ch) None opts t)))"

fun deliverAll :: "net_env \<Rightarrow> Notifier \<Rightarrow> NotificationChannel list \<Rightarrow> string \<Rightarrow> string \<Rightarrow> ChannelQueryOption list \<Rightarrow> channel_table
    \<Rightarrow> outgoing list \<times> channel_table" where
  "deliverAll env n [] title message opts t = ([], t)"
| "deliverAll env n (ch # chs) title message opts t =
    (let (_, sent, t1) = deliver env n ch title message opts t;
         (rest, t2) = deliverAll env n chs title message opts t1 in (sent @ rest, t2))"

subsection \<open>Events\<close>

definition claimDedup :: "net_env \<Rightarrow> Notifier \<Rightarrow> Event \<Rightarrow> db \<Rightarrow> bool \<times> db \<times> Notifier" where
  "claimDedup env n ev d =
    (if ev_DedupKey ev = [] then (True, d, n)
     else case n_dedupRepo n of
       None \<Rightarrow> (True, d, n)
     | Some r \<Rightarrow>
       let ttl = (if ev_DedupTTL ev \<le> 0 then defaultDedupTTL else ev_DedupTTL ev) in
       (case ClaimDedup (ne_claimIO env) (ne_dbnow env) (ne_now env) (ev_DedupKey ev) ttl d r of
          (Inl _, d', r') \<Rightarrow> (True, d', n\<lparr>n_dedupRepo := Some r'\<rparr>)
        | (Inr won, d', r') \<Rightarrow> (won, d', n\<lparr>n_dedupRepo := Some r'\<rparr>)))"

definition Notify :: "net_env \<Rightarrow> Notifier option \<Rightarrow> Event \<Rightarrow> ChannelQueryOption list \<Rightarrow> db \<Rightarrow> channel_table
    \<Rightarrow> outgoing list \<times> Notifier option \<times> db \<times> channel_table" where
  "Notify env nn ev opts d t =
    (case nn of
       None \<Rightarrow> ([], None, d, t)
     | Some n \<Rightarrow>
       if \<not> n_repo n then ([], Some n, d, t)
       else (case claimDedup env n ev d of
         (False, d', n') \<Rightarrow> ([], Some n', d', t)
       | (True, d', n') \<Rightarrow>
         (case ListEnabledForEvent (ne_listIO env) (ev_Type ev) opts t of
            Inl e \<Rightarrow> ([], Some n', d', t)
          | Inr channels \<Rightarrow>
            let (sent, t') = deliverAll env n' channels (ev_Title ev) (ev_Message ev) opts t in (sent, Some n', d', t'))))"

definition SendTest :: "net_env \<Rightarrow> Notifier option \<Rightarrow> string \<Rightarrow> ChannelQueryOption list \<Rightarrow> channel_table
    \<Rightarrow> deliver_error option \<times> outgoing list \<times> channel_table" where
  "SendTest env nn channelID opts t =
    (case nn of
       None \<Rightarrow> (Some NotAvailable, [], t)
     | Some n \<Rightarrow>
       if \<not> n_repo n then (Some NotAvailable, [], t)
       else (case Channel_GetByID (ne_getIO env) channelID opts t of
          Inl e \<Rightarrow> (Some (Lookup e), [], t)
        | Inr ch \<Rightarrow> deliver env n ch ''Test notification'' (n_TestMessage n) opts t))"

definition SendTestEmail :: "net_env \<Rightarrow> Notifier option \<Rightarrow> string list \<Rightarrow> string \<Rightarrow> string \<Rightarrow> deliver_error option \<times> outgoing list" where
  "SendTestEmail env nn recipients subject body =
    (case nn of None \<Rightarrow> (Some NotAvailable, [])
     | Some n \<Rightarrow> sendEmail env n (Join '','' recipients) subject body)"

subsection \<open>An attempt, and what it leaves on the row\<close>

definition attempt :: "net_env \<Rightarrow> Notifier \<Rightarrow> string \<Rightarrow> string \<Rightarrow> NotificationChannel \<Rightarrow> deliver_error option \<times> outgoing list" where
  "attempt env n title message ch =
    (case decryptTarget env n ch of
       Inl e \<Rightarrow> (Some e, [])
     | Inr target \<Rightarrow> if nc_Type ch = ''email'' then sendEmail env n target title message else send env n (nc_Type ch) target title message)"

definition stamp :: "net_env \<Rightarrow> deliver_error option \<Rightarrow> ChannelRow \<Rightarrow> ChannelRow" where
  "stamp env e r = r\<lparr>ch_LastStatus := Some (if e = None then ''sent'' else ''failed''),
     ch_LastError := (case e of None \<Rightarrow> None | Some e \<Rightarrow> if deliver_text env e = [] then None else Some (deliver_text env e)),
     ch_LastSentAt := Some (ne_now env), ch_UpdatedAt := ne_dbnow env\<rparr>"

lemma deliver_attempt:
  "deliver env n ch title message opts t =
     (fst (attempt env n title message ch), snd (attempt env n title message ch),
      record_outcome env n (nc_ID ch) (fst (attempt env n title message ch)) opts t)"
  by (auto simp: deliver_def attempt_def split_beta split: sum.splits option.splits)

lemma stamp_fields [simp]:
  "ch_ID (stamp env e r) = ch_ID r" "in_scope opts (stamp env e r) = in_scope opts r"
  "ch_Events (stamp env e r) = ch_Events r" "ch_OrganizationID (stamp env e r) = ch_OrganizationID r"
  by (simp_all add: stamp_def in_scope_def)

lemma stamp_stamp [simp]: "stamp env e (stamp env e' r) = stamp env e r"
  by (simp add: stamp_def)

lemma RecordDelivery_frame [simp]:
  "ct_hasOrg (snd (RecordDelivery io now i st err at opts t)) = ct_hasOrg t"
  by (simp add: RecordDelivery_def Let_def)

lemma record_frame [simp]: "filter_ok f (record_outcome env n i e opts t) = filter_ok f t"
  by (simp add: record_outcome_def filter_ok_def split_beta)

lemma record_rows:
  assumes "n_repo n" "filter_ok (newChannelFilter opts) t" "\<not> ne_recordIO env i 0"
  shows "ct_rows (record_outcome env n i e opts t) = map (\<lambda>r. if ch_ID r = i \<and> in_scope opts r then stamp env e r else r) (ct_rows t)"
  using assms by (cases e) (simp_all add: record_outcome_def RecordDelivery_rows stamp_def cong: if_cong)

lemma deliverAll_sent:
  "fst (deliverAll env n chs title message opts t) = concat (map (\<lambda>ch. snd (attempt env n title message ch)) chs)"
  by (induction chs arbitrary: t) (simp_all add: deliver_attempt split_beta)

lemma deliverAll_rows:
  assumes "n_repo n" "filter_ok (newChannelFilter opts) t" "\<forall>ch \<in> set chs. \<not> ne_recordIO env (nc_ID ch) 0"
  shows "ct_rows (snd (deliverAll env n chs title message opts t)) =
    map (\<lambda>r. fold (\<lambda>ch r. if ch_ID r = nc_ID ch \<and> in_scope opts r then stamp env (fst (attempt env n title message ch)) r else r) chs r) (ct_rows t)"
  using assms by (induction chs arbitrary: t) (simp_all add: deliver_attempt split_beta record_rows comp_def)

lemma fold_stamp:
  assumes "distinct (map nc_ID chs)"
  shows "fold (\<lambda>ch r. if ch_ID r = nc_ID ch \<and> in_scope opts r then stamp env (g ch) r else r) chs r =
    (if in_scope opts r then (case find (\<lambda>ch. nc_ID ch = ch_ID r) chs of None \<Rightarrow> r | Some ch \<Rightarrow> stamp env (g ch) r) else r)"
  using assms
proof (induction chs arbitrary: r)
  case (Cons ch chs)
  have "find (\<lambda>c. nc_ID c = nc_ID ch) chs = None" using Cons.prems by (simp add: find_None_iff) (metis image_eqI)
  with Cons show ?case by (auto split: option.splits)
qed simp

lemma nc_ID_channel_of [simp]: "nc_ID (channel_of r) = ch_ID r"
  by (simp add: channel_of_def)

lemma find_channel:
  assumes "distinct (map ch_ID rows)" "r \<in> set rows"
  shows "find (\<lambda>ch. nc_ID ch = ch_ID r) (map channel_of (filter P rows)) = (if P r then Some (channel_of r) else None)"
proof (cases "find (\<lambda>ch. nc_ID ch = ch_ID r) (map channel_of (filter P rows))")
  case None
  then show ?thesis using assms(2) by (auto simp: find_None_iff)
next
  case (Some ch)
  then obtain x where "x \<in> set rows" "P x" "ch = channel_of x" "ch_ID x = ch_ID r" using find_Some_mem [OF Some] by auto
  moreover from this have "x = r" using distinct_key_unique [OF assms(1)] assms(2) by blast
  ultimately show ?thesis using Some by simp
qed

subsection \<open>Fan-out\<close>

text \<open>
  C20: an event reaches exactly the channels that subscribe to it inside the scope, and one failing channel blocks no other. When the
  event's claim is won and the database answers, \<open>Notify\<close> attempts every enabled, subscribed channel of the scope, in table order,
  each to its own opened target; afterwards every such row carries the outcome of its own attempt (sent, or failed with the error's text) and
  every other row is untouched.
\<close>

theorem Notify_fans_out:
  assumes "n_repo n" "fst (claimDedup env n ev d)" "events_arrays t" "distinct (map ch_ID (ct_rows t))"
    and "filter_ok (newChannelFilter opts) t" "\<not> ne_listIO env 0" "\<not> ne_listIO env 1" "\<forall>i. \<not> ne_recordIO env i 0"
    and "wanted = (\<lambda>r. ch_Enabled r \<and> subscribed (ev_Type ev) r \<and> in_scope opts r)"
    and "tried = (\<lambda>r. attempt env (snd (snd (claimDedup env n ev d))) (ev_Title ev) (ev_Message ev) (channel_of r))"
    and "Notify env (Some n) ev opts d t = (sent, n', d', t')"
  shows "sent = concat (map (snd \<circ> tried) (filter wanted (ct_rows t)))
    \<and> ct_rows t' = map (\<lambda>r. if wanted r then stamp env (fst (tried r)) r else r) (ct_rows t)"
proof -
  obtain d1 n1 where c: "claimDedup env n ev d = (True, d1, n1)" using assms(2) by (cases "claimDedup env n ev d") auto
  have repo: "n_repo n1" using c assms(1) by (auto simp: claimDedup_def Let_def split: if_splits option.splits prod.splits sum.splits)
  have "ListEnabledForEvent (ne_listIO env) (ev_Type ev) opts t = Inr (map channel_of (filter wanted (ct_rows t)))"
    using fanout_list [OF assms(3)] assms(5,6,7,9) by simp
  then have eqs: "sent = fst (deliverAll env n1 (map channel_of (filter wanted (ct_rows t))) (ev_Title ev) (ev_Message ev) opts t)"
    "t' = snd (deliverAll env n1 (map channel_of (filter wanted (ct_rows t))) (ev_Title ev) (ev_Message ev) opts t)"
    using assms(1,11) c by (auto simp: Notify_def split_beta)
  have ids: "map nc_ID (map channel_of (filter wanted (ct_rows t))) = map ch_ID (filter wanted (ct_rows t))"
    by (simp add: channel_of_def comp_def)
  have dist: "distinct (map nc_ID (map channel_of (filter wanted (ct_rows t))))"
    unfolding ids using assms(4) by (rule distinct_map_filter_inj)
  have "ct_rows t' = map (\<lambda>r. if wanted r then stamp env (fst (tried r)) r else r) (ct_rows t)"
    unfolding eqs(2) deliverAll_rows [OF repo assms(5) ballI, of _ env, OF assms(8) [rule_format]] fold_stamp [OF dist]
    by (rule map_cong) (simp_all add: find_channel [OF assms(4)] assms(9,10) c)
  moreover have "sent = concat (map (snd \<circ> tried) (filter wanted (ct_rows t)))"
    unfolding eqs(1) deliverAll_sent by (simp add: comp_def assms(10) c)
  ultimately show ?thesis by blast
qed

subsection \<open>Targets\<close>

text \<open>
  A target works only on the channel it was sealed for. A target sealed for channel \<open>i\<close> is opened for that channel; copied to
  the row of another channel it fails to open, nothing is sent, and the failure is what the row records, whatever the channel's type.
\<close>

theorem moved_target_refused:
  assumes "authenticated (ne_aead env)" "n_tokenCipher n = Some tc" "cipher_ok tc" "length nonce = 12"
    and "SealWithContext (ne_aead env) (Some nonce) tc url (bytes_of (TargetContext i)) = Inr s" "nc_EncryptedTarget ch = s"
  shows "decryptTarget env n ch = (if nc_ID ch = i then Inr url else Inl (DecryptTarget ErrDecryptionFailed))
    \<and> (nc_ID ch \<noteq> i \<longrightarrow> deliver env n ch title message opts t =
         (Some (DecryptTarget ErrDecryptionFailed), [], record_outcome env n (nc_ID ch) (Some (DecryptTarget ErrDecryptionFailed)) opts t))"
proof -
  have k: "length (masterKey tc) = 32" using assms(3) by (simp add: cipher_ok_def cipher_keys_def)
  have s: "s = sealed_text (ne_aead env) (masterKey tc) nonce url (bytes_of (TargetContext i))"
    using assms(5) k by (simp add: SealWithContext_def seal_eq)
  have ctx: "TargetContext j = TargetContext i \<longleftrightarrow> j = i" "bytes_of (TargetContext j) \<noteq> []" "[] \<noteq> bytes_of (TargetContext j)" for j
    by (simp_all add: TargetContext_def bytes_of_def)
  have "decryptTarget env n ch = (if nc_ID ch = i then Inr url else Inl (DecryptTarget ErrDecryptionFailed))"
    using open_sealed [OF assms(1,4) k assms(3)] sealed_not_Nil [OF assms(4)] assms(2,6)
    by (auto simp: decryptTarget_def s OpenWithContextOrLegacy_def ctx cipher_keys_def)
  then show ?thesis by (simp add: deliver_def)
qed

text \<open>
  The recorded outcome of a post tells nothing about the secret target beyond what the network answered. For two targets that parse and
  to which the network gives the same answer, the outcome, and so the text stored in \<open>last_error\<close>, is the same.
\<close>

theorem outcome_hides_target:
  assumes "ne_parse env url = None" "ne_parse env url' = None"
    and "ne_do env (n_client n) url (payload n ty title message) = ne_do env (n_client n) url' (payload n ty title message)"
  shows "fst (send env n ty url title message) = fst (send env n ty url' title message)"
  using assms by (auto simp: send_def Let_def split: sum.splits)

text \<open>When the target does not parse it is different: the parse error of \<open>http.NewRequest\<close> quotes the target, and is not redacted. A
  pasted URL with a line break at its end is kept in clear, up to the break, in the text recorded.\<close>

definition clean :: "char \<Rightarrow> bool" where
  "clean c \<longleftrightarrow> c \<noteq> CHR 0x22 \<and> c \<noteq> CHR 0x5C \<and> \<not> is_control c"

lemma quote_char_clean:
  assumes "clean c"
  shows "quote_char c = [c]"
proof -
  have control: "is_control LF" "is_control CR" "is_control CHR 0x09" "is_control CHR 0x07" "is_control CHR 0x08" "is_control CHR 0x0C" "is_control CHR 0x0B"
    by (simp_all add: is_control_def)
  have "c \<noteq> x" if "is_control x" for x using assms that by (auto simp: clean_def)
  with control assms show ?thesis unfolding quote_char_def clean_def by presburger
qed

lemma Quote_clean: "list_all clean s \<Longrightarrow> concat (map quote_char s) = s"
  by (induction s) (simp_all add: quote_char_clean)

theorem unparsable_target_leaks:
  assumes "list_all clean url" "ne_parse env (url @ [LF]) = Some reason"
  shows "\<exists>e a b. fst (send env n ty (url @ [LF]) title message) = Some e \<and> deliver_text env e = a @ url @ b"
  using assms
  by (intro exI [of _ "BuildRequest (UrlError ''parse'' (url @ [LF]) (Some (OtherError reason)))"] exI [of _ "''build request: parse '' @ [CHR 0x22]"]
      exI [of _ "quote_char LF @ [CHR 0x22] @ '': '' @ reason"])
     (simp add: send_def Let_def Quote_def Quote_clean)

theorem disabled_notifier_sends_nothing:
  "Notify env None ev opts d t = ([], None, d, t)
   \<and> (\<not> n_repo n \<longrightarrow> Notify env (Some n) ev opts d t = ([], Some n, d, t) \<and> SendTest env (Some n) i opts t = (Some NotAvailable, [], t))
   \<and> (n_tokenCipher n = None \<longrightarrow> fst (snd (deliver env n ch title message opts t)) = [] \<and> fst (deliver env n ch title message opts t) \<noteq> None)"
  by (auto simp: Notify_def SendTest_def deliver_def decryptTarget_def)

text \<open>
  The test button reaches only the caller's own channels. Whatever the id supplied, if nothing in the scope has it, \<open>SendTest\<close>
  sends nothing, changes nothing and answers not found.
\<close>

theorem SendTest_in_scope:
  assumes "n_repo n" "\<not> ne_getIO env 0" "filter_ok (newChannelFilter opts) t"
    and "\<forall>r \<in> set (ct_rows t). ch_ID r = i \<longrightarrow> \<not> in_scope opts r"
  shows "SendTest env (Some n) i opts t = (Some (Lookup (Store (ErrNotFound ''notification channel by id''))), [], t)"
proof -
  have "filter (by_id (newChannelFilter opts) i []) (ct_rows t) = []" using assms(4) by (auto simp: by_id_iff filter_empty_conv)
  then show ?thesis using assms(1-3) by (simp add: SendTest_def Channel_GetByID_def Let_def)
qed

subsection \<open>Once per window\<close>














text \<open>A won claim is kept when the listing then fails: the occurrence is neither sent nor, within the window, tried again.\<close>

theorem failed_listing_uses_up_the_claim:
  assumes "n_repo n" "fst (claimDedup env n ev d)" "ne_listIO env 0"
  shows "Notify env (Some n) ev opts d t = ([], Some (snd (snd (claimDedup env n ev d))), fst (snd (claimDedup env n ev d)), t)"
  using assms by (cases "claimDedup env n ev d") (auto simp: Notify_def ListEnabledForEvent_def Let_def)

subsection \<open>Examples\<close>

definition nx_env :: net_env where
  "nx_env = \<lparr>ne_parse = \<lambda>_. None, ne_do = \<lambda>_ _ _. Inr 204, ne_relay = mx_relay, ne_deadline = None, ne_address = \<lambda>a. CHR ''@'' \<in> set a,
     ne_aead = clear_aead, ne_now = 5, ne_dbnow = 5, ne_claimIO = no_faults, ne_listIO = no_faults, ne_getIO = no_faults,
     ne_recordIO = \<lambda>_. no_faults, ne_mailText = \<lambda>_. ''mail''\<rparr>"

definition ex_notifier :: Notifier where
  "ex_notifier = NewNotifier True None (Some (ex_cipher 1)) None ''app'' ''test''"

definition ex_event :: Event where
  "ex_event = \<lparr>ev_Type = ''drift'', ev_Title = ''T'', ev_Message = ''M'', ev_DedupKey = ''k'', ev_DedupTTL = 10\<rparr>"

definition ex_target :: string where
  "ex_target = sealed_text clear_aead (replicate 32 1) (replicate 12 7) ''https://h'' (bytes_of (TargetContext ''c2''))"

text \<open>Two channels of the scope, the first without a target, and one of another tenant.\<close>

definition ex_table :: channel_table where
  "ex_table = \<lparr>ct_rows = [(demo_channel ''c1'' (Some ''o1''))\<lparr>ch_EncryptedTarget := []\<rparr>, (demo_channel ''c2'' (Some ''o1''))\<lparr>ch_EncryptedTarget := ex_target\<rparr>,
     demo_channel ''c3'' (Some ''o2'')], ct_hasOrg = True, ct_defaultOrg = None\<rparr>"

lemma nx_env_simps [simp]:
  "ne_parse nx_env u = None" "ne_do nx_env c u b = Inr 204" "ne_aead nx_env = clear_aead" "ne_now nx_env = 5" "ne_dbnow nx_env = 5"
  "ne_claimIO nx_env = no_faults" "ne_listIO nx_env = no_faults" "ne_recordIO nx_env i = no_faults"
  by (simp_all add: nx_env_def)

lemma ex_notifier_simps [simp]:
  "n_repo ex_notifier" "n_tokenCipher ex_notifier = Some (ex_cipher 1)" "n_dedupRepo ex_notifier = Some NewNotifyDedupRepository" "n_Source ex_notifier = ''app''"
  by (simp_all add: ex_notifier_def NewNotifier_def)

lemma ex_claim: "fst (claimDedup nx_env ex_notifier ex_event empty_db)"
  by (simp add: claimDedup_def ClaimDedup_def Let_def split_beta upsert_claim_def empty_db_def ex_event_def)

lemma ex_claim_cipher: "n_tokenCipher (snd (snd (claimDedup nx_env ex_notifier ex_event empty_db))) = Some (ex_cipher 1)"
  "n_Source (snd (snd (claimDedup nx_env ex_notifier ex_event empty_db))) = ''app''"
  by (simp_all add: claimDedup_def Let_def split: prod.splits sum.splits)

theorem moved_target_refused_witness:
  "decryptTarget nx_env ex_notifier (channel_of ((demo_channel ''c2'' None)\<lparr>ch_EncryptedTarget := ex_target\<rparr>)) = Inr ''https://h''
   \<and> decryptTarget nx_env ex_notifier (channel_of ((demo_channel ''c9'' None)\<lparr>ch_EncryptedTarget := ex_target\<rparr>)) = Inl (DecryptTarget ErrDecryptionFailed)"
proof -
  have *: "decryptTarget nx_env ex_notifier ch = (if nc_ID ch = ''c2'' then Inr ''https://h'' else Inl (DecryptTarget ErrDecryptionFailed))"
    if "nc_EncryptedTarget ch = ex_target" for ch
    using moved_target_refused [of nx_env ex_notifier "ex_cipher 1" "replicate 12 7" "''https://h''" "''c2''" ex_target ch]
      clear_aead_authenticated ex_cipher_ok(1) that ex_seal [of 1 "''https://h''" "bytes_of (TargetContext ''c2'')"]
    by (simp add: ex_target_def)
  show ?thesis by (simp add: * channel_of_def demo_channel_def)
qed

lemma ex_target_opens:
  "OpenWithContextOrLegacy clear_aead (ex_cipher 1) ex_target (bytes_of (TargetContext ''c2'')) = Inr (''https://h'', True)" "ex_target \<noteq> []"
  using open_sealed [OF clear_aead_authenticated, of "replicate 12 7" "replicate 32 1" "ex_cipher 1"] ex_cipher_ok(1) sealed_not_Nil
  by (simp_all add: ex_target_def OpenWithContextOrLegacy_def ex_cipher_def cipher_keys_def)

lemma ex_table_facts:
  "events_arrays ex_table" "distinct (map ch_ID (ct_rows ex_table))" "filter_ok (newChannelFilter demo_scope) ex_table"
  by (simp_all add: ex_table_def events_arrays_def not_array_def demo_channel_def filter_ok_def)

lemma demo_fields [simp]:
  "ch_Enabled (demo_channel i ow)" "ch_Events (demo_channel i ow) = EArray []" "ch_LastStatus (demo_channel i ow) = None"
  by (simp_all add: demo_channel_def)

theorem Notify_fans_out_witness:
  "fst (Notify nx_env (Some ex_notifier) ex_event demo_scope empty_db ex_table)
     = [Post ''https://h'' (JObj [(''text'', JStr (''T'' @ [LF] @ ''M''))])]
   \<and> map ch_LastStatus (ct_rows (snd (snd (snd (Notify nx_env (Some ex_notifier) ex_event demo_scope empty_db ex_table)))))
     = [Some ''failed'', Some ''sent'', None]"
proof -
  obtain sent n' d' t' where run: "Notify nx_env (Some ex_notifier) ex_event demo_scope empty_db ex_table = (sent, n', d', t')"
    by (metis prod_cases4)
  define n1 where "n1 = snd (snd (claimDedup nx_env ex_notifier ex_event empty_db))"
  have n1: "n_tokenCipher n1 = Some (ex_cipher 1)" "n_Source n1 = ''app''" using ex_claim_cipher by (simp_all add: n1_def)
  note F = Notify_fans_out [OF ex_notifier_simps(1) ex_claim ex_table_facts, of "\<lambda>r. ch_Enabled r \<and> subscribed (ev_Type ex_event) r \<and> in_scope demo_scope r"
    "\<lambda>r. attempt nx_env n1 (ev_Title ex_event) (ev_Message ex_event) (channel_of r)" sent n' d' t']
  have scope: "in_scope demo_scope (demo_channel i (Some ow)\<lparr>ch_EncryptedTarget := e\<rparr>) = (ow = ''o1'')"
    "in_scope demo_scope (demo_channel i (Some ow)) = (ow = ''o1'')" for i ow e
    by (auto simp: in_scope_def demo_scope_def newChannelFilter_def WithOrgScope_def permits_def OrgScopeOrganizations_ids demo_channel_def)
  have tried: "attempt nx_env n1 ''T'' ''M'' (channel_of ((demo_channel ''c1'' ow)\<lparr>ch_EncryptedTarget := []\<rparr>)) = (Some NoTarget, [])"
    "attempt nx_env n1 ''T'' ''M'' (channel_of ((demo_channel ''c2'' ow)\<lparr>ch_EncryptedTarget := ex_target\<rparr>))
      = (None, [Post ''https://h'' (JObj [(''text'', JStr (''T'' @ [LF] @ ''M''))])])" for ow
    using ex_target_opens n1
    by (simp_all add: attempt_def decryptTarget_def channel_of_def demo_channel_def send_def payload_def Let_def)
  show ?thesis
    using F run unfolding n1_def [symmetric]
    by (simp add: ex_table_def scope tried ex_event_def subscribed_def stamp_def)
qed


end
