(* ===== verification/Key_Expiry.thy ===== *)
theory Key_Expiry
  imports "HOL-Library.Multiset" Api_Key_Repo User_Repo Notify_Message Mailer
begin

text \<open>
  Package \<open>notify\<close>, file \<open>api_key_expiry.go\<close>, and package \<open>internal/safeloop\<close>: the background job that mails the owners of API keys about to
  expire. What one check meets is a record \<open>job_env\<close>: the clocks, which statements fail, whether the host's user repository panics for a
  user, the relay, and how a time is printed. The repositories are the module's own (\<open>Api_Key_Repo\<close>, \<open>User_Repo\<close>), whose rows are never
  nil; \<open>je_apiKeyRepo\<close> and \<open>je_userRepo\<close> say whether they are wired. The number of days left is taken exactly.

  Replicas run the same check on one database: \<open>job_step\<close> interleaves the statements of their loops.
\<close>

definition defaultDBTimeout :: duration where "defaultDBTimeout = 30 * second"

definition dbTimeout :: "int \<Rightarrow> duration" where
  "dbTimeout override = (if override > 0 then override else defaultDBTimeout)"

record ExpiryConfig =
  ec_Enabled :: bool
  ec_APIKeyExpiring :: bool
  ec_SMTP :: mail_Config
  ec_WarningDays :: int
  ec_CheckIntervalHours :: int

record job_env =
  je_now :: time
  je_dbnow :: time
  je_findIO :: io
  je_userIO :: "string \<Rightarrow> io"
  je_userPanics :: "string \<Rightarrow> bool"
  je_claimIO :: "string \<Rightarrow> io"
  je_relay :: relay
  je_deadline :: "time option"
  je_apiKeyRepo :: bool
  je_userRepo :: bool
  je_RFC1123 :: "time \<Rightarrow> string"

definition check_interval :: "ExpiryConfig \<Rightarrow> duration" where
  "check_interval cfg = wrap64 ((if ec_CheckIntervalHours cfg \<le> 0 then 24 else ec_CheckIntervalHours cfg) * hour)"

subsection \<open>One mail\<close>

definition days_left :: "time \<Rightarrow> time \<Rightarrow> nat" where
  "days_left now expiresAt =
    (let d = expiresAt - now; q = (if d < 0 then - ((- d) div (24 * hour)) else d div (24 * hour)); daysLeft = q + 1 in
     if daysLeft < 0 then 0 else nat daysLeft)"

definition arrow :: string where "arrow = [CHR 0xE2, CHR 0x86, CHR 0x92]"
definition em_dash :: string where "em_dash = [CHR 0xE2, CHR 0x80, CHR 0x94]"

definition sendExpiryEmail :: "job_env \<Rightarrow> string \<Rightarrow> mail_Config \<Rightarrow> string \<Rightarrow> string \<Rightarrow> string \<Rightarrow> string \<Rightarrow> time \<Rightarrow> mail_result" where
  "sendExpiryEmail env product smtp toEmail userName keyName keyPrefix expiresAt =
    (let daysLeft = days_left (je_now env) expiresAt;
         subject = ''Action Required: API key '' @ [CHR 0x27] @ keyName @ [CHR 0x27] @ '' expires in '' @ Itoa daysLeft @ '' day(s)'';
         body = Join crlf
           [''Hello '' @ userName @ '','', [],
            ''Your '' @ product @ '' API key '' @ [CHR 0x27] @ keyName @ [CHR 0x27] @ '' ('' @ keyPrefix @ ''...) will expire on ''
              @ je_RFC1123 env expiresAt @ '' ('' @ Itoa daysLeft @ '' day(s) from now).'', [],
            ''To avoid service disruption, please create a replacement key before the expiry date:'',
            ''  1. Log in to the '' @ product @ '' admin UI.'',
            ''  2. Navigate to Admin '' @ arrow @ '' API Keys.'',
            ''  3. Create a new key with the same scopes and update your CI/CD pipelines.'',
            ''  4. Delete or let the old key expire.'', [],
            ''If you no longer need this key, no action is required.'', [],
            em_dash @ '' '' @ product];
         msg = BuildMessage (cfg_From smtp) [toEmail] subject body in
     Send (je_relay env) 0 (je_now env) (je_deadline env) smtp [toEmail] msg)"

subsection \<open>One check\<close>

text \<open>A check returns whether it panicked, the database, and the mails attempted, by key.\<close>

type_synonym check_result = "string option \<times> db \<times> (string \<times> mail_result) list"

fun checkKeys :: "job_env \<Rightarrow> string \<Rightarrow> ExpiryConfig \<Rightarrow> KeyModel list \<Rightarrow> db \<Rightarrow> check_result" where
  "checkKeys env product cfg [] d = (None, d, [])"
| "checkKeys env product cfg (key # keys) d =
    (case (km_UserID key, km_ExpiresAt key) of
       (Some userID, Some expiresAt) \<Rightarrow>
         if \<not> je_userRepo env then (None, d, [])
         else if je_userPanics env userID then (Some ''user repository'', d, [])
         else (case GetUserByID (je_userIO env userID) userID OrgScopeAllOrganizations d of
           Inl e \<Rightarrow> checkKeys env product cfg keys d
         | Inr user \<Rightarrow>
             if usr_Email user = [] then checkKeys env product cfg keys d
             else (case ClaimExpiryNotification (je_claimIO env (km_ID key)) (je_dbnow env) (km_ID key) d of
               (Inl e, d') \<Rightarrow> checkKeys env product cfg keys d'
             | (Inr claimed, d') \<Rightarrow>
                 if \<not> claimed then checkKeys env product cfg keys d'
                 else let m = sendExpiryEmail env product (ec_SMTP cfg) (usr_Email user) (usr_Name user) (km_Name key) (km_KeyPrefix key) expiresAt;
                          (p, d'', ms) = checkKeys env product cfg keys d' in (p, d'', (km_ID key, m) # ms)))
     | _ \<Rightarrow> checkKeys env product cfg keys d)"

definition runCheck :: "job_env \<Rightarrow> string \<Rightarrow> ExpiryConfig \<Rightarrow> db \<Rightarrow> check_result" where
  "runCheck env product cfg d =
    (if \<not> ec_Enabled cfg \<or> cfg_Host (ec_SMTP cfg) = [] \<or> \<not> ec_APIKeyExpiring cfg then (None, d, [])
     else if \<not> je_apiKeyRepo env then (None, d, [])
     else let warningDays = (if ec_WarningDays cfg \<le> 0 then 7 else ec_WarningDays cfg) in
       (case FindExpiringKeys (je_findIO env) (je_now env) (je_dbnow env) warningDays d of
          Inl e \<Rightarrow> (None, d, [])
        | Inr keys \<Rightarrow> if length keys = 0 then (None, d, []) else checkKeys env product cfg keys d))"

subsection \<open>The loop\<close>

text \<open>\<open>safeloop.Guard\<close>: a panic of the body is reported and goes no further; what the body did before it stays done.\<close>

definition Guard_recover :: "string option \<times> 's \<Rightarrow> string option \<times> 's" where
  "Guard_recover r = (case r of (Some p, s) \<Rightarrow> (Some p, s) | (None, s) \<Rightarrow> (None, s))"

record job =
  job_stopped :: bool
  job_mails :: "(string \<times> mail_result) list"
  job_recovered :: "string list"

definition Stop :: "job \<Rightarrow> job" where
  "Stop j = j\<lparr>job_stopped := True\<rparr>"

definition runTick :: "job_env \<Rightarrow> string \<Rightarrow> ExpiryConfig \<Rightarrow> job \<times> db \<Rightarrow> job \<times> db" where
  "runTick env product cfg s =
    (let (recovered, d', ms) = Guard_recover (runCheck env product cfg (snd s)) in
     ((fst s)\<lparr>job_mails := job_mails (fst s) @ ms, job_recovered := job_recovered (fst s) @ (case recovered of None \<Rightarrow> [] | Some p \<Rightarrow> [p])\<rparr>, d'))"

text \<open>What \<open>select\<close> receives, in the order it chooses; the configuration is read again on every tick.\<close>

datatype job_signal = Tick job_env ExpiryConfig | StopChan | CtxDone

fun job_loop :: "string \<Rightarrow> job_signal list \<Rightarrow> job \<times> db \<Rightarrow> (job \<times> db) \<times> bool" where
  "job_loop product [] s = (s, False)"
| "job_loop product (Tick env cfg # sigs) s = job_loop product sigs (runTick env product cfg s)"
| "job_loop product (StopChan # sigs) s = (s, True)"
| "job_loop product (CtxDone # sigs) s = (s, True)"

definition Start :: "string \<Rightarrow> job_env \<Rightarrow> ExpiryConfig \<Rightarrow> job_signal list \<Rightarrow> job \<times> db \<Rightarrow> (job \<times> db) \<times> bool" where
  "Start product env cfg sigs s =
    (if job_stopped (fst s) then (s, True)
     else if \<not> ec_Enabled cfg then (s, True)
     else if cfg_Host (ec_SMTP cfg) = [] then (s, True)
     else if \<not> ec_APIKeyExpiring cfg then (s, True)
     else job_loop product sigs (runTick env product cfg s))"

subsection \<open>Replicas\<close>

datatype pc = Idle | Scanning "KeyModel list" | Won KeyModel "KeyModel list"

text \<open>\<open>cl_won\<close> lists the keys whose claim was won, \<open>cl_mails\<close> the keys a mail was attempted for.\<close>

record cluster =
  cl_db :: db
  cl_pc :: "nat \<Rightarrow> pc"
  cl_won :: "string list"
  cl_mails :: "string list"

definition notified :: "string \<Rightarrow> db \<Rightarrow> bool" where
  "notified i d \<longleftrightarrow> list_all (\<lambda>k. key_ID k = i \<longrightarrow> key_ExpiryNotificationSentAt k \<noteq> None) (api_keys d)"

inductive job_step :: "cluster \<Rightarrow> cluster \<Rightarrow> bool" where
  find: "cl_pc s i = Idle \<Longrightarrow> FindExpiringKeys io now dbnow days (cl_db s) = Inr ks
    \<Longrightarrow> job_step s (s\<lparr>cl_pc := (cl_pc s)(i := Scanning ks)\<rparr>)"
| skip: "cl_pc s i = Scanning (k # ks) \<Longrightarrow> job_step s (s\<lparr>cl_pc := (cl_pc s)(i := Scanning ks)\<rparr>)"
| win: "cl_pc s i = Scanning (k # ks) \<Longrightarrow> ClaimExpiryNotification io now (km_ID k) (cl_db s) = (Inr True, d')
    \<Longrightarrow> job_step s (s\<lparr>cl_db := d', cl_pc := (cl_pc s)(i := Won k ks), cl_won := km_ID k # cl_won s\<rparr>)"
| lose: "cl_pc s i = Scanning (k # ks) \<Longrightarrow> ClaimExpiryNotification io now (km_ID k) (cl_db s) = (res, d') \<Longrightarrow> res \<noteq> Inr True
    \<Longrightarrow> job_step s (s\<lparr>cl_db := d', cl_pc := (cl_pc s)(i := Scanning ks)\<rparr>)"
| mail: "cl_pc s i = Won k ks \<Longrightarrow> job_step s (s\<lparr>cl_pc := (cl_pc s)(i := Scanning ks), cl_mails := km_ID k # cl_mails s\<rparr>)"
| rest: "cl_pc s i = Scanning [] \<Longrightarrow> job_step s (s\<lparr>cl_pc := (cl_pc s)(i := Idle)\<rparr>)"
| crash: "job_step s (s\<lparr>cl_pc := (cl_pc s)(i := Idle)\<rparr>)"
| other: "\<forall>i \<in> set (cl_won s). notified i d' \<Longrightarrow> job_step s (s\<lparr>cl_db := d'\<rparr>)"

text \<open>The last rule is everything else that happens to the database: it may do anything except clear the stamp of a key whose claim was
  won or create that key again.\<close>

definition cluster_start :: "cluster \<Rightarrow> bool" where
  "cluster_start s \<longleftrightarrow> (\<forall>i. cl_pc s i = Idle) \<and> cl_won s = [] \<and> cl_mails s = []"

definition cluster_inv :: "cluster \<Rightarrow> bool" where
  "cluster_inv s \<longleftrightarrow>
     (\<forall>i \<in> set (cl_won s). notified i (cl_db s)) \<and> distinct (cl_mails s) \<and> set (cl_mails s) \<subseteq> set (cl_won s)
   \<and> (\<forall>i k ks. cl_pc s i = Won k ks \<longrightarrow> km_ID k \<in> set (cl_won s) \<and> km_ID k \<notin> set (cl_mails s))
   \<and> (\<forall>i j k ks k' ks'. cl_pc s i = Won k ks \<and> cl_pc s j = Won k' ks' \<and> km_ID k = km_ID k' \<longrightarrow> i = j)"

lemma claim_notified:
  assumes "ClaimExpiryNotification io now i d = (res, d')"
  shows "notified j d \<Longrightarrow> notified j d'" "res = Inr True \<Longrightarrow> notified i d'" "res = Inr True \<Longrightarrow> \<not> notified i d"
  using assms
  by (auto simp: ClaimExpiryNotification_def update_keys_def notified_def list_all_iff Let_def filter_empty_conv split: if_splits)

text \<open>The stamp of one key as the contract of claims, without any window: a stamp is for good.\<close>

definition expiry_attempt :: "string \<Rightarrow> io \<times> time \<Rightarrow> db \<Rightarrow> bool \<times> db" where
  "expiry_attempt i c d = (case ClaimExpiryNotification (fst c) (snd c) i d of (res, d') \<Rightarrow> (res = Inr True, d'))"

interpretation expiry: exclusive_claim "expiry_attempt i" "\<lambda>_. True" "\<lambda>_. True" "notified i"
  by unfold_locales (auto simp: expiry_attempt_def split: prod.splits dest: claim_notified)

theorem ClaimExpiryNotification_one_winner:
  "length (filter (\<lambda>w. w) (fst (run_attempts (expiry_attempt i) cs d))) \<le> 1"
  by (rule expiry.one_winner) (simp_all add: list_all_iff)

lemma job_step_inv: "job_step s s' \<Longrightarrow> cluster_inv s \<Longrightarrow> cluster_inv s'"
proof (induction rule: job_step.induct)
  case (win s i k ks io now d')
  note c = claim_notified [OF win(2)]
  have fresh: "km_ID k \<notin> set (cl_won s)" using c(3) win(3) by (auto simp: cluster_inv_def)
  have db: "\<forall>j \<in> set (km_ID k # cl_won s). notified j d'" using c(1,2) win(3) by (auto simp: cluster_inv_def)
  have other: "cl_pc s j = Won k' ks' \<Longrightarrow> km_ID k' \<noteq> km_ID k" for j k' ks' using fresh win(3) unfolding cluster_inv_def by metis
  have others: "km_ID k = km_ID k' \<Longrightarrow> cl_pc s j \<noteq> Won k' ks'" for j k' ks' using other by metis
  show ?case using win(3) fresh db unfolding cluster_inv_def by (auto split: if_splits dest: other others)
next
  case (lose s i k ks io now res d')
  then show ?case using claim_notified(1) [OF lose(2)] unfolding cluster_inv_def by (auto split: if_splits)
next
  case (mail s i k ks)
  have mine: "km_ID k \<in> set (cl_won s)" "km_ID k \<notin> set (cl_mails s)" using mail unfolding cluster_inv_def by metis+
  have other: "j \<noteq> i \<Longrightarrow> cl_pc s j = Won k' ks' \<Longrightarrow> km_ID k' \<noteq> km_ID k" for j k' ks' using mail unfolding cluster_inv_def by metis
  show ?case using mail(2) mine unfolding cluster_inv_def by (auto split: if_splits dest: other)
qed (auto simp: cluster_inv_def split: if_splits)

text \<open>
  C19: no owner is ever mailed twice about the same key. Whatever number of replicas run the job, however their statements interleave,
  whichever of them crash, fail or restart, and whatever else happens to the database short of clearing the stamp of a claimed key, at
  most one mail is attempted per key.
\<close>

theorem at_most_one_mail_per_key:
  assumes "cluster_start s0" "job_step\<^sup>*\<^sup>* s0 s"
  shows "distinct (cl_mails s)"
proof -
  have "cluster_inv s0" using assms(1) by (simp add: cluster_start_def cluster_inv_def)
  with assms(2) have "cluster_inv s" by (induction rule: rtranclp_induct) (auto intro: job_step_inv)
  then show ?thesis by (simp add: cluster_inv_def)
qed

subsection \<open>A check is a run of its replica\<close>

lemma step_mail:
  assumes "cl_pc s i = Scanning (k # ks)" "ClaimExpiryNotification io now (km_ID k) (cl_db s) = (Inr True, d')"
  shows "job_step\<^sup>*\<^sup>* s (s\<lparr>cl_db := d', cl_pc := (cl_pc s)(i := Scanning ks), cl_won := km_ID k # cl_won s, cl_mails := km_ID k # cl_mails s\<rparr>)"
proof -
  let ?s1 = "s\<lparr>cl_db := d', cl_pc := (cl_pc s)(i := Won k ks), cl_won := km_ID k # cl_won s\<rparr>"
  have "job_step s ?s1" using assms by (rule win)
  moreover have "job_step ?s1 (?s1\<lparr>cl_pc := (cl_pc ?s1)(i := Scanning ks), cl_mails := km_ID k # cl_mails ?s1\<rparr>)" by (rule mail) simp
  moreover have "?s1\<lparr>cl_pc := (cl_pc ?s1)(i := Scanning ks), cl_mails := km_ID k # cl_mails ?s1\<rparr>
      = s\<lparr>cl_db := d', cl_pc := (cl_pc s)(i := Scanning ks), cl_won := km_ID k # cl_won s, cl_mails := km_ID k # cl_mails s\<rparr>"
    by (rule cluster.equality) simp_all
  ultimately show ?thesis by (metis r_into_rtranclp rtranclp.rtrancl_into_rtrancl)
qed

text \<open>What the check does with one key: it stops, passes over the key, loses the claim, or wins it and attempts the mail.\<close>

lemma checkKeys_Cons_cases:
  assumes "checkKeys env product cfg (k # ks) d = (p, d', ms)"
  obtains (stopped) "d' = d" "ms = []"
    | (skipped) "checkKeys env product cfg ks d = (p, d', ms)"
    | (lost) res d1 where "ClaimExpiryNotification (je_claimIO env (km_ID k)) (je_dbnow env) (km_ID k) d = (res, d1)" "res \<noteq> Inr True"
        "checkKeys env product cfg ks d1 = (p, d', ms)"
    | (mailed) d1 ms' where "ClaimExpiryNotification (je_claimIO env (km_ID k)) (je_dbnow env) (km_ID k) d = (Inr True, d1)"
        "checkKeys env product cfg ks d1 = (p, d', ms')" "map fst ms = km_ID k # map fst ms'"
proof (cases "km_UserID k = None \<or> km_ExpiresAt k = None \<or> \<not> je_userRepo env \<or> je_userPanics env (the (km_UserID k))")
  case True
  then show ?thesis using assms skipped stopped by (auto split: option.splits if_splits)
next
  case False
  then obtain u e where ue: "km_UserID k = Some u" "km_ExpiresAt k = Some e" "je_userRepo env" "\<not> je_userPanics env u" by auto
  show ?thesis
  proof (cases "GetUserByID (je_userIO env u) u OrgScopeAllOrganizations d")
    case (Inl err)
    then show ?thesis using assms skipped ue by simp
  next
    case (Inr user)
    obtain res d1 where c: "ClaimExpiryNotification (je_claimIO env (km_ID k)) (je_dbnow env) (km_ID k) d = (res, d1)" by fastforce
    consider "usr_Email user = []" | "usr_Email user \<noteq> []" "res = Inr True" | "usr_Email user \<noteq> []" "res \<noteq> Inr True" by blast
    then show ?thesis
    proof cases
      case 1
      then show ?thesis using assms skipped ue Inr by simp
    next
      case 2
      obtain ms' where "checkKeys env product cfg ks d1 = (p, d', ms')" "map fst ms = km_ID k # map fst ms'"
        using assms ue Inr c 2 by (auto simp: split_beta prod_eq_iff)
      then show ?thesis using mailed c 2 by simp
    next
      case 3
      then have "checkKeys env product cfg ks d1 = (p, d', ms)" using assms ue Inr c by (cases res) auto
      then show ?thesis using lost c 3 by simp
    qed
  qed
qed

lemma checkKeys_steps:
  assumes "checkKeys env product cfg ks d = (p, d', ms)" "cl_pc s i = Scanning ks" "cl_db s = d"
  shows "\<exists>s'. job_step\<^sup>*\<^sup>* s s' \<and> cl_db s' = d' \<and> cl_mails s' = rev (map fst ms) @ cl_mails s"
  using assms
proof (induction ks arbitrary: d s ms)
  case Nil
  then show ?case by auto
next
  case (Cons k ks)
  note IH = Cons.IH
  from Cons.prems(1) show ?case
  proof (cases rule: checkKeys_Cons_cases)
    case stopped
    then show ?thesis using Cons.prems(3) by auto
  next
    case skipped
    let ?s = "s\<lparr>cl_pc := (cl_pc s)(i := Scanning ks)\<rparr>"
    have "job_step s ?s" using Cons.prems(2) by (rule skip)
    then show ?thesis using IH [OF skipped, of ?s] Cons.prems(3) by (auto intro: converse_rtranclp_into_rtranclp)
  next
    case (lost res d1)
    let ?s = "s\<lparr>cl_db := d1, cl_pc := (cl_pc s)(i := Scanning ks)\<rparr>"
    have "job_step s ?s" using lose [OF Cons.prems(2), of _ _ res d1] Cons.prems(3) lost by auto
    then show ?thesis using IH [OF lost(3), of ?s] by (auto intro: converse_rtranclp_into_rtranclp)
  next
    case (mailed d1 ms')
    let ?s = "s\<lparr>cl_db := d1, cl_pc := (cl_pc s)(i := Scanning ks), cl_won := km_ID k # cl_won s, cl_mails := km_ID k # cl_mails s\<rparr>"
    have "job_step\<^sup>*\<^sup>* s ?s" using step_mail Cons.prems(2,3) mailed(1) by simp
    moreover obtain s' where "job_step\<^sup>*\<^sup>* ?s s'" "cl_db s' = d'" "cl_mails s' = rev (map fst ms') @ cl_mails ?s"
      using IH [OF mailed(2), of ?s] by auto
    ultimately show ?thesis using mailed(3) by (intro exI [of _ s']) auto
  qed
qed

text \<open>
  The sequential check is one replica's uninterrupted run of the interleaved system: from an idle replica it reaches, by its own steps, the
  database \<open>runCheck\<close> leaves, with exactly the mails \<open>runCheck\<close> attempted, in order. What is proved of every interleaving holds of it.
\<close>

theorem runCheck_is_a_run:
  assumes "runCheck env product cfg d = (p, d', ms)" "cl_pc s i = Idle" "cl_db s = d"
  shows "\<exists>s'. job_step\<^sup>*\<^sup>* s s' \<and> cl_db s' = d' \<and> cl_mails s' = rev (map fst ms) @ cl_mails s"
proof (cases "d' = d \<and> ms = []")
  case True
  then show ?thesis using assms(3) by auto
next
  case False
  let ?days = "if ec_WarningDays cfg \<le> 0 then 7 else ec_WarningDays cfg"
  obtain ks where ks: "FindExpiringKeys (je_findIO env) (je_now env) (je_dbnow env) ?days d = Inr ks" "checkKeys env product cfg ks d = (p, d', ms)"
    using assms(1) False by (auto simp: runCheck_def Let_def split: if_splits sum.splits)
  let ?s = "s\<lparr>cl_pc := (cl_pc s)(i := Scanning ks)\<rparr>"
  have "job_step s ?s" using find [OF assms(2)] ks(1) assms(3) by blast
  moreover obtain s' where "job_step\<^sup>*\<^sup>* ?s s'" "cl_db s' = d'" "cl_mails s' = rev (map fst ms) @ cl_mails s"
    using checkKeys_steps [OF ks(2), of ?s i] assms(3) by auto
  ultimately show ?thesis by (intro exI [of _ s']) (auto intro: converse_rtranclp_into_rtranclp)
qed

subsection \<open>What a check reaches\<close>






lemma expiring_keys_fresh:
  assumes "db_wf d" "FindExpiringKeys io now dbnow days d = Inr ks"
  shows "distinct (map km_ID ks)" "\<forall>k \<in> set ks. \<not> notified (km_ID k) d"
proof -
  define due :: "APIKey \<Rightarrow> bool" where "due = (\<lambda>k. case key_ExpiresAt k of None \<Rightarrow> False
    | Some t \<Rightarrow> t > dbnow \<and> t \<le> now + wrap64 (wrap64 (days * 24) * hour) \<and> key_ExpiryNotificationSentAt k = None \<and> key_UserID k \<noteq> None)"
  define rows where "rows = order_asc (\<lambda>k. the (key_ExpiresAt k)) (filter due (api_keys d))"
  have scan: "scan_rows scanAPIKey rows = Inr ks"
    using assms(2) by (auto simp: FindExpiringKeys_def Let_def rows_def due_def split: if_splits sum.splits)
  have ids: "map km_ID ks = map key_ID rows"
    using scan unfolding scan_rows_Inr by (induction rows ks rule: list_all2_induct) (auto dest: scanAPIKey_Inr)
  have dist: "distinct (map key_ID (api_keys d))" using assms(1) by (simp add: wf_defs)
  have "mset (map key_ID rows) = mset (map key_ID (filter due (api_keys d)))" by (simp add: rows_def order_asc_def)
  then have "distinct (map key_ID rows) = distinct (map key_ID (filter due (api_keys d)))" by (rule mset_eq_imp_distinct_iff)
  then show "distinct (map km_ID ks)" unfolding ids using distinct_map_filter_inj [OF dist] by simp
  show "\<forall>k \<in> set ks. \<not> notified (km_ID k) d"
  proof
    fix k
    assume "k \<in> set ks"
    then have "km_ID k \<in> set (map key_ID rows)" unfolding ids [symmetric] by simp
    then obtain r where "r \<in> set (api_keys d)" "due r" "key_ID r = km_ID k" by (auto simp: rows_def)
    then show "\<not> notified (km_ID k) d" by (auto simp: notified_def list_all_iff due_def split: option.splits)
  qed
qed


subsection \<open>The loop survives\<close>

text \<open>A panic ends one tick only: the loop goes on with the next signal, what was done before the panic is kept, and it is reported. A
  stopped job does not scan, stopping twice is stopping once, and a signal to stop ends the loop.\<close>

lemma job_loop_append:
  assumes "\<forall>sig \<in> set before_sigs. \<exists>env cfg. sig = Tick env cfg"
  shows "job_loop product (before_sigs @ sigs) s = job_loop product sigs (fst (job_loop product before_sigs s))"
  using assms by (induction product before_sigs s rule: job_loop.induct) auto

theorem loop_survives_panics:
  assumes "runCheck env product cfg (snd s) = (Some p, d', ms)"
  shows "job_loop product (Tick env cfg # sigs) s =
      job_loop product sigs ((fst s)\<lparr>job_mails := job_mails (fst s) @ ms, job_recovered := job_recovered (fst s) @ [p]\<rparr>, d')"
  using assms by (simp add: runTick_def Guard_recover_def)

theorem stopped_job_does_nothing:
  "Stop (Stop j) = Stop j \<and> Start product env cfg sigs (Stop j, d) = ((Stop j, d), True)
   \<and> job_loop product (StopChan # sigs) s = (s, True) \<and> job_loop product (CtxDone # sigs) s = (s, True)"
  by (simp add: Stop_def Start_def)

subsection \<open>At most once, not exactly once\<close>

text \<open>
  A claim whose mail then fails is not tried again: after the check, a later scan does not return the key, although its owner was
  told nothing. The file's opening comment says that mails are sent exactly once.
\<close>

theorem claimed_key_not_scanned_again:
  assumes "db_wf d'" "ClaimExpiryNotification io now i d = (Inr True, d')" "FindExpiringKeys io' now' dbnow' days' d' = Inr ks"
  shows "i \<notin> km_ID ` set ks"
  using expiring_keys_fresh(2) [OF assms(1,3)] claim_notified(2) [OF assms(2)] by auto

text \<open>The writes of the API key repository never clear the stamp of a key that exists, so they are steps of the other rule.\<close>

theorem key_writes_keep_stamps:
  assumes "notified i d"
  shows "notified i (snd (UpdateLastUsed io now j d))" "notified i (snd (DeleteExpiredKeys io now d))"
    "notified i (snd (RevokeAPIKey io j scope d))" "notified i (snd (RevokeAPIKeysForUser io u scope d))"
  using assms
  by (auto simp: UpdateLastUsed_def DeleteExpiredKeys_def RevokeAPIKey_def RevokeAPIKeysForUser_def update_keys_def delete_keys_def
      notified_def list_all_iff Let_def split: if_splits)

subsection \<open>Examples\<close>

definition ex_job :: job_env where
  "ex_job = \<lparr>je_now = 0, je_dbnow = 0, je_findIO = no_faults, je_userIO = \<lambda>_. no_faults, je_userPanics = \<lambda>_. False, je_claimIO = \<lambda>_. no_faults,
     je_relay = mx_relay, je_deadline = None, je_apiKeyRepo = True, je_userRepo = True, je_RFC1123 = \<lambda>_. ''tomorrow''\<rparr>"

definition ex_expiry :: ExpiryConfig where
  "ex_expiry = \<lparr>ec_Enabled = True, ec_APIKeyExpiring = True, ec_SMTP = ex_mail, ec_WarningDays = 0, ec_CheckIntervalHours = 0\<rparr>"

definition ex_expiring :: db where
  "ex_expiring = ex_db\<lparr>api_keys := map (\<lambda>k. k\<lparr>key_ExpiresAt := Some (3 * hour)\<rparr>) (api_keys ex_db)\<rparr>"

definition ex_idle :: cluster where
  "ex_idle = \<lparr>cl_db = ex_expiring, cl_pc = \<lambda>_. Idle, cl_won = [], cl_mails = []\<rparr>"

definition ex_due :: "KeyModel list" where
  "ex_due = (case FindExpiringKeys no_faults 0 0 7 ex_expiring of Inr ks \<Rightarrow> ks | Inl _ \<Rightarrow> [])"

lemma ex_found: "FindExpiringKeys no_faults 0 0 7 ex_expiring = Inr ex_due"
  by code_simp

lemma ex_check: "map fst (snd (snd (runCheck ex_job ''P'' ex_expiry ex_expiring))) = [''k1'', ''k2'']"
  by code_simp

lemma ex_check_keys: "map fst (snd (snd (checkKeys ex_job ''P'' ex_expiry ex_due ex_expiring))) = [''k1'', ''k2'']"
  by code_simp


theorem runCheck_is_a_run_witness:
  "\<exists>s'. job_step\<^sup>*\<^sup>* ex_idle s' \<and> cl_mails s' = [''k2'', ''k1'']"
proof -
  obtain p d' ms where r: "runCheck ex_job ''P'' ex_expiry ex_expiring = (p, d', ms)" by (metis prod_cases3)
  show ?thesis using runCheck_is_a_run [OF r, of ex_idle 0] ex_check r by (auto simp: ex_idle_def)
qed

theorem at_most_one_mail_per_key_witness:
  "\<exists>s'. job_step\<^sup>*\<^sup>* ex_idle s' \<and> cl_mails s' = [''k2'', ''k1''] \<and> distinct (cl_mails s')"
proof -
  obtain p d' ms where r: "checkKeys ex_job ''P'' ex_expiry ex_due ex_expiring = (p, d', ms)" by (metis prod_cases3)
  let ?s = "ex_idle\<lparr>cl_pc := (cl_pc ex_idle)(0 := Scanning ex_due)\<rparr>"
  have first: "job_step ex_idle ?s" using ex_found by (intro find [of _ _ no_faults 0 0 7]) (simp_all add: ex_idle_def)
  obtain s' where s': "job_step\<^sup>*\<^sup>* ?s s'" "cl_mails s' = rev (map fst ms) @ cl_mails ?s"
    using checkKeys_steps [OF r, of ?s 0] by (auto simp: ex_idle_def)
  have steps: "job_step\<^sup>*\<^sup>* ex_idle s'" using first s'(1) by (rule converse_rtranclp_into_rtranclp)
  have "distinct (cl_mails s')" by (rule at_most_one_mail_per_key [OF _ steps]) (simp add: cluster_start_def ex_idle_def)
  with steps s'(2) ex_check_keys r show ?thesis by (auto simp: ex_idle_def)
qed


end
