(* ===== verification/Audit_Relay.thy ===== *)
theory Audit_Relay
  imports Audit_Outbox Reducer
begin

text \<open>
  Package \<open>identity/auditoutbox\<close>, file \<open>relay.go\<close>: the relay that drains the outbox into a sink, and what the outbox,
  the relay and the table sink together guarantee. The sink is an interface of the package: \<open>deliver\<close> takes the failures
  of its own calls, an intent and the sink's state, which no roll-back of the outbox's transaction undoes. What a shipper is handed is
  recorded as a list. A batch takes from its environment the failures of the outbox's calls (0 begins, 1 and 2 claim,
  from 3 on the bookkeeping update of each intent), those of each delivery, the outcome of the commit, the server's
  time and the rows other relays hold. Logging, metrics and the ticker's timing are left out; a running relay is a sequence of cycles.
\<close>

record RelayConfig =
  rc_PollInterval :: duration
  rc_BatchSize :: int
  rc_BacklogWarn :: int
  rc_RetainDelivered :: duration

definition defaultRelayInterval :: duration where "defaultRelayInterval = 10 * second"
definition defaultRelayBatchSize :: int where "defaultRelayBatchSize = 100"
definition defaultRelayMaxBatches :: nat where "defaultRelayMaxBatches = 10"
definition defaultRelayBacklogWarn :: int where "defaultRelayBacklogWarn = 100"
definition defaultRelayDeliveredRetain :: duration where "defaultRelayDeliveredRetain = 7 * 24 * hour"

definition pollInterval :: "RelayConfig \<Rightarrow> duration" where
  "pollInterval c = (if rc_PollInterval c \<le> 0 then defaultRelayInterval else rc_PollInterval c)"

definition batchSize :: "RelayConfig \<Rightarrow> int" where
  "batchSize c = (if rc_BatchSize c \<le> 0 then defaultRelayBatchSize else rc_BatchSize c)"

definition backlogWarn :: "RelayConfig \<Rightarrow> int" where
  "backlogWarn c = (if rc_BacklogWarn c = 0 then defaultRelayBacklogWarn else rc_BacklogWarn c)"

definition retainDelivered :: "RelayConfig \<Rightarrow> duration" where
  "retainDelivered c = (if rc_RetainDelivered c = 0 then defaultRelayDeliveredRetain else rc_RetainDelivered c)"

type_synonym 'k sink = "io \<Rightarrow> Intent \<Rightarrow> 'k \<Rightarrow> outbox_error option \<times> 'k"

record 'k Relay =
  rl_outbox :: "Outbox option"
  rl_sink :: "'k sink option"
  rl_shipper :: bool
  rl_cfg :: RelayConfig

record batch_env =
  be_io :: io
  be_deliver_io :: "nat \<Rightarrow> io"
  be_commit :: commit_outcome
  be_dbnow :: time
  be_locked :: "string set"

record 'k relay_state =
  rt_rows :: "OutboxRow list"
  rt_sink :: 'k
  rt_shipped :: "Entry list"

definition entry_of :: "Intent \<Rightarrow> Entry" where
  "entry_of i =
     \<lparr>en_Timestamp = ev_OccurredAt i, en_EventID = ev_EventID i, en_Action = ev_Action i, en_UserID = derefString (ev_ActorUserID i),
      en_ActorEmail = derefString (ev_ActorEmail i), en_OrganizationID = derefString (ev_OrganizationID i),
      en_ResourceType = derefString (ev_ResourceType i), en_ResourceID = derefString (ev_ResourceID i),
      en_IPAddress = derefString (ev_IPAddress i), en_Metadata = in_Metadata i\<rparr>"

definition ship :: "'k Relay \<Rightarrow> Intent \<Rightarrow> 'k relay_state \<Rightarrow> 'k relay_state" where
  "ship r i s = (if \<not> rl_shipper r then s else s\<lparr>rt_shipped := rt_shipped s @ [entry_of i]\<rparr>)"

text \<open>The loop over the claimed intents: the first bookkeeping failure ends it.\<close>

fun deliverLoop :: "'k Relay \<Rightarrow> 'k sink \<Rightarrow> batch_env \<Rightarrow> nat \<Rightarrow> pendingIntent list \<Rightarrow> nat \<Rightarrow> 'k relay_state
    \<Rightarrow> (outbox_error + nat) \<times> 'k relay_state" where
  "deliverLoop r deliver e j [] delivered s = (Inr delivered, s)"
| "deliverLoop r deliver e j (p # ps) delivered s =
     (case deliver (be_deliver_io e j) (pi_Intent p) (rt_sink s) of
        (Some cause, k) \<Rightarrow>
          let s1 = s\<lparr>rt_sink := k\<rparr>
          in if be_io e (3 + j) then (Inl (OutboxFailed ''failed to record audit intent failure''), s1)
             else deliverLoop r deliver e (j + 1) ps delivered
                    (s1\<lparr>rt_rows := recordFailure (ev_EventID (pi_Intent p)) ''delivery failed'' (rt_rows s1)\<rparr>)
      | (None, k) \<Rightarrow>
          let s1 = ship r (pi_Intent p) (s\<lparr>rt_sink := k\<rparr>)
          in if be_io e (3 + j) then (Inl (OutboxFailed ''failed to mark audit intent delivered''), s1)
             else deliverLoop r deliver e (j + 1) ps (delivered + 1)
                    (s1\<lparr>rt_rows := markDelivered (be_dbnow e) (ev_EventID (pi_Intent p)) (rt_rows s1)\<rparr>))"

text \<open>The end of the transaction: the outbox rows are the new ones only if the commit took effect; the sink and the shipper
  keep what they were given.\<close>

definition finish_batch :: "commit_outcome \<Rightarrow> OutboxRow list \<Rightarrow> nat \<Rightarrow> nat \<Rightarrow> 'k relay_state \<Rightarrow> (nat \<times> nat \<times> outbox_error option) \<times> 'k relay_state" where
  "finish_batch cm old claimed delivered s =
     (case cm of
        Committed \<Rightarrow> ((claimed, delivered, None), s)
      | RolledBack \<Rightarrow> ((claimed, 0, Some (OutboxFailed ''commit'')), s\<lparr>rt_rows := old\<rparr>)
      | Unacknowledged \<Rightarrow> ((claimed, 0, Some (OutboxFailed ''commit'')), s))"

definition DeliverBatch :: "batch_env \<Rightarrow> 'k Relay \<Rightarrow> 'k relay_state \<Rightarrow> (nat \<times> nat \<times> outbox_error option) \<times> 'k relay_state" where
  "DeliverBatch e r s =
     (if no_outbox (rl_outbox r) then ((0, 0, Some ErrNoOutbox), s)
      else case rl_sink r of None \<Rightarrow> ((0, 0, Some RelayNoSink), s)
      | Some deliver \<Rightarrow>
          if be_io e 0 then ((0, 0, Some (OutboxFailed ''begin'')), s)
          else (case claim (be_io e) (be_locked e) (batchSize (rl_cfg r)) (rt_rows s) of
                  Inl err \<Rightarrow> ((0, 0, Some err), s)
                | Inr intents \<Rightarrow>
                    if length intents = 0 then finish_batch (be_commit e) (rt_rows s) 0 0 s
                    else (case deliverLoop r deliver e 0 intents 0 s of
                            (Inl err, s') \<Rightarrow> ((length intents, 0, Some err), s'\<lparr>rt_rows := rt_rows s\<rparr>)
                          | (Inr delivered, s') \<Rightarrow> finish_batch (be_commit e) (rt_rows s) (length intents) delivered s')))"

fun cycleLoop :: "nat \<Rightarrow> nat \<Rightarrow> (nat \<Rightarrow> batch_env) \<Rightarrow> 'k Relay \<Rightarrow> 'k relay_state \<Rightarrow> 'k relay_state" where
  "cycleLoop 0 i es r s = s"
| "cycleLoop (Suc n) i es r s =
     (case DeliverBatch (es i) r s of
        ((claimed, delivered, err), s') \<Rightarrow>
          if err \<noteq> None then s'
          else if int claimed < batchSize (rl_cfg r) then s'
          else cycleLoop n (i + 1) es r s')"

text \<open>The backlog report: what the observer is given, and whether the alarm is raised.\<close>

definition observeBacklog :: "io \<Rightarrow> 'k Relay \<Rightarrow> OutboxRow list \<Rightarrow> (Backlog \<times> bool) option" where
  "observeBacklog io r rows =
     (case Outbox_Backlog io (rl_outbox r) rows of
        Inl e \<Rightarrow> None
      | Inr b \<Rightarrow> let warnAt = backlogWarn (rl_cfg r) in Some (b, warnAt > 0 \<and> int (bl_Pending b) \<ge> warnAt))"

definition relay_prune :: "io \<Rightarrow> time \<Rightarrow> 'k Relay \<Rightarrow> OutboxRow list \<Rightarrow> OutboxRow list" where
  "relay_prune io now r rows =
     (let retain = retainDelivered (rl_cfg r)
      in if retain < 0 then rows
         else snd (PruneDelivered io (rl_outbox r) (now - retain)
                (wrap64 (batchSize (rl_cfg r) * int defaultRelayMaxBatches)) rows))"

record cycle_env =
  ce_batches :: "nat \<Rightarrow> batch_env"
  ce_prune_io :: io
  ce_now :: time

definition RunCycle :: "cycle_env \<Rightarrow> 'k Relay \<Rightarrow> 'k relay_state \<Rightarrow> 'k relay_state" where
  "RunCycle c r s =
     (let s' = cycleLoop defaultRelayMaxBatches 0 (ce_batches c) r s
      in s'\<lparr>rt_rows := relay_prune (ce_prune_io c) (ce_now c) r (rt_rows s')\<rparr>)"

text \<open>\<open>Start\<close> refuses a relay that could not drain; otherwise it runs a cycle at once and one per tick.\<close>

definition Start :: "'k Relay \<Rightarrow> cycle_env list \<Rightarrow> 'k relay_state \<Rightarrow> (outbox_error + unit) \<times> 'k relay_state" where
  "Start r cycles s =
     (if no_outbox (rl_outbox r) then (Inl ErrNoOutbox, s)
      else if rl_sink r = None then (Inl RelayNoSink, s)
      else (Inr (), fold (\<lambda>c. RunCycle c r) cycles s))"

subsection \<open>The bookkeeping updates\<close>

lemma recordFailure_ex:
  "(\<exists>r \<in> set (recordFailure x cause rows). Q (ev_EventID r) (ob_delivered_at r)) \<longleftrightarrow> (\<exists>r \<in> set rows. Q (ev_EventID r) (ob_delivered_at r))"
  by (induction rows) (auto simp: recordFailure_def)

lemma markDelivered_ex:
  "(\<exists>r \<in> set (markDelivered t x rows). Q (ev_EventID r) (ob_delivered_at r)) \<longleftrightarrow>
     (\<exists>r \<in> set rows. Q (ev_EventID r) (if ev_EventID r = x then Some t else ob_delivered_at r))"
  by (induction rows) (auto simp: markDelivered_def)

lemma ship_simps [simp]: "rt_rows (ship r i s) = rt_rows s" "rt_sink (ship r i s) = rt_sink s"
  by (simp_all add: ship_def)

lemma bookkeeping_ids [simp]:
  "map ev_EventID (recordFailure x cause rows) = map ev_EventID rows"
  "map ev_EventID (markDelivered t x rows) = map ev_EventID rows"
  by (simp_all add: recordFailure_def markDelivered_def)

subsection \<open>What can happen to an outbox\<close>

text \<open>A mutation enqueues an intent (and its transaction commits or not), a relay runs a batch or a cycle, somebody prunes, the destination is
  altered.\<close>

datatype 'a relay_op =
    EnqueueOp io string time "nat option" "Intent option" bool
  | BatchOp batch_env
  | CycleOp cycle_env
  | PruneOp io time int
  | AlterOp 'a

fun run_relay_op :: "('a \<Rightarrow> 'k \<Rightarrow> 'k) \<Rightarrow> 'k Relay \<Rightarrow> 'a relay_op \<Rightarrow> 'k relay_state \<Rightarrow> 'k relay_state" where
  "run_relay_op alter r (EnqueueOp io uuid now tx intent committed) s =
     (if committed then s\<lparr>rt_rows := snd (snd (Enqueue io uuid now (rl_outbox r) tx intent (rt_rows s)))\<rparr> else s)"
| "run_relay_op alter r (BatchOp e) s = snd (DeliverBatch e r s)"
| "run_relay_op alter r (CycleOp c) s = RunCycle c r s"
| "run_relay_op alter r (PruneOp io before limit) s = s\<lparr>rt_rows := snd (PruneDelivered io (rl_outbox r) before limit (rt_rows s))\<rparr>"
| "run_relay_op alter r (AlterOp a) s = s\<lparr>rt_sink := alter a (rt_sink s)\<rparr>"

lemma Enqueue_rows:
  "snd (snd (Enqueue io uuid now ob tx intent rows)) = rows \<or>
     (\<exists>row. snd (snd (Enqueue io uuid now ob tx intent rows)) = rows @ [row] \<and> undelivered row \<and> ev_EventID row \<notin> ev_EventID ` set rows)"
  by (auto simp: Enqueue_def Let_def undelivered_def outbox_row_def list_ex_iff split: option.splits sum.splits)

text \<open>A calm environment: no call fails, the commit is acknowledged, no other relay holds rows.\<close>

definition calm :: "batch_env \<Rightarrow> bool" where
  "calm e \<longleftrightarrow> be_io e = no_faults \<and> (\<forall>j. be_deliver_io e j = no_faults) \<and> be_commit e = Committed \<and> be_locked e = {}"

lemma filter_markDelivered:
  "filter undelivered (markDelivered t x rows) = filter (\<lambda>r. undelivered r \<and> ev_EventID r \<noteq> x) rows"
  by (induction rows) (auto simp: markDelivered_def undelivered_def)

lemma filter_marks:
  "filter undelivered (fold (markDelivered t) xs rows) = filter (\<lambda>r. undelivered r \<and> ev_EventID r \<notin> set xs) rows"
proof (induction xs arbitrary: rows)
  case Nil
  then show ?case by simp
next
  case (Cons x xs)
  have "filter undelivered (fold (markDelivered t) (x # xs) rows)
      = filter (\<lambda>r. ev_EventID r \<notin> set xs) (filter undelivered (markDelivered t x rows))"
    using Cons.IH by (simp add: conj_commute)
  then show ?case by (auto simp: filter_markDelivered intro!: filter_cong)
qed

lemma map_marks [simp]: "map ev_EventID (fold (markDelivered t) xs rows) = map ev_EventID rows"
  by (induction xs arbitrary: rows) simp_all

lemma set_claimable: "set (claimable locked rows) = {r \<in> set rows. undelivered r \<and> ev_EventID r \<notin> locked}"
  by (simp add: claimable_def queue_order_def)

lemma claimable_empty: "claimable {} rows = queue_order (filter undelivered rows)"
  by (simp add: claimable_def)

lemma distinct_claimable: "distinct (map ev_EventID rows) \<Longrightarrow> distinct (map ev_EventID (claimable locked rows))"
  by (auto simp: claimable_def queue_order_def distinct_map intro: inj_on_subset)

lemma filter_not_taken:
  assumes "distinct (map f xs)"
  shows "filter (\<lambda>x. f x \<notin> f ` set (take n xs)) xs = drop n xs"
proof -
  have "filter (\<lambda>x. f x \<notin> f ` set (take n xs)) (take n xs) = []" by (simp add: filter_empty_conv)
  moreover have "filter (\<lambda>x. f x \<notin> f ` set (take n xs)) (drop n xs) = drop n xs"
    using assms by (intro filter_all_id) (metis append_take_drop_id disjoint_iff distinct_append image_eqI image_set map_append)
  ultimately show ?thesis by (metis append_Nil append_take_drop_id filter_append)
qed

text \<open>Marking the first \<open>n\<close> rows of the queue leaves the rest of the queue.\<close>

lemma claimable_marked:
  assumes "distinct (map ev_EventID rows)"
  shows "claimable {} (fold (markDelivered t) (map ev_EventID (take n (claimable {} rows))) rows) = drop n (claimable {} rows)"
proof -
  let ?q = "claimable {} rows"
  have "claimable {} (fold (markDelivered t) (map ev_EventID (take n ?q)) rows)
      = queue_order (filter (\<lambda>r. ev_EventID r \<notin> ev_EventID ` set (take n ?q)) (filter undelivered rows))"
    unfolding claimable_empty [of "fold _ _ _"] filter_marks by (simp add: conj_commute)
  also have "\<dots> = filter (\<lambda>r. ev_EventID r \<notin> ev_EventID ` set (take n ?q)) ?q"
    unfolding claimable_empty queue_order_def by (simp only: filter_sort)
  also have "\<dots> = drop n ?q" by (rule filter_not_taken) (rule distinct_claimable [OF assms])
  finally show ?thesis .
qed

lemma batchSize_pos: "0 < batchSize c"
  by (simp add: batchSize_def defaultRelayBatchSize_def)

lemma claim_calm:
  assumes "calm e"
  shows "claim (be_io e) (be_locked e) (batchSize c) rows =
    Inr (map (\<lambda>r. \<lparr>pi_Intent = intent_of r, pi_Attempts = ob_attempts r\<rparr>) (take (nat (batchSize c)) (claimable {} rows)))"
  using assms batchSize_pos [of c] by (simp add: claim_def calm_def paginate_def)

lemma intent_of_id [simp]: "ev_EventID (intent_of r) = ev_EventID r"
  by (simp add: intent_of_def)

text \<open>No relay operation adds, removes or renames a row of the outbox within a cycle.\<close>

lemma deliverLoop_ids:
  "deliverLoop r deliver e j ps n s = (res, s') \<Longrightarrow> map ev_EventID (rt_rows s') = map ev_EventID (rt_rows s)"
  by (induction ps arbitrary: j n s) (auto simp: Let_def split: prod.splits option.splits if_splits)

lemma DeliverBatch_ids: "map ev_EventID (rt_rows (snd (DeliverBatch e r s))) = map ev_EventID (rt_rows s)"
  using deliverLoop_ids
  by (auto simp: DeliverBatch_def finish_batch_def split: option.splits sum.splits prod.splits commit_outcome.splits)

lemma cycleLoop_ids: "map ev_EventID (rt_rows (cycleLoop n i es r s)) = map ev_EventID (rt_rows s)"
proof (induction n arbitrary: i s)
  case (Suc n)
  obtain c d err s' where b: "DeliverBatch (es i) r s = ((c, d, err), s')" by (metis prod_cases3 surj_pair)
  then have "map ev_EventID (rt_rows s') = map ev_EventID (rt_rows s)" using DeliverBatch_ids [of "es i" r s] by simp
  with b Suc.IH [of "i + 1" s'] show ?case by simp
qed simp

subsection \<open>What the relay relies on\<close>

text \<open>
  The contract of a sink, in states satisfying its invariant: a success means the event is stored, nothing stored is lost (not even when the
  destination is altered), and in a good state (\<open>healthy\<close>) a delivery with working calls succeeds.
\<close>

locale durable_sink =
  fixes deliver :: "'k sink"
    and alter :: "'a \<Rightarrow> 'k \<Rightarrow> 'k"
    and stored :: "'k \<Rightarrow> string \<Rightarrow> bool"
    and invar :: "'k \<Rightarrow> bool"
    and healthy :: "'k \<Rightarrow> bool"
  assumes deliver_stores: "invar k \<Longrightarrow> deliver io i k = (None, k') \<Longrightarrow> stored k' (ev_EventID i)"
    and deliver_invar: "invar k \<Longrightarrow> invar (snd (deliver io i k))"
    and alter_invar: "invar k \<Longrightarrow> invar (alter a k)"
    and deliver_keeps: "invar k \<Longrightarrow> stored k x \<Longrightarrow> stored (snd (deliver io i k)) x"
    and alter_keeps: "stored k x \<Longrightarrow> stored (alter a k) x"
    and healthy_delivers: "healthy k \<Longrightarrow> ev_EventID i \<noteq> '''' \<Longrightarrow> fst (deliver no_faults i k) = None \<and> healthy (snd (deliver no_faults i k))"
begin

text \<open>Every delivered row is stored; an event is accounted for if it is pending or stored.\<close>

definition relay_inv :: "'k relay_state \<Rightarrow> bool" where
  "relay_inv s \<longleftrightarrow> distinct (map ev_EventID (rt_rows s)) \<and> invar (rt_sink s)
     \<and> (\<forall>r \<in> set (rt_rows s). undelivered r \<or> stored (rt_sink s) (ev_EventID r))"

definition accounted :: "string \<Rightarrow> 'k relay_state \<Rightarrow> bool" where
  "accounted x s \<longleftrightarrow> (\<exists>r \<in> set (rt_rows s). ev_EventID r = x \<and> undelivered r) \<or> stored (rt_sink s) x"

lemma accountedI: "relay_inv s \<Longrightarrow> r \<in> set (rt_rows s) \<Longrightarrow> accounted (ev_EventID r) s"
  by (auto simp: relay_inv_def accounted_def)

text \<open>No record is lost between two states.\<close>

definition no_loss :: "'k relay_state \<Rightarrow> 'k relay_state \<Rightarrow> bool" where
  "no_loss s s' \<longleftrightarrow> relay_inv s' \<and> (\<forall>x. accounted x s \<longrightarrow> accounted x s') \<and> (\<forall>x. stored (rt_sink s) x \<longrightarrow> stored (rt_sink s') x)"

lemma no_loss_trans: "no_loss s t \<Longrightarrow> no_loss t u \<Longrightarrow> no_loss s u"
  by (simp add: no_loss_def)

lemma no_loss_refl: "relay_inv s \<Longrightarrow> no_loss s s"
  by (simp add: no_loss_def)

text \<open>Rolling the rows back, or keeping them, while the sink only gains.\<close>

lemma no_loss_rows:
  assumes "relay_inv s" "invar (rt_sink s')" "\<And>x. stored (rt_sink s) x \<Longrightarrow> stored (rt_sink s') x" "rt_rows s' = rt_rows s"
  shows "no_loss s s'"
  using assms unfolding no_loss_def relay_inv_def accounted_def by auto

lemma relay_inv_ex: "relay_inv s \<longleftrightarrow> distinct (map ev_EventID (rt_rows s)) \<and> invar (rt_sink s)
    \<and> \<not> (\<exists>r \<in> set (rt_rows s). ob_delivered_at r \<noteq> None \<and> \<not> stored (rt_sink s) (ev_EventID r))"
  by (auto simp: relay_inv_def undelivered_def)

lemma accounted_ex: "accounted x s \<longleftrightarrow> (\<exists>r \<in> set (rt_rows s). ev_EventID r = x \<and> ob_delivered_at r = None) \<or> stored (rt_sink s) x"
  by (simp add: accounted_def undelivered_def)

lemma no_loss_failure:
  assumes "relay_inv s"
  shows "no_loss s (s\<lparr>rt_rows := recordFailure x cause (rt_rows s)\<rparr>)"
  using assms
    recordFailure_ex [of x cause "rt_rows s" "\<lambda>i d. d \<noteq> None \<and> \<not> stored (rt_sink s) i"]
    recordFailure_ex [of x cause "rt_rows s" "\<lambda>i d. i = y \<and> d = None" for y]
  by (simp add: no_loss_def relay_inv_ex accounted_ex)

lemma no_loss_mark:
  assumes "relay_inv s" "stored (rt_sink s) x"
  shows "no_loss s (s\<lparr>rt_rows := markDelivered t x (rt_rows s)\<rparr>)"
proof -
  have "relay_inv (s\<lparr>rt_rows := markDelivered t x (rt_rows s)\<rparr>)"
    using assms markDelivered_ex [of t x "rt_rows s" "\<lambda>i d. d \<noteq> None \<and> \<not> stored (rt_sink s) i"]
    by (auto simp: relay_inv_ex split: if_splits)
  moreover have "accounted y (s\<lparr>rt_rows := markDelivered t x (rt_rows s)\<rparr>)" if "accounted y s" for y
    using that assms(2) markDelivered_ex [of t x "rt_rows s" "\<lambda>i d. i = y \<and> d = None"]
    by (auto simp: accounted_ex split: if_splits)
  ultimately show ?thesis by (simp add: no_loss_def)
qed

lemma deliverLoop_no_loss:
  "deliverLoop r deliver e j ps n s = (res, s') \<Longrightarrow> relay_inv s \<Longrightarrow> no_loss s s'"
proof (induction ps arbitrary: j n s)
  case Nil
  then show ?case by (simp add: no_loss_refl)
next
  case (Cons p ps)
  obtain err k where d: "deliver (be_deliver_io e j) (pi_Intent p) (rt_sink s) = (err, k)" by fastforce
  have iv: "invar (rt_sink s)" using Cons.prems(2) by (simp add: relay_inv_def)
  have gain: "stored k x" if "stored (rt_sink s) x" for x using deliver_keeps [OF iv that, of "be_deliver_io e j" "pi_Intent p"] d by simp
  have ivk: "invar k" using deliver_invar [OF iv, of "be_deliver_io e j" "pi_Intent p"] d by simp
  show ?case
  proof (cases err)
    case None
    let ?s1 = "ship r (pi_Intent p) (s\<lparr>rt_sink := k\<rparr>)"
    have 1: "no_loss s ?s1" using Cons.prems(2) gain ivk by (intro no_loss_rows) simp_all
    have "stored k (ev_EventID (pi_Intent p))" using d None deliver_stores [OF iv] by blast
    with 1 have 2: "no_loss ?s1 (?s1\<lparr>rt_rows := markDelivered (be_dbnow e) (ev_EventID (pi_Intent p)) (rt_rows ?s1)\<rparr>)"
      by (intro no_loss_mark) (auto simp: no_loss_def)
    then have "no_loss s (?s1\<lparr>rt_rows := markDelivered (be_dbnow e) (ev_EventID (pi_Intent p)) (rt_rows ?s1)\<rparr>)"
      using 1 no_loss_trans by blast
    moreover from this have "relay_inv (?s1\<lparr>rt_rows := markDelivered (be_dbnow e) (ev_EventID (pi_Intent p)) (rt_rows ?s1)\<rparr>)"
      by (simp add: no_loss_def)
    ultimately show ?thesis
      using Cons.prems(1) Cons.IH 1 no_loss_trans by (auto simp: d None Let_def split: if_splits)
  next
    case (Some cause)
    let ?s1 = "s\<lparr>rt_sink := k\<rparr>"
    have 1: "no_loss s ?s1" using Cons.prems(2) gain ivk by (intro no_loss_rows) simp_all
    then have 2: "no_loss ?s1 (?s1\<lparr>rt_rows := recordFailure (ev_EventID (pi_Intent p)) ''delivery failed'' (rt_rows ?s1)\<rparr>)"
      by (intro no_loss_failure) (auto simp: no_loss_def)
    then have "no_loss s (?s1\<lparr>rt_rows := recordFailure (ev_EventID (pi_Intent p)) ''delivery failed'' (rt_rows ?s1)\<rparr>)"
      using 1 no_loss_trans by blast
    moreover from this have "relay_inv (?s1\<lparr>rt_rows := recordFailure (ev_EventID (pi_Intent p)) ''delivery failed'' (rt_rows ?s1)\<rparr>)"
      by (simp add: no_loss_def)
    ultimately show ?thesis
      using Cons.prems(1) Cons.IH 1 no_loss_trans by (auto simp: d Some Let_def split: if_splits)
  qed
qed

lemma DeliverBatch_no_loss:
  assumes "relay_inv s" "rl_sink r = Some deliver \<or> rl_sink r = None"
  shows "no_loss s (snd (DeliverBatch e r s))"
proof -
  have roll: "no_loss s (s'\<lparr>rt_rows := rt_rows s\<rparr>)" if "no_loss s s'" for s'
    using that assms(1) by (intro no_loss_rows) (auto simp: no_loss_def relay_inv_def)
  have fin: "no_loss s (snd (finish_batch cm (rt_rows s) c n s'))" if "no_loss s s'" for cm c n s'
    using that roll by (auto simp: finish_batch_def split: commit_outcome.splits)
  have loop: "no_loss s s'" if "deliverLoop r deliver e 0 ps 0 s = (res, s')" for ps res s'
    using deliverLoop_no_loss [OF that assms(1)] .
  show ?thesis
    using assms(2) roll fin loop no_loss_refl [OF assms(1)]
    by (auto simp: DeliverBatch_def split: sum.splits prod.splits)
qed

lemma cycleLoop_no_loss:
  "relay_inv s \<Longrightarrow> rl_sink r = Some deliver \<or> rl_sink r = None \<Longrightarrow> no_loss s (cycleLoop n i es r s)"
proof (induction n arbitrary: i s)
  case 0
  then show ?case by (simp add: no_loss_refl)
next
  case (Suc n)
  obtain c d err s' where b: "DeliverBatch (es i) r s = ((c, d, err), s')" by (metis prod_cases3 surj_pair)
  then have nl: "no_loss s s'" using DeliverBatch_no_loss [OF Suc.prems] by (metis snd_conv)
  then have "no_loss s (cycleLoop n (i + 1) es r s')" using Suc.IH [of s' "i + 1"] Suc.prems(2) no_loss_trans by (auto simp: no_loss_def)
  with nl b show ?case by simp
qed

lemma no_loss_prune:
  assumes "relay_inv s"
  shows "no_loss s (s\<lparr>rt_rows := snd (PruneDelivered io ob before limit (rt_rows s))\<rparr>)"
proof -
  let ?rows' = "snd (PruneDelivered io ob before limit (rt_rows s))"
  note pr = prune_undelivered [of "rt_rows s" io ob before limit]
  have d: "distinct (map ev_EventID (rt_rows s))" using assms by (simp add: relay_inv_def)
  have "{r \<in> set ?rows'. undelivered r} = {r \<in> set (rt_rows s). undelivered r}" using pr(1) [OF d] by (metis set_filter)
  then have "(\<exists>r \<in> set ?rows'. ev_EventID r = x \<and> undelivered r) \<longleftrightarrow> (\<exists>r \<in> set (rt_rows s). ev_EventID r = x \<and> undelivered r)" for x
    by blast
  with assms pr(2,3) [OF d] show ?thesis by (auto simp: no_loss_def relay_inv_def accounted_def)
qed

lemma no_loss_enqueue:
  assumes "relay_inv s"
  shows "no_loss s (s\<lparr>rt_rows := snd (snd (Enqueue io uuid now ob tx intent (rt_rows s)))\<rparr>)"
  using Enqueue_rows [of io uuid now ob tx intent "rt_rows s"] assms
  by (auto simp: no_loss_def relay_inv_def accounted_def)

lemma RunCycle_no_loss:
  assumes "relay_inv s" "rl_sink r = Some deliver \<or> rl_sink r = None"
  shows "no_loss s (RunCycle c r s)"
proof -
  let ?s' = "cycleLoop defaultRelayMaxBatches 0 (ce_batches c) r s"
  have 1: "no_loss s ?s'" using cycleLoop_no_loss [OF assms] .
  then have inv: "relay_inv ?s'" by (simp add: no_loss_def)
  have "no_loss ?s' (?s'\<lparr>rt_rows := relay_prune (ce_prune_io c) (ce_now c) r (rt_rows ?s')\<rparr>)"
    using no_loss_prune [OF inv] no_loss_refl [OF inv] by (simp add: relay_prune_def Let_def)
  with 1 show ?thesis using no_loss_trans by (simp add: RunCycle_def Let_def)
qed

lemma run_relay_op_no_loss:
  assumes "relay_inv s" "rl_sink r = Some deliver"
  shows "no_loss s (run_relay_op alter r op s)"
proof (cases op)
  case (AlterOp a)
  then show ?thesis using assms(1) alter_keeps alter_invar by (auto simp: relay_inv_def intro!: no_loss_rows)
qed (use assms no_loss_enqueue no_loss_refl DeliverBatch_no_loss RunCycle_no_loss no_loss_prune in auto)

lemma run_relay_ops_no_loss:
  "relay_inv s \<Longrightarrow> rl_sink r = Some deliver \<Longrightarrow> no_loss s (fold (run_relay_op alter r) ops s)"
proof (induction ops arbitrary: s)
  case Nil
  then show ?case by (simp add: no_loss_refl)
next
  case (Cons op ops)
  have 1: "no_loss s (run_relay_op alter r op s)" using run_relay_op_no_loss Cons.prems by blast
  then have "no_loss (run_relay_op alter r op s) (fold (run_relay_op alter r) ops (run_relay_op alter r op s))"
    using Cons by (simp add: no_loss_def)
  with 1 show ?case using no_loss_trans by simp
qed

lemma deliverLoop_healthy:
  assumes "calm e"
  shows "healthy (rt_sink s) \<Longrightarrow> (\<And>p. p \<in> set ps \<Longrightarrow> ev_EventID (pi_Intent p) \<noteq> '''') \<Longrightarrow>
    \<exists>s'. deliverLoop r deliver e j ps n s = (Inr (n + length ps), s') \<and> healthy (rt_sink s')
      \<and> rt_rows s' = fold (markDelivered (be_dbnow e)) (map (\<lambda>p. ev_EventID (pi_Intent p)) ps) (rt_rows s)"
proof (induction ps arbitrary: j n s)
  case Nil
  then show ?case by simp
next
  case (Cons p ps)
  have io: "be_deliver_io e j = no_faults" "be_io e = no_faults" using assms by (simp_all add: calm_def)
  obtain k where k: "deliver no_faults (pi_Intent p) (rt_sink s) = (None, k)" "healthy k"
    using healthy_delivers [OF Cons.prems(1), of "pi_Intent p"] Cons.prems(2) [of p]
    by (cases "deliver no_faults (pi_Intent p) (rt_sink s)") auto
  let ?s2 = "(ship r (pi_Intent p) (s\<lparr>rt_sink := k\<rparr>))\<lparr>rt_rows := markDelivered (be_dbnow e) (ev_EventID (pi_Intent p)) (rt_rows s)\<rparr>"
  have "healthy (rt_sink ?s2)" using k(2) by simp
  from Cons.IH [OF this Cons.prems(2), of "Suc j" "Suc n"]
  obtain s' where "deliverLoop r deliver e (Suc j) ps (Suc n) ?s2 = (Inr (Suc n + length ps), s')" "healthy (rt_sink s')"
    "rt_rows s' = fold (markDelivered (be_dbnow e)) (map (\<lambda>p. ev_EventID (pi_Intent p)) ps) (rt_rows ?s2)" by auto
  then show ?case by (simp add: k(1) io)
qed

definition drainable :: "'k relay_state \<Rightarrow> bool" where
  "drainable s \<longleftrightarrow> healthy (rt_sink s) \<and> distinct (map ev_EventID (rt_rows s)) \<and> (\<forall>r \<in> set (rt_rows s). ev_EventID r \<noteq> '''')"

lemma nonempty_ids: "map ev_EventID rows' = map ev_EventID rows \<Longrightarrow> (\<forall>r \<in> set rows. ev_EventID r \<noteq> '''') \<Longrightarrow> \<forall>r \<in> set rows'. ev_EventID r \<noteq> ''''"
  by (metis (no_types, lifting) image_iff list.set_map)

lemma DeliverBatch_drains:
  assumes "calm e" "drainable s" "rl_sink r = Some deliver" "\<not> no_outbox (rl_outbox r)"
  shows "\<exists>n s'. DeliverBatch e r s = ((n, n, None), s') \<and> drainable s' \<and> n = min (nat (batchSize (rl_cfg r))) (length (claimable {} (rt_rows s)))
    \<and> claimable {} (rt_rows s') = drop (nat (batchSize (rl_cfg r))) (claimable {} (rt_rows s))"
proof -
  let ?b = "nat (batchSize (rl_cfg r))" and ?q = "claimable {} (rt_rows s)"
  let ?ps = "map (\<lambda>r. \<lparr>pi_Intent = intent_of r, pi_Attempts = ob_attempts r\<rparr>) (take ?b ?q)"
  have bad: "\<forall>p \<in> set ?ps. ev_EventID (pi_Intent p) \<noteq> ''''"
    using assms(2) by (auto simp: drainable_def set_claimable dest!: in_set_takeD)
  have "healthy (rt_sink s)" using assms(2) by (simp add: drainable_def)
  from deliverLoop_healthy [OF assms(1) this, of ?ps r 0 0] bad
  obtain s' where loop: "deliverLoop r deliver e 0 ?ps 0 s = (Inr (length ?ps), s')" "healthy (rt_sink s')"
    and rows: "rt_rows s' = fold (markDelivered (be_dbnow e)) (map (\<lambda>p. ev_EventID (pi_Intent p)) ?ps) (rt_rows s)" by auto
  have rows: "rt_rows s' = fold (markDelivered (be_dbnow e)) (map ev_EventID (take ?b ?q)) (rt_rows s)"
    using rows by (simp add: o_def)
  have dist: "distinct (map ev_EventID (rt_rows s))" using assms(2) by (simp add: drainable_def)
  have ids: "map ev_EventID (rt_rows s') = map ev_EventID (rt_rows s)" unfolding rows by (rule map_marks)
  have dr: "drainable s'" using assms(2) loop(2) dist ids nonempty_ids [OF ids] by (simp add: drainable_def)
  have q': "claimable {} (rt_rows s') = drop ?b ?q" unfolding rows using dist by (rule claimable_marked)
  have e: "be_io e 0 = False" "be_commit e = Committed" using assms(1) by (simp_all add: calm_def)
  show ?thesis
  proof (cases "?ps = []")
    case True
    then have "?q = []" using batchSize_pos [of "rl_cfg r"] by simp
    then have "DeliverBatch e r s = ((0, 0, None), s)" using assms e
      by (simp add: DeliverBatch_def claim_calm finish_batch_def)
    with \<open>?q = []\<close> assms(2) show ?thesis by simp
  next
    case False
    then have "DeliverBatch e r s = ((length ?ps, length ?ps, None), s')" using assms e loop(1)
      by (auto simp: DeliverBatch_def claim_calm finish_batch_def min_def split: if_splits)
    with dr q' show ?thesis by (auto simp: min.commute)
  qed
qed

lemma cycleLoop_drains:
  assumes "\<And>j. calm (es j)" "rl_sink r = Some deliver" "\<not> no_outbox (rl_outbox r)"
  shows "drainable s \<Longrightarrow> drainable (cycleLoop n i es r s)
    \<and> claimable {} (rt_rows (cycleLoop n i es r s)) = drop (n * nat (batchSize (rl_cfg r))) (claimable {} (rt_rows s))"
proof (induction n arbitrary: i s)
  case 0
  then show ?case by simp
next
  case (Suc n)
  let ?b = "nat (batchSize (rl_cfg r))" and ?q = "claimable {} (rt_rows s)"
  obtain m s' where b: "DeliverBatch (es i) r s = ((m, m, None), s')" "drainable s'" "m = min ?b (length ?q)"
    "claimable {} (rt_rows s') = drop ?b ?q"
    using DeliverBatch_drains [OF assms(1) Suc.prems assms(2,3)] by blast
  show ?case
  proof (cases "int m < batchSize (rl_cfg r)")
    case True
    then have "length ?q \<le> ?b" using b(3) batchSize_pos [of "rl_cfg r"] by linarith
    then show ?thesis using True b by simp
  next
    case False
    then have "cycleLoop (Suc n) i es r s = cycleLoop n (i + 1) es r s'" using b(1) by simp
    with Suc.IH [OF b(2), of "i + 1"] b(4) show ?thesis by (simp add: add.commute)
  qed
qed

lemma RunCycle_drains:
  assumes "\<And>j. calm (ce_batches c j)" "rl_sink r = Some deliver" "\<not> no_outbox (rl_outbox r)" "drainable s"
  shows "drainable (RunCycle c r s)"
    "claimable {} (rt_rows (RunCycle c r s)) = drop (defaultRelayMaxBatches * nat (batchSize (rl_cfg r))) (claimable {} (rt_rows s))"
proof -
  let ?s' = "cycleLoop defaultRelayMaxBatches 0 (ce_batches c) r s"
  note cl = cycleLoop_drains [OF assms(1-3) assms(4), where n = defaultRelayMaxBatches and i = 0]
  have d: "distinct (map ev_EventID (rt_rows ?s'))" using cl by (simp add: drainable_def)
  let ?rows' = "relay_prune (ce_prune_io c) (ce_now c) r (rt_rows ?s')"
  have pr: "filter undelivered ?rows' = filter undelivered (rt_rows ?s')" "set ?rows' \<subseteq> set (rt_rows ?s')" "distinct (map ev_EventID ?rows')"
    using prune_undelivered [OF d] d by (auto simp: relay_prune_def Let_def)
  show "drainable (RunCycle c r s)" using cl pr by (auto simp: drainable_def RunCycle_def Let_def)
  show "claimable {} (rt_rows (RunCycle c r s)) = drop (defaultRelayMaxBatches * nat (batchSize (rl_cfg r))) (claimable {} (rt_rows s))"
    using cl pr(1) by (simp add: RunCycle_def Let_def claimable_empty)
qed

lemma cycles_drain:
  assumes "\<And>c j. c \<in> set cs \<Longrightarrow> calm (ce_batches c j)" "rl_sink r = Some deliver" "\<not> no_outbox (rl_outbox r)" "drainable s"
  shows "claimable {} (rt_rows (fold (\<lambda>c. RunCycle c r) cs s))
    = drop (length cs * (defaultRelayMaxBatches * nat (batchSize (rl_cfg r)))) (claimable {} (rt_rows s))"
  using assms(1,4)
proof (induction cs arbitrary: s)
  case Nil
  then show ?case by simp
next
  case (Cons c cs)
  have "\<And>j. calm (ce_batches c j)" using Cons.prems(1) by simp
  note rc = RunCycle_drains [OF this assms(2,3) Cons.prems(2)]
  have "claimable {} (rt_rows (fold (\<lambda>c. RunCycle c r) cs (RunCycle c r s)))
    = drop (length cs * (defaultRelayMaxBatches * nat (batchSize (rl_cfg r)))) (claimable {} (rt_rows (RunCycle c r s)))"
    using Cons.IH [of "RunCycle c r s"] Cons.prems(1) rc(1) by simp
  then show ?case unfolding rc(2) by (simp add: add.commute)
qed

end

subsection \<open>The table sink is durable\<close>

definition alter_destination :: "catalog_entry option \<Rightarrow> TableSink option \<times> destination \<Rightarrow> TableSink option \<times> destination" where
  "alter_destination c w = (fst w, (snd w)\<lparr>ds_catalog := c\<rparr>)"

interpretation table_sink: durable_sink Deliver alter_destination dest_stored sink_ok sink_healthy
proof
  fix io i and k k' :: "TableSink option \<times> destination" and x a
  show "dest_stored k' (ev_EventID i)" if "sink_ok k" "Deliver io i k = (None, k')"
    using Deliver_cases(2) [OF that] by simp
  show "sink_ok (snd (Deliver io i k))" if "sink_ok k"
    using Deliver_cases(1) [OF that] by (metis prod.collapse)
  show "sink_ok (alter_destination a k)" if "sink_ok k"
    using that by (simp add: sink_ok_def alter_destination_def)
  show "dest_stored (snd (Deliver io i k)) x" if "sink_ok k" "dest_stored k x"
    using Deliver_cases(3) [OF that(1), of io i "fst (Deliver io i k)" "snd (Deliver io i k)"] that(2)
    by (auto simp: dest_stored_def)
  show "dest_stored (alter_destination a k) x" if "dest_stored k x"
    using that by (simp add: dest_stored_def alter_destination_def)
  show "fst (Deliver no_faults i k) = None \<and> sink_healthy (snd (Deliver no_faults i k))" if "sink_healthy k" "ev_EventID i \<noteq> ''''"
    using healthy_Deliver [OF that] .
qed

subsection \<open>No audit record is lost, and none is delivered twice\<close>

text \<open>The consistent states: ids are unique, every row marked delivered is in the destination.\<close>

definition outbox_consistent :: "(TableSink option \<times> destination) relay_state \<Rightarrow> bool" where
  "outbox_consistent s \<longleftrightarrow> distinct (map ev_EventID (rt_rows s)) \<and> sink_ok (rt_sink s)
     \<and> list_all (\<lambda>r. undelivered r \<or> dest_stored (rt_sink s) (ev_EventID r)) (rt_rows s)"

lemma outbox_consistent_inv: "outbox_consistent s \<longleftrightarrow> table_sink.relay_inv s"
  by (auto simp: outbox_consistent_def table_sink.relay_inv_def list_all_iff)

text \<open>How many rows of the destination carry an id.\<close>

definition copies :: "string \<Rightarrow> TableSink option \<times> destination \<Rightarrow> nat" where
  "copies x w = length (filter (\<lambda>row. row_id row = Some x) (ds_rows (snd w)))"

lemma count_distinct: "distinct xs \<Longrightarrow> length (filter (\<lambda>y. y = x) xs) = (if x \<in> set xs then 1 else 0)"
  by (induction xs) auto

lemma copies_one:
  assumes "sink_ok w"
  shows "copies x w = (if dest_stored w x then 1 else 0)"
proof -
  have "copies x w = length (filter (\<lambda>i. i = Some x) (map row_id (ds_rows (snd w))))"
    by (simp add: copies_def filter_map o_def)
  also have "\<dots> = (if Some x \<in> set (map row_id (ds_rows (snd w))) then 1 else 0)"
    using assms by (intro count_distinct) (simp add: sink_ok_def)
  also have "Some x \<in> set (map row_id (ds_rows (snd w))) \<longleftrightarrow> dest_stored w x"
    by (auto simp: dest_stored_def image_iff eq_commute [of "Some x"])
  finally show ?thesis .
qed

text \<open>
  C4: no audit record is lost and none is delivered twice. Take any consistent outbox and an event in it. After any
  sequence of mutations enqueuing further intents, relay batches and cycles (with failing driver calls, failing deliveries,
  commits that roll back or whose acknowledgement is lost, and rows held by other relays), prunes and changes of the
  destination's columns, the state is consistent, and the event is still waiting in the outbox or is in the destination
  exactly once; and no event is ever in the destination more than once.
\<close>

theorem no_audit_record_lost:
  assumes "outbox_consistent s" "rl_sink r = Some Deliver" "row \<in> set (rt_rows s)"
    and "s' = fold (run_relay_op alter_destination r) ops s"
  shows "outbox_consistent s'
    \<and> ((\<exists>row' \<in> set (rt_rows s'). ev_EventID row' = ev_EventID row \<and> undelivered row') \<or> copies (ev_EventID row) (rt_sink s') = 1)
    \<and> copies x (rt_sink s') \<le> 1"
proof -
  have inv: "table_sink.relay_inv s" using assms(1) by (simp add: outbox_consistent_inv)
  then have nl: "table_sink.no_loss s s'" using table_sink.run_relay_ops_no_loss [OF inv assms(2)] assms(4) by simp
  then have c: "outbox_consistent s'" by (simp add: outbox_consistent_inv table_sink.no_loss_def)
  then have ok: "sink_ok (rt_sink s')" by (simp add: outbox_consistent_def)
  have "table_sink.accounted (ev_EventID row) s'"
    using table_sink.accountedI [OF inv assms(3)] nl by (simp add: table_sink.no_loss_def)
  then show ?thesis using c copies_one [OF ok] by (auto simp: table_sink.accounted_def)
qed

definition ex_intent :: Intent where
  "ex_intent = \<lparr>ev_EventID = ''e1'', ev_OccurredAt = 5, ev_Action = ''admin.grant'', ev_ActorUserID = None, ev_ActorEmail = None,
     ev_OrganizationID = None, ev_ResourceType = None, ev_ResourceID = None, ev_IPAddress = None, in_Metadata = None\<rparr>"

definition ex_sink :: "TableSink option \<times> destination" where
  "ex_sink = (Some \<lparr>sk_hasDB = True, sk_table = \<lparr>tb_schema = '''', tb_name = ''audit_logs''\<rparr>, sk_stmt = None, sk_resolved = ''''\<rparr>,
     \<lparr>ds_catalog = Some \<lparr>ct_schema = ''public'', ct_columns = [''id'', ''action'', ''created_at'']\<rparr>, ds_rows = []\<rparr>)"

definition ex_relay :: "(TableSink option \<times> destination) Relay" where
  "ex_relay = \<lparr>rl_outbox = Some \<lparr>ox_hasDB = True, ox_table = \<lparr>tb_schema = '''', tb_name = ''audit_outbox''\<rparr>\<rparr>, rl_sink = Some Deliver,
     rl_shipper = False, rl_cfg = \<lparr>rc_PollInterval = 0, rc_BatchSize = 0, rc_BacklogWarn = 0, rc_RetainDelivered = 0\<rparr>\<rparr>"

definition ex_env :: "commit_outcome \<Rightarrow> batch_env" where
  "ex_env cm = \<lparr>be_io = no_faults, be_deliver_io = (\<lambda>_. no_faults), be_commit = cm, be_dbnow = 9, be_locked = {}\<rparr>"

definition ex_state :: "(TableSink option \<times> destination) relay_state" where
  "ex_state = \<lparr>rt_rows = [outbox_row 7 None ex_intent], rt_sink = ex_sink, rt_shipped = []\<rparr>"

lemma ex_state_rows [simp]: "rt_rows ex_state = [outbox_row 7 None ex_intent]" "undelivered (outbox_row 7 None ex_intent)"
  "ev_EventID (outbox_row 7 None ex_intent) = ''e1''"
  by (simp_all add: ex_state_def undelivered_def outbox_row_def ex_intent_def)

lemma ex_state_consistent: "outbox_consistent ex_state"
  by (simp add: outbox_consistent_def sink_ok_def) (simp add: ex_state_def ex_sink_def)

theorem no_audit_record_lost_witness:
  "copies ''e1'' (rt_sink (fold (run_relay_op alter_destination ex_relay) [BatchOp (ex_env RolledBack), BatchOp (ex_env Unacknowledged)] ex_state)) \<le> 1"
proof -
  have "rl_sink ex_relay = Some Deliver" by (simp add: ex_relay_def)
  from no_audit_record_lost [OF ex_state_consistent this, of "outbox_row 7 None ex_intent" _
      "[BatchOp (ex_env RolledBack), BatchOp (ex_env Unacknowledged)]" "''e1''"]
  show ?thesis by simp
qed

text \<open>
  Redelivery is idempotent. Once an event has been delivered, its row holds the values of the planned columns, and any
  further delivery of an intent with that id, successful or not, leaves the destination's rows as they are.
\<close>

theorem Deliver_idempotent:
  assumes "sink_ok w" "Deliver io i w = (None, w')" "Deliver io' i' w' = (err, w'')" "ev_EventID i' = ev_EventID i"
  shows "ds_rows (snd w'') = ds_rows (snd w') \<and> copies (ev_EventID i) w'' = 1
    \<and> (dest_stored w (ev_EventID i) \<or>
       (\<exists>row names. ds_rows (snd w') = ds_rows (snd w) @ [row] \<and> ''action'' \<in> set names
          \<and> (\<forall>n. row n = (if n \<in> set names then (case column_value (io 4) n i of Inr v \<Rightarrow> Some v | Inl _ \<Rightarrow> None) else None))))"
proof -
  note d1 = Deliver_cases [OF assms(1,2)]
  note d2 = Deliver_cases [OF d1(1) assms(3)]
  have rows: "ds_rows (snd w'') = ds_rows (snd w')" using d1(2) d2(3) assms(4) by auto
  then have "copies (ev_EventID i) w'' = 1"
    using copies_one [OF d1(1), of "ev_EventID i"] d1(2) by (simp add: copies_def)
  moreover have same: "dest_stored w (ev_EventID i)" if "ds_rows (snd w') = ds_rows (snd w)"
    using that d1(2) by (simp add: dest_stored_def)
  moreover have "dest_stored w (ev_EventID i) \<or>
       (\<exists>row names. ds_rows (snd w') = ds_rows (snd w) @ [row] \<and> ''action'' \<in> set names
          \<and> (\<forall>n. row n = (if n \<in> set names then (case column_value (io 4) n i of Inr v \<Rightarrow> Some v | Inl _ \<Rightarrow> None) else None)))"
    using same d1(3) by blast
  ultimately show ?thesis using rows by blast
qed

lemma ex_sink_healthy: "sink_healthy ex_sink" "sink_ok ex_sink"
  by (auto simp: sink_healthy_def sink_ok_def ex_sink_def)

theorem Deliver_idempotent_witness:
  "\<exists>w' w''. Deliver no_faults ex_intent ex_sink = (None, w') \<and> Deliver no_faults ex_intent w' = (None, w'')
     \<and> ds_rows (snd w'') = ds_rows (snd w') \<and> copies ''e1'' w'' = 1"
proof -
  have id: "ev_EventID ex_intent = ''e1''" by (simp add: ex_intent_def)
  obtain w' where d: "Deliver no_faults ex_intent ex_sink = (None, w')" "sink_healthy w'"
    using healthy_Deliver [OF ex_sink_healthy(1), of ex_intent] id by (cases "Deliver no_faults ex_intent ex_sink") auto
  obtain w'' where d': "Deliver no_faults ex_intent w' = (None, w'')"
    using healthy_Deliver [OF d(2), of ex_intent] id by (cases "Deliver no_faults ex_intent w'") auto
  from Deliver_idempotent [OF ex_sink_healthy(2) d(1) d'] d(1) d' id show ?thesis by (intro exI [of _ w'] exI [of _ w'']) simp
qed

subsection \<open>The backlog drains\<close>

text \<open>
  C21: a healthy relay drains its backlog. With working calls and a healthy destination, every cycle removes the ten oldest
  batches from the queue, so enough cycles leave nothing pending, and every event that was in the outbox is in the destination.
\<close>

theorem relay_drains:
  assumes "outbox_consistent s" "sink_healthy (rt_sink s)" "\<not> no_outbox (rl_outbox r)" "rl_sink r = Some Deliver"
    and "list_all (\<lambda>row. ev_EventID row \<noteq> '''') (rt_rows s)"
    and "\<And>c j. c \<in> set cs \<Longrightarrow> calm (ce_batches c j)"
    and "Start r cs s = (res, s')"
  shows "res = Inr () \<and> claimable {} (rt_rows s') = drop (length cs * (10 * nat (batchSize (rl_cfg r)))) (claimable {} (rt_rows s))
    \<and> (length (filter undelivered (rt_rows s)) \<le> length cs * (10 * nat (batchSize (rl_cfg r))) \<longrightarrow>
        list_all (\<lambda>row. \<not> undelivered row) (rt_rows s') \<and> list_all (\<lambda>row. copies (ev_EventID row) (rt_sink s') = 1) (rt_rows s))"
proof -
  have s': "res = Inr ()" "s' = fold (\<lambda>c. RunCycle c r) cs s" using assms(3,4,7) by (auto simp: Start_def)
  have dr: "table_sink.drainable s"
    using assms(1,2,5) by (simp add: table_sink.drainable_def outbox_consistent_def list_all_iff)
  have q: "claimable {} (rt_rows s') = drop (length cs * (10 * nat (batchSize (rl_cfg r)))) (claimable {} (rt_rows s))"
    using table_sink.cycles_drain [OF assms(6,4,3) dr] s'(2) by (simp add: defaultRelayMaxBatches_def)
  have "fold (\<lambda>c. RunCycle c r) cs s = fold (run_relay_op alter_destination r) (map CycleOp cs) s"
    by (induction cs arbitrary: s) simp_all
  then have nl: "table_sink.no_loss s s'"
    using table_sink.run_relay_ops_no_loss [OF _ assms(4), of s "map CycleOp cs"] assms(1) s'(2)
    by (simp add: outbox_consistent_inv)
  have "list_all (\<lambda>row. \<not> undelivered row) (rt_rows s') \<and> list_all (\<lambda>row. copies (ev_EventID row) (rt_sink s') = 1) (rt_rows s)"
    if le: "length (filter undelivered (rt_rows s)) \<le> length cs * (10 * nat (batchSize (rl_cfg r)))"
  proof -
    have "claimable {} (rt_rows s') = []" using q le by (simp add: claimable_empty queue_order_def)
    then have none: "\<not> undelivered row" if "row \<in> set (rt_rows s')" for row
      using that set_claimable [of "{}" "rt_rows s'"] by auto
    have ok: "sink_ok (rt_sink s')" using nl by (simp add: table_sink.no_loss_def table_sink.relay_inv_def)
    have "copies (ev_EventID row) (rt_sink s') = 1" if "row \<in> set (rt_rows s)" for row
    proof -
      have "table_sink.accounted (ev_EventID row) s'"
        using nl that table_sink.accountedI assms(1) by (simp add: table_sink.no_loss_def outbox_consistent_inv)
      then show ?thesis using none copies_one [OF ok] by (auto simp: table_sink.accounted_def)
    qed
    with none show ?thesis by (simp add: list_all_iff)
  qed
  with s'(1) q show ?thesis by blast
qed

definition ex_cycle :: cycle_env where
  "ex_cycle = \<lparr>ce_batches = (\<lambda>_. ex_env Committed), ce_prune_io = no_faults, ce_now = 9\<rparr>"

theorem relay_drains_witness:
  "\<exists>s'. Start ex_relay [ex_cycle] ex_state = (Inr (), s') \<and> list_all (\<lambda>row. \<not> undelivered row) (rt_rows s') \<and> copies ''e1'' (rt_sink s') = 1"
proof -
  obtain res s' where st: "Start ex_relay [ex_cycle] ex_state = (res, s')" by fastforce
  have "calm (ce_batches c j)" if "c \<in> set [ex_cycle]" for c j using that by (simp add: ex_cycle_def calm_def ex_env_def)
  moreover have "sink_healthy (rt_sink ex_state)" using ex_sink_healthy by (simp add: ex_state_def)
  moreover have "\<not> no_outbox (rl_outbox ex_relay)" "rl_sink ex_relay = Some Deliver" by (simp_all add: ex_relay_def no_outbox_def)
  ultimately show ?thesis
    using relay_drains [OF ex_state_consistent, of ex_relay "[ex_cycle]" res s'] st
    by (simp add: batchSize_def ex_relay_def defaultRelayBatchSize_def)
qed

subsection \<open>A batch of undeliverable intents blocks the queue\<close>

lemma insort_key_map:
  "(\<And>x. f (g x) = f x) \<Longrightarrow> insort_key f (g x) (map g xs) = map g (insort_key f x xs)"
  by (induction xs) auto

lemma sort_key_map: "(\<And>x. f (g x) = f x) \<Longrightarrow> sort_key f (map g xs) = map g (sort_key f xs)"
  by (induction xs) (simp_all add: insort_key_map)

text \<open>An update that keeps the event and the delivery mark keeps the queue.\<close>

lemma claimable_map:
  assumes "\<And>r. intent_of (g r) = intent_of r \<and> ob_delivered_at (g r) = ob_delivered_at r"
  shows "map intent_of (claimable locked (map g rows)) = map intent_of (claimable locked rows)"
proof -
  have ev: "ev_OccurredAt (g r) = ev_OccurredAt r" "ev_EventID (g r) = ev_EventID r" for r
  proof -
    from assms [of r] have "ev_OccurredAt (intent_of (g r)) = ev_OccurredAt (intent_of r)" by simp
    then show "ev_OccurredAt (g r) = ev_OccurredAt r" by (simp add: intent_of_def)
    from assms [of r] show "ev_EventID (g r) = ev_EventID r" by (metis intent_of_id)
  qed
  have "filter (\<lambda>r. undelivered r \<and> ev_EventID r \<notin> locked) (map g rows) = map g (filter (\<lambda>r. undelivered r \<and> ev_EventID r \<notin> locked) rows)"
    using assms by (simp add: filter_map o_def undelivered_def ev)
  then show ?thesis using assms ev by (simp add: claimable_def queue_order_def sort_key_map o_def)
qed

lemma recordFailure_map:
  "\<exists>g. (\<forall>r. intent_of (g r) = intent_of r \<and> ob_delivered_at (g r) = ob_delivered_at r) \<and> recordFailure x cause rows = map g rows"
  unfolding recordFailure_def
  by (rule exI [of _ "\<lambda>r. if ev_EventID r = x then r\<lparr>ob_attempts := ob_attempts r + 1, ob_last_error := Some cause\<rparr> else r"])
    (simp add: intent_of_def)

lemma deliverLoop_refused:
  "(\<And>p io k. p \<in> set ps \<Longrightarrow> fst (deliver io (pi_Intent p) k) \<noteq> None) \<Longrightarrow> deliverLoop r deliver e j ps n s = (res, s') \<Longrightarrow>
    map intent_of (claimable locked (rt_rows s')) = map intent_of (claimable locked (rt_rows s))"
proof (induction ps arbitrary: j n s)
  case Nil
  then show ?case by simp
next
  case (Cons p ps)
  obtain cause k where d: "deliver (be_deliver_io e j) (pi_Intent p) (rt_sink s) = (Some cause, k)"
    using Cons.prems(1) [of p "be_deliver_io e j" "rt_sink s"] by (cases "deliver (be_deliver_io e j) (pi_Intent p) (rt_sink s)") auto
  let ?s2 = "s\<lparr>rt_sink := k, rt_rows := recordFailure (ev_EventID (pi_Intent p)) ''delivery failed'' (rt_rows s)\<rparr>"
  have "map intent_of (claimable locked (rt_rows ?s2)) = map intent_of (claimable locked (rt_rows s))"
    using recordFailure_map [of "ev_EventID (pi_Intent p)" "''delivery failed''" "rt_rows s"] claimable_map by auto
  moreover have "rt_rows s' = rt_rows s \<or> deliverLoop r deliver e (Suc j) ps n ?s2 = (res, s')"
    using Cons.prems(2) d by (auto simp: Let_def split: if_splits)
  ultimately show ?case using Cons.IH Cons.prems(1) by (metis list.set_intros(2))
qed

lemma claim_intents:
  assumes "claim io locked limit rows = Inr ps"
  shows "map pi_Intent ps = take (nat limit) (map intent_of (claimable locked rows))"
  using assms by (auto simp: claim_def paginate_def take_map o_def split: if_splits)

lemma DeliverBatch_refused:
  assumes "rl_sink r = Some deliver" "be_locked e = {}"
    and "\<And>i io k. i \<in> set (take (nat (batchSize (rl_cfg r))) (map intent_of (claimable {} (rt_rows s)))) \<Longrightarrow> fst (deliver io i k) \<noteq> None"
  shows "map intent_of (claimable {} (rt_rows (snd (DeliverBatch e r s)))) = map intent_of (claimable {} (rt_rows s))"
proof -
  have loop: "map intent_of (claimable {} (rt_rows s')) = map intent_of (claimable {} (rt_rows s))"
    if c: "claim (be_io e) {} (batchSize (rl_cfg r)) (rt_rows s) = Inr ps" and l: "deliverLoop r deliver e 0 ps 0 s = (res, s')" for ps res s'
  proof -
    have "pi_Intent p \<in> set (take (nat (batchSize (rl_cfg r))) (map intent_of (claimable {} (rt_rows s))))" if "p \<in> set ps" for p
      using that claim_intents [OF c] by (metis image_eqI list.set_map)
    then show ?thesis using deliverLoop_refused [OF _ l] assms(3) by blast
  qed
  have fin: "rt_rows (snd (finish_batch cm (rt_rows s) a b s')) \<in> {rt_rows s, rt_rows s'}" for cm a b s'
    by (simp add: finish_batch_def split: commit_outcome.splits)
  show ?thesis
  proof (cases "claim (be_io e) {} (batchSize (rl_cfg r)) (rt_rows s)")
    case (Inl err)
    then show ?thesis using assms(1,2) by (simp add: DeliverBatch_def)
  next
    case (Inr ps)
    obtain res s' where l: "deliverLoop r deliver e 0 ps 0 s = (res, s')" by fastforce
    have "rt_rows (snd (DeliverBatch e r s)) \<in> {rt_rows s, rt_rows s'}"
      using fin [of "be_commit e" 0 0 s] fin [of "be_commit e" "length ps" _ s'] assms(1,2) Inr l
      by (simp add: DeliverBatch_def split: sum.splits)
    with loop [OF Inr l] show ?thesis by auto
  qed
qed

lemma cycleLoop_refused:
  assumes "rl_sink r = Some deliver" "\<And>j. be_locked (es j) = {}"
  shows "(\<And>i io k. i \<in> set (take (nat (batchSize (rl_cfg r))) (map intent_of (claimable {} (rt_rows s)))) \<Longrightarrow> fst (deliver io i k) \<noteq> None) \<Longrightarrow>
    map intent_of (claimable {} (rt_rows (cycleLoop n i es r s))) = map intent_of (claimable {} (rt_rows s))"
proof (induction n arbitrary: i s)
  case 0
  then show ?case by simp
next
  case (Suc n)
  obtain c d err s' where b: "DeliverBatch (es i) r s = ((c, d, err), s')" by (metis prod_cases3 surj_pair)
  have q: "map intent_of (claimable {} (rt_rows s')) = map intent_of (claimable {} (rt_rows s))"
    using DeliverBatch_refused [of r deliver "es i" s, OF assms(1) assms(2)] Suc.prems b by (metis snd_conv)
  then have "map intent_of (claimable {} (rt_rows (cycleLoop n (i + 1) es r s'))) = map intent_of (claimable {} (rt_rows s))"
    using Suc.IH [of s' "i + 1"] Suc.prems by simp
  with q b show ?case by simp
qed

text \<open>
  The limit of the relay's progress. If the sink refuses each of the oldest \<open>BatchSize\<close> pending intents whenever it
  is asked, then no number of cycles, with or without failing calls, moves the queue: it holds the same intents in the same
  order, including any deliverable ones behind the refused batch.
\<close>

theorem refused_batch_blocks_queue:
  assumes "rl_sink r = Some deliver" "distinct (map ev_EventID (rt_rows s))"
    and "\<And>c j. c \<in> set cs \<Longrightarrow> be_locked (ce_batches c j) = {}"
    and "\<And>i io k. i \<in> set (take (nat (batchSize (rl_cfg r))) (map intent_of (claimable {} (rt_rows s)))) \<Longrightarrow> fst (deliver io i k) \<noteq> None"
  shows "map intent_of (claimable {} (rt_rows (fold (\<lambda>c. RunCycle c r) cs s))) = map intent_of (claimable {} (rt_rows s))"
  using assms(2-4)
proof (induction cs arbitrary: s)
  case Nil
  then show ?case by simp
next
  case (Cons c cs)
  let ?s1 = "cycleLoop defaultRelayMaxBatches 0 (ce_batches c) r s"
  have ids: "map ev_EventID (rt_rows ?s1) = map ev_EventID (rt_rows s)" by (rule cycleLoop_ids)
  have d1: "distinct (map ev_EventID (rt_rows ?s1))" unfolding ids by (rule Cons.prems(1))
  have q1: "map intent_of (claimable {} (rt_rows ?s1)) = map intent_of (claimable {} (rt_rows s))"
    by (rule cycleLoop_refused [OF assms(1)]) (use Cons.prems(2,3) in auto)
  have "filter undelivered (rt_rows (RunCycle c r s)) = filter undelivered (rt_rows ?s1)" "distinct (map ev_EventID (rt_rows (RunCycle c r s)))"
    using prune_undelivered [OF d1] d1 by (auto simp: RunCycle_def relay_prune_def Let_def)
  with q1 have q: "map intent_of (claimable {} (rt_rows (RunCycle c r s))) = map intent_of (claimable {} (rt_rows s))"
    and d: "distinct (map ev_EventID (rt_rows (RunCycle c r s)))" by (simp_all add: claimable_empty)
  have "map intent_of (claimable {} (rt_rows (fold (\<lambda>c. RunCycle c r) cs (RunCycle c r s)))) = map intent_of (claimable {} (rt_rows (RunCycle c r s)))"
    by (rule Cons.IH [OF d]) (use Cons.prems(2,3) q in auto)
  with q show ?case by simp
qed

definition ex_refusing :: "nat sink" where
  "ex_refusing io i k = (if ev_EventID i = ''e1'' then (Some (OutboxFailed ''refused''), k) else (None, k + 1))"

definition ex_blocked :: "nat relay_state" where
  "ex_blocked = \<lparr>rt_rows = [outbox_row 7 None ex_intent, outbox_row 7 None (ex_intent\<lparr>ev_EventID := ''e2'', ev_OccurredAt := 6\<rparr>)],
     rt_sink = 0, rt_shipped = []\<rparr>"

definition ex_narrow_relay :: "nat Relay" where
  "ex_narrow_relay = \<lparr>rl_outbox = Some \<lparr>ox_hasDB = True, ox_table = \<lparr>tb_schema = '''', tb_name = ''audit_outbox''\<rparr>\<rparr>, rl_sink = Some ex_refusing,
     rl_shipper = False, rl_cfg = \<lparr>rc_PollInterval = 0, rc_BatchSize = 1, rc_BacklogWarn = 0, rc_RetainDelivered = 0\<rparr>\<rparr>"

lemma ex_blocked_queue: "map intent_of (claimable {} (rt_rows ex_blocked)) = [ex_intent, ex_intent\<lparr>ev_EventID := ''e2'', ev_OccurredAt := 6\<rparr>]"
  by (simp add: ex_blocked_def claimable_def queue_order_def undelivered_def outbox_row_def ex_intent_def intent_of_def read_metadata_def)

theorem refused_batch_blocks_queue_witness:
  "map intent_of (claimable {} (rt_rows (fold (\<lambda>c. RunCycle c ex_narrow_relay) [ex_cycle, ex_cycle] ex_blocked)))
     = [ex_intent, ex_intent\<lparr>ev_EventID := ''e2'', ev_OccurredAt := 6\<rparr>]
   \<and> ex_refusing no_faults (ex_intent\<lparr>ev_EventID := ''e2'', ev_OccurredAt := 6\<rparr>) 0 = (None, 1)"
proof
  have "batchSize (rl_cfg ex_narrow_relay) = 1" by (simp add: batchSize_def ex_narrow_relay_def)
  moreover have "fst (ex_refusing io ex_intent k) \<noteq> None" for io k by (simp add: ex_refusing_def ex_intent_def)
  moreover have "distinct (map ev_EventID (rt_rows ex_blocked))" by (simp add: ex_blocked_def outbox_row_def ex_intent_def)
  ultimately show "map intent_of (claimable {} (rt_rows (fold (\<lambda>c. RunCycle c ex_narrow_relay) [ex_cycle, ex_cycle] ex_blocked)))
     = [ex_intent, ex_intent\<lparr>ev_EventID := ''e2'', ev_OccurredAt := 6\<rparr>]"
    using refused_batch_blocks_queue [of ex_narrow_relay ex_refusing ex_blocked "[ex_cycle, ex_cycle]"]
    by (simp add: ex_blocked_queue ex_narrow_relay_def ex_cycle_def ex_env_def)
  show "ex_refusing no_faults (ex_intent\<lparr>ev_EventID := ''e2'', ev_OccurredAt := 6\<rparr>) 0 = (None, 1)"
    by (simp add: ex_refusing_def)
qed

end
