(* ===== verification/Spec2Isabelle.thy ===== *)
theory Spec2Isabelle
  imports Store_Invariant Default_Org_Cache Memory_Store Token_Manager Api_Key_Auth Org_Access Platform_Schema Tenant_Scope
    Group_Config Outbox_DDL Mutation_Guard Schema_Check Suite App_Creds Oidc Notify_Schema Notifier Key_Expiry Audit_Relay
begin

text \<open>
  Verification of the identity module of the Terraform suite (package \<open>identity\<close> under \<open>src/identity\<close>).

  \<^bold>\<open>The program.\<close> A Go library that two applications share. It stores who exists (users, organizations, memberships with
  role templates, API keys, sessions' revocations, audit entries, identity-provider configurations) in PostgreSQL,
  mints and checks credentials, decides which organizations a request may reach, keeps the platform administrators
  of each application, and carries privileged changes to an audit trail. A request is authenticated (a token by
  \<open>auth/jwt.go\<close> and the denylist, or a key by \<open>auth/apikey.go\<close> and the key repository), its scopes
  are elevated by \<open>platformadmin\<close>, its organizations resolved by \<open>tenantscope\<close>, and every repository
  call takes the resulting scope. Reductions of authority remove the credentials derived from it in the same
  transaction. Privileged changes write an intent into an outbox that a relay delivers, and a constraint trigger the module renders
  for the migrations refuses to commit a change without one. Around that core: the login against an OpenID provider, the client through
  which every outbound request goes, sealed secrets, mail and notification channels, the job that warns of expiring keys, tokens minted for
  other services, the discovery of the sibling application, and the assertions an application runs when it starts.

  \<^bold>\<open>The theories and what they model.\<close>
  \<^item> \<open>Prelude\<close>: time, failures of the environment, package \<open>strings\<close>, lemmas on lists. \<open>Sql\<close>: the fragment of SQL the
    statements use, with three-valued logic. \<open>Base64\<close>: unpadded URL-safe encoding. \<open>Pg_Quote\<close>:
    \<open>internal/pgquote\<close>. \<open>Like\<close>: \<open>store/like.go\<close>.
  \<^item> \<open>Scopes\<close>: \<open>auth/scopes.go\<close>. \<open>Models\<close>: the row types of \<open>models\<close> and the resolution of group mappings; \<open>Group_Config\<close>: the
    group-mapping settings of \<open>models/oidc_config.go\<close>, with the decoding and encoding of JSON they rest on.
    \<open>Org_Scope\<close>: \<open>store/org_scope.go\<close>. \<open>Store_DB\<close>: the schema the migrations leave as the record \<open>db\<close>, its
    constraints as \<open>db_wf\<close>, the effect of deletes, and \<open>store/errors.go\<close>.
  \<^item> \<open>Org_Repo\<close>, \<open>Default_Org_Cache\<close>, \<open>Org_Access\<close>: \<open>store/organization_repository.go\<close> and \<open>store/membership.go\<close>.
    \<open>Reducer\<close>: \<open>store/authority_reduction.go\<close>. \<open>Role_Template_Repo\<close>, \<open>Template_Reconcile\<close>,
    \<open>Template_Write\<close>: the role templates and the sweep of keys before a template changes. \<open>Api_Key_Repo\<close>,
    \<open>User_Repo\<close>, \<open>Audit_Repo\<close> (with \<open>audit_sweep.go\<close>), \<open>Token_Repo\<close>, \<open>Notify_Dedup\<close>,
    \<open>Oidc_Config_Repo\<close>: the repositories of those names; \<open>Batch_Prune\<close>: the batched deletes and the prune
    throttle they share. \<open>Store_Invariant\<close>: all writes of package \<open>store\<close> together.
  \<^item> \<open>Oauth_State\<close>, \<open>Memory_Store\<close>: \<open>auth/oauthstate\<close>. \<open>Token_Manager\<close>: \<open>auth/jwt.go\<close>. \<open>Api_Key_Auth\<close>:
    \<open>auth/apikey.go\<close>.
  \<^item> \<open>Platform_Admin\<close>, \<open>Platform_Schema\<close>: \<open>platformadmin\<close>. \<open>Tenant_Scope\<close>: \<open>tenantscope\<close>.
  \<^item> \<open>Outbox_Table\<close>, \<open>Audit_Outbox\<close>, \<open>Audit_Relay\<close>: \<open>auditoutbox\<close> (table names, intents, outbox, sink, relay).
    \<open>Outbox_DDL\<close>: \<open>ddl.go\<close>, the rendered texts byte for byte, and the trigger as a program with its meaning at commit.
    \<open>Mutation_Guard\<close>: \<open>guard.go\<close>, the scan of Go syntax trees for mutations without an intent writer.
  \<^item> \<open>Net_IP\<close>, \<open>Http_Safe\<close>: \<open>httpsafe\<close>, with the parsing of addresses, networks and host and port of package \<open>net\<close>.
    \<open>Oidc\<close>: \<open>auth/oidc\<close>. \<open>Suite\<close>: \<open>suite\<close>. \<open>App_Creds\<close>: \<open>appcreds\<close>. \<open>Token_Cipher\<close>: \<open>crypto/tokencipher.go\<close>.
  \<^item> \<open>Mailer\<close>: \<open>mailer\<close>. \<open>Notify_Channels\<close>, \<open>Notify_Schema\<close>, \<open>Notify_Message\<close>, \<open>Notifier\<close>, \<open>Key_Expiry\<close>: \<open>notify\<close> (channels and their
    owners, the table and its startup assertions, messages and recipients, delivery, the expiry job with \<open>internal/safeloop\<close>).
  \<^item> \<open>Schema_Check\<close>: \<open>db.go\<close>, \<open>schema_version.go\<close>, \<open>schema_routing.go\<close>, with the columns each migration adds.
  \<^item> This theory: properties that span components.

  \<^bold>\<open>How code becomes definitions.\<close> A struct is a record, a table a list of rows, a method a definition of the same name
  (prefixed where two types share a method name) from the state to its result and the new state, an error a value. A
  driver call that may fail takes its outcome from \<open>io\<close>: \<open>io n\<close> says that the n-th call of the operation
  fails; a failed call has no effect, a failed commit is either rolled back or committed without acknowledgement
  (\<open>commit_outcome\<close>). Statements are evaluated on the rows under their documented SQL meaning; a statement that would break a
  constraint is refused. Clocks, fresh identifiers and random bytes are arguments. Callbacks and interfaces are
  function arguments, and their contracts locales: \<open>scoped_table\<close>-style column contracts in \<open>Org_Scope\<close>,
  \<open>batch_sweep\<close> and \<open>self_pruning\<close>, \<open>state_store\<close>, \<open>revocation_floor\<close>, \<open>tenancy_lookups\<close>,
  \<open>durable_sink\<close>, \<open>exclusive_claim\<close> (the deduplication claim and the stamp of an expiring key), each interpreted on the module's own definitions. Code of other modules is a parameter with its documented
  behaviour as a named hypothesis and an instance that meets it: \<open>jwt_library\<close>, \<open>bcrypt\<close>, \<open>sanitize_quotes\<close>, \<open>authenticated\<close>
  (AES-GCM), \<open>idp_documented\<close> (the OpenID client library). The answers of the network (name resolution, connections, a
  mail relay, token endpoints, the sibling's manifest), the record of the migration tool and the rows of the catalog are arguments, and the
  properties hold for all of them; what is sent is part of the result, so that a property can speak of it.
  Goroutines: where an interleaving matters it is modelled as a step relation or as explicit loads and stores
  (\<open>Default_Org_Cache\<close>, the prune slots, secret rotation, the login path, concurrent revocations); elsewhere an operation is one step.

  \<^bold>\<open>What is shown.\<close>
  \<^item> Keys never outlive authority: reductions and template writes keep every API key within its owner's authority
    under every failure; they are atomic, precise, resumable and terminating.
  \<^item> Tenancy: a scope's SQL and its in-memory check agree; every accessor of organizations, users, keys and audit
    entries stays within its scope; the scope of a user and of a request is within what they hold.
  \<^item> Credentials: a login state is used once; a token validates only under a configured secret and survives one rotation; a
    revocation lasts as long as the token; a minted key authenticates; an identity-provider login never takes over an account.
  \<^item> Platform administrators: no interleaving reaches a carrier without an administrator that exists; every change is recorded with it;
    elevation follows the carrier at once; keys are never elevated.
  \<^item> Audit: no event is lost or delivered twice, whatever fails; a healthy relay drains; the retention sweep respects legal holds.
  \<^item> Integrity: all constraints of the schema are an invariant of all writes.
  \<^item> The audit is enforced by the database: a transaction commits exactly if each guarded change has its intent in the same transaction,
    the rendered text is that program, and the scan reports exactly the functions that mutate a guarded table without a writer.
  \<^item> Outbound requests: no address on the deny-list is dialled, whatever a name resolves to; a redirect leaves credentials behind and does not downgrade;
    the endpoints a provider announces are checked before they are used.
  \<^item> Login: an identity is accepted only with the code verifier and the nonce of its own login and for this client.
  \<^item> Secrets and mail: a sealed value opens only under its context and survives a key rotation; in the encrypted modes neither credentials nor
    message are sent in the clear; a channel is visible to its owner only, an event reaches each subscribed channel once, and one mail at
    most is attempted per expiring key, and every due key gets one when nothing fails.
  \<^item> Cached tokens follow their credential, the sibling's state follows the polls, and the version gate accepts exactly the migrated databases.
  \<^item> Limits, each a theorem: intents the destination keeps refusing can block the queue (\<open>refused_batch_blocks_queue\<close>); settings of a
    document \<open>null\<close> panic (\<open>SetGroupMappingConfig_outcomes\<close>); an unparsable channel target appears in its error
    (\<open>unparsable_target_leaks\<close>); an action with two dollar signs ends the trigger's body (\<open>dollar_action_cuts_the_body\<close>); see also
    \<open>unlisted_ranges_pass\<close>, \<open>empty_context_is_unbound\<close>, \<open>failed_listing_uses_up_the_claim\<close>, \<open>claimed_key_not_scanned_again\<close>,
    \<open>NUL_in_field_collides\<close>, \<open>concatenation_in_body_is_missed\<close>.

  \<^bold>\<open>Bounds and recursion.\<close> All definitions are total. Loops recurse on their data; the template sweep recurses on fuel that is
  shown to suffice, the eviction loop of the memory store has a termination proof, and a relay cycle is bounded by the
  code's own limit of ten batches. Integers are unbounded except where the code's width shows: \<open>wrap64\<close> for 64-bit arithmetic that can
  overflow, a 64-bit word for the advisory lock key.

  \<^bold>\<open>Simplifications.\<close> Case folding and pattern matching are on ASCII bytes; ties of an \<open>ORDER BY\<close> are broken by table order;
  identifiers are compared as the text the server stores; transactions are sequential except in the interleavings above; logging and metrics are absent.

  \<^bold>\<open>Not modelled.\<close> \<open>store/sqlxdb.go\<close> (one constructor of a wrapper) and \<open>pgxparam\<close> (a converter for database mocks in
  tests). Within the modelled packages: log and metric texts, the String methods, constructors that only store their arguments, the options that
  replace a factory of \<open>appcreds\<close> in tests and the default factories that call the Azure library, the exchange of
  bytes below HTTP and SMTP, and what the migrations do beyond the columns and constraints the code relies on.
\<close>

section \<open>A minted key authenticates\<close>










section \<open>A privileged grant reaches the audit trail\<close>

text \<open>The audit intent writer an application passes to the carrier: \<open>Outbox.Writer\<close> on the carrier's transaction.\<close>

definition outbox_writer :: "io \<Rightarrow> string \<Rightarrow> time \<Rightarrow> Outbox option \<Rightarrow> nat option \<Rightarrow> Intent option \<Rightarrow> OutboxRow list AuditIntentWriter" where
  "outbox_writer io uuid now ob tx intent rows =
     (case Writer io uuid now ob tx intent of
        None \<Rightarrow> (Inl ErrAuditIntentRequired, rows)
      | Some write \<Rightarrow> (case write rows of (res, rows') \<Rightarrow> (map_sum (\<lambda>_. AppError ''audit outbox'') id res, rows')))"

lemma outbox_writer_Inr:
  assumes "outbox_writer io uuid now ob tx (Some i) rows = (Inr (), rows')"
  shows "rows' = snd (snd (Enqueue io uuid now ob tx (Some i) rows))"
    "\<exists>row. rows' = rows @ [row] \<and> ev_EventID row = ev_EventID (filled uuid now i) \<and> ev_Action row = ev_Action i \<and> undelivered row"
proof -
  obtain res i' rows1 where eq: "Enqueue io uuid now ob tx (Some i) rows = (res, i', rows1)" by (metis prod_cases3)
  with assms have e: "Enqueue io uuid now ob tx (Some i) rows = (Inr (), i', rows')"
    by (cases res) (simp_all add: outbox_writer_def Writer_def)
  then show "rows' = snd (snd (Enqueue io uuid now ob tx (Some i) rows))" by simp
  show "\<exists>row. rows' = rows @ [row] \<and> ev_EventID row = ev_EventID (filled uuid now i) \<and> ev_Action row = ev_Action i \<and> undelivered row"
    using e by (auto simp: Enqueue_def Let_def outbox_row_def filled_def undelivered_def split: if_splits option.splits sum.splits)
qed

text \<open>
  C16: no platform administrator without an audit record. If a grant with an outbox writer changed the carrier (its success
  reported or not), the intent describing it was committed with it, and whatever the relays, the destination and
  later mutations do afterwards, that event is waiting in the outbox or stands exactly once in the destination; a grant
  that changed nothing left no record either.
\<close>

theorem grant_reaches_audit_trail:
  assumes "outbox_consistent s" "rl_sink r = Some Deliver"
    and "Carrier_Grant io cm now c u by note (Some (outbox_writer io1 uuid now1 ob tx (Some i))) (gs, rt_rows s) = (res, gs', rows')"
    and "s' = fold (run_relay_op alter_destination r) ops (s\<lparr>rt_rows := rows'\<rparr>)"
  shows "(gs' = gs \<and> rows' = rt_rows s) \<or>
    (u \<in> gr_UserID ` set gs' \<and> (\<exists>row \<in> set rows'. ev_EventID row = ev_EventID (filled uuid now1 i) \<and> ev_Action row = ev_Action i)
      \<and> ((\<exists>row \<in> set (rt_rows s'). ev_EventID row = ev_EventID (filled uuid now1 i) \<and> undelivered row)
         \<or> copies (ev_EventID (filled uuid now1 i)) (rt_sink s') = 1))"
proof (cases "gs' = gs \<and> rows' = rt_rows s")
  case False
  then have w: "outbox_writer io1 uuid now1 ob tx (Some i) (rt_rows s) = (Inr (), rows')" "u \<in> gr_UserID ` set gs'"
    using Carrier_Grant_cases [OF assms(3)] by auto
  note ow = outbox_writer_Inr [OF w(1)]
  let ?s1 = "s\<lparr>rt_rows := rows'\<rparr>"
  have inv: "table_sink.relay_inv s" using assms(1) by (simp add: outbox_consistent_inv)
  have inv1: "table_sink.relay_inv ?s1"
    using table_sink.no_loss_enqueue [OF inv] ow(1) by (simp add: table_sink.no_loss_def)
  obtain row where row: "row \<in> set rows'" "ev_EventID row = ev_EventID (filled uuid now1 i)" "ev_Action row = ev_Action i"
    using ow(2) by (metis in_set_conv_decomp)
  have nl: "table_sink.no_loss ?s1 s'"
    using table_sink.run_relay_ops_no_loss [OF inv1 assms(2)] assms(4) by simp
  then have ok: "sink_ok (rt_sink s')" by (simp add: table_sink.no_loss_def table_sink.relay_inv_def)
  have "table_sink.accounted (ev_EventID row) s'"
    using nl table_sink.accountedI [OF inv1, of row] row(1) by (simp add: table_sink.no_loss_def)
  then show ?thesis using w(2) row copies_one [OF ok] by (auto simp: table_sink.accounted_def)
qed simp

theorem grant_reaches_audit_trail_witness:
  "\<exists>rows'. Carrier_Grant no_faults Committed 5 (Some ex_carrier) ''u2'' None None
       (Some (outbox_writer no_faults ''e9'' 5 (rl_outbox ex_relay) (Some 3) (Some ex_intent))) ([ex_grant ''u1''], [])
     = (Inr ((ex_grant ''u2'')\<lparr>gr_GrantedAt := 5\<rparr>), [ex_grant ''u1'', (ex_grant ''u2'')\<lparr>gr_GrantedAt := 5\<rparr>], rows')
   \<and> ''e1'' \<in> ev_EventID ` set rows'"
proof -
  let ?s = "ex_state\<lparr>rt_rows := []\<rparr>"
  have c: "outbox_consistent ?s" using ex_state_consistent by (simp add: outbox_consistent_def)
  have r: "rl_sink ex_relay = Some Deliver" by (simp add: ex_relay_def)
  have g: "Carrier_Grant no_faults Committed 5 (Some ex_carrier) ''u2'' None None
       (Some (outbox_writer no_faults ''e9'' 5 (rl_outbox ex_relay) (Some 3) (Some ex_intent))) ([ex_grant ''u1''], rt_rows ?s)
     = (Inr ((ex_grant ''u2'')\<lparr>gr_GrantedAt := 5\<rparr>), [ex_grant ''u1'', (ex_grant ''u2'')\<lparr>gr_GrantedAt := 5\<rparr>], [outbox_row 3 None ex_intent])"
    by (simp add: Carrier_Grant_def insert_grant_def ex_grant_def commit_tx_def outbox_writer_def Writer_def Enqueue_def ex_intent_def
        filled_def is_zero_def no_outbox_def ex_relay_def marshalMetadata_def Let_def)
  have "ev_EventID (filled ''e9'' 5 ex_intent) = ''e1''" by (simp add: filled_def ex_intent_def is_zero_def)
  with grant_reaches_audit_trail [OF c r g, of _ "[]"] g show ?thesis by force
qed

end
